(* ===== verification/Llfix_Prelude.thy ===== *)
theory Llfix_Prelude
  imports Main "HOL-Library.Word" "HOL-Library.Char_ord"
begin

text \<open>
  Shared vocabulary of the development: the machine-integer types the C++ code uses, the
  reading of \<open>char\<close> as a signed byte, bounds-checked buffer writes, decimal notation, and the
  collections of facts the component theories add to.

  \<^item> \<open>u8\<close>, \<open>u16\<close>, \<open>u32\<close>, \<open>u64\<close> are the unsigned types of \<open><cstdint>\<close>; \<open>i32\<close> is \<open>int\<close>, read with
    \<^term>\<open>sint\<close>.
  \<^item> a character buffer is a \<^typ>\<open>string\<close>; \<^emph>\<open>None\<close> of a write is a write outside it, which is
    undefined behaviour in the code.
  \<^item> \<open>dec\<close> is the reference decimal notation the conversion routines are compared with.
\<close>

unbundle bit_operations_syntax

type_synonym u8 = "8 word"
type_synonym u16 = "16 word"
type_synonym u32 = "32 word"
type_synonym u64 = "64 word"
type_synonym i32 = "32 word"

named_theorems frame_simps \<open>fields an operation leaves unchanged\<close>
named_theorems msg_simps \<open>laws of the incoming message's tag table\<close>
named_theorems dec_simps \<open>facts on decimal notation\<close>

abbreviation SOH :: char where "SOH \<equiv> CHR 0x01"

lemma list_all_upt_D: "list_all P [a..<b] \<Longrightarrow> a \<le> t \<Longrightarrow> t < b \<Longrightarrow> P t"
  by (simp add: list_all_iff)

subsection \<open>Signed bytes and buffer writes\<close>

definition schar :: "char \<Rightarrow> int" where
  "schar c = (if (of_char c :: int) < 128 then of_char c else of_char c - 256)"

definition put :: "'a list \<Rightarrow> int \<Rightarrow> 'a \<Rightarrow> 'a list option" where
  "put xs i v = (if 0 \<le> i \<and> nat i < length xs then Some (xs[nat i := v]) else None)"

lemma put_in_range [simp]: "i < length xs \<Longrightarrow> put xs (int i) v = Some (xs[i := v])"
  by (simp add: put_def)

lemma put_negative [simp]: "i < 0 \<Longrightarrow> put xs i v = None"
  by (simp add: put_def)

definition digit_char :: "nat \<Rightarrow> char" where
  "digit_char d = char_of (48 + d)"

definition is_digit :: "char \<Rightarrow> bool" where
  "is_digit c \<longleftrightarrow> 48 \<le> (of_char c :: nat) \<and> (of_char c :: nat) \<le> 57"

lemma of_char_digit [simp]: "d < 10 \<Longrightarrow> (of_char (digit_char d) :: nat) = 48 + d"
  by (simp add: digit_char_def of_char_of take_bit_eq_mod)

lemma is_digit_digit_char [simp]: "d < 10 \<Longrightarrow> is_digit (digit_char d)"
  by (simp add: is_digit_def)

lemma of_char_int_nat: "(of_char c :: int) = int (of_char c)"
  by (metis of_nat_of_char)

lemma schar_digit: "is_digit c \<Longrightarrow> schar c - 48 = int (of_char c - 48)"
  by (simp add: schar_def is_digit_def of_char_int_nat)

lemma of_char_nat_less [simp]: "(of_char c :: nat) < 256"
  by (metis of_char_mod_256 mod_less_divisor zero_less_numeral)

lemma is_digit_iff_schar: "is_digit c \<longleftrightarrow> 48 \<le> schar c \<and> schar c \<le> 57"
proof -
  define n where "n = (of_char c :: nat)"
  have i: "(of_char c :: int) = int n"
    by (simp only: n_def of_char_int_nat)
  have "n < 256"
    by (simp add: n_def)
  then show ?thesis
    unfolding is_digit_def schar_def i n_def [symmetric] by auto
qed

subsection \<open>Decimal notation\<close>

fun dec :: "nat \<Rightarrow> string" where
  "dec n = (if n < 10 then [digit_char n] else dec (n div 10) @ [digit_char (n mod 10)])"

declare dec.simps [simp del]

lemma dec_small: "n < 10 \<Longrightarrow> dec n = [digit_char n]"
  by (simp add: dec.simps)

lemma dec_big: "10 \<le> n \<Longrightarrow> dec n = dec (n div 10) @ [digit_char (n mod 10)]"
  by (subst dec.simps) simp

lemma dec_nonempty [simp]: "dec n \<noteq> []"
  by (subst dec.simps) simp

lemma dec_length_pos [simp]: "0 < length (dec n)"
  by simp

lemma dec_digits: "c \<in> set (dec n) \<Longrightarrow> is_digit c"
proof (induction n rule: dec.induct)
  case (1 n)
  then show ?case
    by (cases "n < 10") (auto simp: dec_small dec_big)
qed

lemma dec_length_le: "n < 10 ^ k \<Longrightarrow> 0 < k \<Longrightarrow> length (dec n) \<le> k"
proof (induction n arbitrary: k rule: dec.induct)
  case (1 n)
  show ?case
  proof (cases "n < 10")
    case True
    with "1.prems" show ?thesis by (simp add: dec_small)
  next
    case False
    with "1.prems" obtain j where k: "k = Suc j" "0 < j"
      by (metis gr0_implies_Suc less_numeral_extra(3) neq0_conv power_0 power_Suc mult.right_neutral)
    with "1.prems" have "n div 10 < 10 ^ j"
      by (simp add: div_less_iff_less_mult mult.commute)
    with False k "1.IH" show ?thesis
      by (simp add: dec_big)
  qed
qed

lemma dec_length_gt: "10 ^ k \<le> n \<Longrightarrow> k < length (dec n)"
proof (induction n arbitrary: k rule: dec.induct)
  case (1 n)
  show ?case
  proof (cases "n < 10")
    case True
    have "k = 0"
    proof (rule ccontr)
      assume "k \<noteq> 0"
      then have "(10::nat) ^ 1 \<le> 10 ^ k"
        by (intro power_increasing) auto
      with True "1.prems" show False by simp
    qed
    then show ?thesis by simp
  next
    case False
    show ?thesis
    proof (cases k)
      case 0
      then show ?thesis by simp
    next
      case (Suc j)
      with "1.prems" have "10 ^ j \<le> n div 10"
        by (simp add: less_eq_div_iff_mult_less_eq mult.commute)
      with False Suc "1.IH" show ?thesis
        by (simp add: dec_big)
    qed
  qed
qed

lemma dec_length_eq: "10 ^ k \<le> n \<Longrightarrow> n < 10 ^ Suc k \<Longrightarrow> length (dec n) = Suc k"
  using dec_length_le [of n "Suc k"] dec_length_gt [of k n] by simp

text \<open>The number a digit string denotes, read most significant digit first.\<close>

definition dval :: "string \<Rightarrow> nat" where
  "dval s = foldl (\<lambda>r c. r * 10 + (of_char c - 48)) 0 s"

lemma dval_Nil [simp]: "dval [] = 0"
  by (simp add: dval_def)

lemma dval_snoc [simp]: "dval (s @ [c]) = dval s * 10 + (of_char c - 48)"
  by (simp add: dval_def)

lemma dval_dec [simp]: "dval (dec n) = n"
proof (induction n rule: dec.induct)
  case (1 n)
  show ?case
  proof (cases "n < 10")
    case True
    then show ?thesis
      by (simp add: dec_small dval_def)
  next
    case False
    with "1.IH" show ?thesis
      by (simp add: dec_big)
  qed
qed

lemma dec_inject [simp]: "dec m = dec n \<longleftrightarrow> m = n"
  by (metis dval_dec)

end
