(* ===== verification/Converters.thy ===== *)
theory Converters
  imports Llfix_Prelude
begin

text \<open>
  \<open>core/utilities/converters.h\<close>: the integer conversions. A buffer is a \<^typ>\<open>string\<close>, the write
  pointer an \<^typ>\<open>int\<close> index into it, and \<^term>\<open>None\<close> stands for a write outside the buffer.
  The loops divide unsigned machine integers, which never wraps, so they run on the number the
  word denotes; the accumulation of the parsers does wrap and runs on words.
\<close>

subsection \<open>Number of digits\<close>

fun bit_width :: "nat \<Rightarrow> nat" where
  "bit_width n = (if n = 0 then 0 else Suc (bit_width (n div 2)))"

declare bit_width.simps [simp del]

definition clz :: "'a::len word \<Rightarrow> nat" where
  "clz w = LENGTH('a) - bit_width (unat w)"

definition POWERS_OF_TEN :: "u32 list" where
  "POWERS_OF_TEN = [0, 10, 100, 1000, 10000, 100000, 1000000, 10000000, 100000000, 1000000000]"

definition POWERS_OF_TEN_64 :: "u64 list" where
  "POWERS_OF_TEN_64 =
     [0, 10, 100, 1000, 10000, 100000, 1000000, 10000000, 100000000, 1000000000, 10000000000,
      100000000000, 1000000000000, 10000000000000, 100000000000000, 1000000000000000,
      10000000000000000, 100000000000000000, 1000000000000000000, 10000000000000000000]"

definition get_chars_length_of_uint32_t :: "u32 \<Rightarrow> nat" where
  "get_chars_length_of_uint32_t value =
     (let t = drop_bit 12 ((32 - clz (value OR 1)) * 1233)
      in t - (if value < POWERS_OF_TEN ! t then 1 else 0) + 1)"

definition get_chars_length_of_uint64_t :: "u64 \<Rightarrow> nat" where
  "get_chars_length_of_uint64_t value =
     (let t = drop_bit 12 ((64 - clz (value OR 1)) * 1233)
      in t - (if value < POWERS_OF_TEN_64 ! t then 1 else 0) + 1)"

subsection \<open>Writing and reading digits\<close>

text \<open>The \<open>do ... while\<close> loop that both writers share; it returns the buffer and the final
  value of the pointer \<open>target\<close>.\<close>

function write_digits :: "nat \<Rightarrow> int \<Rightarrow> string \<Rightarrow> (string \<times> int) option" where
  "write_digits number target buf =
     (case put buf target (digit_char (number - (number div 10) * 10)) of
        None \<Rightarrow> None
      | Some buf' \<Rightarrow>
          (let number' = number div 10
           in if number' \<noteq> 0 then write_digits number' (target - 1) buf'
              else Some (buf', target - 1)))"
  by pat_completeness auto
termination
  by (relation "measure (\<lambda>(n, _, _). n)") (auto simp: div_eq_0_iff)

declare write_digits.simps [simp del]

definition uint32_to_chars :: "u32 \<Rightarrow> string \<Rightarrow> (nat \<times> string) option" where
  "uint32_to_chars number buffer =
     (let len = get_chars_length_of_uint32_t number
      in case write_digits (unat number) (int len - 1) buffer of
           None \<Rightarrow> None
         | Some (buf, _) \<Rightarrow> Some (len, buf))"

definition uint64_to_chars :: "u64 \<Rightarrow> string \<Rightarrow> (nat \<times> string) option" where
  "uint64_to_chars number buffer =
     (let len = get_chars_length_of_uint64_t number
      in case write_digits (unat number) (int len - 1) buffer of
           None \<Rightarrow> None
         | Some (buf, _) \<Rightarrow> Some (len, buf))"

definition int_to_chars :: "i32 \<Rightarrow> string \<Rightarrow> (nat \<times> string) option" where
  "int_to_chars number buffer =
     (let negative = sint number < 0;
          abs_value = (if negative then 0 - number else number);
          len = get_chars_length_of_uint32_t abs_value + (if negative then 1 else 0)
      in case write_digits (unat abs_value) (int len - 1) buffer of
           None \<Rightarrow> None
         | Some (buf, target) \<Rightarrow>
             (if negative then
                (case put buf target (CHR ''-'') of None \<Rightarrow> None | Some buf' \<Rightarrow> Some (len, buf'))
              else Some (len, buf)))"

definition accumulate :: "string \<Rightarrow> 'a::len word" where
  "accumulate s = foldl (\<lambda>result c. result * 10 + word_of_int (schar c - 48)) 0 s"

definition chars_to_unsigned_int :: "string \<Rightarrow> 'a::len word" where
  "chars_to_unsigned_int buffer =
     (case buffer of
        [] \<Rightarrow> accumulate []
      | c # cs \<Rightarrow> if c = CHR ''+'' then accumulate cs else accumulate (c # cs))"

definition chars_to_int :: "string \<Rightarrow> i32" where
  "chars_to_int buffer =
     (case buffer of
        [] \<Rightarrow> accumulate []
      | c # cs \<Rightarrow>
          if c = CHR ''-'' then 0 - accumulate cs
          else if c = CHR ''+'' then accumulate cs
          else accumulate (c # cs))"

subsection \<open>Correctness\<close>

lemma bit_width_0 [simp]: "bit_width 0 = 0"
  by (simp add: bit_width.simps)

lemma bit_width_pos: "0 < n \<Longrightarrow> bit_width n = Suc (bit_width (n div 2))"
  by (simp add: bit_width.simps [of n])

lemma bit_width_bounds: "0 < n \<Longrightarrow> 2 ^ (bit_width n - 1) \<le> n \<and> n < 2 ^ bit_width n"
proof (induction n rule: bit_width.induct)
  case (1 n)
  show ?case
  proof (cases "n = 1")
    case True
    then show ?thesis by (simp add: bit_width_pos)
  next
    case False
    with "1.prems" have h: "0 < n div 2" by simp
    with "1" have IH: "2 ^ (bit_width (n div 2) - 1) \<le> n div 2" "n div 2 < 2 ^ bit_width (n div 2)"
      by auto
    obtain k where k: "bit_width (n div 2) = Suc k"
      using bit_width_pos [OF h] by blast
    show ?thesis
      using IH "1.prems" by (auto simp: bit_width_pos [of n] k)
  qed
qed

lemma bit_width_le: "n < 2 ^ k \<Longrightarrow> bit_width n \<le> k"
proof (cases "n = 0")
  case False
  assume "n < 2 ^ k"
  with False bit_width_bounds [of n] have "(2::nat) ^ (bit_width n - 1) < 2 ^ k"
    by (metis gr0I le_less_trans)
  then have "bit_width n - 1 < k"
    by (rule power_less_imp_less_exp [rotated]) simp
  then show ?thesis by simp
qed simp

lemma unat_or_1: "unat (w OR 1 :: 'a::len word) = unat w + (if even (unat w) then 1 else 0)"
proof -
  have "unat (w OR 1) = unat w OR Suc 0"
    by (simp add: unsigned_or_eq)
  then show ?thesis
    by (simp add: or_Suc_0_eq)
qed

lemma bit_width_or_1:
  "bit_width (unat (w OR 1 :: 'a::len word)) = (if w = 0 then 1 else bit_width (unat w))"
proof (cases "w = 0")
  case False
  then have "0 < unat w" by (simp add: unat_gt_0)
  moreover have "(unat w + 1) div 2 = unat w div 2" if "even (unat w)"
    using that by (elim evenE) simp
  ultimately show ?thesis
    using False by (auto simp: unat_or_1 bit_width_pos)
qed (simp add: bit_width_pos)



definition digits_ok :: "nat \<Rightarrow> bool" where
  "digits_ok b \<longleftrightarrow>
     (b * 1233 div 4096 = 0 \<or> 10 ^ (b * 1233 div 4096 - 1) \<le> (2::nat) ^ (b - 1)) \<and>
     (2::nat) ^ b \<le> 10 ^ (b * 1233 div 4096 + 1) \<and> b * 1233 div 4096 \<le> 19 \<and>
     (b \<le> 32 \<longrightarrow> b * 1233 div 4096 \<le> 9)"

lemma digits_estimate: "1 \<le> b \<Longrightarrow> b \<le> 64 \<Longrightarrow> digits_ok b"
proof -
  have *: "list_all digits_ok [2..<65]"
    by (simp add: digits_ok_def)
  have "digits_ok 1" by (simp add: digits_ok_def)
  then show "1 \<le> b \<Longrightarrow> b \<le> 64 \<Longrightarrow> digits_ok b"
    using list_all_upt_D [OF *, of b] by (cases "b = 1") simp_all
qed

lemma powers32: "t \<le> 9 \<Longrightarrow> unat (POWERS_OF_TEN ! t) = (if t = 0 then 0 else 10 ^ t)"
proof -
  have *: "list_all (\<lambda>t. unat (POWERS_OF_TEN ! t) = 10 ^ t) [2..<10]"
    by (simp add: POWERS_OF_TEN_def)
  have "unat (POWERS_OF_TEN ! 0) = 0" "unat (POWERS_OF_TEN ! 1) = 10"
    by (simp_all add: POWERS_OF_TEN_def)
  then show "t \<le> 9 \<Longrightarrow> ?thesis"
    using list_all_upt_D [OF *, of t] by (cases "t = 0"; cases "t = 1") simp_all
qed
lemma powers64: "t \<le> 19 \<Longrightarrow> unat (POWERS_OF_TEN_64 ! t) = (if t = 0 then 0 else 10 ^ t)"
proof -
  have *: "list_all (\<lambda>t. unat (POWERS_OF_TEN_64 ! t) = 10 ^ t) [2..<20]"
    by (simp add: POWERS_OF_TEN_64_def)
  have "unat (POWERS_OF_TEN_64 ! 0) = 0" "unat (POWERS_OF_TEN_64 ! 1) = 10"
    by (simp_all add: POWERS_OF_TEN_64_def)
  then show "t \<le> 19 \<Longrightarrow> ?thesis"
    using list_all_upt_D [OF *, of t] by (cases "t = 0"; cases "t = 1") simp_all
qed

lemma length_from_bits:
  assumes "digits_ok b" "b = (if n = 0 then 1 else bit_width n)"
    and "P = (if b * 1233 div 4096 = 0 then 0 else 10 ^ (b * 1233 div 4096))"
  shows "b * 1233 div 4096 - (if n < P then 1 else 0) + 1 = length (dec n)"
proof (cases "n = 0")
  case True
  with assms show ?thesis by (simp add: dec_small)
next
  case False
  define t where "t = b * 1233 div 4096"
  from False assms(2) have lo: "2 ^ (b - 1) \<le> n" and hi: "n < 2 ^ b"
    using bit_width_bounds [of n] by auto
  from assms(1) have t0: "t = 0 \<or> 10 ^ (t - 1) \<le> (2::nat) ^ (b - 1)" and up: "(2::nat) ^ b \<le> 10 ^ (t + 1)"
    by (auto simp: digits_ok_def t_def)
  from hi up have n_up: "n < 10 ^ Suc t" by simp
  show ?thesis
  proof (cases "n < P")
    case True
    with assms(3) have "t \<noteq> 0" and "n < 10 ^ t" by (auto simp: t_def split: if_splits)
    with t0 lo obtain k where k: "t = Suc k" and "10 ^ k \<le> n"
      by (cases t) auto
    with \<open>n < 10 ^ t\<close> have "length (dec n) = Suc k"
      by (intro dec_length_eq) auto
    with True k show ?thesis by (simp flip: t_def)
  next
    case ge: False
    have "10 ^ t \<le> n"
      using ge assms(3) \<open>n \<noteq> 0\<close> by (cases "t = 0") (auto simp: t_def)
    with n_up have "length (dec n) = Suc t" by (rule dec_length_eq [rotated])
    with ge show ?thesis by (simp flip: t_def)
  qed
qed

lemma chars_length32 [dec_simps]: "get_chars_length_of_uint32_t v = length (dec (unat v))"
proof -
  define b where "b = (if v = 0 then 1 else bit_width (unat v))"
  have bv: "b = (if unat v = 0 then 1 else bit_width (unat v))"
    by (simp add: b_def unat_eq_0)
  have le: "b \<le> 32"
    using bit_width_le [of "unat v" 32] unsigned_less [where 'a = nat, of v] by (simp add: b_def)
  have "1 \<le> b" using bit_width_pos [of "unat v"] by (auto simp: b_def unat_gt_0)
  with le have ok: "digits_ok b" by (simp add: digits_estimate)
  have d: "(32 - clz (v OR 1)) * 1233 = b * 1233"
    using le by (simp add: clz_def bit_width_or_1 b_def)
  have t: "b * 1233 div 4096 \<le> 9" using ok le by (simp add: digits_ok_def)
  show ?thesis
    unfolding get_chars_length_of_uint32_t_def d Let_def
    using length_from_bits [OF ok bv powers32 [OF t]]
    by (simp add: drop_bit_eq_div word_less_nat_alt)
qed

lemma chars_length64 [dec_simps]: "get_chars_length_of_uint64_t v = length (dec (unat v))"
proof -
  define b where "b = (if v = 0 then 1 else bit_width (unat v))"
  have bv: "b = (if unat v = 0 then 1 else bit_width (unat v))"
    by (simp add: b_def unat_eq_0)
  have le: "b \<le> 64"
    using bit_width_le [of "unat v" 64] unsigned_less [where 'a = nat, of v] by (simp add: b_def)
  have "1 \<le> b" using bit_width_pos [of "unat v"] by (auto simp: b_def unat_gt_0)
  with le have ok: "digits_ok b" by (simp add: digits_estimate)
  have d: "(64 - clz (v OR 1)) * 1233 = b * 1233"
    using le by (simp add: clz_def bit_width_or_1 b_def)
  have t: "b * 1233 div 4096 \<le> 19" using ok by (simp add: digits_ok_def)
  show ?thesis
    unfolding get_chars_length_of_uint64_t_def d Let_def
    using length_from_bits [OF ok bv powers64 [OF t]]
    by (simp add: drop_bit_eq_div word_less_nat_alt)
qed

lemma write_digits_correct:
  "off + length (dec n) \<le> length buf \<Longrightarrow>
     write_digits n (int (off + length (dec n)) - 1) buf
       = Some (take off buf @ dec n @ drop (off + length (dec n)) buf, int off - 1)"
proof (induction n arbitrary: buf rule: dec.induct)
  case (1 n)
  have m: "n - n div 10 * 10 = n mod 10"
    by (simp add: minus_div_mult_eq_mod)
  show ?case
  proof (cases "n < 10")
    case True
    with "1.prems" have "off < length buf" by (simp add: dec_small)
    with True show ?thesis
      by (simp add: write_digits.simps [of n] m dec_small upd_conv_take_nth_drop)
  next
    case False
    define k where "k = length (dec (n div 10))"
    from False have len: "length (dec n) = Suc k" by (simp add: dec_big k_def)
    with "1.prems" have in_buf: "off + k < length buf" by simp
    define buf' where "buf' = buf[off + k := digit_char (n mod 10)]"
    have "off + length (dec (n div 10)) \<le> length buf'"
      using in_buf by (simp add: buf'_def k_def)
    from "1.IH" [OF False this]
    have rec: "write_digits (n div 10) (int (off + k) - 1) buf'
        = Some (take off buf' @ dec (n div 10) @ drop (off + k) buf', int off - 1)"
      by (simp add: k_def)
    have "drop (off + k) buf' = digit_char (n mod 10) # drop (Suc (off + k)) buf"
      using in_buf by (simp add: buf'_def drop_update_swap Cons_nth_drop_Suc [symmetric])
    moreover have "take off buf' = take off buf" by (simp add: buf'_def)
    ultimately have "write_digits (n div 10) (int (off + k) - 1) buf'
        = Some (take off buf @ dec n @ drop (Suc (off + k)) buf, int off - 1)"
      using rec False by (simp add: dec_big [of n])
    moreover have "write_digits n (int (off + k)) buf = write_digits (n div 10) (int (off + k) - 1) buf'"
      using False in_buf
      by (subst write_digits.simps) (simp add: m buf'_def div_eq_0_iff Let_def del: of_nat_add)
    ultimately show ?thesis by (simp add: len)
  qed
qed

lemma dec_unat_length32: "length (dec (unat (v :: u32))) \<le> 10"
  using unsigned_less [where 'a = nat, of v] by (intro dec_length_le) auto

lemma dec_unat_length64: "length (dec (unat (v :: u64))) \<le> 20"
  using unsigned_less [where 'a = nat, of v] by (intro dec_length_le) auto

lemma uint32_to_chars_eq:
  assumes "length (dec (unat v)) \<le> length buf"
  shows "uint32_to_chars v buf
           = Some (length (dec (unat v)), dec (unat v) @ drop (length (dec (unat v))) buf)"
  using write_digits_correct [of 0 "unat v" buf] assms
  by (simp add: uint32_to_chars_def chars_length32 Let_def)

lemma uint64_to_chars_eq:
  assumes "length (dec (unat v)) \<le> length buf"
  shows "uint64_to_chars v buf
           = Some (length (dec (unat v)), dec (unat v) @ drop (length (dec (unat v))) buf)"
  using write_digits_correct [of 0 "unat v" buf] assms
  by (simp add: uint64_to_chars_def chars_length64 Let_def)

lemma accumulate_snoc: "accumulate (s @ [c]) = accumulate s * 10 + word_of_int (schar c - 48)"
  by (simp add: accumulate_def)

lemma accumulate_digits:
  "list_all is_digit s \<Longrightarrow> (accumulate s :: 'a::len word) = word_of_nat (dval s)"
proof (induction s rule: rev_induct)
  case Nil
  then show ?case by (simp add: accumulate_def)
next
  case (snoc c s)
  then have "word_of_int (schar c - 48) = (word_of_nat (of_char c - 48) :: 'a word)"
    by (simp add: schar_digit)
  with snoc show ?case by (simp add: accumulate_snoc)
qed

lemma chars_to_unsigned_int_digits:
  assumes "list_all is_digit s"
  shows "(chars_to_unsigned_int s :: 'a::len word) = word_of_nat (dval s)"
proof (cases s)
  case (Cons c cs)
  with assms have "c \<noteq> CHR ''+''" by (auto simp: is_digit_def)
  with Cons show ?thesis
    using accumulate_digits [OF assms] by (simp add: chars_to_unsigned_int_def)
qed (simp add: chars_to_unsigned_int_def accumulate_def)

lemma list_all_dec [simp]: "list_all is_digit (dec n)"
  by (auto simp: list_all_iff dec_digits)

lemma chars_to_unsigned_int_dec [dec_simps]:
  "(chars_to_unsigned_int (dec n) :: 'a::len word) = word_of_nat n"
  by (simp add: chars_to_unsigned_int_digits)

definition sdec :: "int \<Rightarrow> string" where
  "sdec i = (if i < 0 then CHR ''-'' # dec (nat (- i)) else dec (nat i))"

lemma unat_abs_value:
  "unat (if sint (n :: i32) < 0 then 0 - n else n) = nat \<bar>sint n\<bar>"
proof -
  have b: "- (2 ^ 31) \<le> sint n" "sint n < 2 ^ 31"
    using sint_greater_eq [of n] sint_less [of n] by simp_all
  have w: "n = word_of_int (sint n)" by simp
  show ?thesis
  proof (cases "sint n < 0")
    case True
    have "0 - n = word_of_int (- sint n)" by simp
    then have "uint (0 - n) = take_bit 32 (- sint n)"
      by (simp only: unsigned_of_int len_bit0 len_num1) simp
    also have "\<dots> = - sint n" using True b by (simp add: take_bit_int_eq_self)
    finally show ?thesis using True by (simp add: unat_eq_nat_uint)
  next
    case False
    have "uint n = take_bit 32 (sint n)" by (subst w) (simp only: unsigned_of_int len_bit0 len_num1, simp)
    also have "\<dots> = sint n" using False b by (simp add: take_bit_int_eq_self)
    finally show ?thesis using False by (simp add: unat_eq_nat_uint)
  qed
qed

lemma int_to_chars_eq:
  assumes "length (sdec (sint n)) \<le> length buf"
  shows "int_to_chars n buf
           = Some (length (sdec (sint n)), sdec (sint n) @ drop (length (sdec (sint n))) buf)"
proof -
  define a where "a = (if sint n < 0 then 0 - n else n)"
  have a: "unat a = nat \<bar>sint n\<bar>" unfolding a_def by (rule unat_abs_value)
  define d where "d = dec (nat \<bar>sint n\<bar>)"
  show ?thesis
  proof (cases "sint n < 0")
    case True
    then have s: "sdec (sint n) = CHR ''-'' # d" by (simp add: sdec_def d_def)
    with assms have "1 + length d \<le> length buf" by simp
    with write_digits_correct [of 1 "nat \<bar>sint n\<bar>" buf]
    have w: "write_digits (unat a) (int (length d)) buf
        = Some (take 1 buf @ d @ drop (Suc (length d)) buf, 0)"
      by (simp add: a d_def)
    from assms s obtain b bs where buf: "buf = b # bs" by (cases buf) auto
    from True a have u: "unat (- n) = nat (- sint n)" by (simp add: a_def)
    from True have d': "dec (nat (- sint n)) = d" by (simp add: d_def)
    show ?thesis
      using True w s buf by (simp add: int_to_chars_def chars_length32 u a d' Let_def put_def)
  next
    case False
    then have s: "sdec (sint n) = d" by (simp add: sdec_def d_def)
    with assms write_digits_correct [of 0 "nat \<bar>sint n\<bar>" buf]
    have w: "write_digits (unat a) (int (length d) - 1) buf
        = Some (d @ drop (length d) buf, -1)"
      by (simp add: a d_def)
    from False a have u: "unat n = nat (sint n)" by (simp add: a_def)
    from False have d': "dec (nat (sint n)) = d" by (simp add: d_def)
    show ?thesis
      using False w s by (simp add: int_to_chars_def chars_length32 u a d' Let_def)
  qed
qed

lemma chars_to_int_sdec: "chars_to_int (sdec i) = word_of_int i"
proof (cases "i < 0")
  case True
  then show ?thesis
    by (simp add: chars_to_int_def sdec_def accumulate_digits)
next
  case False
  obtain c cs where d: "dec (nat i) = c # cs" by (cases "dec (nat i)") auto
  then have "is_digit c" using dec_digits [of c "nat i"] by simp
  then have "c \<noteq> CHR ''-''" "c \<noteq> CHR ''+''" by (auto simp: is_digit_def)
  moreover have "accumulate (c # cs) = (word_of_int i :: i32)"
    using accumulate_digits [OF list_all_dec [of "nat i"]] False by (simp add: d flip: d)
  ultimately show ?thesis
    using False d by (simp add: chars_to_int_def sdec_def)
qed

lemma sdec_length: "length (sdec (sint (n :: i32))) \<le> 11"
proof -
  have "- (2 ^ 31) \<le> sint n" "sint n < 2 ^ 31"
    using sint_greater_eq [of n] sint_less [of n] by simp_all
  then have "nat \<bar>sint n\<bar> < 10 ^ 10" by simp
  then have "length (dec (nat \<bar>sint n\<bar>)) \<le> 10" by (rule dec_length_le) simp
  then show ?thesis by (auto simp: sdec_def abs_if)
qed

subsection \<open>Properties\<close>

text \<open>The branch-free digit counts (count of leading zeros times 1233/4096, corrected by one
  table lookup) are exactly the number of decimal digits, for every 32-bit and every 64-bit
  value.\<close>

theorem digit_counts_exact:
  "get_chars_length_of_uint32_t v = length (dec (unat v)) \<and>
   get_chars_length_of_uint64_t w = length (dec (unat w))"
  by (simp add: chars_length32 chars_length64)

text \<open>Writing an unsigned integer into a buffer of at least 10 (32-bit) or 20 (64-bit) bytes stays
  inside it, leaves the bytes behind the digits alone, and reading the digits back gives the
  integer.\<close>

theorem unsigned_int_roundtrip:
  assumes "10 \<le> length buf32" and "20 \<le> length buf64"
  shows "(\<exists>len buf'. uint32_to_chars v buf32 = Some (len, buf') \<and> len \<le> 10 \<and>
            drop len buf' = drop len buf32 \<and> chars_to_unsigned_int (take len buf') = v) \<and>
         (\<exists>len buf'. uint64_to_chars w buf64 = Some (len, buf') \<and> len \<le> 20 \<and>
            drop len buf' = drop len buf64 \<and> chars_to_unsigned_int (take len buf') = w)"
  using assms dec_unat_length32 [of v] dec_unat_length64 [of w]
  by (simp add: uint32_to_chars_eq uint64_to_chars_eq chars_to_unsigned_int_dec)

theorem unsigned_int_roundtrip_witness:
  "\<exists>len buf'. uint32_to_chars 4294967295 (replicate 10 SOH) = Some (len, buf') \<and> len \<le> 10 \<and>
     drop len buf' = drop len (replicate 10 SOH) \<and>
     chars_to_unsigned_int (take len buf') = (4294967295 :: u32)"
  using unsigned_int_roundtrip [of "replicate 10 SOH" "replicate 20 SOH" 4294967295] by simp

text \<open>Every signed 32-bit value, the most negative one included, is written inside an 11-byte
  buffer and read back unchanged.\<close>

theorem signed_int_roundtrip:
  assumes "11 \<le> length buf"
  shows "\<exists>len buf'. int_to_chars n buf = Some (len, buf') \<and> len \<le> 11 \<and>
           drop len buf' = drop len buf \<and> chars_to_int (take len buf') = n"
proof -
  have "length (sdec (sint n)) \<le> 11"
    by (rule sdec_length)
  then show ?thesis
    using assms by (simp add: int_to_chars_eq chars_to_int_sdec)
qed

theorem signed_int_roundtrip_witness:
  "\<exists>len buf'. int_to_chars (- 2147483648) (replicate 11 SOH) = Some (len, buf') \<and> len \<le> 11 \<and>
     drop len buf' = drop len (replicate 11 SOH) \<and> chars_to_int (take len buf') = - 2147483648"
  by (rule signed_int_roundtrip) simp

end
