(* ===== verification/Hash_Dictionary.thy ===== *)
theory Hash_Dictionary
  imports Llfix_Prelude
begin

text \<open>
  \<open>core/utilities/dictionary.h\<close>: the chained hash table behind the incoming message, for
  \<open>uint32_t\<close> keys and the default MurmurHash3 functor. A \<open>DictionaryNode*\<close> is an index into the
  node cache (\<^term>\<open>None\<close> is \<open>nullptr\<close>); \<open>nodes\<close> is the used prefix of the node cache, so its length
  is \<open>m_item_count\<close>, and the length of \<open>table\<close> is \<open>m_table_size\<close>, which is also the capacity of the
  node cache. A node constructed at or past that capacity is a write outside the allocation:
  the result \<^term>\<open>None\<close>. Allocation itself is taken to succeed.
\<close>

record 'v dnode =
  nkey :: u32
  nval :: 'v
  nnext :: "nat option"

record 'v dictionary =
  table :: "nat option list"
  nodes :: "'v dnode list"

definition murmur3_32 :: "u32 \<Rightarrow> u32" where
  "murmur3_32 h0 =
     (let h1 = h0 XOR drop_bit 16 h0;
          h2 = h1 * 0x85ebca6b;
          h3 = h2 XOR drop_bit 13 h2;
          h4 = h3 * 0xc2b2ae35
      in h4 XOR drop_bit 16 h4)"

definition modulo_table_size :: "nat \<Rightarrow> nat \<Rightarrow> nat" where
  "modulo_table_size sz input = input - (input div sz) * sz"

definition bucket_of :: "nat \<Rightarrow> u32 \<Rightarrow> nat" where
  "bucket_of sz k = modulo_table_size sz (unat (murmur3_32 k))"

text \<open>The chain walk shared by \<open>has_key\<close>, \<open>operator[]\<close>, \<open>get\<close> and \<open>set_existing_item\<close>; the fuel is
  the number of nodes.\<close>

fun find_node :: "nat \<Rightarrow> 'v dnode list \<Rightarrow> nat option \<Rightarrow> u32 \<Rightarrow> nat option" where
  "find_node fuel ns None k = None"
| "find_node 0 ns (Some i) k = None"
| "find_node (Suc fuel) ns (Some i) k =
     (if i < length ns then
        (if nkey (ns ! i) = k then Some i else find_node fuel ns (nnext (ns ! i)) k)
      else None)"

definition dict_find :: "'v dictionary \<Rightarrow> u32 \<Rightarrow> nat option" where
  "dict_find d k =
     find_node (length (nodes d)) (nodes d) (table d ! bucket_of (length (table d)) k) k"

definition has_key :: "'v dictionary \<Rightarrow> u32 \<Rightarrow> bool" where
  "has_key d k = (case dict_find d k of None \<Rightarrow> False | Some _ \<Rightarrow> True)"

text \<open>\<open>operator[]\<close> throws when the key is absent.\<close>

definition dict_get :: "'v dictionary \<Rightarrow> u32 \<Rightarrow> 'v option" where
  "dict_get d k = (case dict_find d k of None \<Rightarrow> None | Some i \<Rightarrow> Some (nval (nodes d ! i)))"

definition set_existing_item :: "u32 \<Rightarrow> 'v \<Rightarrow> 'v dictionary \<Rightarrow> 'v dictionary \<times> bool" where
  "set_existing_item k v d =
     (case dict_find d k of
        None \<Rightarrow> (d, False)
      | Some i \<Rightarrow> (d\<lparr>nodes := (nodes d)[i := (nodes d ! i)\<lparr>nval := v\<rparr>]\<rparr>, True))"

text \<open>Constructing a node at the end of the used prefix and pushing it on its bucket.\<close>

definition push_node :: "u32 \<Rightarrow> 'v \<Rightarrow> 'v dictionary \<Rightarrow> 'v dictionary option" where
  "push_node k v d =
     (let b = bucket_of (length (table d)) k
      in if length (nodes d) < length (table d) then
           Some (d\<lparr>nodes := nodes d @ [\<lparr>nkey = k, nval = v, nnext = table d ! b\<rparr>],
                   table := (table d)[b := Some (length (nodes d))]\<rparr>)
         else None)"

fun chain :: "nat \<Rightarrow> 'v dnode list \<Rightarrow> nat option \<Rightarrow> nat list" where
  "chain fuel ns None = []"
| "chain 0 ns (Some i) = []"
| "chain (Suc fuel) ns (Some i) =
     (if i < length ns then i # chain fuel ns (nnext (ns ! i)) else [])"

fun push_all :: "'v dnode list \<Rightarrow> 'v dictionary \<Rightarrow> 'v dictionary option" where
  "push_all [] d = Some d"
| "push_all (n # ns) d =
     (case push_node (nkey n) (nval n) d of None \<Rightarrow> None | Some d' \<Rightarrow> push_all ns d')"

definition grow :: "nat \<Rightarrow> 'v dictionary \<Rightarrow> 'v dictionary option" where
  "grow sz d =
     (let order = concat (map (chain (length (nodes d)) (nodes d)) (table d))
      in push_all (map (\<lambda>i. nodes d ! i) order) \<lparr>table = replicate sz None, nodes = []\<rparr>)"

definition empty_dictionary :: "'v dictionary" where
  "empty_dictionary = \<lparr>table = [], nodes = []\<rparr>"

definition dict_initialise :: "nat \<Rightarrow> 'v dictionary \<Rightarrow> 'v dictionary option" where
  "dict_initialise sz d = grow sz d"

definition dict_insert :: "u32 \<Rightarrow> 'v \<Rightarrow> 'v dictionary \<Rightarrow> 'v dictionary option" where
  "dict_insert k v d =
     (if length (nodes d) = length (table d) then
        (case grow (length (table d) * 2) d of None \<Rightarrow> None | Some d' \<Rightarrow> push_node k v d')
      else push_node k v d)"

subsection \<open>Well-formed tables\<close>

text \<open>\<open>path ns p is\<close>: following the \<open>next\<close> pointers from \<open>p\<close> visits the nodes \<open>is\<close> and ends.\<close>

fun path :: "'v dnode list \<Rightarrow> nat option \<Rightarrow> nat list \<Rightarrow> bool" where
  "path ns None is = (is = [])"
| "path ns (Some i) [] = False"
| "path ns (Some i) (j # js) = (i = j \<and> i < length ns \<and> path ns (nnext (ns ! i)) js)"

definition linked :: "'v dictionary \<Rightarrow> (nat \<Rightarrow> nat list) \<Rightarrow> bool" where
  "linked d B \<longleftrightarrow>
     (\<forall>b < length (table d).
        path (nodes d) (table d ! b) (B b) \<and> distinct (B b) \<and>
        set (B b) = {i. i < length (nodes d) \<and> bucket_of (length (table d)) (nkey (nodes d ! i)) = b})"

definition dict_wf :: "'v dictionary \<Rightarrow> bool" where
  "dict_wf d \<longleftrightarrow>
     0 < length (table d) \<and> length (nodes d) \<le> length (table d) \<and>
     distinct (map nkey (nodes d)) \<and> (\<exists>B. linked d B)"

text \<open>The table as a finite map.\<close>

definition dict_map :: "'v dictionary \<Rightarrow> u32 \<rightharpoonup> 'v" where
  "dict_map d = map_of (map (\<lambda>n. (nkey n, nval n)) (nodes d))"

lemma modulo_table_size_mod: "modulo_table_size sz input = input mod sz"
  by (simp add: modulo_table_size_def minus_div_mult_eq_mod)

lemma bucket_less: "0 < sz \<Longrightarrow> bucket_of sz k < sz"
  by (simp add: bucket_of_def modulo_table_size_mod)

lemma path_append: "path ns p is \<Longrightarrow> path (ns @ ms) p is"
  by (induction ns p "is" rule: path.induct) (auto simp: nth_append)

lemma path_find: "path ns p is \<Longrightarrow> length is \<le> fuel \<Longrightarrow>
    find_node fuel ns p k = List.find (\<lambda>i. nkey (ns ! i) = k) is"
proof (induction ns p "is" arbitrary: fuel rule: path.induct)
  case (3 ns i j js)
  then show ?case by (cases fuel) auto
qed auto

lemma path_chain: "path ns p is \<Longrightarrow> length is \<le> fuel \<Longrightarrow> chain fuel ns p = is"
proof (induction ns p "is" arbitrary: fuel rule: path.induct)
  case (3 ns i j js)
  then show ?case by (cases fuel) auto
qed auto

lemma path_nval: "path ns p is \<Longrightarrow> path (ns[i := (ns ! i)\<lparr>nval := v\<rparr>]) p is"
proof (induction ns p "is" rule: path.induct)
  case (3 ns j j' js)
  then show ?case by (cases "i = j") auto
qed auto

lemma linked_bucket:
  assumes "linked d B" "b < length (table d)"
  shows "path (nodes d) (table d ! b) (B b)" "length (B b) \<le> length (nodes d)"
    "set (B b) = {i. i < length (nodes d) \<and> bucket_of (length (table d)) (nkey (nodes d ! i)) = b}"
proof -
  show s: "set (B b) = {i. i < length (nodes d) \<and> bucket_of (length (table d)) (nkey (nodes d ! i)) = b}"
    and "path (nodes d) (table d ! b) (B b)"
    using assms by (simp_all add: linked_def)
  have "distinct (B b)" using assms by (simp add: linked_def)
  then have "length (B b) = card (set (B b))" by (simp add: distinct_card)
  also have "\<dots> \<le> card {..<length (nodes d)}" unfolding s by (rule card_mono) auto
  finally show "length (B b) \<le> length (nodes d)" by simp
qed

lemma same_key_same_node:
  assumes "distinct (map nkey (nodes d))" "i < length (nodes d)" "j < length (nodes d)"
    "nkey (nodes d ! i) = nkey (nodes d ! j)"
  shows "i = j"
  using assms by (metis length_map nth_eq_iff_index_eq nth_map)

lemma dict_find_iff:
  assumes wf: "dict_wf d"
  shows "dict_find d k = Some i \<longleftrightarrow> i < length (nodes d) \<and> nkey (nodes d ! i) = k"
proof -
  from wf obtain B where B: "linked d B" and pos: "0 < length (table d)"
    and dist: "distinct (map nkey (nodes d))"
    by (auto simp: dict_wf_def)
  define b where "b = bucket_of (length (table d)) k"
  have b: "b < length (table d)" using pos by (simp add: b_def bucket_less)
  note Bb = linked_bucket [OF B b]
  have find: "dict_find d k = List.find (\<lambda>i. nkey (nodes d ! i) = k) (B b)"
    unfolding dict_find_def b_def [symmetric] by (rule path_find [OF Bb(1,2)])
  show ?thesis
  proof
    assume "dict_find d k = Some i"
    then show "i < length (nodes d) \<and> nkey (nodes d ! i) = k"
      unfolding find find_Some_iff using Bb(3) by (auto dest: nth_mem)
  next
    assume i: "i < length (nodes d) \<and> nkey (nodes d ! i) = k"
    then have "List.find (\<lambda>i. nkey (nodes d ! i) = k) (B b) \<noteq> None"
      using Bb(3) by (auto simp: find_None_iff b_def)
    then obtain j where j: "List.find (\<lambda>i. nkey (nodes d ! i) = k) (B b) = Some j" by auto
    then have jk: "j \<in> set (B b)" "nkey (nodes d ! j) = k"
      by (auto simp: find_Some_iff)
    have jl: "j < length (nodes d)" using jk(1) unfolding Bb(3) by simp
    have "j = i"
      by (rule same_key_same_node [OF dist jl]) (use i jk(2) in simp_all)
    with j find show "dict_find d k = Some i" by simp
  qed
qed

lemma dict_map_Some_iff:
  assumes "distinct (map nkey (nodes d))"
  shows "dict_map d k = Some v \<longleftrightarrow>
    (\<exists>i < length (nodes d). nkey (nodes d ! i) = k \<and> nval (nodes d ! i) = v)"
proof -
  have "distinct (map fst (map (\<lambda>n. (nkey n, nval n)) (nodes d)))"
    using assms by (simp add: comp_def)
  then have "dict_map d k = Some v \<longleftrightarrow> (k, v) \<in> set (map (\<lambda>n. (nkey n, nval n)) (nodes d))"
    unfolding dict_map_def by (rule map_of_eq_Some_iff)
  also have "\<dots> \<longleftrightarrow> (\<exists>i < length (nodes d). nkey (nodes d ! i) = k \<and> nval (nodes d ! i) = v)"
    unfolding in_set_conv_nth by auto
  finally show ?thesis .
qed

lemma dict_get_map:
  assumes wf: "dict_wf d" shows "dict_get d k = dict_map d k"
proof (cases "dict_find d k")
  case None
  have "dict_map d k \<noteq> Some v" for v
    using wf None dict_find_iff [OF wf, of k] by (subst dict_map_Some_iff) (auto simp: dict_wf_def)
  then have "dict_map d k = None" by (cases "dict_map d k") auto
  with None show ?thesis by (simp add: dict_get_def)
next
  case (Some i)
  with wf have "dict_map d k = Some (nval (nodes d ! i))"
    by (subst dict_map_Some_iff) (auto simp: dict_wf_def dict_find_iff)
  with Some show ?thesis by (simp add: dict_get_def)
qed

lemma has_key_map: "dict_wf d \<Longrightarrow> has_key d k \<longleftrightarrow> dict_map d k \<noteq> None"
  by (simp add: has_key_def dict_get_def dict_get_map [symmetric] split: option.splits)

lemma nkey_update_nval [simp]:
  "i < length ns \<Longrightarrow> nkey (ns[i := (ns ! i)\<lparr>nval := v\<rparr>] ! j) = nkey (ns ! j)"
  by (cases "i = j") (simp_all add: nth_list_update)

lemma set_existing_item_nodes:
  assumes "dict_find d k = Some i" "dict_wf d"
  shows "set_existing_item k v d = (d\<lparr>nodes := (nodes d)[i := (nodes d ! i)\<lparr>nval := v\<rparr>]\<rparr>, True)"
    and "map nkey ((nodes d)[i := (nodes d ! i)\<lparr>nval := v\<rparr>]) = map nkey (nodes d)"
proof -
  show "set_existing_item k v d = (d\<lparr>nodes := (nodes d)[i := (nodes d ! i)\<lparr>nval := v\<rparr>]\<rparr>, True)"
    using assms(1) by (simp add: set_existing_item_def)
  have "i < length (nodes d)" using assms by (simp add: dict_find_iff)
  then show "map nkey ((nodes d)[i := (nodes d ! i)\<lparr>nval := v\<rparr>]) = map nkey (nodes d)"
    by (intro nth_equalityI) simp_all
qed

lemma set_existing_item_wf:
  assumes wf: "dict_wf d"
  shows "dict_wf (fst (set_existing_item k v d))"
proof (cases "dict_find d k")
  case (Some i)
  from wf obtain B where "linked d B" by (auto simp: dict_wf_def)
  then have "linked (fst (set_existing_item k v d)) B"
    using Some wf by (simp add: linked_def set_existing_item_nodes path_nval dict_find_iff)
  with wf Some show ?thesis
    by (auto simp: dict_wf_def set_existing_item_nodes)
qed (use wf in \<open>simp add: set_existing_item_def\<close>)

lemma set_existing_item_map:
  assumes wf: "dict_wf d" and key: "has_key d k"
  shows "dict_map (fst (set_existing_item k v d)) = (dict_map d)(k \<mapsto> v)"
proof -
  from key obtain i where i: "dict_find d k = Some i"
    by (auto simp: has_key_def split: option.splits)
  with wf have i': "i < length (nodes d)" "nkey (nodes d ! i) = k"
    by (auto simp: dict_find_iff)
  define d' where "d' = fst (set_existing_item k v d)"
  have dist: "distinct (map nkey (nodes d))" using wf by (simp add: dict_wf_def)
  have nd: "nodes d' = (nodes d)[i := (nodes d ! i)\<lparr>nval := v\<rparr>]"
    using i wf by (simp add: d'_def set_existing_item_nodes)
  have dist': "distinct (map nkey (nodes d'))"
    using dist i wf by (simp add: nd set_existing_item_nodes)
  have "dict_map d' k' = Some w \<longleftrightarrow> ((dict_map d)(k \<mapsto> v)) k' = Some w" for k' w
  proof (cases "k' = k")
    case True
    have only: "j = i" if "j < length (nodes d)" "nkey (nodes d ! j) = k" for j
      by (rule same_key_same_node [OF dist that(1) i'(1)]) (simp add: that i')
    have "dict_map d' k' = Some w \<longleftrightarrow> w = v"
      unfolding dict_map_Some_iff [OF dist'] True
    proof safe
      fix j assume j: "j < length (nodes d')" "k = nkey (nodes d' ! j)"
      then have "j = i" using i' by (intro only) (simp_all add: nd)
      then show "nval (nodes d' ! j) = v" using i' by (simp add: nd)
    qed (rule exI [of _ i], use i' in \<open>simp add: nd\<close>)
    then show ?thesis using True by auto
  next
    case False
    have "(j < length (nodes d') \<and> nkey (nodes d' ! j) = k' \<and> nval (nodes d' ! j) = w) =
          (j < length (nodes d) \<and> nkey (nodes d ! j) = k' \<and> nval (nodes d ! j) = w)" for j
      using i' False by (cases "j = i") (simp_all add: nd nth_list_update)
    then show ?thesis
      using False by (simp add: dict_map_Some_iff [OF dist'] dict_map_Some_iff [OF dist])
  qed
  then show ?thesis unfolding d'_def [symmetric]
    by (intro ext) (metis not_Some_eq)
qed

lemma push_node_linked:
  assumes B: "linked d B" and pos: "0 < length (table d)" and push: "push_node k v d = Some d'"
  shows "linked d' (B(bucket_of (length (table d)) k :=
            length (nodes d) # B (bucket_of (length (table d)) k)))"
proof -
  define b where "b = bucket_of (length (table d)) k"
  define new where "new = \<lparr>nkey = k, nval = v, nnext = table d ! b\<rparr>"
  have b: "b < length (table d)" using pos by (auto simp: b_def intro: bucket_less)
  from push have d': "nodes d' = nodes d @ [new]" "table d' = (table d)[b := Some (length (nodes d))]"
    by (auto simp: push_node_def b_def new_def Let_def split: if_splits)
  have p: "path (nodes d @ [new]) ((table d)[b := Some (length (nodes d))] ! c)
           ((B(b := length (nodes d) # B b)) c)" if "c < length (table d)" for c
  proof (cases "c = b")
    case True
    then show ?thesis
      using b path_append [OF linked_bucket(1) [OF B b]] by (simp add: new_def)
  next
    case False
    then show ?thesis
      using path_append [OF linked_bucket(1) [OF B that]] by simp
  qed
  have s: "set ((B(b := length (nodes d) # B b)) c)
      = {i. i < Suc (length (nodes d)) \<and> bucket_of (length (table d)) (nkey ((nodes d @ [new]) ! i)) = c}"
    if "c < length (table d)" for c
  proof -
    have "{i. i < Suc (length (nodes d)) \<and> bucket_of (length (table d)) (nkey ((nodes d @ [new]) ! i)) = c}
        = {i. i < length (nodes d) \<and> bucket_of (length (table d)) (nkey (nodes d ! i)) = c}
          \<union> (if c = b then {length (nodes d)} else {})"
      by (auto simp: new_def b_def nth_append less_Suc_eq)
    then show ?thesis using linked_bucket(3) [OF B that] by auto
  qed
  have "distinct ((B(b := length (nodes d) # B b)) c)" if "c < length (table d)" for c
  proof -
    have "distinct (B c)" "distinct (B b)" using B that b by (simp_all add: linked_def)
    moreover have "length (nodes d) \<notin> set (B b)" unfolding linked_bucket(3) [OF B b] by simp
    ultimately show ?thesis by simp
  qed
  with p s show ?thesis
    unfolding linked_def d' b_def [symmetric] by simp
qed

lemma push_node_wf:
  assumes wf: "dict_wf d" and room: "length (nodes d) < length (table d)"
    and fresh: "k \<notin> set (map nkey (nodes d))"
  obtains d' where "push_node k v d = Some d'" "dict_wf d'"
    "length (table d') = length (table d)"
    "map (\<lambda>n. (nkey n, nval n)) (nodes d') = map (\<lambda>n. (nkey n, nval n)) (nodes d) @ [(k, v)]"
proof -
  obtain d' where d': "push_node k v d = Some d'"
    using room by (auto simp: push_node_def Let_def)
  then have n: "nodes d' = nodes d @ [\<lparr>nkey = k, nval = v,
        nnext = table d ! bucket_of (length (table d)) k\<rparr>]" "length (table d') = length (table d)"
    by (auto simp: push_node_def Let_def split: if_splits)
  from wf obtain B where "linked d B" and "0 < length (table d)" by (auto simp: dict_wf_def)
  from push_node_linked [OF this d'] wf room fresh n have "dict_wf d'"
    by (auto simp: dict_wf_def)
  with d' n show ?thesis by (intro that [OF d']) simp_all
qed

lemma dict_map_snoc:
  assumes "map (\<lambda>n. (nkey n, nval n)) (nodes d') = map (\<lambda>n. (nkey n, nval n)) (nodes d) @ [(k, v)]"
    and "k \<notin> set (map nkey (nodes d))"
  shows "dict_map d' = (dict_map d)(k \<mapsto> v)"
proof
  fix k'
  have "dict_map d k = None"
    using assms(2) by (force simp: dict_map_def map_of_eq_None_iff)
  then show "dict_map d' k' = ((dict_map d)(k \<mapsto> v)) k'"
    unfolding dict_map_def assms(1) by (auto simp: map_add_def split: option.splits)
qed

subsection \<open>Growing and inserting\<close>

abbreviation entries :: "'v dnode list \<Rightarrow> (u32 \<times> 'v) list" where
  "entries ns \<equiv> map (\<lambda>n. (nkey n, nval n)) ns"

lemma keys_of_entries: "entries ns = entries ms \<Longrightarrow> map nkey ns = map nkey ms"
  by (drule arg_cong [of _ _ "map fst"]) (simp add: comp_def)

lemma push_all_wf:
  assumes "dict_wf d" "distinct (map nkey (nodes d @ ns))"
    "length (nodes d) + length ns \<le> length (table d)"
  shows "\<exists>d'. push_all ns d = Some d' \<and> dict_wf d' \<and> length (table d') = length (table d) \<and>
    entries (nodes d') = entries (nodes d @ ns)"
  using assms
proof (induction ns d rule: push_all.induct)
  case (2 n ns d)
  have "length (nodes d) < length (table d)" "nkey n \<notin> set (map nkey (nodes d))"
    using 2(3,4) by auto
  from push_node_wf [OF 2(2) this, of "nval n"] obtain d1 where d1:
    "push_node (nkey n) (nval n) d = Some d1" "dict_wf d1" "length (table d1) = length (table d)"
    "entries (nodes d1) = entries (nodes d) @ [(nkey n, nval n)]" by blast
  have k: "map nkey (nodes d1) = map nkey (nodes d @ [n])"
    by (rule keys_of_entries) (simp add: d1)
  have l: "length (nodes d1) = length (nodes d) + 1"
    using arg_cong [OF k, of length] by simp
  from k have "distinct (map nkey (nodes d1 @ ns))" using 2(3) by simp
  from 2(1) [OF d1(1,2) this] 2(4) d1 l show ?case by auto
qed simp

lemma push_all_overflow:
  "length (table d) < length (nodes d) + length ns \<Longrightarrow> length (nodes d) \<le> length (table d) \<Longrightarrow>
   push_all ns d = None"
proof (induction ns d rule: push_all.induct)
  case (2 n ns d)
  show ?case
  proof (cases "push_node (nkey n) (nval n) d")
    case (Some d')
    then have "length (nodes d') = Suc (length (nodes d))" "length (table d') = length (table d)"
      "length (nodes d) < length (table d)"
      by (auto simp: push_node_def Let_def split: if_splits)
    with 2 Some show ?thesis by simp
  qed simp
qed simp

lemma bucket_order:
  assumes wf: "dict_wf d"
  defines "order \<equiv> concat (map (chain (length (nodes d)) (nodes d)) (table d))"
  shows "distinct order" "set order = {..<length (nodes d)}"
proof -
  from wf obtain B where B: "linked d B" and pos: "0 < length (table d)" by (auto simp: dict_wf_def)
  have "map (chain (length (nodes d)) (nodes d)) (table d) = map B [0..<length (table d)]"
    by (intro nth_equalityI) (simp_all add: path_chain [OF linked_bucket(1,2) [OF B]])
  then have order: "order = concat (map B [0..<length (table d)])" by (simp add: order_def)
  have s: "set (B b) = {i. i < length (nodes d) \<and> bucket_of (length (table d)) (nkey (nodes d ! i)) = b}"
    if "b < length (table d)" for b using linked_bucket(3) [OF B that] .
  show "set order = {..<length (nodes d)}"
    using s bucket_less [OF pos] by (auto simp: order)
  have "distinct (concat (map B [0..<n]))" if "n \<le> length (table d)" for n
    using that
  proof (induction n)
    case (Suc n)
    then have "distinct (B n)" using B by (simp add: linked_def)
    moreover have "set (concat (map B [0..<n])) \<inter> set (B n) = {}"
      using Suc.prems s by auto
    ultimately show ?case using Suc by simp
  qed simp
  then show "distinct order" by (simp add: order)
qed

lemma dict_map_perm:
  assumes "distinct (map fst xs)" "set xs = set ys" "distinct (map fst ys)"
  shows "map_of xs = map_of ys"
  by (intro ext) (metis assms map_of_eq_Some_iff not_Some_eq)

lemma empty_table_wf: "0 < sz \<Longrightarrow> dict_wf \<lparr>table = replicate sz None, nodes = []\<rparr>"
  by (auto simp: dict_wf_def linked_def intro!: exI [of _ "\<lambda>_. []"])

lemma grow_wf:
  assumes wf: "dict_wf d" and room: "length (nodes d) \<le> sz" and pos: "0 < sz"
  obtains d' where "grow sz d = Some d'" "dict_wf d'" "length (table d') = sz"
    "length (nodes d') = length (nodes d)" "dict_map d' = dict_map d"
proof -
  define order where "order = concat (map (chain (length (nodes d)) (nodes d)) (table d))"
  note o = bucket_order [OF wf, folded order_def]
  define e where "e = \<lparr>table = replicate sz None, nodes = ([] :: 'a dnode list)\<rparr>"
  have dist: "distinct (map nkey (nodes d))" using wf by (simp add: dict_wf_def)
  have len: "length order = length (nodes d)"
    using distinct_card [OF o(1)] o(2) by simp
  have "inj_on (\<lambda>i. nkey (nodes d ! i)) (set order)"
    unfolding o(2) by (intro inj_onI same_key_same_node [OF dist]) auto
  then have dk: "distinct (map nkey (nodes e @ map ((!) (nodes d)) order))"
    using o(1) by (simp add: e_def distinct_map comp_def)
  have "length (nodes e) + length (map ((!) (nodes d)) order) \<le> length (table e)"
    using room len by (simp add: e_def)
  from push_all_wf [OF _ dk this] empty_table_wf [OF pos] obtain d' where d':
    "push_all (map ((!) (nodes d)) order) e = Some d'" "dict_wf d'" "length (table d') = length (table e)"
    "entries (nodes d') = entries (nodes e @ map ((!) (nodes d)) order)"
    by (auto simp: e_def)
  have "set (map ((!) (nodes d)) order) = set (nodes d)"
  proof -
    have "set (map ((!) (nodes d)) order) = (!) (nodes d) ` {..<length (nodes d)}"
      by (simp only: set_map o(2))
    also have "\<dots> = set (nodes d)" by (metis list.set_map map_nth set_upt atLeast0LessThan)
    finally show ?thesis .
  qed
  then have "set (entries (nodes d')) = set (entries (nodes d))"
    by (simp only: d'(4) e_def dictionary.simps append.simps set_map)
  moreover have "distinct (map fst (entries (nodes d')))" "distinct (map fst (entries (nodes d)))"
    using d'(2) dist by (simp_all add: dict_wf_def comp_def)
  ultimately have "dict_map d' = dict_map d"
    unfolding dict_map_def by (intro dict_map_perm)
  moreover have "length (nodes d') = length (nodes d)"
    using arg_cong [OF d'(4), of length] len by (simp add: e_def)
  ultimately show ?thesis using d' that [of d']
    by (simp add: grow_def order_def e_def Let_def)
qed

lemma grow_overflow:
  assumes wf: "dict_wf d" and full: "sz < length (nodes d)"
  shows "grow sz d = None"
proof -
  have "length (concat (map (chain (length (nodes d)) (nodes d)) (table d))) = length (nodes d)"
    using distinct_card [OF bucket_order(1) [OF wf]] bucket_order(2) [OF wf] by simp
  with full show ?thesis unfolding grow_def Let_def by (intro push_all_overflow) simp_all
qed

lemma dict_insert_fresh:
  assumes wf: "dict_wf d" and fresh: "\<not> has_key d k"
  obtains d' where "dict_insert k v d = Some d'" "dict_wf d'" "dict_map d' = (dict_map d)(k \<mapsto> v)"
    "length (nodes d') = Suc (length (nodes d))"
proof -
  have no: "k \<notin> set (map nkey (nodes e))" if "dict_wf e" "dict_map e = dict_map d" for e
  proof -
    have "dict_map e k = None" using fresh that(2) has_key_map [OF wf, of k] by simp
    then show ?thesis by (force simp: dict_map_def map_of_eq_None_iff)
  qed
  have push: "\<exists>d'. push_node k v e = Some d' \<and> dict_wf d' \<and> dict_map d' = (dict_map d)(k \<mapsto> v) \<and>
      length (nodes d') = Suc (length (nodes e))"
    if e: "dict_wf e" "dict_map e = dict_map d" "length (nodes e) < length (table e)" for e
  proof -
    obtain d' where d': "push_node k v e = Some d'" "dict_wf d'"
      "entries (nodes d') = entries (nodes e) @ [(k, v)]"
      by (rule push_node_wf [OF e(1,3) no [OF e(1,2)]])
    have "length (nodes d') = Suc (length (nodes e))"
      using arg_cong [OF d'(3), of length] by simp
    moreover have "dict_map d' = (dict_map d)(k \<mapsto> v)"
      unfolding e(2) [symmetric] by (rule dict_map_snoc [OF d'(3) no [OF e(1,2)]])
    ultimately show ?thesis using d'(1,2) by blast
  qed
  show ?thesis
  proof (cases "length (nodes d) = length (table d)")
    case True
    have "0 < length (table d)" using wf by (simp add: dict_wf_def)
    then obtain e where e: "grow (length (table d) * 2) d = Some e" "dict_wf e"
      "length (table e) = length (table d) * 2" "length (nodes e) = length (nodes d)"
      "dict_map e = dict_map d"
      using grow_wf [OF wf, of "length (table d) * 2"] True by auto
    with True push [of e] \<open>0 < length (table d)\<close> that show ?thesis
      by (auto simp: dict_insert_def)
  next
    case False
    then have "length (nodes d) < length (table d)" using wf by (simp add: dict_wf_def)
    with False push [OF wf refl] that show ?thesis by (auto simp: dict_insert_def)
  qed
qed

subsection \<open>The table as an interface\<close>

text \<open>\<open>has_key\<close> followed by \<open>set_existing_item\<close> or \<open>insert\<close>, the way \<open>set_tag\<close> uses the table.\<close>

definition dict_upsert :: "u32 \<Rightarrow> 'v \<Rightarrow> 'v dictionary \<Rightarrow> 'v dictionary option" where
  "dict_upsert k v d =
     (if has_key d k then Some (fst (set_existing_item k v d)) else dict_insert k v d)"

definition dict_map_values :: "('v \<Rightarrow> 'v) \<Rightarrow> 'v dictionary \<Rightarrow> 'v dictionary" where
  "dict_map_values f d = d\<lparr>nodes := map (\<lambda>n. n\<lparr>nval := f (nval n)\<rparr>) (nodes d)\<rparr>"

lemma dict_upsert_map:
  assumes wf: "dict_wf d"
  obtains d' where "dict_upsert k v d = Some d'" "dict_wf d'" "dict_map d' = (dict_map d)(k \<mapsto> v)"
proof (cases "has_key d k")
  case True
  with wf show ?thesis
    by (intro that [of "fst (set_existing_item k v d)"])
      (simp_all add: dict_upsert_def set_existing_item_wf set_existing_item_map)
next
  case False
  from dict_insert_fresh [OF wf this] obtain d' where
    "dict_insert k v d = Some d'" "dict_wf d'" "dict_map d' = (dict_map d)(k \<mapsto> v)" by blast
  with False show ?thesis by (intro that [of d']) (simp_all add: dict_upsert_def)
qed

lemma path_map_values: "path ns p is \<Longrightarrow> path (map (\<lambda>n. n\<lparr>nval := f (nval n)\<rparr>) ns) p is"
  by (induction ns p "is" rule: path.induct) auto

lemma dict_map_values_wf: "dict_wf d \<Longrightarrow> dict_wf (dict_map_values f d)"
  by (auto simp: dict_wf_def dict_map_values_def linked_def comp_def path_map_values
      intro!: path_map_values)

lemma map_of_entries_values:
  "map_of (map (\<lambda>n. (nkey n, f (nval n))) ns) k = map_option f (map_of (entries ns) k)"
  by (induction ns) auto

lemma dict_map_map_values: "dict_map (dict_map_values f d) k = map_option f (dict_map d k)"
  by (simp add: dict_map_def dict_map_values_def comp_def map_of_entries_values)

text \<open>What a client of a tag table relies on: a look-up, a total update and a map over the values.\<close>

locale tag_table =
  fixes invar :: "'t \<Rightarrow> bool"
    and look :: "'t \<Rightarrow> u32 \<Rightarrow> 'v option"
    and upsert :: "u32 \<Rightarrow> 'v \<Rightarrow> 't \<Rightarrow> 't option"
    and over_values :: "('v \<Rightarrow> 'v) \<Rightarrow> 't \<Rightarrow> 't"
  assumes upsert_total: "invar t \<Longrightarrow> \<exists>t'. upsert k v t = Some t' \<and> invar t' \<and>
      (\<forall>k'. look t' k' = (if k' = k then Some v else look t k'))"
    and over_values_invar: "invar t \<Longrightarrow> invar (over_values f t)"
    and look_over_values: "invar t \<Longrightarrow> look (over_values f t) k = map_option f (look t k)"
begin

lemma upsertE:
  assumes "invar t"
  obtains t' where "upsert k v t = Some t'" "invar t'" "look t' k = Some v"
    "\<And>k'. k' \<noteq> k \<Longrightarrow> look t' k' = look t k'"
  using upsert_total [OF assms, of k v] by auto

lemma upsert_other: "invar t \<Longrightarrow> upsert k v t = Some t' \<Longrightarrow> k' \<noteq> k \<Longrightarrow> look t' k' = look t k'"
  using upsert_total [of t k v] by auto

lemma upsert_same: "invar t \<Longrightarrow> upsert k v t = Some t' \<Longrightarrow> look t' k = Some v"
  using upsert_total [of t k v] by auto

lemma upsert_invar: "invar t \<Longrightarrow> upsert k v t = Some t' \<Longrightarrow> invar t'"
  using upsert_total [of t k v] by auto

end

interpretation dictionary: tag_table dict_wf dict_get dict_upsert dict_map_values
proof unfold_locales
  fix d :: "'v dictionary" and k v
  assume "dict_wf d"
  then obtain d' where "dict_upsert k v d = Some d'" "dict_wf d'" "dict_map d' = (dict_map d)(k \<mapsto> v)"
    by (rule dict_upsert_map)
  with \<open>dict_wf d\<close> show "\<exists>d'. dict_upsert k v d = Some d' \<and> dict_wf d' \<and>
      (\<forall>k'. dict_get d' k' = (if k' = k then Some v else dict_get d k'))"
    by (auto simp: dict_get_map)
qed (simp_all add: dict_map_values_wf dict_get_map dict_map_map_values)

subsection \<open>Properties\<close>

text \<open>C38: on a well-formed table, inserting a key that is absent, or replacing one that is present,
  always succeeds (growing when the node cache is full), keeps the table well formed, and afterwards
  \<open>operator[]\<close> returns the new value at that key and the old value at every other.\<close>

theorem dictionary_update_lookup:
  assumes "dict_wf d"
  shows "\<exists>d'. dict_upsert k v d = Some d' \<and> dict_wf d' \<and>
    (\<forall>k'. dict_get d' k' = (if k' = k then Some v else dict_get d k'))"
  by (rule dictionary.upsert_total [OF assms])

theorem dictionary_update_lookup_witness:
  "\<exists>d'. dict_upsert 35 ''D'' \<lparr>table = replicate 64 None, nodes = []\<rparr> = Some d' \<and> dict_wf d' \<and>
    (\<forall>k'. dict_get d' k' = (if k' = 35 then Some ''D''
       else dict_get \<lparr>table = replicate 64 None, nodes = []\<rparr> k'))"
  by (rule dictionary_update_lookup) (simp add: empty_table_wf)

text \<open>\<open>initialise\<close> on a table in use rehashes its entries into a fresh node cache of the requested
  size: it keeps every entry when they fit, and writes past the allocation exactly when there are
  more entries than the requested size.\<close>

theorem reinitialise_overflow:
  assumes "dict_wf d" "0 < sz"
  shows "(dict_initialise sz d = None \<longleftrightarrow> sz < length (nodes d)) \<and>
    (\<forall>d'. dict_initialise sz d = Some d' \<longrightarrow> dict_wf d' \<and> (\<forall>k. dict_get d' k = dict_get d k))"
proof (cases "sz < length (nodes d)")
  case True
  with assms show ?thesis by (simp add: dict_initialise_def grow_overflow)
next
  case False
  with grow_wf [OF assms(1) _ assms(2)] obtain d' where "grow sz d = Some d'" "dict_wf d'"
    "dict_map d' = dict_map d" by (metis not_less)
  with False assms(1) show ?thesis by (auto simp: dict_initialise_def dict_get_map)
qed

theorem reinitialise_overflow_witness:
  "\<exists>d :: u32 dictionary. dict_wf d \<and> dict_get d 34 = Some 7 \<and> dict_get d 35 = Some 8 \<and>
     dict_initialise 1 d = None"
proof -
  let ?e = "\<lparr>table = replicate 4 None, nodes = []\<rparr> :: u32 dictionary"
  have e: "dict_wf ?e" by (simp add: empty_table_wf)
  obtain d1 where d1: "dict_wf d1" "dict_map d1 = (dict_map ?e)(34 \<mapsto> 7)"
    by (rule dict_upsert_map [OF e])
  obtain d where d: "dict_wf d" "dict_map d = (dict_map d1)(35 \<mapsto> 8)"
    by (rule dict_upsert_map [OF d1(1)])
  have "{34, 35} \<subseteq> nkey ` set (nodes d)"
    using d d1 dom_map_of_conv_image_fst [of "entries (nodes d)"]
    by (force simp: dict_map_def dom_def image_image)
  then have "card {34, 35 :: u32} \<le> card (nkey ` set (nodes d))" by (rule card_mono [rotated]) simp
  also have "\<dots> \<le> card (set (nodes d))" by (rule card_image_le) simp
  also have "\<dots> \<le> length (nodes d)" by (rule card_length)
  finally have "1 < length (nodes d)" by simp
  moreover have "dict_initialise 1 d = None \<longleftrightarrow> 1 < length (nodes d)"
    using reinitialise_overflow [OF d(1), of 1] by simp
  ultimately show ?thesis using d d1 by (auto simp: dict_get_map)
qed

end
