(* ===== verification/Fix_Utilities.thy ===== *)
theory Fix_Utilities
  imports Converters
begin

text \<open>
  \<open>fix_constants.h\<close>, \<open>fix_parser_error_codes.h\<close> and the static functions of \<open>fix_utilities.h\<close>:
  reject texts, message-type packing, the scans for the message boundaries, the checksum in its
  scalar form and in its AVX2 form (sixteen 16-bit lanes), and the extraction of a sequence number
  from a stored message. A buffer with its length is a string; a position that is found is \<open>Some\<close>.
\<close>

subsection \<open>Constants\<close>

definition TAG_BEGIN_STRING :: u32 where "TAG_BEGIN_STRING = 8"
definition TAG_BODY_LENGTH :: u32 where "TAG_BODY_LENGTH = 9"
definition TAG_MSG_SEQ_NUM :: u32 where "TAG_MSG_SEQ_NUM = 34"
definition TAG_MSG_TYPE :: u32 where "TAG_MSG_TYPE = 35"
definition TAG_SENDER_COMP_ID :: u32 where "TAG_SENDER_COMP_ID = 49"
definition TAG_TARGET_COMP_ID :: u32 where "TAG_TARGET_COMP_ID = 56"
definition TAG_SENDING_TIME :: u32 where "TAG_SENDING_TIME = 52"
definition TAG_CHECKSUM :: u32 where "TAG_CHECKSUM = 10"
definition TAG_ENCRYPT_METHOD :: u32 where "TAG_ENCRYPT_METHOD = 98"
definition TAG_HEART_BT_INT :: u32 where "TAG_HEART_BT_INT = 108"
definition TAG_DEFAULT_APPL_VER_ID :: u32 where "TAG_DEFAULT_APPL_VER_ID = 1137"
definition TAG_USERNAME :: u32 where "TAG_USERNAME = 553"
definition TAG_PASSWORD :: u32 where "TAG_PASSWORD = 554"
definition TAG_NEW_PASSWORD :: u32 where "TAG_NEW_PASSWORD = 925"
definition TAG_RESET_SEQ_NUM_FLAG :: u32 where "TAG_RESET_SEQ_NUM_FLAG = 141"
definition TAG_NEXT_EXPECTED_SEQ_NUM :: u32 where "TAG_NEXT_EXPECTED_SEQ_NUM = 789"
definition TAG_TEST_REQ_ID :: u32 where "TAG_TEST_REQ_ID = 112"
definition TAG_BEGIN_SEQ_NO :: u32 where "TAG_BEGIN_SEQ_NO = 7"
definition TAG_END_SEQ_NO :: u32 where "TAG_END_SEQ_NO = 16"
definition TAG_NEW_SEQ_NO :: u32 where "TAG_NEW_SEQ_NO = 36"
definition TAG_ORIG_SENDING_TIME :: u32 where "TAG_ORIG_SENDING_TIME = 122"
definition TAG_GAP_FILL_FLAG :: u32 where "TAG_GAP_FILL_FLAG = 123"
definition TAG_POSS_DUP_FLAG :: u32 where "TAG_POSS_DUP_FLAG = 43"
definition TAG_POSS_RESEND :: u32 where "TAG_POSS_RESEND = 97"
definition TAG_TEXT :: u32 where "TAG_TEXT = 58"
definition TAG_REF_SEQ_NUM :: u32 where "TAG_REF_SEQ_NUM = 45"
definition TAG_REF_TAG :: u32 where "TAG_REF_TAG = 371"
definition TAG_REF_MSG_TYPE :: u32 where "TAG_REF_MSG_TYPE = 372"
definition TAG_SESSION_REJECT_REASON :: u32 where "TAG_SESSION_REJECT_REASON = 373"

lemmas tag_defs = TAG_BEGIN_STRING_def TAG_BODY_LENGTH_def TAG_MSG_SEQ_NUM_def TAG_MSG_TYPE_def
  TAG_SENDER_COMP_ID_def TAG_TARGET_COMP_ID_def TAG_SENDING_TIME_def TAG_CHECKSUM_def
  TAG_ENCRYPT_METHOD_def TAG_HEART_BT_INT_def TAG_DEFAULT_APPL_VER_ID_def TAG_USERNAME_def
  TAG_PASSWORD_def TAG_NEW_PASSWORD_def TAG_RESET_SEQ_NUM_FLAG_def TAG_NEXT_EXPECTED_SEQ_NUM_def
  TAG_TEST_REQ_ID_def TAG_BEGIN_SEQ_NO_def TAG_END_SEQ_NO_def TAG_NEW_SEQ_NO_def
  TAG_ORIG_SENDING_TIME_def TAG_GAP_FILL_FLAG_def TAG_POSS_DUP_FLAG_def TAG_POSS_RESEND_def
  TAG_TEXT_def TAG_REF_SEQ_NUM_def TAG_REF_TAG_def TAG_REF_MSG_TYPE_def
  TAG_SESSION_REJECT_REASON_def

definition FIX_ERROR_CODE_INVALID_TAG_NUMBER :: u32 where "FIX_ERROR_CODE_INVALID_TAG_NUMBER = 0"
definition FIX_ERROR_CODE_REQUIRED_TAG_MISSING :: u32 where "FIX_ERROR_CODE_REQUIRED_TAG_MISSING = 1"
definition FIX_ERROR_CODE_TAG_WITHOUT_VALUE :: u32 where "FIX_ERROR_CODE_TAG_WITHOUT_VALUE = 4"
definition FIX_ERROR_CODE_VALUE_INCORRECT_FOR_TAG :: u32 where
  "FIX_ERROR_CODE_VALUE_INCORRECT_FOR_TAG = 5"
definition FIX_ERROR_CODE_FORMAT_INCORRECT_FOR_TAG :: u32 where
  "FIX_ERROR_CODE_FORMAT_INCORRECT_FOR_TAG = 6"
definition FIX_ERROR_CODE_COMPID_PROBLEM :: u32 where "FIX_ERROR_CODE_COMPID_PROBLEM = 9"
definition FIX_ERROR_CODE_SENDING_TIME_ACCURACY_PROBLEM :: u32 where
  "FIX_ERROR_CODE_SENDING_TIME_ACCURACY_PROBLEM = 10"
definition FIX_ERROR_CODE_INVALID_MSG_TYPE :: u32 where "FIX_ERROR_CODE_INVALID_MSG_TYPE = 11"
definition FIX_ERROR_CODE_TAG_APPEARS_MORE_THAN_ONCE :: u32 where
  "FIX_ERROR_CODE_TAG_APPEARS_MORE_THAN_ONCE = 13"
definition FIX_ERROR_CODE_TAG_OUT_OF_ORDER :: u32 where "FIX_ERROR_CODE_TAG_OUT_OF_ORDER = 14"
definition FIX_MAX_ERROR_CODE :: u32 where "FIX_MAX_ERROR_CODE = 99"

definition WRONG_BODY_LENGTH :: u32 where "WRONG_BODY_LENGTH = 100"
definition NO_TAG_35 :: u32 where "NO_TAG_35 = 101"
definition NO_TAG_9 :: u32 where "NO_TAG_9 = 102"
definition INVALID_TAG_9 :: u32 where "INVALID_TAG_9 = 103"
definition NO_EQUALS_SIGN :: u32 where "NO_EQUALS_SIGN = 104"
definition OUT_OF_ORDER_HEADER_FIELDS :: u32 where "OUT_OF_ORDER_HEADER_FIELDS = 105"

lemmas error_code_defs = FIX_ERROR_CODE_INVALID_TAG_NUMBER_def
  FIX_ERROR_CODE_REQUIRED_TAG_MISSING_def FIX_ERROR_CODE_TAG_WITHOUT_VALUE_def
  FIX_ERROR_CODE_VALUE_INCORRECT_FOR_TAG_def FIX_ERROR_CODE_FORMAT_INCORRECT_FOR_TAG_def
  FIX_ERROR_CODE_COMPID_PROBLEM_def FIX_ERROR_CODE_SENDING_TIME_ACCURACY_PROBLEM_def
  FIX_ERROR_CODE_INVALID_MSG_TYPE_def FIX_ERROR_CODE_TAG_APPEARS_MORE_THAN_ONCE_def
  FIX_ERROR_CODE_TAG_OUT_OF_ORDER_def FIX_MAX_ERROR_CODE_def WRONG_BODY_LENGTH_def NO_TAG_35_def
  NO_TAG_9_def INVALID_TAG_9_def NO_EQUALS_SIGN_def OUT_OF_ORDER_HEADER_FIELDS_def

definition MSG_TYPE_LOGON :: char where "MSG_TYPE_LOGON = CHR ''A''"
definition MSG_TYPE_LOGOUT :: char where "MSG_TYPE_LOGOUT = CHR ''5''"
definition MSG_TYPE_HEARTBEAT :: char where "MSG_TYPE_HEARTBEAT = CHR ''0''"
definition MSG_TYPE_TEST_REQUEST :: char where "MSG_TYPE_TEST_REQUEST = CHR ''1''"
definition MSG_TYPE_RESEND_REQUEST :: char where "MSG_TYPE_RESEND_REQUEST = CHR ''2''"
definition MSG_TYPE_SEQUENCE_RESET :: char where "MSG_TYPE_SEQUENCE_RESET = CHR ''4''"
definition MSG_TYPE_REJECT :: char where "MSG_TYPE_REJECT = CHR ''3''"
definition MSG_TYPE_NEW_ORDER :: char where "MSG_TYPE_NEW_ORDER = CHR ''D''"
definition MSG_TYPE_ORDER_CANCEL :: char where "MSG_TYPE_ORDER_CANCEL = CHR ''F''"
definition MSG_TYPE_ORDER_CANCEL_REPLACE :: char where "MSG_TYPE_ORDER_CANCEL_REPLACE = CHR ''G''"
definition MSG_TYPE_EXECUTION_REPORT :: char where "MSG_TYPE_EXECUTION_REPORT = CHR ''8''"
definition MSG_TYPE_ORDER_CANCEL_REJECT :: char where "MSG_TYPE_ORDER_CANCEL_REJECT = CHR ''9''"
definition MSG_TYPE_BUSINESS_REJECT :: char where "MSG_TYPE_BUSINESS_REJECT = CHR ''j''"

lemmas msg_type_defs = MSG_TYPE_LOGON_def MSG_TYPE_LOGOUT_def MSG_TYPE_HEARTBEAT_def
  MSG_TYPE_TEST_REQUEST_def MSG_TYPE_RESEND_REQUEST_def MSG_TYPE_SEQUENCE_RESET_def
  MSG_TYPE_REJECT_def MSG_TYPE_NEW_ORDER_def MSG_TYPE_ORDER_CANCEL_def
  MSG_TYPE_ORDER_CANCEL_REPLACE_def MSG_TYPE_EXECUTION_REPORT_def
  MSG_TYPE_ORDER_CANCEL_REJECT_def MSG_TYPE_BUSINESS_REJECT_def

subsection \<open>Texts\<close>

definition get_reject_reason_text :: "u32 \<Rightarrow> string" where
  "get_reject_reason_text code =
     (if code = 0 then ''Invalid tag number''
      else if code = 1 then ''Required tag missing''
      else if code = 2 then ''Tag not defined for this message type''
      else if code = 3 then ''Undefined Tag''
      else if code = 4 then ''Tag specified without a value''
      else if code = 5 then ''Value is incorrect (out of range) for this tag''
      else if code = 6 then ''Incorrect data format for value''
      else if code = 7 then ''Decryption problem''
      else if code = 8 then ''Signature <89> problem''
      else if code = 9 then ''CompID problem''
      else if code = 10 then ''SendingTime <52> accuracy problem''
      else if code = 11 then ''Invalid MsgType <35>''
      else if code = 12 then ''XML Validation error''
      else if code = 13 then ''Tag appears more than once''
      else if code = 14 then ''Tag specified out of required order''
      else if code = 15 then ''Repeating group fields out of order''
      else if code = 16 then ''Incorrect NumInGroup count for repeating group''
      else if code = 17 then
        ''Non '' @ [CHR 0x22] @ ''Data'' @ [CHR 0x22] @
        '' value includes field delimiter (<SOH> character)''
      else ''Other'')"

definition get_internal_parser_error_description :: "u32 \<Rightarrow> string" where
  "get_internal_parser_error_description code =
     (if code = WRONG_BODY_LENGTH then ''received a message with wrong body length''
      else if code = NO_TAG_35 then ''received a message with no tag35 (msgtype)''
      else if code = NO_TAG_9 then ''received a message with no tag9 (body length)''
      else if code = INVALID_TAG_9 then ''received a message with invalid tag9 (body length)''
      else if code = NO_EQUALS_SIGN then
        ''received a message with invalid tag-value (no equals sign)''
      else if code = OUT_OF_ORDER_HEADER_FIELDS then
        ''received a message with header fields out of order''
      else '''')"

definition fix_to_human_readible :: "string \<Rightarrow> string" where
  "fix_to_human_readible buffer = map (\<lambda>c. if c = SOH then CHR ''|'' else c) buffer"

definition is_a_non_retransmittable_admin_message_type :: "string \<Rightarrow> bool" where
  "is_a_non_retransmittable_admin_message_type str =
     (if length str \<noteq> 1 then False
      else let c = str ! 0
           in c = MSG_TYPE_HEARTBEAT \<or> c = MSG_TYPE_TEST_REQUEST \<or> c = MSG_TYPE_RESEND_REQUEST \<or>
              c = MSG_TYPE_SEQUENCE_RESET \<or> c = MSG_TYPE_LOGON \<or> c = MSG_TYPE_LOGOUT)"

subsection \<open>Finding the message boundaries\<close>

definition find_delimiter_from_end :: "string \<Rightarrow> nat option" where
  "find_delimiter_from_end buffer =
     List.find (\<lambda>i. buffer ! i = SOH) (rev [0..<length buffer])"

definition tag10_at :: "string \<Rightarrow> nat \<Rightarrow> bool" where
  "tag10_at buffer i \<longleftrightarrow>
     buffer ! i = CHR ''1'' \<and> buffer ! (i + 1) = CHR ''0'' \<and> buffer ! (i + 2) = CHR ''=''"

fun scan_tag10 :: "string \<Rightarrow> nat \<Rightarrow> nat \<times> bool" where
  "scan_tag10 buffer 0 = (0, tag10_at buffer 0)"
| "scan_tag10 buffer (Suc i) =
     (if tag10_at buffer (Suc i) then (Suc i, True) else scan_tag10 buffer i)"

text \<open>The result is the final \<open>index\<close> and \<open>final_tag10_delimiter_index\<close>, \<open>None\<close> for the \<open>-1\<close> it
  keeps when nothing was found.\<close>

definition find_tag10_start_from_end :: "string \<Rightarrow> nat \<Rightarrow> nat \<times> nat option" where
  "find_tag10_start_from_end buffer index =
     (if length buffer < 3 then (index, None)
      else case scan_tag10 buffer (min index (length buffer - 3)) of
             (i, True) \<Rightarrow>
               (i, List.find (\<lambda>t. buffer ! t = SOH) [i + 2..<length buffer])
           | (i, False) \<Rightarrow> (i, None))"

text \<open>The callers pass a non-empty buffer (\<open>buffer_size - 1\<close> would wrap on an empty one).\<close>

definition find_begin_string_position :: "string \<Rightarrow> nat option" where
  "find_begin_string_position buffer =
     List.find (\<lambda>i. buffer ! i = CHR ''8'' \<and> buffer ! (i + 1) = CHR ''='')
       [0..<length buffer - 1]"

subsection \<open>Checksum\<close>

definition checksum_chars :: "u32 \<Rightarrow> string" where
  "checksum_chars checksum =
     [char_of (unat (48 + checksum div 100)),
      char_of (unat (48 + checksum div 10 mod 10)),
      char_of (unat (48 + checksum mod 10))]"

definition add_bytes :: "u32 \<Rightarrow> string \<Rightarrow> u32" where
  "add_bytes start buffer = foldl (\<lambda>s c. s + of_char c) start buffer"

definition encode_checksum_no_simd :: "string \<Rightarrow> string" where
  "encode_checksum_no_simd buffer = checksum_chars (add_bytes 0 buffer mod 256)"

definition validate_checksum_no_simd :: "string \<Rightarrow> u32 \<Rightarrow> bool" where
  "validate_checksum_no_simd buffer actual_checksum \<longleftrightarrow>
     add_bytes 0 buffer mod 256 = actual_checksum"

text \<open>One AVX2 step on 32 bytes: \<open>unpacklo\<close> and \<open>unpackhi\<close> against zero widen the bytes of each
  128-bit half to 16 bits, \<open>add_epi16\<close> adds lane by lane and wraps.\<close>

definition add_epi16 :: "u16 list \<Rightarrow> u16 list \<Rightarrow> u16 list" where
  "add_epi16 xs ys = map2 (+) xs ys"

definition unpacklo_epi8 :: "string \<Rightarrow> u16 list" where
  "unpacklo_epi8 bytes = map of_char (take 8 bytes @ take 8 (drop 16 bytes))"

definition unpackhi_epi8 :: "string \<Rightarrow> u16 list" where
  "unpackhi_epi8 bytes = map of_char (take 8 (drop 8 bytes) @ take 8 (drop 24 bytes))"

fun avx2_loop :: "u16 list \<Rightarrow> string \<Rightarrow> u16 list \<times> string" where
  "avx2_loop acc buffer =
     (if 32 \<le> length buffer then
        avx2_loop
          (add_epi16 (add_epi16 acc (unpacklo_epi8 (take 32 buffer))) (unpackhi_epi8 (take 32 buffer)))
          (drop 32 buffer)
      else (acc, buffer))"

declare avx2_loop.simps [simp del]

definition avx2_sum :: "string \<Rightarrow> u32" where
  "avx2_sum buffer =
     (let (acc, tail) = avx2_loop (replicate 16 0) buffer;
          temp = add_epi16 (take 8 acc) (drop 8 acc);
          lane_sum = foldl (\<lambda>s t. s + ucast t) 0 temp
      in add_bytes lane_sum tail)"

definition encode_checksum_simd_avx2 :: "string \<Rightarrow> string" where
  "encode_checksum_simd_avx2 buffer = checksum_chars (avx2_sum buffer mod 256)"

definition validate_checksum_simd_avx2 :: "string \<Rightarrow> u32 \<Rightarrow> bool" where
  "validate_checksum_simd_avx2 buffer actual_checksum \<longleftrightarrow> avx2_sum buffer mod 256 = actual_checksum"

subsection \<open>Message types as words\<close>

text \<open>\<open>None\<close>: a shift by 32 bits or more, which is undefined; the assertion on the length is not
  compiled into release builds.\<close>

definition pack_message_type :: "string \<Rightarrow> u32 option" where
  "pack_message_type mt =
     (if length mt \<le> 4 then
        Some (foldl (\<lambda>ret i. ret OR push_bit (i * 8) (of_char (mt ! i))) 0 [0..<length mt])
      else None)"

definition unpack_message_type :: "u32 \<Rightarrow> string" where
  "unpack_message_type encoded =
     takeWhile (\<lambda>c. c \<noteq> CHR 0x00)
       (map (\<lambda>i. char_of (unat (drop_bit (i * 8) encoded AND 0xFF))) [0..<4])"

subsection \<open>The sequence number of a stored message\<close>

text \<open>\<open>StringUtilities::split\<close>: the input goes through a C string, so it ends at the first NUL, and
  \<open>std::getline\<close> yields no token after a final separator.\<close>

fun getlines :: "char \<Rightarrow> string \<Rightarrow> string \<Rightarrow> string list" where
  "getlines sep token [] = (if token = [] then [] else [token])"
| "getlines sep token (c # cs) =
     (if c = sep then token # getlines sep [] cs else getlines sep (token @ [c]) cs)"

definition split_string :: "string \<Rightarrow> char \<Rightarrow> string list" where
  "split_string input sep = getlines sep [] (takeWhile (\<lambda>c. c \<noteq> CHR 0x00) input)"

definition get_sequence_number_value_from_fix_message :: "string \<Rightarrow> u32" where
  "get_sequence_number_value_from_fix_message buffer =
     (case List.find (\<lambda>p. 3 < length p \<and> take 3 p = ''34='') (split_string buffer SOH) of
        None \<Rightarrow> 0
      | Some p \<Rightarrow> chars_to_unsigned_int (drop 3 p))"

subsection \<open>Facts on the checksum\<close>

text \<open>The reference: the sum of the bytes modulo 256, written with three digits.\<close>

definition checksum_of :: "string \<Rightarrow> nat" where
  "checksum_of s = sum_list (map of_char s) mod 256"

definition dec3 :: "nat \<Rightarrow> string" where
  "dec3 n = [digit_char (n div 100), digit_char (n div 10 mod 10), digit_char (n mod 10)]"

lemma checksum_of_less [simp]: "checksum_of s < 256"
  by (simp add: checksum_of_def)

lemma unat_of_char [simp]: "unat (of_char c :: 'a::len word) = take_bit LENGTH('a) (of_char c)"
  by (metis of_nat_of_char unat_of_nat take_bit_eq_mod)

lemma unat_of_char32: "unat (of_char c :: u32) = of_char c"
proof -
  have "(of_char c :: nat) < 2 ^ 32" using of_char_nat_less [of c] by (rule less_trans) simp
  then show ?thesis by (simp add: take_bit_nat_eq_self)
qed

lemma unat_of_char16: "unat (of_char c :: u16) = of_char c"
proof -
  have "(of_char c :: nat) < 2 ^ 16" using of_char_nat_less [of c] by (rule less_trans) simp
  then show ?thesis by (simp add: take_bit_nat_eq_self)
qed

text \<open>Sums modulo 256 are sums of bytes.\<close>

abbreviation byte_of :: "nat \<Rightarrow> u8" where
  "byte_of \<equiv> word_of_nat"

lemma byte_of_eq_iff: "byte_of m = byte_of n \<longleftrightarrow> m mod 256 = n mod 256"
  by (simp add: word_of_nat_eq_iff take_bit_eq_mod)

lemma byte_of_add [simp]:
  "(ucast (a + b :: u32) :: u8) = ucast a + ucast b"
  "(ucast (c + d :: u16) :: u8) = ucast c + ucast d"
proof -
  have "byte_of (unat (a + b)) = byte_of (unat a + unat b)"
    and "byte_of (unat (c + d)) = byte_of (unat c + unat d)"
    unfolding byte_of_eq_iff by (simp_all add: unat_word_ariths mod_mod_cancel)
  then show "(ucast (a + b :: u32) :: u8) = ucast a + ucast b"
    "(ucast (c + d :: u16) :: u8) = ucast c + ucast d" by simp_all
qed

lemma byte_of_of_char [simp]: "byte_of (of_char c) = of_char c"
  by (rule of_nat_of_char)

lemma byte_of_char [simp]:
  "(ucast (of_char c :: u32) :: u8) = of_char c" "(ucast (of_char c :: u16) :: u8) = of_char c"
  using arg_cong [OF unat_of_char32 [of c], of byte_of] arg_cong [OF unat_of_char16 [of c], of byte_of]
  by (simp_all del: unat_of_char)

lemma add_bytes_byte: "(ucast (add_bytes s b) :: u8) = ucast s + byte_of (sum_list (map of_char b))"
  by (induction b arbitrary: s) (simp_all add: add_bytes_def ac_simps del: unat_of_char)

abbreviation lanes :: "u16 list \<Rightarrow> u8" where
  "lanes xs \<equiv> byte_of (sum_list (map unat xs))"

lemma length_add_epi16 [simp]: "length (add_epi16 xs ys) = min (length xs) (length ys)"
  by (simp add: add_epi16_def)

lemma add_epi16_lanes: "length xs = length ys \<Longrightarrow> lanes (add_epi16 xs ys) = lanes xs + lanes ys"
  by (induction xs ys rule: list_induct2) (simp_all add: add_epi16_def ac_simps)

lemma unpack_halves:
  assumes "length b = 32"
  shows "length (unpacklo_epi8 b) = 16" "length (unpackhi_epi8 b) = 16"
    "lanes (unpacklo_epi8 b) + lanes (unpackhi_epi8 b) = byte_of (sum_list (map of_char b))"
proof -
  have "b = take 8 b @ take 8 (drop 8 b) @ take 8 (drop 16 b) @ take 8 (drop 24 b)"
  proof -
    have *: "drop n b = take 8 (drop n b) @ drop (8 + n) b" for n
      by (simp only: drop_drop [symmetric] append_take_drop_id)
    have "take 8 (drop 24 b) = drop 24 b" using assms by simp
    then show ?thesis using * [of 0] * [of 8] * [of 16] by simp
  qed
  then have "sum_list (map of_char b) = sum_list (map of_char (take 8 b))
     + sum_list (map of_char (take 8 (drop 8 b))) + sum_list (map of_char (take 8 (drop 16 b)))
     + (sum_list (map of_char (take 8 (drop 24 b))) :: nat)"
    by (metis (no_types, lifting) map_append sum_list_append add.assoc)
  then show "lanes (unpacklo_epi8 b) + lanes (unpackhi_epi8 b) = byte_of (sum_list (map of_char b))"
    by (simp add: unpacklo_epi8_def unpackhi_epi8_def comp_def unat_of_char16 ac_simps del: unat_of_char)
qed (use assms in \<open>simp_all add: unpacklo_epi8_def unpackhi_epi8_def\<close>)

lemma avx2_loop_lanes:
  "length acc = 16 \<Longrightarrow> avx2_loop acc b = (acc', rest) \<Longrightarrow>
     length acc' = 16 \<and>
     lanes acc' + byte_of (sum_list (map of_char rest)) = lanes acc + byte_of (sum_list (map of_char b))"
proof (induction acc b rule: avx2_loop.induct)
  case (1 acc b)
  show ?case
  proof (cases "32 \<le> length b")
    case True
    define h where "h = take 32 b"
    have h: "length h = 32" using True by (simp add: h_def)
    define acc1 where "acc1 = add_epi16 (add_epi16 acc (unpacklo_epi8 h)) (unpackhi_epi8 h)"
    have l: "length acc1 = 16" using 1(2) by (simp add: acc1_def unpack_halves [OF h])
    have s: "lanes acc1 = lanes acc + byte_of (sum_list (map of_char h))"
      unfolding unpack_halves(3) [OF h, symmetric] acc1_def
      using 1(2) by (simp add: add_epi16_lanes unpack_halves(1,2) [OF h] del: of_nat_add)
    have b: "sum_list (map of_char b) = sum_list (map of_char h) + (sum_list (map of_char (drop 32 b)) :: nat)"
      unfolding h_def by (metis append_take_drop_id map_append sum_list_append)
    from 1(3) True have "avx2_loop acc1 (drop 32 b) = (acc', rest)"
      by (simp add: avx2_loop.simps [of acc b] acc1_def h_def)
    from 1(1) [OF True, folded h_def, folded acc1_def, OF l this] s b show ?thesis
      by simp
  next
    case False
    with 1 show ?thesis by (simp add: avx2_loop.simps [of acc b])
  qed
qed

lemma fold_lanes: "(ucast (foldl (\<lambda>s t. s + ucast t) (a :: u32) (xs :: u16 list)) :: u8)
    = ucast a + lanes xs"
proof (induction xs arbitrary: a)
  case (Cons x xs)
  have "unat (ucast x :: u32) = unat x" by (simp add: unsigned_ucast_eq)
      (rule take_bit_nat_eq_self, rule less_trans [OF unsigned_less], simp)
  then have "(ucast (ucast x :: u32) :: u8) = ucast x"
    by (metis of_nat_unat)
  then show ?case
    unfolding foldl_Cons Cons byte_of_add by (simp add: ac_simps)
qed simp

lemma unat_mod_256:
  assumes "(ucast (w :: u32) :: u8) = byte_of n" shows "unat w mod 256 = n mod 256"
proof -
  have "byte_of (unat w) = byte_of n" using assms by simp
  then show ?thesis by (simp only: byte_of_eq_iff)
qed

lemma avx2_sum_mod: "unat (avx2_sum b) mod 256 = checksum_of b"
proof -
  obtain acc rest where a: "avx2_loop (replicate 16 0) b = (acc, rest)" by force
  have z: "lanes (replicate 16 0) = 0" by (simp add: sum_list_replicate)
  from avx2_loop_lanes [OF _ a] have l: "length acc = 16"
    and s: "lanes acc + byte_of (sum_list (map of_char rest)) = byte_of (sum_list (map of_char b))"
    unfolding z by simp_all
  have "sum_list (map unat acc) = sum_list (map unat (take 8 acc)) + sum_list (map unat (drop 8 acc))"
    by (metis append_take_drop_id map_append sum_list_append)
  then have t: "lanes (add_epi16 (take 8 acc) (drop 8 acc)) = lanes acc"
    using l by (simp add: add_epi16_lanes)
  have "(ucast (avx2_sum b) :: u8) = byte_of (sum_list (map of_char b))"
    by (simp only: avx2_sum_def Let_def a prod.case add_bytes_byte fold_lanes t s unsigned_0 add_0)
  then show ?thesis unfolding checksum_of_def by (rule unat_mod_256)
qed

lemma scalar_sum_mod: "unat (add_bytes 0 b) mod 256 = checksum_of b"
  unfolding checksum_of_def by (rule unat_mod_256) (simp add: add_bytes_byte)

lemma word_mod_256: "(w :: u32) mod 256 = word_of_nat (unat w mod 256)"
  by (simp add: word_arith_nat_mod)

lemma checksum_chars_dec3: "n < 256 \<Longrightarrow> checksum_chars (word_of_nat n) = dec3 n"
proof -
  assume n: "n < 256"
  have d: "unat (word_of_nat n :: u32) = n"
    using n by (simp add: unat_of_nat take_bit_eq_mod)
  have "unat (48 + word_of_nat n div 100 :: u32) = 48 + n div 100"
       "unat (48 + word_of_nat n div 10 mod 10 :: u32) = 48 + n div 10 mod 10"
       "unat (48 + word_of_nat n mod 10 :: u32) = 48 + n mod 10"
    using n by (simp_all add: unat_word_ariths unat_div_distrib unat_mod_distrib d)
  then show ?thesis by (simp add: checksum_chars_def dec3_def digit_char_def)
qed

lemma encode_checksum_scalar: "encode_checksum_no_simd b = dec3 (checksum_of b)"
  by (simp add: encode_checksum_no_simd_def word_mod_256 scalar_sum_mod checksum_chars_dec3)

lemma encode_checksum_simd: "encode_checksum_simd_avx2 b = dec3 (checksum_of b)"
  by (simp add: encode_checksum_simd_avx2_def word_mod_256 avx2_sum_mod checksum_chars_dec3)

lemma validate_checksum_scalar: "validate_checksum_no_simd b c \<longleftrightarrow> unat c = checksum_of b"
proof -
  have "validate_checksum_no_simd b c \<longleftrightarrow> word_of_nat (checksum_of b) = c"
    by (simp add: validate_checksum_no_simd_def word_mod_256 scalar_sum_mod)
  also have "\<dots> \<longleftrightarrow> unat c = checksum_of b"
  proof
    have "checksum_of b < 2 ^ 32" by (rule less_trans [OF checksum_of_less]) simp
    then have u: "unat (word_of_nat (checksum_of b) :: u32) = checksum_of b"
      by (simp add: unat_of_nat take_bit_nat_eq_self)
    assume "word_of_nat (checksum_of b) = c"
    with u show "unat c = checksum_of b" by auto
  next
    assume "unat c = checksum_of b"
    then have "word_of_nat (unat c) = (word_of_nat (checksum_of b) :: u32)" by simp
    then show "word_of_nat (checksum_of b) = c" by simp
  qed
  finally show ?thesis .
qed

lemma validate_checksum_simd: "validate_checksum_simd_avx2 b c \<longleftrightarrow> validate_checksum_no_simd b c"
  by (simp add: validate_checksum_no_simd_def validate_checksum_simd_avx2_def word_mod_256
      scalar_sum_mod avx2_sum_mod)

subsection \<open>Facts on the scans\<close>

lemma find_delimiter_Some:
  "find_delimiter_from_end b = Some i \<Longrightarrow> i < length b \<and> b ! i = SOH"
  by (auto simp: find_delimiter_from_end_def find_Some_iff rev_nth)

lemma find_delimiter_None: "find_delimiter_from_end b = None \<longleftrightarrow> SOH \<notin> set b"
  unfolding find_delimiter_from_end_def find_None_iff set_rev set_upt by (auto simp: in_set_conv_nth)

lemma scan_tag10_Some:
  "scan_tag10 b n = (i, True) \<Longrightarrow> i \<le> n \<and> tag10_at b i \<and> (\<forall>j. i < j \<and> j \<le> n \<longrightarrow> \<not> tag10_at b j)"
  by (induction b n rule: scan_tag10.induct)
    (auto split: if_splits simp: le_Suc_eq)

lemma find_tag10_Some:
  assumes "find_tag10_start_from_end b n = (i, Some t)"
  shows "i + 2 \<le> t \<and> t < length b \<and> b ! t = SOH \<and> tag10_at b i \<and> i \<le> n"
proof -
  from assms have s: "scan_tag10 b (min n (length b - 3)) = (i, True)"
    and t: "List.find (\<lambda>t. b ! t = SOH) [i + 2..<length b] = Some t"
    by (auto simp: find_tag10_start_from_end_def split: if_splits prod.splits bool.splits)
  from t have "t \<in> set [i + 2..<length b]" "b ! t = SOH"
    by (auto simp: find_Some_iff dest: nth_mem)
  with scan_tag10_Some [OF s] show ?thesis by auto
qed

lemma find_begin_Some:
  assumes "find_begin_string_position b = Some i"
  shows "i + 1 < length b \<and> b ! i = CHR ''8'' \<and> b ! (i + 1) = CHR ''=''"
  using assms by (auto simp: find_begin_string_position_def find_Some_iff)

lemma find_begin_None:
  "find_begin_string_position b = None \<longleftrightarrow>
     (\<forall>i. i + 1 < length b \<longrightarrow> \<not> (b ! i = CHR ''8'' \<and> b ! (i + 1) = CHR ''=''))"
  by (auto simp: find_begin_string_position_def find_None_iff)

subsection \<open>Packed message types\<close>

lemma take_bit_of_char: "take_bit 8 (of_char c :: u32) = of_char c"
proof -
  have "take_bit 8 (word_of_nat (of_char c) :: u32) = word_of_nat (take_bit 8 (of_char c))"
    by (rule take_bit_of_nat)
  also have "take_bit 8 (of_char c) = (of_char c :: nat)"
    using of_char_nat_less [of c] by (simp add: take_bit_eq_mod)
  finally show ?thesis by (simp only: of_nat_of_char)
qed

lemma bit_of_char_high: "8 \<le> n \<Longrightarrow> \<not> bit (of_char c :: u32) n"
  by (metis bit_take_bit_iff not_le take_bit_of_char)

lemma byte_extract:
  assumes "\<And>n. n < 8 \<Longrightarrow> bit (w :: u32) (n + k) \<longleftrightarrow> bit (of_char c :: u32) n"
  shows "char_of (unat (drop_bit k w AND 0xFF)) = c"
proof -
  have "(0xFF :: u32) = mask 8" by (simp add: mask_eq_exp_minus_1)
  then have "drop_bit k w AND 0xFF = take_bit 8 (drop_bit k w)"
    by (simp only: take_bit_eq_mask)
  also have "\<dots> = of_char c"
  proof (rule bit_word_eqI)
    fix n show "bit (take_bit 8 (drop_bit k w)) n = bit (of_char c :: u32) n"
      by (cases "n < 8") (simp_all add: bit_take_bit_iff bit_drop_bit_eq assms [unfolded add.commute [of _ k]] bit_of_char_high)
  qed
  finally show ?thesis by (simp add: unat_of_char32 del: unat_of_char)
qed

lemma pack_bits:
  assumes "length mt \<le> 4"
  obtains p where "pack_message_type mt = Some p"
    "\<And>n. n < 32 \<Longrightarrow> bit p n \<longleftrightarrow> n div 8 < length mt \<and> bit (of_char (mt ! (n div 8)) :: u32) (n mod 8)"
proof -
  define f where "f k = foldl (\<lambda>ret i. ret OR push_bit (i * 8) (of_char (mt ! i))) (0 :: u32) [0..<k]" for k
  have "bit (f k) n \<longleftrightarrow> n div 8 < k \<and> bit (of_char (mt ! (n div 8)) :: u32) (n mod 8)" if "n < 32" for n k
  proof (induction k)
    case (Suc k)
    have "bit (push_bit (k * 8) (of_char (mt ! k)) :: u32) n \<longleftrightarrow>
        n div 8 = k \<and> bit (of_char (mt ! k) :: u32) (n mod 8)"
    proof (cases "n div 8 = k")
      case True
      then have "n - k * 8 = n mod 8" "k * 8 \<le> n" by (auto simp: minus_div_mult_eq_mod)
      with True that show ?thesis by (simp add: bit_push_bit_iff)
    next
      case False
      then have "n < k * 8 \<or> 8 \<le> n - k * 8" by linarith
      with False show ?thesis
        by (auto simp: bit_push_bit_iff bit_of_char_high)
    qed
    with Suc show ?case by (auto simp: f_def bit_or_iff less_Suc_eq)
  qed (simp add: f_def)
  with assms show ?thesis by (intro that [of "f (length mt)"]) (simp_all add: pack_message_type_def f_def)
qed

lemma unpack_pack:
  assumes "length mt \<le> 4" "CHR 0x00 \<notin> set mt"
  obtains p where "pack_message_type mt = Some p" "unpack_message_type p = mt"
proof -
  obtain p where p: "pack_message_type mt = Some p"
    and b: "\<And>n. n < 32 \<Longrightarrow> bit p n \<longleftrightarrow> n div 8 < length mt \<and> bit (of_char (mt ! (n div 8)) :: u32) (n mod 8)"
    using pack_bits [OF assms(1)] by blast
  have c: "char_of (unat (drop_bit (i * 8) p AND 0xFF)) = (if i < length mt then mt ! i else CHR 0x00)"
    if "i < 4" for i
  proof (rule byte_extract)
    fix n :: nat assume "n < 8"
    with that have "(n + i * 8) div 8 = i" "(n + i * 8) mod 8 = n" "n + i * 8 < 32" by auto
    then show "bit p (n + i * 8) \<longleftrightarrow> bit (of_char (if i < length mt then mt ! i else CHR 0x00) :: u32) n"
      using b [of "n + i * 8"] by auto
  qed
  have "map (\<lambda>i. char_of (unat (drop_bit (i * 8) p AND 0xFF))) [0..<4]
      = mt @ replicate (4 - length mt) (CHR 0x00)"
    using assms(1) by (intro nth_equalityI) (simp_all add: c nth_append)
  then have "unpack_message_type p = mt"
    using assms(2) by (simp only: unpack_message_type_def, subst takeWhile_append2) auto
  with p show ?thesis by (rule that)
qed

subsection \<open>Properties\<close>

text \<open>C40: the vectorised checksum (32 bytes per step in sixteen wrapping 16-bit lanes) writes the same
  three characters as the scalar one for every message, both are the three-digit sum of the bytes
  modulo 256, and both validators accept exactly that number.\<close>

theorem checksum_simd_equals_scalar:
  "encode_checksum_simd_avx2 b = encode_checksum_no_simd b \<and>
   encode_checksum_no_simd b = dec3 (checksum_of b) \<and>
   validate_checksum_simd_avx2 b c = validate_checksum_no_simd b c \<and>
   validate_checksum_no_simd b c = (unat c = checksum_of b)"
  by (simp add: encode_checksum_scalar encode_checksum_simd validate_checksum_scalar validate_checksum_simd)

text \<open>Packing a message type of at most four characters (none of them NUL) is defined, unpacking
  gives the type back, and two such types with the same packed word are equal, so the repeating-group
  specifications never confuse two message types.\<close>

theorem message_type_pack_roundtrip:
  assumes "length mt \<le> 4" "CHR 0x00 \<notin> set mt" "length mt' \<le> 4" "CHR 0x00 \<notin> set mt'"
  shows "(\<exists>p. pack_message_type mt = Some p \<and> unpack_message_type p = mt) \<and>
    (pack_message_type mt = pack_message_type mt' \<longrightarrow> mt = mt')"
proof -
  obtain p p' where "pack_message_type mt = Some p" "unpack_message_type p = mt"
    "pack_message_type mt' = Some p'" "unpack_message_type p' = mt'"
    using unpack_pack [OF assms(1,2)] unpack_pack [OF assms(3,4)] by metis
  then show ?thesis by auto
qed

theorem message_type_pack_roundtrip_witness:
  "(\<exists>p. pack_message_type ''AE'' = Some p \<and> unpack_message_type p = ''AE'') \<and>
   pack_message_type ''AE'' \<noteq> pack_message_type ''D''"
  using message_type_pack_roundtrip [of "''AE''" "''D''"] by auto

end
