(* ===== verification/Throttler.thy ===== *)
theory Throttler
  imports Llfix_Prelude
begin

text \<open>
  \<open>core/utilities/ring_buffer.h\<close> and \<open>electronic_trading/session/throttler.h\<close>: a ring of the
  last \<open>m_limit\<close> event times, and the waiting time it gives. The monotonic clock is an argument of
  the operations that read it. The push counter is a natural number (a \<open>size_t\<close> that would need
  \<open>2^64\<close> messages to wrap). The abstract view is the list of the last \<open>m_limit\<close> event times, oldest
  first, which \<open>update\<close> shifts.
\<close>

record 'a ring_buffer =
  rb_buffer :: "'a list"
  rb_index :: nat

definition ring_create :: "nat \<Rightarrow> 'a::zero ring_buffer" where
  "ring_create capacity = \<lparr>rb_buffer = replicate capacity 0, rb_index = 0\<rparr>"

definition calculate_index :: "'a ring_buffer \<Rightarrow> nat" where
  "calculate_index r = rb_index r - (rb_index r div length (rb_buffer r)) * length (rb_buffer r)"

definition ring_push :: "'a \<Rightarrow> 'a ring_buffer \<Rightarrow> nat \<times> 'a ring_buffer" where
  "ring_push t r =
     (let new_item_index = calculate_index r
      in (new_item_index,
          r\<lparr>rb_buffer := (rb_buffer r)[new_item_index := t], rb_index := rb_index r + 1\<rparr>))"

definition ring_get :: "'a ring_buffer \<Rightarrow> nat \<Rightarrow> 'a" where
  "ring_get r i = rb_buffer r ! i"

definition ring_set :: "nat \<Rightarrow> 'a \<Rightarrow> 'a ring_buffer \<Rightarrow> 'a ring_buffer" where
  "ring_set i v r = r\<lparr>rb_buffer := (rb_buffer r)[i := v]\<rparr>"

record throttler =
  m_event_times :: "u64 ring_buffer"
  m_limit :: nat
  m_window_in_nanoseconds :: u64
  m_wait_time_nano_seconds :: u64
  m_latest_event_time_index :: nat

definition throttler_initialise :: "u64 \<Rightarrow> nat \<Rightarrow> u64 \<Rightarrow> throttler" where
  "throttler_initialise window limit now =
     (let past = (if window < now then now - window else 0)
      in \<lparr>m_event_times = ((\<lambda>r. snd (ring_push past r)) ^^ limit) (ring_create limit),
          m_limit = limit, m_window_in_nanoseconds = window,
          m_wait_time_nano_seconds = 0, m_latest_event_time_index = 0\<rparr>)"

definition throttler_update :: "u64 \<Rightarrow> throttler \<Rightarrow> throttler" where
  "throttler_update timestamp_latest t =
     (let (latest, ring) = ring_push timestamp_latest (m_event_times t);
          next = latest + 1;
          first_message_index = (if m_limit t \<le> next then next - m_limit t else next);
          timestamp_first = ring_get ring first_message_index;
          delta_time = timestamp_latest - timestamp_first
      in t\<lparr>m_event_times := ring, m_latest_event_time_index := latest,
           m_wait_time_nano_seconds :=
             (if delta_time < m_window_in_nanoseconds t then m_window_in_nanoseconds t - delta_time
              else 0)\<rparr>)"

text \<open>\<open>wait\<close>: the clock is read again after the sleep.\<close>

definition throttler_wait :: "u64 \<Rightarrow> throttler \<Rightarrow> throttler" where
  "throttler_wait now t =
     (if 0 < m_wait_time_nano_seconds t then
        t\<lparr>m_event_times := ring_set (m_latest_event_time_index t) now (m_event_times t)\<rparr>
      else t)"

definition reached_limit :: "throttler \<Rightarrow> bool" where
  "reached_limit t \<longleftrightarrow> 0 < m_wait_time_nano_seconds t"

subsection \<open>The ring as a window\<close>

definition window_of :: "'a ring_buffer \<Rightarrow> 'a list" where
  "window_of r =
     map (\<lambda>k. rb_buffer r ! ((rb_index r + k) mod length (rb_buffer r))) [0..<length (rb_buffer r)]"

lemma length_window [simp]: "length (window_of r) = length (rb_buffer r)"
  by (simp add: window_of_def)

lemma calculate_index_mod: "calculate_index r = rb_index r mod length (rb_buffer r)"
  by (simp add: calculate_index_def minus_div_mult_eq_mod)

lemma mod_shift_inj: "k < n \<Longrightarrow> (i + k) mod n = i mod n \<Longrightarrow> k = (0::nat)"
proof -
  assume k: "k < n" and "(i + k) mod n = i mod n"
  then have "n dvd (i + k) - i" by (subst mod_eq_dvd_iff_nat [symmetric]) simp_all
  then have "n dvd k" by simp
  with k show "k = 0" using nat_dvd_not_less by blast
qed

lemma window_push:
  assumes "0 < length (rb_buffer r)"
  shows "window_of (snd (ring_push t r)) = tl (window_of r) @ [t]"
proof (rule nth_equalityI)
  let ?n = "length (rb_buffer r)" and ?i = "rb_index r"
  show "length (window_of (snd (ring_push t r))) = length (tl (window_of r) @ [t])"
    using assms by (simp add: ring_push_def Let_def)
  fix k assume "k < length (window_of (snd (ring_push t r)))"
  then have k: "k < ?n" by (simp add: ring_push_def Let_def)
  show "window_of (snd (ring_push t r)) ! k = (tl (window_of r) @ [t]) ! k"
  proof (cases "Suc k = ?n")
    case True
    then have "(Suc (?i + k)) mod ?n = ?i mod ?n" by (metis add_Suc_right mod_add_self2)
    moreover have "?i mod ?n < ?n" using assms by simp
    ultimately show ?thesis using k True [symmetric]
      by (simp add: window_of_def ring_push_def Let_def calculate_index_mod nth_append)
  next
    case False
    with k have k': "Suc k < ?n" by simp
    then have "(?i + Suc k) mod ?n \<noteq> ?i mod ?n" using mod_shift_inj [of "Suc k" ?n ?i] by auto
    moreover have "k < ?n - Suc 0" using k' by linarith
    ultimately show ?thesis using k k'
      by (simp add: window_of_def ring_push_def Let_def calculate_index_mod nth_append nth_tl)
  qed
qed

definition throttler_wf :: "throttler \<Rightarrow> bool" where
  "throttler_wf t \<longleftrightarrow> 0 < m_limit t \<and> length (rb_buffer (m_event_times t)) = m_limit t"

abbreviation recent :: "throttler \<Rightarrow> u64 list" where
  "recent t \<equiv> window_of (m_event_times t)"

lemma first_index_mod:
  "i < n \<Longrightarrow> (if n \<le> i + 1 then i + 1 - n else i + 1) = (i + 1) mod (n::nat)"
  by (auto simp: mod_if)

lemma hd_window: "0 < length (rb_buffer r) \<Longrightarrow>
    hd (window_of r) = rb_buffer r ! (rb_index r mod length (rb_buffer r))"
  by (simp add: window_of_def hd_map upt_conv_Cons)

lemma update_window:
  assumes "throttler_wf t"
  shows "throttler_wf (throttler_update now t)"
    and "recent (throttler_update now t) = tl (recent t) @ [now]"
    and "m_wait_time_nano_seconds (throttler_update now t) =
          (if now - hd (tl (recent t) @ [now]) < m_window_in_nanoseconds t
           then m_window_in_nanoseconds t - (now - hd (tl (recent t) @ [now])) else 0)"
    and "reached_limit (throttler_update now t) \<longleftrightarrow>
          now - hd (tl (recent t) @ [now]) < m_window_in_nanoseconds t"
proof -
  define r where "r = snd (ring_push now (m_event_times t))"
  have pos: "0 < length (rb_buffer (m_event_times t))" using assms by (simp add: throttler_wf_def)
  have len: "length (rb_buffer r) = m_limit t"
    using assms by (simp add: r_def ring_push_def Let_def throttler_wf_def)
  define i where "i = rb_index (m_event_times t) mod m_limit t"
  have i: "fst (ring_push now (m_event_times t)) = i" "i < m_limit t"
    using assms by (simp_all add: i_def ring_push_def Let_def calculate_index_mod throttler_wf_def)
  have "(i + 1) mod m_limit t = rb_index r mod m_limit t"
    by (simp add: i_def r_def ring_push_def Let_def mod_Suc_eq)
  then have "ring_get r (if m_limit t \<le> i + 1 then i + 1 - m_limit t else i + 1) = hd (window_of r)"
    using pos len i by (subst first_index_mod) (simp_all add: ring_get_def hd_window throttler_wf_def)
  moreover have w: "window_of r = tl (recent t) @ [now]"
    unfolding r_def by (rule window_push [OF pos])
  moreover have push: "ring_push now (m_event_times t) = (i, r)"
    by (rule prod_eqI) (simp_all add: i r_def)
  ultimately have u: "throttler_update now t = t\<lparr>m_event_times := r, m_latest_event_time_index := i,
      m_wait_time_nano_seconds :=
        (if now - hd (tl (recent t) @ [now]) < m_window_in_nanoseconds t
         then m_window_in_nanoseconds t - (now - hd (tl (recent t) @ [now])) else 0)\<rparr>"
    by (simp only: throttler_update_def push Let_def prod.case)
  show "throttler_wf (throttler_update now t)" "recent (throttler_update now t) = tl (recent t) @ [now]"
    using assms len w by (simp_all add: u throttler_wf_def)
  show "m_wait_time_nano_seconds (throttler_update now t) =
      (if now - hd (tl (recent t) @ [now]) < m_window_in_nanoseconds t
       then m_window_in_nanoseconds t - (now - hd (tl (recent t) @ [now])) else 0)"
    by (simp add: u)
  show "reached_limit (throttler_update now t) \<longleftrightarrow>
      now - hd (tl (recent t) @ [now]) < m_window_in_nanoseconds t"
    by (auto simp: u reached_limit_def word_gt_0)
qed

lemma throttler_wait_wf: "throttler_wf t \<Longrightarrow> throttler_wf (throttler_wait now t)"
  by (simp add: throttler_wf_def throttler_wait_def ring_set_def)

lemma initialise_wf:
  assumes "0 < limit"
  shows "throttler_wf (throttler_initialise window limit now)"
    and "recent (throttler_initialise window limit now)
      = replicate limit (if window < now then now - window else 0)"
proof -
  define p where "p = (if window < now then now - window else 0)"
  define f where "f n = ((\<lambda>r. snd (ring_push p r)) ^^ n) (ring_create limit)" for n
  have l: "length (rb_buffer (f n)) = limit" for n
    by (induction n) (simp_all add: f_def ring_create_def ring_push_def Let_def)
  have "n \<le> limit \<Longrightarrow> window_of (f n) = replicate (limit - n) 0 @ replicate n p" for n
  proof (induction n)
    case 0
    have "rb_buffer (f 0) = replicate limit 0" by (simp add: f_def ring_create_def)
    then show ?case by (auto simp: window_of_def intro!: nth_equalityI)
  next
    case (Suc n)
    have "window_of (f (Suc n)) = tl (window_of (f n)) @ [p]"
    proof -
      have "f (Suc n) = snd (ring_push p (f n))" by (simp add: f_def)
      then show ?thesis using window_push [of "f n" p] l assms by simp
    qed
    with Suc show ?case
      by (simp add: Suc_diff_Suc [symmetric] replicate_append_same)
  qed
  from this [of limit] l show "throttler_wf (throttler_initialise window limit now)"
    "recent (throttler_initialise window limit now)
      = replicate limit (if window < now then now - window else 0)"
    using assms by (simp_all add: throttler_wf_def throttler_initialise_def f_def p_def Let_def)
qed

lemma window_width [simp]: "m_window_in_nanoseconds (throttler_update now t) = m_window_in_nanoseconds t"
  by (simp add: throttler_update_def Let_def split_beta)

lemma initial_window [simp]:
  "m_window_in_nanoseconds (throttler_initialise window limit now) = window"
  by (simp add: throttler_initialise_def Let_def)

text \<open>A sequence of messages, each reported with \<open>update\<close>.\<close>

definition throttler_run :: "u64 list \<Rightarrow> throttler \<Rightarrow> throttler" where
  "throttler_run ts t = fold throttler_update ts t"

lemma throttler_run_snoc: "throttler_run (ts @ [t]) s = throttler_update t (throttler_run ts s)"
  by (simp add: throttler_run_def)

lemma run_window:
  assumes "throttler_wf s"
  shows "throttler_wf (throttler_run ts s) \<and>
    recent (throttler_run ts s) = drop (length ts) (recent s @ ts) \<and>
    m_window_in_nanoseconds (throttler_run ts s) = m_window_in_nanoseconds s"
proof (induction ts rule: rev_induct)
  case (snoc t ts)
  have "recent s \<noteq> []" using assms by (simp add: throttler_wf_def window_of_def)
  then have l: "Suc (length ts) \<le> length (recent s @ ts)" by (cases "recent s") auto
  have "tl (drop (length ts) (recent s @ ts)) = drop (Suc (length ts)) (recent s @ ts)"
    by (simp only: drop_Suc tl_drop)
  then have "tl (drop (length ts) (recent s @ ts)) @ [t] = drop (Suc (length ts)) ((recent s @ ts) @ [t])"
    using l by (subst drop_append) simp
  then have "tl (drop (length ts) (recent s @ ts)) @ [t] = drop (Suc (length ts)) (recent s @ ts @ [t])"
    by (simp only: append_assoc)
  with snoc update_window [of "throttler_run ts s" t] show ?case
    by (simp add: throttler_run_snoc)
qed (use assms in \<open>simp add: throttler_run_def\<close>)

text \<open>The oldest of the last \<open>limit\<close> event times when the messages of \<open>ts\<close> have been reported.\<close>

definition oldest_in_window :: "nat \<Rightarrow> u64 \<Rightarrow> u64 \<Rightarrow> u64 list \<Rightarrow> u64" where
  "oldest_in_window limit window start ts =
     hd (drop (length ts) (replicate limit (if window < start then start - window else 0) @ ts))"

lemma throttler_run_result:
  fixes ts :: "u64 list" and t window start :: u64
  assumes "0 < limit"
  defines "t' \<equiv> throttler_run (ts @ [t]) (throttler_initialise window limit start)"
    and "elapsed \<equiv> t - oldest_in_window limit window start (ts @ [t])"
  shows "m_wait_time_nano_seconds t' = (if elapsed < window then window - elapsed else 0)"
    "reached_limit t' \<longleftrightarrow> elapsed < window"
proof -
  define s where "s = throttler_initialise window limit start"
  have wf: "throttler_wf s" unfolding s_def by (rule initialise_wf [OF assms(1)])
  have "recent (throttler_run (ts @ [t]) s) = drop (Suc (length ts)) (recent s @ ts @ [t])"
    using run_window [OF wf, of "ts @ [t]"] by simp
  then have last: "tl (recent (throttler_run ts s)) @ [t] = drop (Suc (length ts)) (recent s @ ts @ [t])"
    using run_window [OF wf, of ts] update_window(2) [of "throttler_run ts s" t] by (simp add: throttler_run_snoc)
  have width: "m_window_in_nanoseconds (throttler_run ts s) = window"
    using run_window [OF wf, of ts] by (simp add: s_def)
  have e: "elapsed = t - hd (drop (Suc (length ts)) (recent s @ ts @ [t]))"
    by (simp add: elapsed_def oldest_in_window_def s_def initialise_wf(2) [OF assms(1)])
  have run: "t' = throttler_update t (throttler_run ts s)"
    by (simp add: t'_def throttler_run_snoc s_def)
  show "m_wait_time_nano_seconds t' = (if elapsed < window then window - elapsed else 0)"
    "reached_limit t' \<longleftrightarrow> elapsed < window"
    unfolding run e using update_window(3,4) [of "throttler_run ts s" t] run_window [OF wf, of ts]
    unfolding last width by blast+
qed

subsection \<open>Properties\<close>

text \<open>C35: the throttler is a sliding window: after any sequence of messages the wait is what is missing of one window since
  the oldest of the last \<open>limit\<close> event times, the current message included and the ring pre-filled with stale
  times, and nothing once a whole window has passed since then; the limit counts as reached exactly in the
  first case.\<close>

theorem throttler_sliding_window:
  assumes "0 < limit"
  shows "let t' = throttler_run (ts @ [t]) (throttler_initialise window limit start);
      elapsed = t - oldest_in_window limit window start (ts @ [t])
    in m_wait_time_nano_seconds t' = (if elapsed < window then window - elapsed else 0) \<and>
      (reached_limit t' \<longleftrightarrow> elapsed < window)"
  unfolding Let_def using throttler_run_result [OF assms] by blast

theorem throttler_sliding_window_witness:
  "m_wait_time_nano_seconds (throttler_run [100, 150, 400] (throttler_initialise 1000 2 50)) = 750 \<and>
    reached_limit (throttler_run [100, 150, 400] (throttler_initialise 1000 2 50))"
proof -
  have "oldest_in_window 2 1000 50 ([100, 150] @ [400]) = 150"
    by (simp add: oldest_in_window_def numeral_eq_Suc)
  then show ?thesis
    using throttler_sliding_window [of 2 "[100, 150]" 400 1000 50] by (simp add: Let_def)
qed

text \<open>The limit is reached by the message that completes it, one message earlier than the
  documented ``maximum number of messages allowed within the throttle window'': \<open>limit\<close> messages at the
  same instant are already over the limit, and a limit of one throttles every message.\<close>

theorem throttle_limit_allows_one_less:
  assumes "0 < limit" "0 < window"
  shows "reached_limit (throttler_run (replicate limit t) (throttler_initialise window limit start)) \<and>
    (\<forall>ts. reached_limit (throttler_run (ts @ [t]) (throttler_initialise window 1 start)))"
proof
  obtain n where n: "limit = Suc n" using assms(1) by (cases limit) auto
  have r: "replicate limit t = replicate n t @ [t]" by (simp add: n replicate_append_same)
  have d: "drop (Suc n) (replicate limit p @ replicate n t @ [t]) = replicate limit t" for p
    by (simp add: n replicate_append_same)
  show "reached_limit (throttler_run (replicate limit t) (throttler_initialise window limit start))"
    unfolding r using throttler_run_result(2) [OF assms(1), of "replicate n t" t window start] assms(2) d
    by (simp add: n oldest_in_window_def)
  show "\<forall>ts. reached_limit (throttler_run (ts @ [t]) (throttler_initialise window 1 start))"
    using throttler_run_result(2) [of 1 _ t window start] assms(2) by (simp add: oldest_in_window_def)
qed

theorem throttle_limit_allows_one_less_witness:
  "reached_limit (throttler_run (replicate 3 7) (throttler_initialise 1000 3 5)) \<and>
    (\<forall>ts. reached_limit (throttler_run (ts @ [7]) (throttler_initialise 1000 1 5)))"
  by (rule throttle_limit_allows_one_less) simp_all

end
