(* ===== verification/Fix_String_View.thy ===== *)
theory Fix_String_View
  imports Llfix_Prelude
begin

text \<open>
  \<open>fix_string_view.h\<close>: a \<open>FixStringView\<close> is the string its buffer and length delimit. The format
  predicates the validation uses are translated branch by branch; \<open>m_buffer[i]\<close> is read as a signed
  \<open>char\<close>, so bytes of 128 and above compare below \<open>'0'\<close>. \<open>shape\<close> is the reference description the
  timestamp predicates are compared with.
\<close>

definition char_in_digits :: "char \<Rightarrow> bool" where
  "char_in_digits c \<longleftrightarrow> \<not> (schar c < 48 \<or> 57 < schar c)"

definition is_numeric :: "string \<Rightarrow> bool" where
  "is_numeric v =
     (if v = [] then False
      else if v ! 0 = CHR ''+'' \<or> v ! 0 = CHR ''-'' then
        (if length v = 1 then False else list_all char_in_digits (drop 1 v))
      else list_all char_in_digits v)"

definition is_double :: "string \<Rightarrow> bool" where
  "is_double v =
     (if v = [] then False
      else if v ! 0 = CHR ''+'' \<or> v ! 0 = CHR ''-'' then
        (if length v = 1 then False
         else list_all (\<lambda>c. char_in_digits c \<or> c = CHR ''.'') (drop 1 v))
      else list_all (\<lambda>c. char_in_digits c \<or> c = CHR ''.'') v)"

definition is_boolean :: "string \<Rightarrow> bool" where
  "is_boolean v = (if length v \<noteq> 1 then False else v ! 0 = CHR ''Y'' \<or> v ! 0 = CHR ''N'')"

definition to_int_at :: "string \<Rightarrow> nat \<Rightarrow> int" where
  "to_int_at v pos = (schar (v ! pos) - 48) * 10 + (schar (v ! (pos + 1)) - 48)"

definition is_timestamp :: "string \<Rightarrow> bool" where
  "is_timestamp v =
     (if length v < 17 then False
      else if v ! 8 \<noteq> CHR ''-'' \<or> v ! 11 \<noteq> CHR '':'' \<or> v ! 14 \<noteq> CHR '':'' then False
      else if \<not> list_all (\<lambda>i. char_in_digits (v ! i)) [0, 1, 2, 3, 4, 5, 6, 7] then False
      else if \<not> list_all (\<lambda>i. char_in_digits (v ! i)) [9, 10, 12, 13, 15, 16] then False
      else if 17 < length v \<and> v ! 17 \<noteq> CHR ''.'' then False
      else if 17 < length v \<and> \<not> list_all (\<lambda>i. char_in_digits (v ! i)) [18..<length v] then False
      else if 23 < to_int_at v 9 then False
      else if 59 < to_int_at v 12 then False
      else if 59 < to_int_at v 15 then False
      else if to_int_at v 4 < 1 \<or> 12 < to_int_at v 4 then False
      else if to_int_at v 6 < 1 \<or> 31 < to_int_at v 6 then False
      else True)"

definition is_time_only :: "string \<Rightarrow> bool" where
  "is_time_only v =
     (if length v < 8 then False
      else if v ! 2 \<noteq> CHR '':'' \<or> v ! 5 \<noteq> CHR '':'' then False
      else if \<not> list_all (\<lambda>i. char_in_digits (v ! i)) [0, 1, 3, 4, 6, 7] then False
      else if 8 < length v \<and> v ! 8 \<noteq> CHR ''.'' then False
      else if 8 < length v \<and> \<not> list_all (\<lambda>i. char_in_digits (v ! i)) [9..<length v] then False
      else if 23 < to_int_at v 0 then False
      else if 59 < to_int_at v 3 then False
      else if 59 < to_int_at v 6 then False
      else True)"

definition is_date_only :: "string \<Rightarrow> bool" where
  "is_date_only v =
     (if length v \<noteq> 8 then False
      else if \<not> list_all (\<lambda>i. char_in_digits (v ! i)) [0, 1, 2, 3, 4, 5, 6, 7] then False
      else if to_int_at v 4 < 1 \<or> 12 < to_int_at v 4 then False
      else if to_int_at v 6 < 1 \<or> 31 < to_int_at v 6 then False
      else True)"

subsection \<open>Digits\<close>

lemma char_in_digits_iff [simp]: "char_in_digits c \<longleftrightarrow> is_digit c"
  by (auto simp: char_in_digits_def is_digit_iff_schar)

lemma schar_digit_char: "d < 10 \<Longrightarrow> schar (digit_char d) = 48 + int d"
  using schar_digit [of "digit_char d"] by simp

definition digits2 :: "nat \<Rightarrow> string" where
  "digits2 n = [digit_char (n div 10), digit_char (n mod 10)]"

definition digits4 :: "nat \<Rightarrow> string" where
  "digits4 n = [digit_char (n div 1000 mod 10), digit_char (n div 100 mod 10),
                digit_char (n div 10 mod 10), digit_char (n mod 10)]"

definition time_stamp :: "nat \<Rightarrow> nat \<Rightarrow> nat \<Rightarrow> nat \<Rightarrow> nat \<Rightarrow> nat \<Rightarrow> string \<Rightarrow> string" where
  "time_stamp y mo d h mi s sub =
     digits4 y @ digits2 mo @ digits2 d @ ''-'' @ digits2 h @ '':'' @ digits2 mi @ '':'' @ digits2 s @ sub"

definition subsecond_part :: "string \<Rightarrow> bool" where
  "subsecond_part sub \<longleftrightarrow> sub = [] \<or> (\<exists>f. sub = CHR ''.'' # f \<and> list_all is_digit f)"

lemma int_two_digits [simp]: "int (n div 10) * 10 + int (n mod 10) = int n"
  by presburger

lemma time_stamp_nth:
  assumes "mo < 100" "d < 100" "h < 100" "mi < 100" "s < 100"
    and v_def: "v = time_stamp y mo d h mi s sub"
  shows "length v = 17 + length sub" "drop 17 v = sub"
    "v ! 8 = CHR ''-''" "v ! 11 = CHR '':''" "v ! 14 = CHR '':''"
    "list_all (\<lambda>i. is_digit (v ! i)) [0, 1, 2, 3, 4, 5, 6, 7]"
    "list_all (\<lambda>i. is_digit (v ! i)) [9, 10, 12, 13, 15, 16]"
    "to_int_at v 4 = int mo" "to_int_at v 6 = int d" "to_int_at v 9 = int h"
    "to_int_at v 12 = int mi" "to_int_at v 15 = int s"
  using assms
  by (simp_all add: v_def time_stamp_def digits2_def digits4_def to_int_at_def schar_digit_char
      less_mult_imp_div_less)

lemma digits_tail:
  "17 < length v \<Longrightarrow> v ! 17 = CHR ''.'' \<and> list_all (\<lambda>i. is_digit (v ! i)) [18..<length v] \<longleftrightarrow>
    (\<exists>f. drop 17 v = CHR ''.'' # f \<and> list_all is_digit f)"
proof -
  assume l: "17 < length v"
  then have d: "drop 17 v = v ! 17 # drop 18 v" by (simp add: Cons_nth_drop_Suc [symmetric])
  have "list_all is_digit (drop 18 v) \<longleftrightarrow> list_all is_digit (map ((!) v) [18..<length v])"
  proof -
    have "drop 18 v = map ((!) v) [18..<length v]" by (rule nth_equalityI) simp_all
    then show ?thesis by simp
  qed
  then show "v ! 17 = CHR ''.'' \<and> list_all (\<lambda>i. is_digit (v ! i)) [18..<length v] \<longleftrightarrow>
    (\<exists>f. drop 17 v = CHR ''.'' # f \<and> list_all is_digit f)"
    unfolding d by (auto simp: list_all_iff)
qed

definition digit_val :: "char \<Rightarrow> nat" where
  "digit_val c = of_char c - 48"

lemma digit_char_val: "is_digit c \<Longrightarrow> digit_char (digit_val c) = c"
  by (simp add: digit_char_def digit_val_def is_digit_def)

lemma digit_val_less: "is_digit c \<Longrightarrow> digit_val c < 10"
  by (auto simp: digit_val_def is_digit_def)

lemma digits2_val:
  "is_digit a \<Longrightarrow> is_digit b \<Longrightarrow> digits2 (10 * digit_val a + digit_val b) = [a, b]"
  using digit_val_less [of a] digit_val_less [of b]
  by (simp add: digits2_def digit_char_val)

lemma to_int_val:
  "is_digit (v ! i) \<Longrightarrow> is_digit (v ! (i + 1)) \<Longrightarrow>
     to_int_at v i = int (10 * digit_val (v ! i) + digit_val (v ! (i + 1)))"
  by (simp add: to_int_at_def schar_digit digit_val_def)

lemma is_timestamp_conj:
  "is_timestamp v \<longleftrightarrow> 17 \<le> length v \<and> v ! 8 = CHR ''-'' \<and> v ! 11 = CHR '':'' \<and> v ! 14 = CHR '':'' \<and>
     list_all (\<lambda>i. is_digit (v ! i)) [0, 1, 2, 3, 4, 5, 6, 7] \<and>
     list_all (\<lambda>i. is_digit (v ! i)) [9, 10, 12, 13, 15, 16] \<and>
     (17 < length v \<longrightarrow> v ! 17 = CHR ''.'' \<and> list_all (\<lambda>i. is_digit (v ! i)) [18..<length v]) \<and>
     to_int_at v 9 \<le> 23 \<and> to_int_at v 12 \<le> 59 \<and> to_int_at v 15 \<le> 59 \<and>
     1 \<le> to_int_at v 4 \<and> to_int_at v 4 \<le> 12 \<and> 1 \<le> to_int_at v 6 \<and> to_int_at v 6 \<le> 31"
  unfolding is_timestamp_def char_in_digits_iff
  by (simp only: if_bool_eq_conj de_Morgan_conj de_Morgan_disj not_not not_less not_False_eq_True
      simp_thms imp_conv_disj) blast

lemma is_timestamp_time_stamp:
  assumes "1 \<le> mo" "mo \<le> 12" "1 \<le> d" "d \<le> 31" "h \<le> 23" "mi \<le> 59" "s \<le> 59" "subsecond_part sub"
  shows "is_timestamp (time_stamp y mo d h mi s sub)"
proof -
  define v where "v = time_stamp y mo d h mi s sub"
  have b: "mo < 100" "d < 100" "h < 100" "mi < 100" "s < 100" using assms by linarith+
  note n = time_stamp_nth [OF b v_def]
  have "sub = [] \<or> v ! 17 = CHR ''.'' \<and> list_all (\<lambda>i. is_digit (v ! i)) [18..<length v]"
    using assms(8) digits_tail [of v] n(1,2) by (auto simp: subsecond_part_def)
  moreover have "17 < length v \<longleftrightarrow> sub \<noteq> []" using n(1) by simp
  ultimately show ?thesis
    unfolding v_def [symmetric] is_timestamp_conj n(8-12)
    using assms n(1,3-7) by (intro conjI) (simp_all, blast)
qed

lemma is_timestamp_iff:
  "is_timestamp v \<longleftrightarrow> (\<exists>y mo d h mi s sub. v = time_stamp y mo d h mi s sub \<and> 1 \<le> mo \<and> mo \<le> 12 \<and>
     1 \<le> d \<and> d \<le> 31 \<and> h \<le> 23 \<and> mi \<le> 59 \<and> s \<le> 59 \<and> subsecond_part sub)"
proof
  assume t: "is_timestamp v"
  define w where "w i = digit_val (v ! i)" for i
  from t have l: "17 \<le> length v" and sep: "v ! 8 = CHR ''-''" "v ! 11 = CHR '':''" "v ! 14 = CHR '':''"
    and dig: "list_all (\<lambda>i. is_digit (v ! i)) [0, 1, 2, 3, 4, 5, 6, 7]"
      "list_all (\<lambda>i. is_digit (v ! i)) [9, 10, 12, 13, 15, 16]"
    and tail: "17 < length v \<Longrightarrow> v ! 17 = CHR ''.'' \<and> list_all (\<lambda>i. is_digit (v ! i)) [18..<length v]"
    and rng: "to_int_at v 9 \<le> 23" "to_int_at v 12 \<le> 59" "to_int_at v 15 \<le> 59"
      "1 \<le> to_int_at v 4" "to_int_at v 4 \<le> 12" "1 \<le> to_int_at v 6" "to_int_at v 6 \<le> 31"
    unfolding is_timestamp_conj by blast+
  have sub: "subsecond_part (drop 17 v)"
    using tail digits_tail [of v] by (cases "17 < length v") (auto simp: subsecond_part_def)
  have v: "v = [v ! 0, v ! 1, v ! 2, v ! 3, v ! 4, v ! 5, v ! 6, v ! 7, v ! 8, v ! 9, v ! 10, v ! 11,
      v ! 12, v ! 13, v ! 14, v ! 15, v ! 16] @ drop 17 v"
  proof -
    have "v = map ((!) v) [0..<17] @ drop 17 v"
      using l by (intro nth_equalityI) (auto simp: nth_append)
    also have "map ((!) v) [0..<17] = [v ! 0, v ! 1, v ! 2, v ! 3, v ! 4, v ! 5, v ! 6, v ! 7, v ! 8,
       v ! 9, v ! 10, v ! 11, v ! 12, v ! 13, v ! 14, v ! 15, v ! 16]"
    proof -
      have "[0..<17] = [0, 1, 2, 3, 4, 5, 6, 7, 8, 9, 10, 11, 12, 13, 14, 15, 16 :: nat]" by code_simp
      then show ?thesis by (simp only: list.map)
    qed
    finally show ?thesis .
  qed
  have y: "digits4 (1000 * w 0 + 100 * w 1 + 10 * w 2 + w 3) = [v ! 0, v ! 1, v ! 2, v ! 3]"
  proof -
    have b: "w 0 < 10" "w 1 < 10" "w 2 < 10" "w 3 < 10" using dig by (auto simp: w_def digit_val_less)
    define n where "n = 1000 * w 0 + 100 * w 1 + 10 * w 2 + w 3"
    have "n div 1000 mod 10 = w 0" "n div 100 mod 10 = w 1" "n div 10 mod 10 = w 2" "n mod 10 = w 3"
    proof -
      define m1 where "m1 = 10 * w 0 + w 1"
      define m2 where "m2 = 10 * m1 + w 2"
      have n: "n = 10 * m2 + w 3" by (simp add: n_def m2_def m1_def)
      have "n div 10 = m2" "n mod 10 = w 3" using b by (simp_all add: n)
      moreover have "m2 div 10 = m1" "m2 mod 10 = w 2" using b by (simp_all add: m2_def)
      moreover have "m1 div 10 = w 0" "m1 mod 10 = w 1" using b by (simp_all add: m1_def)
      moreover have "n div 100 = n div 10 div 10" "n div 1000 = n div 10 div 10 div 10"
        by (simp_all add: div_mult2_eq [symmetric])
      ultimately show "n div 1000 mod 10 = w 0" "n div 100 mod 10 = w 1" "n div 10 mod 10 = w 2"
        "n mod 10 = w 3" using b by simp_all
    qed
    then show ?thesis unfolding n_def [symmetric] digits4_def
      using dig by (simp add: w_def digit_char_val)
  qed
  have two: "digits2 (10 * w 4 + w 5) = [v ! 4, v ! 5]" "digits2 (10 * w 6 + w 7) = [v ! 6, v ! 7]"
    "digits2 (10 * w 9 + w 10) = [v ! 9, v ! 10]" "digits2 (10 * w 12 + w 13) = [v ! 12, v ! 13]"
    "digits2 (10 * w 15 + w 16) = [v ! 15, v ! 16]"
    using dig by (simp_all add: w_def digits2_val)
  have "time_stamp (1000 * w 0 + 100 * w 1 + 10 * w 2 + w 3) (10 * w 4 + w 5) (10 * w 6 + w 7)
      (10 * w 9 + w 10) (10 * w 12 + w 13) (10 * w 15 + w 16) (drop 17 v) = v"
    by (subst (2) v, simp only: time_stamp_def y two append.simps sep)
  moreover have "1 \<le> 10 * w 4 + w 5" "10 * w 4 + w 5 \<le> 12" "1 \<le> 10 * w 6 + w 7" "10 * w 6 + w 7 \<le> 31"
    "10 * w 9 + w 10 \<le> 23" "10 * w 12 + w 13 \<le> 59" "10 * w 15 + w 16 \<le> 59"
    using rng dig to_int_val [of v 4] to_int_val [of v 6] to_int_val [of v 9] to_int_val [of v 12]
      to_int_val [of v 15] by (auto simp: w_def)
  ultimately show "\<exists>y mo d h mi s sub. v = time_stamp y mo d h mi s sub \<and> 1 \<le> mo \<and> mo \<le> 12 \<and>
     1 \<le> d \<and> d \<le> 31 \<and> h \<le> 23 \<and> mi \<le> 59 \<and> s \<le> 59 \<and> subsecond_part sub"
    using sub by metis
qed (auto intro: is_timestamp_time_stamp)

lemma is_numeric_digits:
  assumes "list_all is_digit v" "v \<noteq> []"
  shows "is_numeric v"
proof -
  have "is_digit (v ! 0)" using assms by (cases v) auto
  then have "v ! 0 \<noteq> CHR ''+''" "v ! 0 \<noteq> CHR ''-''" by (auto simp: is_digit_def)
  then show ?thesis
    using assms by (auto simp: is_numeric_def list_all_iff is_digit_iff_schar char_in_digits_def)
qed

subsection \<open>Properties\<close>

text \<open>C32: \<open>is_timestamp\<close> accepts exactly the strings \<open>YYYYMMDD-HH:MM:SS\<close>, optionally followed by a dot
  and digits, with a month of 1 to 12, a day of 1 to 31, an hour of at most 23 and minutes and
  seconds of at most 59.\<close>

theorem is_timestamp_grammar:
  "is_timestamp v = (\<exists>y mo d h mi s sub. v = time_stamp y mo d h mi s sub \<and> 1 \<le> mo \<and> mo \<le> 12 \<and>
     1 \<le> d \<and> d \<le> 31 \<and> h \<le> 23 \<and> mi \<le> 59 \<and> s \<le> 59 \<and> subsecond_part sub)"
  by (rule is_timestamp_iff)

end
