(* ===== verification/Clock.thy ===== *)
theory Clock
  imports Fix_String_View
begin

text \<open>
  \<open>core/os/vdso.h\<close> and the two time functions of \<open>fix_utilities.h\<close>: the UTC time stamp written into
  SendingTime, and the age check of a received one. The system clock is an argument (nanoseconds
  since the epoch); \<open>gmtime_r\<close> and \<open>timegm\<close> are the C library's proleptic Gregorian calendar, written
  as a year loop and a month loop, and as a closed formula.
\<close>

datatype SubsecondPrecision = NANOSECONDS | MICROSECONDS | MILLISECONDS | NONE

definition string_to_subsecond_precision :: "string \<Rightarrow> SubsecondPrecision" where
  "string_to_subsecond_precision val =
     (if val = ''NANO'' then NANOSECONDS
      else if val = ''MICRO'' then MICROSECONDS
      else if val = ''MILLI'' then MILLISECONDS
      else NONE)"

record tm =
  tm_year :: int
  tm_mon :: int
  tm_mday :: int
  tm_hour :: int
  tm_min :: int
  tm_sec :: int

definition leap_year :: "nat \<Rightarrow> bool" where
  "leap_year y \<longleftrightarrow> y mod 4 = 0 \<and> (y mod 100 \<noteq> 0 \<or> y mod 400 = 0)"

definition month_lengths :: "bool \<Rightarrow> nat list" where
  "month_lengths leap = [31, if leap then 29 else 28, 31, 30, 31, 30, 31, 31, 30, 31, 30, 31]"

definition year_length :: "nat \<Rightarrow> nat" where
  "year_length y = (if leap_year y then 366 else 365)"

function year_loop :: "nat \<Rightarrow> nat \<Rightarrow> nat \<times> nat" where
  "year_loop y d = (if d < year_length y then (y, d) else year_loop (y + 1) (d - year_length y))"
  by auto
termination
  by (relation "measure snd") (auto simp: year_length_def)

declare year_loop.simps [simp del]

fun month_loop :: "nat list \<Rightarrow> nat \<Rightarrow> nat \<Rightarrow> nat \<times> nat" where
  "month_loop [] m d = (m, d)"
| "month_loop (l # ls) m d = (if d < l then (m, d) else month_loop ls (m + 1) (d - l))"

definition gmtime :: "nat \<Rightarrow> tm" where
  "gmtime t =
     (let days = t div 86400; secs = t mod 86400;
          (y, yday) = year_loop 1970 days;
          (m, mday) = month_loop (month_lengths (leap_year y)) 0 yday
      in \<lparr>tm_year = int y - 1900, tm_mon = int m, tm_mday = int mday + 1,
          tm_hour = int (secs div 3600), tm_min = int (secs div 60 mod 60), tm_sec = int (secs mod 60)\<rparr>)"

definition leaps_before :: "int \<Rightarrow> int" where
  "leaps_before y = (y - 1) div 4 - (y - 1) div 100 + (y - 1) div 400"

definition days_before_year :: "int \<Rightarrow> int" where
  "days_before_year y = 365 * (y - 1970) + leaps_before y - 477"

definition leap_year_int :: "int \<Rightarrow> bool" where
  "leap_year_int y \<longleftrightarrow> y mod 4 = 0 \<and> (y mod 100 \<noteq> 0 \<or> y mod 400 = 0)"

definition timegm :: "tm \<Rightarrow> int" where
  "timegm t =
     (let y = tm_year t + 1900 + tm_mon t div 12;
          m = nat (tm_mon t mod 12);
          days = days_before_year y + int (sum_list (take m (month_lengths (leap_year_int y)))) + tm_mday t - 1
      in ((days * 24 + tm_hour t) * 60 + tm_min t) * 60 + tm_sec t)"

definition get_datetime_as_string :: "SubsecondPrecision \<Rightarrow> nat \<Rightarrow> string" where
  "get_datetime_as_string precision now =
     (let t = gmtime (now div 1000000000);
          subseconds = (case precision of
              NANOSECONDS \<Rightarrow> now mod 1000000000
            | MICROSECONDS \<Rightarrow> now div 1000 mod 1000000
            | MILLISECONDS \<Rightarrow> now div 1000000 mod 1000
            | NONE \<Rightarrow> 0);
          divisors = (case precision of
              NANOSECONDS \<Rightarrow> [100000000, 10000000, 1000000, 100000, 10000, 1000, 100, 10, 1]
            | MICROSECONDS \<Rightarrow> [100000, 10000, 1000, 100, 10, 1]
            | MILLISECONDS \<Rightarrow> [100, 10, 1]
            | NONE \<Rightarrow> [])
      in digits4 (nat (tm_year t + 1900)) @ digits2 (nat (tm_mon t + 1)) @ digits2 (nat (tm_mday t)) @
         ''-'' @ digits2 (nat (tm_hour t)) @ '':'' @ digits2 (nat (tm_min t)) @ '':'' @
         digits2 (nat (tm_sec t)) @
         (if precision = NONE then ''''
          else ''.'' @ map (\<lambda>i. digit_char (subseconds div i mod 10)) divisors))"

definition TIME_LENGTHS :: "SubsecondPrecision \<Rightarrow> nat" where
  "TIME_LENGTHS precision =
     (case precision of NANOSECONDS \<Rightarrow> 27 | MICROSECONDS \<Rightarrow> 24 | MILLISECONDS \<Rightarrow> 21 | NONE \<Rightarrow> 17)"

definition encode_current_time :: "SubsecondPrecision \<Rightarrow> nat \<Rightarrow> string" where
  "encode_current_time precision now =
     take (TIME_LENGTHS precision) (get_datetime_as_string precision now @ [CHR 0x00])"

definition to_int_4 :: "string \<Rightarrow> nat \<Rightarrow> int" where
  "to_int_4 s i = (schar (s ! i) - 48) * 1000 + (schar (s ! (i + 1)) - 48) * 100 +
     (schar (s ! (i + 2)) - 48) * 10 + (schar (s ! (i + 3)) - 48)"

text \<open>The callers pass a value of at least 17 characters (\<open>is_timestamp\<close> was checked before).\<close>

definition is_utc_timestamp_stale :: "string \<Rightarrow> int \<Rightarrow> nat \<Rightarrow> bool" where
  "is_utc_timestamp_stale value max_allowed_age_seconds now =
     (let msg_time = timegm \<lparr>tm_year = to_int_4 value 0 - 1900, tm_mon = to_int_at value 4 - 1,
            tm_mday = to_int_at value 6, tm_hour = to_int_at value 9, tm_min = to_int_at value 12,
            tm_sec = to_int_at value 15\<rparr>
      in if msg_time = -1 then True
         else max_allowed_age_seconds < int (now div 1000000000) - msg_time)"

definition get_time_utc :: "nat \<Rightarrow> int \<times> int" where
  "get_time_utc now = (let t = gmtime (now div 1000000000) in (tm_hour t, tm_min t))"

text \<open>The first of January 1970 was a Thursday; \<open>tm_wday\<close> counts from Sunday.\<close>

definition get_utc_current_weekday_number :: "nat \<Rightarrow> int" where
  "get_utc_current_weekday_number now =
     (let wday = (now div 1000000000 div 86400 + 4) mod 7 in if wday = 0 then 7 else int wday)"

subsection \<open>The calendar\<close>

lemma leap_year_int [simp]: "leap_year_int (int y) = leap_year y"
  unfolding leap_year_int_def leap_year_def by presburger

lemma div_step: "0 < k \<Longrightarrow> y div k - (y - 1) div k = (if y mod k = 0 then 1 else (0::int))"
proof -
  assume k: "0 < k"
  show ?thesis
  proof (cases "y mod k = 0")
    case True
    then obtain q where "y = k * q" by (auto simp: mod_eq_0_iff_dvd)
    moreover have "(k * q - 1) div k = q - 1"
      using k by (intro int_div_pos_eq [where r = "k - 1"]) (auto simp: algebra_simps)
    ultimately show ?thesis using k by simp
  next
    case False
    have "0 \<le> y mod k" "y mod k < k" using k by simp_all
    with False have r: "0 < y mod k" "y mod k < k" by linarith+
    have "(y - 1) div k = y div k"
      by (rule int_div_pos_eq [where r = "y mod k - 1"]) (use r in \<open>simp_all add: algebra_simps\<close>)
    then show ?thesis using False by simp
  qed
qed

lemma div_step_nat:
  "0 < k \<Longrightarrow> int y div int k - (int y - 1) div int k = (if y mod k = 0 then 1 else 0)"
  by (simp only: div_step of_nat_0_less_iff zmod_int [symmetric] of_nat_eq_0_iff)

lemma diff_sum3:
  "a - a' = p \<Longrightarrow> b - b' = q \<Longrightarrow> c - c' = r \<Longrightarrow> (a - b + c) - (a' - b' + c') = p - q + (r :: int)"
  by simp

lemma days_before_year_Suc:
  "days_before_year (int (Suc y)) = days_before_year (int y) + int (year_length y)"
proof -
  have "y mod 100 = 0 \<Longrightarrow> y mod 4 = 0" "y mod 400 = 0 \<Longrightarrow> y mod 100 = 0" by presburger+
  moreover have "leaps_before (int y + 1) - leaps_before (int y) = (if y mod 4 = 0 then 1 else 0) -
      (if y mod 100 = 0 then 1 else 0) + (if y mod 400 = 0 then 1 else 0)"
  proof -
    have l: "leaps_before (int y + 1) = int y div 4 - int y div 100 + int y div 400"
      by (simp add: leaps_before_def)
    have d: "int y div 4 - (int y - 1) div 4 = (if y mod 4 = 0 then 1 else 0)"
      "int y div 100 - (int y - 1) div 100 = (if y mod 100 = 0 then 1 else 0)"
      "int y div 400 - (int y - 1) div 400 = (if y mod 400 = 0 then 1 else 0)"
      using div_step_nat [of 4 y] div_step_nat [of 100 y] div_step_nat [of 400 y]
      by (simp_all only: of_nat_numeral zero_less_numeral simp_thms)
    show ?thesis unfolding l leaps_before_def [of "int y"] by (rule diff_sum3 [OF d])
  qed
  ultimately have "leaps_before (int y + 1) - leaps_before (int y) = (if leap_year y then 1 else 0)"
    by (auto simp: leap_year_def)
  then show ?thesis by (auto simp: days_before_year_def year_length_def add.commute split: if_splits)
qed

lemma year_loop_inv:
  "year_loop y d = (y', d') \<Longrightarrow>
     days_before_year (int y') + int d' = days_before_year (int y) + int d \<and> d' < year_length y' \<and> y \<le> y'"
proof (induction y d rule: year_loop.induct)
  case (1 y d)
  show ?case
  proof (cases "d < year_length y")
    case True
    with 1(2) show ?thesis by (simp add: year_loop.simps [of y d])
  next
    case False
    with 1(2) have "year_loop (y + 1) (d - year_length y) = (y', d')"
      by (simp add: year_loop.simps [of y d])
    from 1(1) [OF False this] False days_before_year_Suc [of y] show ?thesis by auto
  qed
qed

lemma month_loop_inv:
  "month_loop ls m d = (m', d') \<Longrightarrow> d < sum_list ls \<Longrightarrow>
     m \<le> m' \<and> m' < m + length ls \<and> sum_list (take (m' - m) ls) + d' = d \<and> d' < ls ! (m' - m)"
proof (induction ls m d rule: month_loop.induct)
  case (2 l ls m d)
  show ?case
  proof (cases "d < l")
    case True
    with 2 show ?thesis by auto
  next
    case False
    with 2 have ih: "m + 1 \<le> m' \<and> m' < m + 1 + length ls \<and> sum_list (take (m' - (m + 1)) ls) + d' = d - l \<and>
        d' < ls ! (m' - (m + 1))" by simp
    then have "m' - m = Suc (m' - (m + 1))" by linarith
    with ih False show ?thesis by auto
  qed
qed simp

lemma sum_month_lengths: "sum_list (month_lengths (leap_year y)) = year_length y"
  by (simp add: month_lengths_def year_length_def)

lemma month_length_le: "m < 12 \<Longrightarrow> month_lengths b ! m \<le> 31"
proof -
  have "list_all (\<lambda>m. month_lengths b ! m \<le> 31) [0..<12]"
    by (simp add: month_lengths_def upt_rec_numeral numeral_eq_Suc) 
  then show "m < 12 \<Longrightarrow> month_lengths b ! m \<le> 31" by (simp add: list_all_iff)
qed

lemma days_before_year_mono: "y \<le> y' \<Longrightarrow> days_before_year (int y) \<le> days_before_year (int y')"
  by (induction rule: dec_induct) (simp_all add: days_before_year_Suc del: of_nat_Suc)

text \<open>The broken-down time of an instant: valid fields, and \<open>timegm\<close> is its inverse.\<close>

lemma gmtime_fields:
  obtains y m d h mi s where
    "gmtime t = \<lparr>tm_year = int y - 1900, tm_mon = int m, tm_mday = int d, tm_hour = int h,
       tm_min = int mi, tm_sec = int s\<rparr>"
    "1970 \<le> y" "m < 12" "1 \<le> d" "d \<le> 31" "h \<le> 23" "mi \<le> 59" "s \<le> 59"
    "days_before_year (int y) + int (sum_list (take m (month_lengths (leap_year y)))) + int d - 1
      = int (t div 86400)"
    "(h * 60 + mi) * 60 + s = t mod 86400"
proof -
  obtain y yday where yl: "year_loop 1970 (t div 86400) = (y, yday)" by force
  obtain m mday where ml: "month_loop (month_lengths (leap_year y)) 0 yday = (m, mday)" by force
  have y: "days_before_year (int y) + int yday = int (t div 86400)" "yday < year_length y" "1970 \<le> y"
    using year_loop_inv [OF yl] by (simp_all add: days_before_year_def leaps_before_def)
  have m: "m < 12" "sum_list (take m (month_lengths (leap_year y))) + mday = yday"
      "mday < month_lengths (leap_year y) ! m"
    using month_loop_inv [OF ml] y(2) by (simp_all add: sum_month_lengths) (simp add: month_lengths_def)
  define secs where "secs = t mod 86400"
  have secs: "secs < 86400" by (simp add: secs_def)
  have "secs div 3600 = secs div 60 div 60" by (simp add: div_mult2_eq [symmetric])
  then have eq: "(secs div 3600 * 60 + secs div 60 mod 60) * 60 + secs mod 60 = t mod 86400"
    unfolding secs_def [symmetric] by simp
  have "secs div 3600 < 24" using secs by (simp add: less_mult_imp_div_less)
  then have hms: "secs div 3600 \<le> 23" "secs div 60 mod 60 \<le> 59" "secs mod 60 \<le> 59"
    by (simp_all add: less_Suc_eq_le [symmetric])
  have g: "gmtime t = \<lparr>tm_year = int y - 1900, tm_mon = int m, tm_mday = int (mday + 1),
      tm_hour = int (secs div 3600), tm_min = int (secs div 60 mod 60), tm_sec = int (secs mod 60)\<rparr>"
    by (simp only: gmtime_def yl ml secs_def Let_def prod.case of_nat_add of_nat_1)
  have d: "1 \<le> mday + 1" "mday + 1 \<le> 31"
    using m(3) month_length_le [OF m(1), of "leap_year y"] by linarith+
  have "days_before_year (int y) + int (sum_list (take m (month_lengths (leap_year y)))) + int (mday + 1) - 1
      = int (t div 86400)"
    unfolding y(1) [symmetric] m(2) [symmetric] by simp
  from that [OF g y(3) m(1) d hms this eq] show ?thesis .
qed

lemma timegm_gmtime: "timegm (gmtime t) = int t"
proof -
  obtain y m d h mi s where g:
    "gmtime t = \<lparr>tm_year = int y - 1900, tm_mon = int m, tm_mday = int d, tm_hour = int h,
       tm_min = int mi, tm_sec = int s\<rparr>" "m < 12"
    "days_before_year (int y) + int (sum_list (take m (month_lengths (leap_year y)))) + int d - 1
      = int (t div 86400)"
    "(h * 60 + mi) * 60 + s = t mod 86400" by (rule gmtime_fields)
  have "int m div 12 = 0" "nat (int m mod 12) = m" using g(2) by (simp_all add: nat_mod_distrib)
  then have "timegm (gmtime t) = ((int (t div 86400) * 24 + int h) * 60 + int mi) * 60 + int s"
    unfolding timegm_def g(1) Let_def using g(3) by simp
  also have "\<dots> = int (t div 86400) * 86400 + int ((h * 60 + mi) * 60 + s)"
    by (simp add: algebra_simps)
  also have "\<dots> = int t" unfolding g(4) by (metis div_mult_mod_eq of_nat_add of_nat_mult of_nat_numeral)
  finally show ?thesis .
qed

lemma length_datetime: "length (get_datetime_as_string p now) = TIME_LENGTHS p"
  by (cases p) (simp_all add: get_datetime_as_string_def TIME_LENGTHS_def digits2_def digits4_def Let_def)

lemma encode_current_time_eq: "encode_current_time p now = get_datetime_as_string p now"
  using length_datetime [of p now] by (simp add: encode_current_time_def)

lemma encode_current_time_stamp:
  obtains y m d h mi s sub where
    "encode_current_time p now = time_stamp y (m + 1) d h mi s sub" "subsecond_part sub"
    "gmtime (now div 1000000000) = \<lparr>tm_year = int y - 1900, tm_mon = int m, tm_mday = int d,
       tm_hour = int h, tm_min = int mi, tm_sec = int s\<rparr>"
    "m < 12" "1 \<le> d" "d \<le> 31" "h \<le> 23" "mi \<le> 59" "s \<le> 59"
    "days_before_year (int y) \<le> int (now div 1000000000 div 86400)"
proof -
  obtain y m d h mi s where g:
    "gmtime (now div 1000000000) = \<lparr>tm_year = int y - 1900, tm_mon = int m, tm_mday = int d,
       tm_hour = int h, tm_min = int mi, tm_sec = int s\<rparr>"
    "m < 12" "1 \<le> d" "d \<le> 31" "h \<le> 23" "mi \<le> 59" "s \<le> 59"
    "days_before_year (int y) + int (sum_list (take m (month_lengths (leap_year y)))) + int d - 1
      = int (now div 1000000000 div 86400)"
    by (rule gmtime_fields)
  define sub where "sub = drop 17 (get_datetime_as_string p now)"
  have "get_datetime_as_string p now = time_stamp y (m + 1) d h mi s sub \<and> subsecond_part sub"
    by (cases p) (simp_all add: get_datetime_as_string_def g(1) time_stamp_def Let_def sub_def
        digits2_def digits4_def subsecond_part_def nat_add_distrib)
  with g that [of y m d h mi s sub] show ?thesis by (simp add: encode_current_time_eq)
qed

lemma to_int_4_digits4: "y < 10000 \<Longrightarrow> to_int_4 (digits4 y @ tail) 0 = int y"
proof -
  assume y: "y < 10000"
  define a b c where "a = y div 10" and "b = a div 10" and "c = b div 10"
  define p q r where "p = y mod 10" and "q = a mod 10" and "r = b mod 10"
  have d: "y div 100 = b" "y div 1000 = c"
    by (simp_all add: a_def b_def c_def div_mult2_eq [symmetric])
  have "c < 10" unfolding d(2) [symmetric] using y by (simp add: less_mult_imp_div_less)
  then have m: "c mod 10 = c" by simp
  have "y = 10 * a + p" "a = 10 * b + q" "b = 10 * c + r"
    by (simp_all add: a_def b_def c_def p_def q_def r_def)
  then have "int c * 1000 + int r * 100 + int q * 10 + int p = int y" by simp
  moreover have "p < 10" "q < 10" "r < 10" by (simp_all add: p_def q_def r_def)
  moreover note \<open>c < 10\<close>
  ultimately have "int c * 1000 + int r * 100 + int q * 10 + int p = int y" "schar (digit_char c) = 48 + int c"
    "schar (digit_char r) = 48 + int r" "schar (digit_char q) = 48 + int q" "schar (digit_char p) = 48 + int p"
    by (simp_all only: schar_digit_char)
  then show "to_int_4 (digits4 y @ tail) 0 = int y"
    by (simp add: to_int_4_def digits4_def d m a_def [symmetric] b_def [symmetric]
        p_def [symmetric] q_def [symmetric] r_def [symmetric])
qed

lemma stamped_time:
  assumes "now div 1000000000 < 253402300800"
  shows "is_timestamp (encode_current_time p now)"
    and "is_utc_timestamp_stale (encode_current_time p now) age later \<longleftrightarrow>
           age < int (later div 1000000000) - int (now div 1000000000)"
proof -
  obtain y m d h mi s sub where g:
    "encode_current_time p now = time_stamp y (m + 1) d h mi s sub" "subsecond_part sub"
    "gmtime (now div 1000000000) = \<lparr>tm_year = int y - 1900, tm_mon = int m, tm_mday = int d,
       tm_hour = int h, tm_min = int mi, tm_sec = int s\<rparr>"
    "m < 12" "1 \<le> d" "d \<le> 31" "h \<le> 23" "mi \<le> 59" "s \<le> 59"
    "days_before_year (int y) \<le> int (now div 1000000000 div 86400)"
    by (rule encode_current_time_stamp)
  show "is_timestamp (encode_current_time p now)"
    unfolding g(1) using g by (intro is_timestamp_time_stamp) auto
  have "now div 1000000000 div 86400 < 2932897"
    using assms by (simp add: less_mult_imp_div_less)
  then have "days_before_year (int y) < 2932897" using g(10) by linarith
  moreover have "days_before_year (int 10000) = 2932897"
    by (simp add: days_before_year_def leaps_before_def)
  ultimately have y: "y < 10000"
    using days_before_year_mono [of 10000 y] by (cases "y < 10000") (simp_all del: of_nat_numeral)
  define v where "v = time_stamp y (m + 1) d h mi s sub"
  have b: "m + 1 < 100" "d < 100" "h < 100" "mi < 100" "s < 100" using g by linarith+
  have "\<lparr>tm_year = to_int_4 v 0 - 1900, tm_mon = to_int_at v 4 - 1, tm_mday = to_int_at v 6,
      tm_hour = to_int_at v 9, tm_min = to_int_at v 12, tm_sec = to_int_at v 15\<rparr> = gmtime (now div 1000000000)"
    unfolding g(3) using time_stamp_nth [OF b v_def] to_int_4_digits4 [OF y] by (simp add: v_def time_stamp_def)
  then show "is_utc_timestamp_stale (encode_current_time p now) age later \<longleftrightarrow>
      age < int (later div 1000000000) - int (now div 1000000000)"
    unfolding is_utc_timestamp_stale_def g(1) v_def [symmetric] Let_def by (simp only: timegm_gmtime) simp
qed

subsection \<open>Properties\<close>

text \<open>C31: up to the year 9999, the SendingTime a session writes passes the peer's timestamp format
  check, and the peer's age check rejects it exactly when it is older, in whole seconds, than the
  allowed age; in particular the calendar arithmetic of both sides agrees across leap years.\<close>

theorem sending_time_accepted_until_stale:
  assumes "now div 1000000000 < 253402300800"
  shows "is_timestamp (encode_current_time p now) \<and>
    (is_utc_timestamp_stale (encode_current_time p now) age later \<longleftrightarrow>
       age < int (later div 1000000000) - int (now div 1000000000))"
  using stamped_time [OF assms] by blast

theorem sending_time_accepted_until_stale_witness:
  "is_timestamp (encode_current_time MILLISECONDS 1709208000123000000) \<and>
    (is_utc_timestamp_stale (encode_current_time MILLISECONDS 1709208000123000000) 60 1709208100000000000
      \<longleftrightarrow> 60 < int (1709208100000000000 div 1000000000) - int (1709208000123000000 div 1000000000))"
  by (rule sending_time_accepted_until_stale) simp

end
