(* ===== verification/Incoming_Message.thy ===== *)
theory Incoming_Message
  imports Hash_Dictionary Fix_Utilities Fix_String_View
begin

text \<open>
  \<open>incoming_fix_repeating_group_specs.h\<close>, \<open>incoming_fix_repeating_groups.h\<close> and
  \<open>incoming_fix_message.h\<close>: the parsed message. Tag values live in the hash dictionary together with
  the generation they were set in; \<open>reset\<close> starts a new generation instead of clearing the table.
  A \<open>FixStringView*\<close> is the string it denotes. The iteration order of an \<open>unordered_map\<close> is not
  observed; the specifications are lists of the pairs and triples they contain. \<^term>\<open>None\<close> is
  undefined behaviour (a message type longer than four characters cannot be packed) or, for a value
  read without its tag, the exception \<open>operator[]\<close> throws.
\<close>

subsection \<open>Repeating group specifications\<close>

record group_specs =
  m_count_tags :: "(u32 \<times> u32) list"
  m_repeating_group_tags :: "(u32 \<times> u32 \<times> u32) list"

definition no_group_specs :: group_specs where
  "no_group_specs = \<lparr>m_count_tags = [], m_repeating_group_tags = []\<rparr>"

definition add_count_tag :: "string \<Rightarrow> u32 \<Rightarrow> group_specs \<Rightarrow> group_specs option" where
  "add_count_tag message_type tag specs =
     (case pack_message_type message_type of
        None \<Rightarrow> None
      | Some encoded \<Rightarrow>
          if (encoded, tag) \<in> set (m_count_tags specs) then Some specs
          else Some (specs\<lparr>m_count_tags := m_count_tags specs @ [(encoded, tag)]\<rparr>))"

definition add_repeating_group_tag :: "string \<Rightarrow> u32 \<Rightarrow> u32 \<Rightarrow> group_specs \<Rightarrow> group_specs option" where
  "add_repeating_group_tag message_type count_tag tag specs =
     (case pack_message_type message_type of
        None \<Rightarrow> None
      | Some encoded \<Rightarrow>
          if (encoded, count_tag, tag) \<in> set (m_repeating_group_tags specs) then Some specs
          else Some (specs\<lparr>m_repeating_group_tags :=
                 m_repeating_group_tags specs @ [(encoded, count_tag, tag)]\<rparr>))"

fun add_repeating_group_tags :: "string \<Rightarrow> u32 \<Rightarrow> u32 list \<Rightarrow> group_specs \<Rightarrow> group_specs option" where
  "add_repeating_group_tags message_type count_tag [] specs = Some specs"
| "add_repeating_group_tags message_type count_tag (t # ts) specs =
     (case add_repeating_group_tag message_type count_tag t specs of
        None \<Rightarrow> None
      | Some specs' \<Rightarrow> add_repeating_group_tags message_type count_tag ts specs')"

definition specify_repeating_group :: "string \<Rightarrow> u32 \<Rightarrow> u32 list \<Rightarrow> group_specs \<Rightarrow> group_specs option" where
  "specify_repeating_group message_type count_tag rest specs =
     (case add_count_tag message_type count_tag specs of
        None \<Rightarrow> None
      | Some specs' \<Rightarrow> add_repeating_group_tags message_type count_tag rest specs')"

definition is_a_repeating_group_tag :: "group_specs \<Rightarrow> u32 \<Rightarrow> u32 \<Rightarrow> u32 \<Rightarrow> bool" where
  "is_a_repeating_group_tag specs encoded_msg_type count_tag tag \<longleftrightarrow>
     (encoded_msg_type, count_tag, tag) \<in> set (m_repeating_group_tags specs)"

definition is_a_repeating_group_count_tag :: "group_specs \<Rightarrow> u32 \<Rightarrow> u32 \<Rightarrow> bool" where
  "is_a_repeating_group_count_tag specs encoded_msg_type tag \<longleftrightarrow>
     (encoded_msg_type, tag) \<in> set (m_count_tags specs)"

subsection \<open>Repeating group values\<close>

text \<open>The pairs before \<open>m_pointer\<close>; the vector always has a slot at \<open>m_pointer\<close>.\<close>

type_synonym repeating_groups = "(u32 \<times> string) list"

definition groups_set :: "u32 \<Rightarrow> string \<Rightarrow> repeating_groups \<Rightarrow> repeating_groups" where
  "groups_set tag v g = g @ [(tag, v)]"

definition groups_get_value :: "repeating_groups \<Rightarrow> u32 \<Rightarrow> nat \<Rightarrow> string option" where
  "groups_get_value g tag index =
     (let vs = map snd (filter (\<lambda>p. fst p = tag) g)
      in if index < length vs then Some (vs ! index) else None)"

definition groups_has_tag :: "repeating_groups \<Rightarrow> u32 \<Rightarrow> bool" where
  "groups_has_tag g tag \<longleftrightarrow> (\<exists>p \<in> set g. fst p = tag)"

text \<open>The result pairs the verdict with the reject code, unchanged on success.\<close>

fun count_tag_loop :: "repeating_groups \<Rightarrow> u32 \<Rightarrow> nat \<Rightarrow> nat option" where
  "count_tag_loop [] tag appearance = Some appearance"
| "count_tag_loop ((t, v) # ps) tag appearance =
     (if t = tag then
        (if is_numeric v then count_tag_loop ps tag (appearance + 1) else None)
      else count_tag_loop ps tag appearance)"

definition groups_validate_count_tag :: "repeating_groups \<Rightarrow> u32 \<Rightarrow> u32 \<Rightarrow> bool \<times> u32" where
  "groups_validate_count_tag g tag code =
     (case count_tag_loop g tag 0 of
        None \<Rightarrow> (False, FIX_ERROR_CODE_FORMAT_INCORRECT_FOR_TAG)
      | Some appearance \<Rightarrow>
          if appearance = 1 then (True, code)
          else if 1 < appearance then (False, FIX_ERROR_CODE_TAG_APPEARS_MORE_THAN_ONCE)
          else (False, FIX_ERROR_CODE_REQUIRED_TAG_MISSING))"

subsection \<open>The message\<close>

record incoming_message =
  m_generation_id :: u64
  m_dict :: "(string \<times> u64) dictionary"
  m_repeating_groups :: repeating_groups

definition new_incoming_message :: incoming_message where
  "new_incoming_message =
     \<lparr>m_generation_id = 1, m_dict = empty_dictionary, m_repeating_groups = []\<rparr>"

definition incoming_initialise :: "incoming_message \<Rightarrow> incoming_message option" where
  "incoming_initialise m =
     (case dict_initialise 64 (m_dict m) of None \<Rightarrow> None | Some d \<Rightarrow> Some (m\<lparr>m_dict := d\<rparr>))"

definition has_tag :: "incoming_message \<Rightarrow> u32 \<Rightarrow> bool" where
  "has_tag m tag =
     (if has_key (m_dict m) tag then
        (case dict_get (m_dict m) tag of
           None \<Rightarrow> False
         | Some (v, generation) \<Rightarrow> generation = m_generation_id m)
      else False)"

definition set_tag :: "u32 \<Rightarrow> string \<Rightarrow> incoming_message \<Rightarrow> incoming_message option" where
  "set_tag tag v m =
     (let node = (v, m_generation_id m)
      in if has_key (m_dict m) tag then
           Some (m\<lparr>m_dict := fst (set_existing_item tag node (m_dict m))\<rparr>)
         else (case dict_insert tag node (m_dict m) of
                 None \<Rightarrow> None
               | Some d \<Rightarrow> Some (m\<lparr>m_dict := d\<rparr>)))"

definition set_repeating_group_tag :: "u32 \<Rightarrow> string \<Rightarrow> incoming_message \<Rightarrow> incoming_message" where
  "set_repeating_group_tag tag v m =
     m\<lparr>m_repeating_groups := groups_set tag v (m_repeating_groups m)\<rparr>"

definition reset_message :: "incoming_message \<Rightarrow> incoming_message" where
  "reset_message m =
     (let g = m_generation_id m + 1
      in if g = 0 then
           m\<lparr>m_generation_id := 1, m_dict := dict_map_values (\<lambda>(v, _). (v, 0)) (m_dict m),
             m_repeating_groups := []\<rparr>
         else m\<lparr>m_generation_id := g, m_repeating_groups := []\<rparr>)"

fun copy_tags :: "(string \<times> u64) dnode list \<Rightarrow> incoming_message \<Rightarrow> incoming_message \<Rightarrow>
    incoming_message option" where
  "copy_tags [] other m = Some m"
| "copy_tags (n # ns) other m =
     (if has_tag other (nkey n) then
        (case set_tag (nkey n) (fst (nval n)) m of None \<Rightarrow> None | Some m' \<Rightarrow> copy_tags ns other m')
      else copy_tags ns other m)"

definition copy_non_dirty_tag_values_from :: "incoming_message \<Rightarrow> incoming_message \<Rightarrow>
    incoming_message option" where
  "copy_non_dirty_tag_values_from other m =
     (case copy_tags (nodes (m_dict other)) other m of
        None \<Rightarrow> None
      | Some m' \<Rightarrow> Some (m'\<lparr>m_repeating_groups :=
          fold (\<lambda>(t, v). groups_set t v) (m_repeating_groups other) (m_repeating_groups m')\<rparr>))"

definition get_tag_value :: "incoming_message \<Rightarrow> u32 \<Rightarrow> string option" where
  "get_tag_value m tag = map_option fst (dict_get (m_dict m) tag)"

text \<open>\<open>get_tag_value_as<std::string>\<close> where the caller has tested the tag; an absent key throws, which
  the model reads as the empty value.\<close>

definition tag_value :: "incoming_message \<Rightarrow> u32 \<Rightarrow> string" where
  "tag_value m tag = (case get_tag_value m tag of None \<Rightarrow> [] | Some v \<Rightarrow> v)"

text \<open>\<open>get_tag_value_as<char>\<close>: an empty value is followed by the delimiter.\<close>

definition tag_char :: "incoming_message \<Rightarrow> u32 \<Rightarrow> char" where
  "tag_char m tag = (case tag_value m tag of [] \<Rightarrow> SOH | c # _ \<Rightarrow> c)"

definition tag_bool :: "incoming_message \<Rightarrow> u32 \<Rightarrow> bool" where
  "tag_bool m tag \<longleftrightarrow> tag_char m tag = CHR ''Y''"

definition tag_u32 :: "incoming_message \<Rightarrow> u32 \<Rightarrow> u32" where
  "tag_u32 m tag = chars_to_unsigned_int (tag_value m tag)"

definition is_tag_value_numeric :: "incoming_message \<Rightarrow> u32 \<Rightarrow> bool" where
  "is_tag_value_numeric m tag = is_numeric (tag_value m tag)"

definition validate_count_tag :: "incoming_message \<Rightarrow> u32 \<Rightarrow> u32 \<Rightarrow> bool \<times> u32" where
  "validate_count_tag m tag code = groups_validate_count_tag (m_repeating_groups m) tag code"

text \<open>The iterator over the current generation.\<close>

definition live_tags :: "incoming_message \<Rightarrow> (u32 \<times> string) list" where
  "live_tags m = map (\<lambda>n. (nkey n, fst (nval n)))
     (filter (\<lambda>n. snd (nval n) = m_generation_id m) (nodes (m_dict m)))"

subsection \<open>The message as a map\<close>

definition message_view :: "incoming_message \<Rightarrow> u32 \<rightharpoonup> string" where
  "message_view m t =
     (case dict_get (m_dict m) t of
        None \<Rightarrow> None
      | Some (v, g) \<Rightarrow> if g = m_generation_id m then Some v else None)"

text \<open>No entry carries a generation of the future.\<close>

definition message_wf :: "incoming_message \<Rightarrow> bool" where
  "message_wf m \<longleftrightarrow> dict_wf (m_dict m) \<and> 1 \<le> m_generation_id m \<and>
     (\<forall>t v g. dict_get (m_dict m) t = Some (v, g) \<longrightarrow> g \<le> m_generation_id m)"

lemma has_tag_view [msg_simps]: "has_tag m t \<longleftrightarrow> message_view m t \<noteq> None"
  by (auto simp: has_tag_def message_view_def has_key_def dict_get_def split: option.splits prod.splits)

lemma tag_value_view [msg_simps]: "message_view m t = Some v \<Longrightarrow> tag_value m t = v"
  by (auto simp: tag_value_def get_tag_value_def message_view_def split: option.splits prod.splits if_splits)

lemma set_tag_upsert:
  "set_tag t v m = map_option (\<lambda>d. m\<lparr>m_dict := d\<rparr>) (dict_upsert t (v, m_generation_id m) (m_dict m))"
  by (simp add: set_tag_def dict_upsert_def Let_def split: option.splits)

lemma set_tag_wf:
  assumes "message_wf m"
  obtains m' where "set_tag t v m = Some m'" "message_wf m'" "message_view m' = (message_view m)(t \<mapsto> v)"
    "m_repeating_groups m' = m_repeating_groups m" "m_generation_id m' = m_generation_id m"
proof -
  have wf: "dict_wf (m_dict m)" using assms by (simp add: message_wf_def)
  obtain d where d: "dict_upsert t (v, m_generation_id m) (m_dict m) = Some d" "dict_wf d"
    "dict_get d t = Some (v, m_generation_id m)"
    "\<And>k. k \<noteq> t \<Longrightarrow> dict_get d k = dict_get (m_dict m) k"
    using dictionary.upsertE [OF wf, where k = t and v = "(v, m_generation_id m)"] by metis
  have g: "g \<le> m_generation_id m" if "dict_get d k = Some (w, g)" for k w g
    using that d(3,4) assms by (cases "k = t") (auto simp: message_wf_def)
  have "message_view (m\<lparr>m_dict := d\<rparr>) = (message_view m)(t \<mapsto> v)"
    by (rule ext) (simp add: message_view_def d(3,4) split: option.splits)
  with d g assms show ?thesis
    by (intro that [of "m\<lparr>m_dict := d\<rparr>"]) (auto simp: set_tag_upsert message_wf_def)
qed

lemma reset_message_wf:
  assumes "message_wf m"
  shows "message_wf (reset_message m)" "message_view (reset_message m) = Map.empty"
    "m_repeating_groups (reset_message m) = []"
proof -
  have wf: "dict_wf (m_dict m)" and pos: "1 \<le> m_generation_id m"
    and old: "\<And>t v g. dict_get (m_dict m) t = Some (v, g) \<Longrightarrow> g \<le> m_generation_id m"
    using assms by (auto simp: message_wf_def)
  show "m_repeating_groups (reset_message m) = []" by (simp add: reset_message_def Let_def)
  have "message_wf (reset_message m) \<and> message_view (reset_message m) = Map.empty"
  proof (cases "m_generation_id m + 1 = 0")
    case True
    then show ?thesis
      using dictionary.over_values_invar [OF wf] dictionary.look_over_values [OF wf]
      by (auto simp: message_wf_def reset_message_def message_view_def Let_def fun_eq_iff
          split: option.splits)
  next
    case False
    have less: "m_generation_id m < m_generation_id m + 1"
      using False unatSuc [of "m_generation_id m"] by (simp add: word_less_nat_alt add.commute)
    then have "g \<le> m_generation_id m + 1 \<and> g \<noteq> m_generation_id m + 1"
      if "dict_get (m_dict m) t = Some (v, g)" for t v g
      using old [OF that] by auto
    moreover have "1 \<le> m_generation_id m + 1" using less pos by (meson order.strict_implies_order order_trans)
    ultimately show ?thesis using False wf
      by (auto simp: message_wf_def reset_message_def message_view_def Let_def fun_eq_iff
          split: option.splits)
  qed
  then show "message_wf (reset_message m)" "message_view (reset_message m) = Map.empty" by auto
qed

lemma node_view:
  assumes "dict_wf (m_dict m)" "n \<in> set (nodes (m_dict m))"
  shows "dict_get (m_dict m) (nkey n) = Some (nval n)"
proof -
  have "distinct (map nkey (nodes (m_dict m)))" using assms(1) by (simp add: dict_wf_def)
  with assms show ?thesis
    by (auto simp: dict_get_map dict_map_Some_iff in_set_conv_nth)
qed

lemma copy_tags_view:
  assumes "dict_wf (m_dict other)" "set ns \<subseteq> set (nodes (m_dict other))" "message_wf m"
  shows "\<exists>m'. copy_tags ns other m = Some m' \<and> message_wf m' \<and>
    m_repeating_groups m' = m_repeating_groups m \<and>
    (\<forall>k. message_view m' k =
       (if k \<in> nkey ` set ns \<and> message_view other k \<noteq> None then message_view other k
        else message_view m k))"
  using assms(2,3)
proof (induction ns arbitrary: m)
  case (Cons n ns)
  have n: "dict_get (m_dict other) (nkey n) = Some (nval n)"
    using node_view [OF assms(1)] Cons.prems(1) by simp
  show ?case
  proof (cases "has_tag other (nkey n)")
    case True
    then have v: "message_view other (nkey n) = Some (fst (nval n))"
      using n by (auto simp: has_tag_view message_view_def split: prod.splits if_splits)
    obtain m1 where m1: "set_tag (nkey n) (fst (nval n)) m = Some m1" "message_wf m1"
      "message_view m1 = (message_view m)(nkey n \<mapsto> fst (nval n))"
      "m_repeating_groups m1 = m_repeating_groups m"
      using set_tag_wf [OF Cons.prems(2)] by metis
    have "set ns \<subseteq> set (nodes (m_dict other))" using Cons.prems(1) by simp
    from Cons.IH [OF this m1(2)] obtain m' where m': "copy_tags ns other m1 = Some m'" "message_wf m'"
      "m_repeating_groups m' = m_repeating_groups m1"
      "\<forall>k. message_view m' k = (if k \<in> nkey ` set ns \<and> message_view other k \<noteq> None
         then message_view other k else message_view m1 k)" by blast
    have "message_view m' k = (if k \<in> nkey ` set (n # ns) \<and> message_view other k \<noteq> None
         then message_view other k else message_view m k)" for k
      unfolding m'(4) [rule_format] m1(3) using v by auto
    with m' m1 True show ?thesis by simp
  next
    case False
    then have "message_view other (nkey n) = None" by (simp add: has_tag_view)
    with Cons.IH [OF _ Cons.prems(2)] Cons.prems(1) False show ?thesis by fastforce
  qed
qed simp

lemma groups_copy: "fold (\<lambda>(t, v). groups_set t v) g' g = g @ g'"
  by (induction g' arbitrary: g) (auto simp: groups_set_def)

lemma view_in_nodes: "dict_wf (m_dict m) \<Longrightarrow> message_view m k \<noteq> None \<Longrightarrow> k \<in> nkey ` set (nodes (m_dict m))"
  by (auto simp: message_view_def dict_get_map dict_map_def split: option.splits dest!: map_of_SomeD)

lemma copy_non_dirty_view:
  assumes "message_wf other" "message_wf m"
  obtains m' where "copy_non_dirty_tag_values_from other m = Some m'" "message_wf m'"
    "message_view m' = message_view m ++ message_view other"
    "m_repeating_groups m' = m_repeating_groups m @ m_repeating_groups other"
proof -
  have wf: "dict_wf (m_dict other)" using assms(1) by (simp add: message_wf_def)
  from copy_tags_view [OF wf subset_refl assms(2)] obtain m1 where m1:
    "copy_tags (nodes (m_dict other)) other m = Some m1" "message_wf m1"
    "m_repeating_groups m1 = m_repeating_groups m"
    "\<forall>k. message_view m1 k = (if k \<in> nkey ` set (nodes (m_dict other)) \<and> message_view other k \<noteq> None
         then message_view other k else message_view m k)" by blast
  define m' where "m' = m1\<lparr>m_repeating_groups := m_repeating_groups m @ m_repeating_groups other\<rparr>"
  have "message_view m' k = (message_view m ++ message_view other) k" for k
    using m1(4) [rule_format, of k] view_in_nodes [OF wf, of k]
    by (auto simp: message_view_def [of m'] m'_def map_add_def message_view_def [of m1, symmetric]
        split: option.splits) (auto simp: message_view_def split: option.splits)
  moreover have "message_wf m'" using m1(2) by (simp add: message_wf_def m'_def)
  ultimately show ?thesis using m1
    by (intro that [of m']) (auto simp: copy_non_dirty_tag_values_from_def m'_def groups_copy)
qed

lemma new_message_initialises:
  obtains m where "incoming_initialise new_incoming_message = Some m" "message_wf m"
    "message_view m = Map.empty"
proof -
  have "dict_initialise 64 (empty_dictionary :: (string \<times> u64) dictionary)
      = Some \<lparr>table = replicate 64 None, nodes = []\<rparr>"
    by (simp add: dict_initialise_def grow_def empty_dictionary_def)
  then have i: "incoming_initialise new_incoming_message
      = Some (new_incoming_message\<lparr>m_dict := \<lparr>table = replicate 64 None, nodes = []\<rparr>\<rparr>)"
    by (simp add: incoming_initialise_def new_incoming_message_def)
  have g: "dict_get \<lparr>table = replicate 64 None, nodes = [] :: (string \<times> u64) dnode list\<rparr> k = None" for k
    using empty_table_wf [of 64] by (subst dict_get_map) (simp_all add: dict_map_def)
  show ?thesis
    by (rule that [OF i]) (use g empty_table_wf [of 64] in
        \<open>auto simp: message_wf_def message_view_def new_incoming_message_def fun_eq_iff\<close>)
qed

lemma count_tag_loop_eq:
  "count_tag_loop g tag n =
     (if \<forall>p \<in> set g. fst p = tag \<longrightarrow> is_numeric (snd p)
      then Some (n + length (filter (\<lambda>p. fst p = tag) g)) else None)"
  by (induction g tag n rule: count_tag_loop.induct) auto

subsection \<open>Properties\<close>

text \<open>After \<open>reset\<close> no tag and no group value of an earlier message is visible, in every
  generation including the one where the 64-bit generation counter wraps around.\<close>

theorem reset_hides_every_tag:
  assumes "message_wf m"
  shows "message_wf (reset_message m) \<and> \<not> has_tag (reset_message m) t \<and>
    \<not> groups_has_tag (m_repeating_groups (reset_message m)) t"
  using reset_message_wf [OF assms] by (simp add: has_tag_view groups_has_tag_def)

definition sample_message :: "u64 \<Rightarrow> incoming_message" where
  "sample_message g = \<lparr>m_generation_id = g,
     m_dict = \<lparr>table = replicate 64 None, nodes = []\<rparr>, m_repeating_groups = []\<rparr>"

lemma sample_message_wf: "1 \<le> g \<Longrightarrow> message_wf (sample_message g)"
  using empty_table_wf [of 64, where 'a = "string \<times> u64"]
  by (simp add: message_wf_def sample_message_def dict_get_map dict_map_def)

theorem reset_hides_every_tag_witness:
  "message_wf (reset_message (sample_message 0xFFFFFFFFFFFFFFFF)) \<and>
   \<not> has_tag (reset_message (sample_message 0xFFFFFFFFFFFFFFFF)) 35 \<and>
   \<not> groups_has_tag (m_repeating_groups (reset_message (sample_message 0xFFFFFFFFFFFFFFFF))) 35"
  by (rule reset_hides_every_tag [OF sample_message_wf]) simp

text \<open>Setting a tag of a well-formed message always succeeds; the tag is then present with the new
  value, every other tag is present exactly when it was and with its old value, and the repeating
  groups are untouched.\<close>

theorem set_tag_then_read:
  assumes "message_wf m"
  shows "\<exists>m'. set_tag t v m = Some m' \<and> message_wf m' \<and> has_tag m' t \<and> tag_value m' t = v \<and>
    (\<forall>t'. t' \<noteq> t \<longrightarrow> has_tag m' t' = has_tag m t' \<and> (has_tag m t' \<longrightarrow> tag_value m' t' = tag_value m t')) \<and>
    m_repeating_groups m' = m_repeating_groups m"
proof -
  obtain m' where m': "set_tag t v m = Some m'" "message_wf m'"
    "message_view m' = (message_view m)(t \<mapsto> v)" "m_repeating_groups m' = m_repeating_groups m"
    using set_tag_wf [OF assms] by metis
  have "tag_value m' t' = tag_value m t'" if "t' \<noteq> t" "has_tag m t'" for t'
  proof -
    from that(2) obtain w where w: "message_view m t' = Some w" by (auto simp: has_tag_view)
    with that(1) m'(3) have "message_view m' t' = Some w" by simp
    with w show ?thesis by (simp add: tag_value_view)
  qed
  moreover have "tag_value m' t = v" by (rule tag_value_view) (simp add: m'(3))
  ultimately show ?thesis using m' by (auto simp: has_tag_view)
qed

theorem set_tag_then_read_witness:
  "\<exists>m'. set_tag 55 ''EURUSD'' (sample_message 7) = Some m' \<and> message_wf m' \<and> has_tag m' 55 \<and>
    tag_value m' 55 = ''EURUSD'' \<and>
    (\<forall>t'. t' \<noteq> 55 \<longrightarrow> has_tag m' t' = has_tag (sample_message 7) t' \<and>
       (has_tag (sample_message 7) t' \<longrightarrow> tag_value m' t' = tag_value (sample_message 7) t')) \<and>
    m_repeating_groups m' = m_repeating_groups (sample_message 7)"
  by (rule set_tag_then_read [OF sample_message_wf]) simp

text \<open>A repeating group's count tag is accepted exactly when it occurs once, with a numeric value;
  otherwise the reject code says which of the three rules it breaks, and an accepted count tag leaves
  the code alone.\<close>

theorem count_tag_validation:
  "validate_count_tag m tag code =
    (let vs = map snd (filter (\<lambda>p. fst p = tag) (m_repeating_groups m))
     in if \<not> list_all is_numeric vs then (False, FIX_ERROR_CODE_FORMAT_INCORRECT_FOR_TAG)
        else if length vs = 1 then (True, code)
        else if vs = [] then (False, FIX_ERROR_CODE_REQUIRED_TAG_MISSING)
        else (False, FIX_ERROR_CODE_TAG_APPEARS_MORE_THAN_ONCE))"
proof -
  define g where "g = m_repeating_groups m"
  define vs where "vs = map snd (filter (\<lambda>p. fst p = tag) g)"
  have all: "list_all is_numeric vs \<longleftrightarrow> (\<forall>p \<in> set g. fst p = tag \<longrightarrow> is_numeric (snd p))"
    by (auto simp: vs_def list_all_iff)
  have len: "length vs = length (filter (\<lambda>p. fst p = tag) g)" by (simp add: vs_def)
  show ?thesis
    unfolding validate_count_tag_def groups_validate_count_tag_def count_tag_loop_eq g_def [symmetric]
      vs_def [symmetric] Let_def all len [symmetric]
    by (cases vs rule: remdups_adj.cases) auto
qed

lemma add_repeating_group_tags_iff:
  "pack_message_type mt = Some e \<Longrightarrow> \<exists>specs'. add_repeating_group_tags mt c ts specs = Some specs' \<and>
     m_count_tags specs' = m_count_tags specs \<and>
     set (m_repeating_group_tags specs') =
       set (m_repeating_group_tags specs) \<union> (\<lambda>t. (e, c, t)) ` set ts"
proof (induction ts arbitrary: specs)
  case (Cons t ts)
  obtain specs1 where s1: "add_repeating_group_tag mt c t specs = Some specs1"
    "m_count_tags specs1 = m_count_tags specs"
    "set (m_repeating_group_tags specs1) = insert (e, c, t) (set (m_repeating_group_tags specs))"
    using Cons.prems by (cases "(e, c, t) \<in> set (m_repeating_group_tags specs)")
      (simp_all add: add_repeating_group_tag_def insert_absorb)
  from Cons.IH [OF Cons.prems, of specs1] s1 show ?case by auto
qed simp

text \<open>\<open>specify_repeating_group\<close> for a message type of at most four characters records its count tag
  and its member tags for exactly that type, and forgets no earlier specification.\<close>

theorem specified_groups_are_recognised:
  assumes "pack_message_type mt = Some e"
  shows "\<exists>specs'. specify_repeating_group mt c ts specs = Some specs' \<and>
    (\<forall>e' t. is_a_repeating_group_count_tag specs' e' t =
       (is_a_repeating_group_count_tag specs e' t \<or> (e' = e \<and> t = c))) \<and>
    (\<forall>e' c' t. is_a_repeating_group_tag specs' e' c' t =
       (is_a_repeating_group_tag specs e' c' t \<or> (e' = e \<and> c' = c \<and> t \<in> set ts)))"
proof -
  obtain specs1 where s1: "add_count_tag mt c specs = Some specs1"
    "set (m_count_tags specs1) = insert (e, c) (set (m_count_tags specs))"
    "m_repeating_group_tags specs1 = m_repeating_group_tags specs"
    using assms by (cases "(e, c) \<in> set (m_count_tags specs)")
      (simp_all add: add_count_tag_def insert_absorb)
  obtain specs2 where s2: "add_repeating_group_tags mt c ts specs1 = Some specs2"
    "m_count_tags specs2 = m_count_tags specs1"
    "set (m_repeating_group_tags specs2) =
       set (m_repeating_group_tags specs1) \<union> (\<lambda>t. (e, c, t)) ` set ts"
    using add_repeating_group_tags_iff [OF assms] by blast
  have "specify_repeating_group mt c ts specs = Some specs2"
    by (simp add: specify_repeating_group_def s1 s2)
  moreover have "is_a_repeating_group_count_tag specs2 e' t =
       (is_a_repeating_group_count_tag specs e' t \<or> (e' = e \<and> t = c))" for e' t
    by (auto simp: is_a_repeating_group_count_tag_def s1 s2)
  moreover have "is_a_repeating_group_tag specs2 e' c' t =
       (is_a_repeating_group_tag specs e' c' t \<or> (e' = e \<and> c' = c \<and> t \<in> set ts))" for e' c' t
    by (auto simp: is_a_repeating_group_tag_def s1 s2)
  ultimately show ?thesis by blast
qed

theorem specified_groups_are_recognised_witness:
  "\<exists>specs'. specify_repeating_group ''D'' 453 [448, 447, 452] no_group_specs = Some specs' \<and>
    (\<forall>e' t. is_a_repeating_group_count_tag specs' e' t =
       (is_a_repeating_group_count_tag no_group_specs e' t \<or> (e' = 0x44 \<and> t = 453))) \<and>
    (\<forall>e' c' t. is_a_repeating_group_tag specs' e' c' t =
       (is_a_repeating_group_tag no_group_specs e' c' t \<or>
        (e' = 0x44 \<and> c' = 453 \<and> t \<in> set [448, 447, 452])))"
  by (rule specified_groups_are_recognised) (simp add: pack_message_type_def)

end
