(* ===== verification/Session_Settings.thy ===== *)
theory Session_Settings
  imports Clock Throttler
begin

text \<open>
  \<open>fix_session_settings.h\<close> (the record, the derived settings and \<open>validate\<close>),
  \<open>fix_protocol_version.h\<close>, \<open>incoming_throttler_action.h\<close> and
  \<open>session_schedule_validator.h\<close>. \<open>validate\<close> returns the validation error, \<^term>\<open>None\<close> when the
  settings are accepted; whether the host supports AVX2 is an argument. Warnings on standard error
  and the reading of the configuration file are not modelled.
\<close>

datatype IncomingThrottlerAction = ACTION_NONE | ACTION_WAIT | ACTION_REJECT | ACTION_DISCONNECT

definition string_to_incoming_throttler_action :: "string \<Rightarrow> IncomingThrottlerAction" where
  "string_to_incoming_throttler_action val =
     (if val = ''WAIT'' then ACTION_WAIT
      else if val = ''REJECT'' then ACTION_REJECT
      else if val = ''DISCONNECT'' then ACTION_DISCONNECT
      else ACTION_NONE)"

definition begin_string_to_fix_protocol_version :: "string \<Rightarrow> int" where
  "begin_string_to_fix_protocol_version val =
     (if val = ''FIX.4.0'' then 40
      else if val = ''FIX.4.1'' then 41
      else if val = ''FIX.4.2'' then 42
      else if val = ''FIX.4.3'' then 43
      else if val = ''FIX.4.4'' then 44
      else if val = ''FIXT.1.1'' then 50
      else 0)"

record session_settings =
  heartbeat_interval_in_nanoseconds :: u64
  enable_simd_avx2 :: bool
  str_timestamp_subseconds_precision :: string
  timestamp_subseconds_precision :: SubsecondPrecision
  begin_string :: string
  sender_comp_id :: string
  target_comp_id :: string
  additional_static_header_tags :: string
  include_last_processed_seqnum_in_header :: bool
  default_app_ver_id :: string
  logon_username :: string
  logon_password :: string
  logon_message_new_password :: string
  logon_reset_sequence_numbers :: bool
  logon_timeout_seconds :: int
  logout_timeout_seconds :: int
  logon_include_next_expected_seq_no :: bool
  validations_enabled :: bool
  validate_repeating_groups :: bool
  max_allowed_message_age_seconds :: nat
  replay_messages_on_incoming_resend_request :: bool
  replay_message_cache_initial_size :: nat
  max_resend_range :: nat
  include_t97_during_resends :: bool
  outgoing_resend_request_expire_in_secs :: int
  outgoing_test_request_interval_multiplier :: int
  throttle_window_in_milliseconds :: u64
  throttle_limit :: nat
  str_throttle_action :: string
  throttle_action :: IncomingThrottlerAction
  throttler_reject_message :: string
  sequence_store_file_path :: string
  incoming_message_serialisation_path :: string
  outgoing_message_serialisation_path :: string
  max_serialised_file_size :: nat
  schedule_week_days :: string
  start_hour_utc :: int
  start_minute_utc :: int
  end_hour_utc :: int
  end_minute_utc :: int
  protocol_version :: int
  outgoing_test_request_interval_in_nanoseconds :: u64
  is_server :: bool
  tx_encode_buffer_capacity :: nat

definition default_session_settings :: session_settings where
  "default_session_settings =
     \<lparr>heartbeat_interval_in_nanoseconds = 30000000000, enable_simd_avx2 = False,
      str_timestamp_subseconds_precision = ''NANO'', timestamp_subseconds_precision = NANOSECONDS,
      begin_string = '''', sender_comp_id = '''', target_comp_id = '''',
      additional_static_header_tags = '''', include_last_processed_seqnum_in_header = False,
      default_app_ver_id = '''', logon_username = '''', logon_password = '''',
      logon_message_new_password = '''', logon_reset_sequence_numbers = False,
      logon_timeout_seconds = 5, logout_timeout_seconds = 5, logon_include_next_expected_seq_no = False,
      validations_enabled = True, validate_repeating_groups = False,
      max_allowed_message_age_seconds = 0, replay_messages_on_incoming_resend_request = False,
      replay_message_cache_initial_size = 10240, max_resend_range = 10000,
      include_t97_during_resends = False, outgoing_resend_request_expire_in_secs = 30,
      outgoing_test_request_interval_multiplier = 2, throttle_window_in_milliseconds = 1000,
      throttle_limit = 0, str_throttle_action = ''WAIT'', throttle_action = ACTION_WAIT,
      throttler_reject_message = ''Message rate limit exceeded'',
      sequence_store_file_path = ''sequence.store'',
      incoming_message_serialisation_path = ''messages_incoming'',
      outgoing_message_serialisation_path = ''messages_outgoing'',
      max_serialised_file_size = 67108864, schedule_week_days = '''',
      start_hour_utc = -1, start_minute_utc = -1, end_hour_utc = -1, end_minute_utc = -1,
      protocol_version = 0, outgoing_test_request_interval_in_nanoseconds = 60000000000,
      is_server = True, tx_encode_buffer_capacity = 212992\<rparr>"

definition initialise_derived_settings :: "session_settings \<Rightarrow> session_settings" where
  "initialise_derived_settings st =
     st\<lparr>protocol_version := begin_string_to_fix_protocol_version (begin_string st),
        outgoing_test_request_interval_in_nanoseconds :=
          heartbeat_interval_in_nanoseconds st * word_of_int (outgoing_test_request_interval_multiplier st)\<rparr>"

text \<open>The weekday loop of \<open>validate\<close>: \<^term>\<open>True\<close> when the list of digits and dashes is accepted.\<close>

fun week_days_ok :: "bool \<Rightarrow> string \<Rightarrow> bool" where
  "week_days_ok looking_for_delimiter [] = True"
| "week_days_ok looking_for_delimiter (ch # cs) =
     (if \<not> looking_for_delimiter \<and> (schar ch < 49 \<or> 55 < schar ch) then False
      else if looking_for_delimiter \<and> ch \<noteq> CHR ''-'' then False
      else week_days_ok (\<not> looking_for_delimiter) cs)"

definition validate_general :: "bool \<Rightarrow> session_settings \<Rightarrow> string option" where
  "validate_general supports_simd_avx2 st =
     (if heartbeat_interval_in_nanoseconds st = 0 then
        Some ''heartbeat_interval_seconds should be greater than zero''
      else if \<not> (str_timestamp_subseconds_precision st = ''NANO'' \<or>
                 str_timestamp_subseconds_precision st = ''MICRO'' \<or>
                 str_timestamp_subseconds_precision st = ''MILLI'' \<or>
                 str_timestamp_subseconds_precision st = ''NONE'') then
        Some ''timestamp_subseconds_precision should be one of : NANO,MICRO,MILLI,NONE''
      else if enable_simd_avx2 st \<and> \<not> supports_simd_avx2 then
        Some ''You specified SIMD AVX2, however this host does not support it.''
      else None)"

definition validate_headers :: "session_settings \<Rightarrow> string option" where
  "validate_headers st =
     (if begin_string st = '''' then Some ''begin_string length should be greater than zero''
      else if begin_string st \<notin> {''FIXT.1.1'', ''FIX.4.4'', ''FIX.4.3'', ''FIX.4.2'', ''FIX.4.1'', ''FIX.4.0''}
      then Some ''begin_string should be one of : FIXT.1.1, FIX.4.4, FIX.4.3, FIX.4.2, FIX.4.1, FIX.4.0''
      else if sender_comp_id st = '''' then Some ''sender_comp_id length should be greater than zero''
      else if target_comp_id st = '''' then Some ''target_comp_id length should be greater than zero''
      else if additional_static_header_tags st \<noteq> '''' \<and>
              (length (additional_static_header_tags st) < 3 \<or>
               CHR ''='' \<notin> set (additional_static_header_tags st)) then
        Some ''Please provide additional_static_header_tags in the following comma separated format : <tag>=<value>,<tag>=<value>,...''
      else None)"

definition validate_logon :: "session_settings \<Rightarrow> string option" where
  "validate_logon st =
     (if 50 \<le> protocol_version st \<and> default_app_ver_id st = '''' then
        Some ''You need to provide default_app_ver_id for FIX version 5.0 and later.''
      else if logon_timeout_seconds st \<le> 0 then Some ''logon_timeout_seconds should be greater than zero''
      else if logout_timeout_seconds st \<le> 0 then Some ''logout_timeout_seconds should be greater than zero''
      else None)"

definition validate_requests :: "session_settings \<Rightarrow> string option" where
  "validate_requests st =
     (if replay_messages_on_incoming_resend_request st \<and> replay_message_cache_initial_size st = 0 then
        Some ''replay_message_cache_initial_size should be greater than zero when replay_messages_on_incoming_resend_request is set to true''
      else if replay_messages_on_incoming_resend_request st \<and> max_resend_range st = 0 then
        Some ''max_resend_range should be greater than zero when replay_messages_on_incoming_resend_request is set to true''
      else if outgoing_resend_request_expire_in_secs st \<le> 0 then
        Some ''outgoing_resend_request_expire_in_secs should be greater than zero''
      else if outgoing_test_request_interval_multiplier st \<le> 1 then
        Some ''outgoing_test_request_interval_multiplier should be greater than one''
      else None)"

definition validate_throttler :: "session_settings \<Rightarrow> string option" where
  "validate_throttler st =
     (if throttle_limit st = 0 then None
      else if throttle_window_in_milliseconds st = 0 then
        Some ''throttle_window_in_milliseconds should be greater than zero''
      else if str_throttle_action st \<noteq> ''WAIT'' \<and> str_throttle_action st \<noteq> ''DISCONNECT'' \<and>
              str_throttle_action st \<noteq> ''REJECT'' then
        Some (''throttle_action can only be one of : '' @ [CHR 0x27] @ ''WAIT'' @ [CHR 0x27] @ '' '' @
              [CHR 0x27] @ ''DISCONNECT'' @ [CHR 0x27] @ '' or '' @ [CHR 0x27] @ ''REJECT'' @ [CHR 0x27])
      else if str_throttle_action st = ''REJECT'' \<and> throttler_reject_message st = '''' then
        Some ''throttler_reject_message length should be greater than zero''
      else None)"

definition validate_serialisation :: "session_settings \<Rightarrow> string option" where
  "validate_serialisation st =
     (if sequence_store_file_path st = '''' then
        Some ''sequence_store_file_path length should be greater than zero''
      else if max_serialised_file_size st = 0 then None
      else if incoming_message_serialisation_path st = '''' then
        Some ''incoming_message_serialisation_path length should be greater than zero''
      else if outgoing_message_serialisation_path st = '''' then
        Some ''outgoing_message_serialisation_path length should be greater than zero''
      else if max_serialised_file_size st mod 4096 \<noteq> 0 then
        Some ''max_serialised_file_size should be a multiple of 4096''
      else None)"

definition cannot :: "string \<Rightarrow> string \<Rightarrow> string" where
  "cannot field reason = field @ '' can'' @ [CHR 0x27] @ ''t '' @ reason"

definition validate_schedule :: "session_settings \<Rightarrow> string option" where
  "validate_schedule st =
     (if \<not> week_days_ok False (schedule_week_days st) then
        Some (''schedule_week_days value should be dash ('' @ [CHR 0x27] @ ''-'' @ [CHR 0x27] @
              '') separated digits from 1 to 7'')
      else if start_hour_utc st < -1 then Some (cannot ''start_hour_utc'' ''take negative values except -1'')
      else if 23 < start_hour_utc st then Some (cannot ''start_hour_utc'' ''be greater than 23'')
      else if end_hour_utc st < -1 then Some (cannot ''end_hour_utc'' ''take negative values except -1'')
      else if 23 < end_hour_utc st then Some (cannot ''end_hour_utc'' ''be greater than 23'')
      else if start_minute_utc st < -1 then Some (cannot ''start_minute_utc'' ''take negative values except -1'')
      else if 59 < start_minute_utc st then Some (cannot ''start_minute_utc'' ''be greater than 59'')
      else if end_minute_utc st < -1 then Some (cannot ''end_minute_utc'' ''take negative values except -1'')
      else if 59 < end_minute_utc st then Some (cannot ''end_minute_utc'' ''be greater than 59'')
      else if start_hour_utc st \<noteq> -1 \<or> end_hour_utc st \<noteq> -1 \<or> start_minute_utc st \<noteq> -1 \<or>
              end_minute_utc st \<noteq> -1 then
        (if start_hour_utc st = -1 \<or> end_hour_utc st = -1 \<or> start_minute_utc st = -1 \<or>
            end_minute_utc st = -1 then
           Some ''You need to set all schedule time configs (start_hour_utc, end_hour_utc, start_minute_utc, end_minute_utc) at once ''
         else if end_hour_utc st * 60 + end_minute_utc st \<le> start_hour_utc st * 60 + start_minute_utc st then
           Some ''Schedule start time should be before schedule end time''
         else None)
      else None)"

fun first_error :: "string option list \<Rightarrow> string option" where
  "first_error [] = None"
| "first_error (Some e # es) = Some e"
| "first_error (None # es) = first_error es"

definition validate_settings :: "bool \<Rightarrow> session_settings \<Rightarrow> string option" where
  "validate_settings supports_simd_avx2 st =
     first_error [validate_general supports_simd_avx2 st, validate_headers st, validate_logon st,
       validate_requests st, validate_throttler st, validate_serialisation st, validate_schedule st]"

subsection \<open>The session schedule\<close>

record schedule_validator =
  m_start_time_in_minutes_utc :: int
  m_end_time_in_minutes_utc :: int
  m_session_start_end_times_specified :: bool
  m_allowed_weekdays :: "int list"

definition new_schedule_validator :: schedule_validator where
  "new_schedule_validator = \<lparr>m_start_time_in_minutes_utc = 0, m_end_time_in_minutes_utc = 0,
     m_session_start_end_times_specified = False, m_allowed_weekdays = []\<rparr>"

definition add_allowed_weekday :: "int \<Rightarrow> schedule_validator \<Rightarrow> schedule_validator" where
  "add_allowed_weekday weekday v =
     v\<lparr>m_allowed_weekdays := List.insert weekday (m_allowed_weekdays v)\<rparr>"

fun add_weekdays_loop :: "bool \<Rightarrow> string \<Rightarrow> schedule_validator \<Rightarrow> schedule_validator" where
  "add_weekdays_loop looking_for_delimiter [] v = v"
| "add_weekdays_loop looking_for_delimiter (ch # cs) v =
     add_weekdays_loop (\<not> looking_for_delimiter) cs
       (if looking_for_delimiter then v else add_allowed_weekday (schar ch - 48) v)"

definition add_allowed_weekdays_from_dash_separated_string ::
    "string \<Rightarrow> schedule_validator \<Rightarrow> schedule_validator" where
  "add_allowed_weekdays_from_dash_separated_string weekdays v = add_weekdays_loop False weekdays v"

definition set_start_and_end_times ::
    "int \<Rightarrow> int \<Rightarrow> int \<Rightarrow> int \<Rightarrow> schedule_validator \<Rightarrow> schedule_validator" where
  "set_start_and_end_times start_hour start_minute end_hour end_minute v =
     (if 0 \<le> start_hour \<and> 0 \<le> start_minute \<and> 0 \<le> end_hour \<and> 0 \<le> end_minute then
        v\<lparr>m_session_start_end_times_specified := True,
          m_start_time_in_minutes_utc := start_hour * 60 + start_minute,
          m_end_time_in_minutes_utc := end_hour * 60 + end_minute\<rparr>
      else v\<lparr>m_session_start_end_times_specified := False\<rparr>)"

definition is_now_valid_datetime :: "nat \<Rightarrow> schedule_validator \<Rightarrow> bool" where
  "is_now_valid_datetime now v =
     (if m_allowed_weekdays v \<noteq> [] \<and> get_utc_current_weekday_number now \<notin> set (m_allowed_weekdays v)
      then False
      else if \<not> m_session_start_end_times_specified v then True
      else let (current_hour_utc, current_minute_utc) = get_time_utc now;
               now_in_minutes_utc = current_hour_utc * 60 + current_minute_utc
           in m_start_time_in_minutes_utc v \<le> now_in_minutes_utc \<and>
              now_in_minutes_utc < m_end_time_in_minutes_utc v)"

text \<open>The schedule a session sets up when it is initialised.\<close>

definition session_schedule :: "session_settings \<Rightarrow> schedule_validator" where
  "session_schedule st =
     set_start_and_end_times (start_hour_utc st) (start_minute_utc st) (end_hour_utc st) (end_minute_utc st)
       (if schedule_week_days st \<noteq> '''' then
          add_allowed_weekdays_from_dash_separated_string (schedule_week_days st) new_schedule_validator
        else new_schedule_validator)"

subsection \<open>Facts\<close>

lemma first_error_None [simp]: "first_error es = None \<longleftrightarrow> (\<forall>e \<in> set es. e = None)"
  by (induction es rule: first_error.induct) auto

lemma add_weekdays_set:
  "set (m_allowed_weekdays (add_weekdays_loop b cs v)) =
     set (m_allowed_weekdays v) \<union> {schar (cs ! i) - 48 | i. i < length cs \<and> (even i \<longleftrightarrow> \<not> b)}"
proof (induction b cs v rule: add_weekdays_loop.induct)
  case (2 b ch cs v)
  have "{schar ((ch # cs) ! i) - 48 | i. i < length (ch # cs) \<and> (even i \<longleftrightarrow> \<not> b)} =
      (if b then {} else {schar ch - 48}) \<union>
      {schar (cs ! i) - 48 | i. i < length cs \<and> (even i \<longleftrightarrow> \<not> \<not> b)}" (is "?l = ?r")
  proof (intro equalityI subsetI)
    fix x assume "x \<in> ?l"
    then obtain i where "x = schar ((ch # cs) ! i) - 48" "i < length (ch # cs)" "even i \<longleftrightarrow> \<not> b" by blast
    then show "x \<in> ?r" by (cases i) auto
  next
    fix x assume "x \<in> ?r"
    then show "x \<in> ?l"
    proof
      assume "x \<in> (if b then {} else {schar ch - 48})"
      then show ?thesis by (auto split: if_splits intro!: exI [of _ 0])
    next
      assume "x \<in> {schar (cs ! i) - 48 | i. i < length cs \<and> (even i \<longleftrightarrow> \<not> \<not> b)}"
      then obtain i where "x = schar (cs ! i) - 48" "i < length cs" "even i \<longleftrightarrow> \<not> \<not> b" by blast
      then show ?thesis by (auto intro!: exI [of _ "Suc i"])
    qed
  qed
  then show ?case using 2 by (simp add: add_allowed_weekday_def)
qed simp

lemma add_weekdays_other [simp]:
  "m_session_start_end_times_specified (add_weekdays_loop b cs v) = m_session_start_end_times_specified v"
  by (induction b cs v rule: add_weekdays_loop.induct) (simp_all add: add_allowed_weekday_def)

lemma week_days_ok_digits:
  "week_days_ok b wd \<Longrightarrow> i < length wd \<Longrightarrow> (even i \<longleftrightarrow> \<not> b) \<Longrightarrow> 49 \<le> schar (wd ! i) \<and> schar (wd ! i) \<le> 55"
proof (induction b wd arbitrary: i rule: week_days_ok.induct)
  case (2 b ch cs)
  show ?case
  proof (cases i)
    case 0
    with 2 show ?thesis by (auto split: if_splits)
  next
    case (Suc j)
    have "week_days_ok (\<not> b) cs" using 2(2) by (simp split: if_splits)
    with 2(1) [of j] 2(2-4) Suc show ?thesis by (auto split: if_splits)
  qed
qed simp

lemma start_end_set [simp]:
  "m_allowed_weekdays (set_start_and_end_times a b c d v) = m_allowed_weekdays v"
  by (simp add: set_start_and_end_times_def)

lemma allowed_weekdays:
  "set (m_allowed_weekdays (session_schedule st)) =
     {schar (schedule_week_days st ! i) - 48 | i. i < length (schedule_week_days st) \<and> even i}"
  by (simp add: session_schedule_def new_schedule_validator_def
      add_allowed_weekdays_from_dash_separated_string_def add_weekdays_set)

lemma session_schedule_times:
  "m_session_start_end_times_specified (session_schedule st) \<longleftrightarrow>
     0 \<le> start_hour_utc st \<and> 0 \<le> start_minute_utc st \<and> 0 \<le> end_hour_utc st \<and> 0 \<le> end_minute_utc st"
  "m_session_start_end_times_specified (session_schedule st) \<Longrightarrow>
     m_start_time_in_minutes_utc (session_schedule st) = start_hour_utc st * 60 + start_minute_utc st"
  "m_session_start_end_times_specified (session_schedule st) \<Longrightarrow>
     m_end_time_in_minutes_utc (session_schedule st) = end_hour_utc st * 60 + end_minute_utc st"
  by (auto simp: session_schedule_def set_start_and_end_times_def new_schedule_validator_def
      add_allowed_weekdays_from_dash_separated_string_def split: if_splits)

lemma validated_schedule:
  assumes "validate_schedule st = None"
  shows "week_days_ok False (schedule_week_days st)"
    and "start_hour_utc st \<noteq> -1 \<longleftrightarrow>
      0 \<le> start_hour_utc st \<and> 0 \<le> start_minute_utc st \<and> 0 \<le> end_hour_utc st \<and> 0 \<le> end_minute_utc st"
  using assms unfolding validate_schedule_def by (simp_all split: if_splits)

subsection \<open>Properties\<close>

text \<open>C30: for settings that \<open>validate\<close> accepts, a session is in schedule exactly when the UTC weekday
  is one of the configured days (each between 1 and 7; any day if none is configured) and, if times
  are configured, the minute of the day lies between the start time (included) and the end time
  (excluded).\<close>

theorem accepted_schedule_window:
  assumes "validate_settings avx2 st = None"
  shows "(let days = {schar (schedule_week_days st ! i) - 48 | i.
              i < length (schedule_week_days st) \<and> even i};
            minute = fst (get_time_utc now) * 60 + snd (get_time_utc now)
          in days \<subseteq> {1..7} \<and>
            (is_now_valid_datetime now (session_schedule st) \<longleftrightarrow>
              (schedule_week_days st = '''' \<or> get_utc_current_weekday_number now \<in> days) \<and>
              (start_hour_utc st = -1 \<or>
               start_hour_utc st * 60 + start_minute_utc st \<le> minute \<and>
               minute < end_hour_utc st * 60 + end_minute_utc st)))"
proof -
  define days where "days = {schar (schedule_week_days st ! i) - 48 | i.
      i < length (schedule_week_days st) \<and> even i}"
  define minute where "minute = fst (get_time_utc now) * 60 + snd (get_time_utc now)"
  have v: "validate_schedule st = None" using assms(1) by (simp add: validate_settings_def)
  note w = validated_schedule [OF v]
  have "days \<subseteq> {1..7}" using week_days_ok_digits [OF w(1)] by (auto simp: days_def)
  moreover have a: "set (m_allowed_weekdays (session_schedule st)) = days"
    unfolding days_def by (rule allowed_weekdays)
  have "days = {} \<longleftrightarrow> schedule_week_days st = ''''"
    by (auto simp: days_def intro!: exI [of _ 0])
  then have e: "m_allowed_weekdays (session_schedule st) = [] \<longleftrightarrow> schedule_week_days st = ''''"
    using a by (metis set_empty)
  have "is_now_valid_datetime now (session_schedule st) \<longleftrightarrow>
      (schedule_week_days st = '''' \<or> get_utc_current_weekday_number now \<in> days) \<and>
      (start_hour_utc st = -1 \<or>
       start_hour_utc st * 60 + start_minute_utc st \<le> minute \<and>
       minute < end_hour_utc st * 60 + end_minute_utc st)"
    using session_schedule_times [of st] w(2)
    by (auto simp: is_now_valid_datetime_def e a minute_def Let_def split: prod.splits)
  ultimately show ?thesis by (simp add: days_def [symmetric] minute_def [symmetric] Let_def)
qed

definition office_hours :: session_settings where
  "office_hours = default_session_settings
     \<lparr>begin_string := ''FIX.4.4'', protocol_version := 44, sender_comp_id := ''A'', target_comp_id := ''B'',
      schedule_week_days := ''1-2-3-4-5'', start_hour_utc := 7, start_minute_utc := 30,
      end_hour_utc := 17, end_minute_utc := 0\<rparr>"

lemma office_hours_accepted: "validate_settings False office_hours = None"
  by (simp add: validate_settings_def office_hours_def default_session_settings_def
      validate_general_def validate_headers_def validate_logon_def validate_requests_def
      validate_throttler_def validate_serialisation_def validate_schedule_def schar_def)

theorem accepted_schedule_window_witness:
  "(let days = {schar (schedule_week_days office_hours ! i) - 48 | i.
              i < length (schedule_week_days office_hours) \<and> even i};
        minute = fst (get_time_utc 1709208000000000000) * 60 + snd (get_time_utc 1709208000000000000)
    in days \<subseteq> {1..7} \<and>
      (is_now_valid_datetime 1709208000000000000 (session_schedule office_hours) \<longleftrightarrow>
        (schedule_week_days office_hours = '''' \<or> get_utc_current_weekday_number 1709208000000000000 \<in> days) \<and>
        (start_hour_utc office_hours = -1 \<or>
         start_hour_utc office_hours * 60 + start_minute_utc office_hours \<le> minute \<and>
         minute < end_hour_utc office_hours * 60 + end_minute_utc office_hours)))"
  by (rule accepted_schedule_window [OF office_hours_accepted])

end
