(* ===== verification/Message_Serialiser.thy ===== *)
theory Message_Serialiser
  imports Fix_Utilities
begin

text \<open>
  \<open>electronic_trading/common/message_serialiser.h\<close>: the journal of a session's messages, kept in
  numbered files of a fixed size, and the in-memory index from a sequence number to the place of its
  message that replays use. A file is its bytes; the memory mapping of the current file is that file,
  and opening a file shorter than the requested size extends it with zero bytes
  (\<open>memory_mapped_file.h\<close>). Whether the operating system lets a file be opened is a function of its
  number. Reading past the end of a buffer is \<^term>\<open>None\<close>.
\<close>

subsection \<open>Little-endian words\<close>

fun le_bytes :: "nat \<Rightarrow> nat \<Rightarrow> string" where
  "le_bytes 0 n = []"
| "le_bytes (Suc k) n = char_of (n mod 256) # le_bytes k (n div 256)"

fun le_value :: "string \<Rightarrow> nat" where
  "le_value [] = 0"
| "le_value (c # cs) = of_char c + 256 * le_value cs"

lemma length_le_bytes [simp]: "length (le_bytes k n) = k"
  by (induction k arbitrary: n) auto

lemma le_value_bytes: "n < 256 ^ k \<Longrightarrow> le_value (le_bytes k n) = n"
proof (induction k arbitrary: n)
  case (Suc k)
  have "n div 256 < 256 ^ k" using Suc.prems by (simp add: less_mult_imp_div_less mult.commute)
  with Suc.IH show ?case by (simp add: of_char_of)
qed simp

lemma le_value_bytes64 [simp]: "n < 2 ^ 64 \<Longrightarrow> le_value (le_bytes 8 n) = n"
  by (rule le_value_bytes) simp

definition overwrite :: "string \<Rightarrow> nat \<Rightarrow> string \<Rightarrow> string" where
  "overwrite buf off data = take off buf @ data @ drop (off + length data) buf"

lemma length_overwrite [simp]: "off + length data \<le> length buf \<Longrightarrow> length (overwrite buf off data) = length buf"
  by (simp add: overwrite_def)

subsection \<open>The serialiser\<close>

record memory_record =
  rec_offset :: nat
  rec_length :: nat
  rec_file_number :: nat

record message_serialiser =
  m_initialised :: bool
  m_serialised_file_max_size :: nat
  ser_files :: "nat \<rightharpoonup> string"
  ser_openable :: "nat \<Rightarrow> bool"
  m_current_serialised_file_number :: nat
  m_current_mapped :: bool
  m_current_written_bytes :: nat
  m_current_no_of_messages :: u64
  m_message_memory_records :: "u32 \<rightharpoonup> memory_record"
  m_keep_message_records_in_memory :: bool

definition m_serialisation_overhead_bytes :: nat where
  "m_serialisation_overhead_bytes = 17"

definition mapped_file :: "nat \<Rightarrow> string option \<Rightarrow> string" where
  "mapped_file sz content =
     (case content of
        None \<Rightarrow> replicate sz (CHR 0x00)
      | Some b \<Rightarrow> b @ replicate (sz - length b) (CHR 0x00))"

definition open_file :: "nat \<Rightarrow> message_serialiser \<Rightarrow> message_serialiser option" where
  "open_file n s =
     (if ser_openable s n then
        Some (s\<lparr>ser_files := (ser_files s)(n \<mapsto> mapped_file (m_serialised_file_max_size s) (ser_files s n)),
                m_current_mapped := True\<rparr>)
      else None)"

definition current_buffer :: "message_serialiser \<Rightarrow> string" where
  "current_buffer s =
     (case ser_files s (m_current_serialised_file_number s) of None \<Rightarrow> [] | Some b \<Rightarrow> b)"

definition poke :: "nat \<Rightarrow> string \<Rightarrow> message_serialiser \<Rightarrow> message_serialiser" where
  "poke off data s =
     s\<lparr>ser_files := (ser_files s)(m_current_serialised_file_number s \<mapsto> overwrite (current_buffer s) off data)\<rparr>"

definition append_bytes :: "string \<Rightarrow> message_serialiser \<Rightarrow> message_serialiser" where
  "append_bytes data s =
     (poke (m_current_written_bytes s) data s)
       \<lparr>m_current_written_bytes := m_current_written_bytes s + length data\<rparr>"

definition switch_to_next_memory_mapped_file :: "message_serialiser \<Rightarrow> message_serialiser \<times> bool" where
  "switch_to_next_memory_mapped_file s =
     (let n = m_current_serialised_file_number s + 1
      in case open_file n s of
           None \<Rightarrow> (s\<lparr>m_current_mapped := False\<rparr>, False)
         | Some s' \<Rightarrow>
             (s'\<lparr>m_current_serialised_file_number := n, m_current_written_bytes := 8,
                 m_current_no_of_messages := 0\<rparr>, True))"

definition has_room :: "message_serialiser \<Rightarrow> string \<Rightarrow> bool" where
  "has_room s message \<longleftrightarrow>
     \<not> m_serialised_file_max_size s - m_current_written_bytes s
         < length message + m_serialisation_overhead_bytes"

definition write_entry :: "u64 \<Rightarrow> string \<Rightarrow> bool \<Rightarrow> u32 \<Rightarrow> message_serialiser \<Rightarrow> message_serialiser" where
  "write_entry epoch message successful_transmission sequence_no s =
     (let s1 = append_bytes (le_bytes 8 (unat epoch)) s;
          s2 = append_bytes [char_of (if successful_transmission then 1 else 0 :: nat)] s1;
          s3 = append_bytes (le_bytes 8 (length message)) s2;
          record = \<lparr>rec_offset = m_current_written_bytes s3, rec_length = length message,
                    rec_file_number = m_current_serialised_file_number s3\<rparr>;
          s4 = (if m_keep_message_records_in_memory s3 \<and> m_message_memory_records s3 sequence_no = None then
                  s3\<lparr>m_message_memory_records := (m_message_memory_records s3)(sequence_no \<mapsto> record)\<rparr>
                else s3);
          s5 = append_bytes message s4;
          count = m_current_no_of_messages s5 + 1
      in poke 0 (le_bytes 8 (unat count)) (s5\<lparr>m_current_no_of_messages := count\<rparr>))"

definition serialiser_write ::
    "u64 \<Rightarrow> string \<Rightarrow> bool \<Rightarrow> u32 \<Rightarrow> message_serialiser \<Rightarrow> message_serialiser" where
  "serialiser_write epoch message successful_transmission sequence_no s =
     (if \<not> m_current_mapped s then s
      else if has_room s message then
        write_entry epoch message successful_transmission sequence_no s
      else case switch_to_next_memory_mapped_file s of
             (s', False) \<Rightarrow> s'
           | (s', True) \<Rightarrow>
               if has_room s' message then
                 write_entry epoch message successful_transmission sequence_no s'
               else s')"

definition has_message_in_memory :: "message_serialiser \<Rightarrow> u32 \<Rightarrow> bool" where
  "has_message_in_memory s sequence_no =
     (if \<not> m_keep_message_records_in_memory s then False
      else m_message_memory_records s sequence_no \<noteq> None)"

text \<open>The message copied into the caller's buffer of the given capacity.\<close>

definition read_message :: "message_serialiser \<Rightarrow> u32 \<Rightarrow> nat \<Rightarrow> string option" where
  "read_message s sequence_no buffer_size =
     (if \<not> has_message_in_memory s sequence_no then None
      else case m_message_memory_records s sequence_no of
             None \<Rightarrow> None
           | Some r \<Rightarrow>
               if buffer_size < rec_length r then None
               else if m_current_serialised_file_number s \<noteq> rec_file_number r then
                 (if ser_openable s (rec_file_number r) then
                    Some (take (rec_length r) (drop (rec_offset r)
                      (mapped_file (m_serialised_file_max_size s) (ser_files s (rec_file_number r)))))
                  else None)
               else Some (take (rec_length r) (drop (rec_offset r) (current_buffer s))))"

subsection \<open>Reading a file back\<close>

record journal_entry =
  je_timestamp :: nat
  je_success :: bool
  je_message :: string
  je_offset :: nat

text \<open>The loop of \<open>deserialise\<close>; \<open>acc\<close> holds the entries passed to the callback, newest first. The
  result is \<open>read_bytes\<close> with the entries.\<close>

function deserialise_loop :: "string \<Rightarrow> nat \<Rightarrow> nat \<Rightarrow> journal_entry list \<Rightarrow>
    (nat \<times> journal_entry list) option" where
  "deserialise_loop buffer message_count off acc =
     (if message_count = length acc then Some (off, acc)
      else if length buffer < off + 8 then None
      else if length buffer \<le> off + 8 then Some (off + 8, acc)
      else if length buffer \<le> off + 9 then Some (off + 9, acc)
      else if length buffer < off + 17 then None
      else
        (let len = le_value (take 8 (drop (off + 9) buffer))
         in if length buffer < off + 17 + len then None
            else
              (let e = \<lparr>je_timestamp = le_value (take 8 (drop off buffer)),
                        je_success = (buffer ! (off + 8) = CHR 0x01),
                        je_message = take len (drop (off + 17) buffer),
                        je_offset = off + 17\<rparr>
               in if length (e # acc) = message_count then Some (off + 17 + len, e # acc)
                  else if length buffer \<le> off + 17 + len then Some (off + 17 + len, e # acc)
                  else deserialise_loop buffer message_count (off + 17 + len) (e # acc))))"
  by auto
termination
  by (relation "measure (\<lambda>(buffer, c, off, acc). length buffer - off)") auto

declare deserialise_loop.simps [simp del]

definition deserialise :: "string \<Rightarrow> (nat \<times> nat \<times> journal_entry list \<times> bool) option" where
  "deserialise buffer =
     (if length buffer < 8 then None
      else let message_count = le_value (take 8 buffer)
           in case deserialise_loop buffer message_count 8 [] of
                None \<Rightarrow> None
              | Some (read_bytes, acc) \<Rightarrow>
                  Some (message_count, read_bytes, rev acc, length acc = message_count))"

fun index_entries :: "nat \<Rightarrow> journal_entry list \<Rightarrow> (u32 \<rightharpoonup> memory_record) \<Rightarrow> (u32 \<rightharpoonup> memory_record)" where
  "index_entries file_number [] m = m"
| "index_entries file_number (e # es) m =
     (let sequence_no = get_sequence_number_value_from_fix_message (je_message e)
      in index_entries file_number es
           (if 0 < sequence_no \<and> m sequence_no = None then
              m(sequence_no \<mapsto> \<lparr>rec_offset = je_offset e, rec_length = length (je_message e),
                               rec_file_number = file_number\<rparr>)
            else m))"

definition process_existing_buffer ::
    "string \<Rightarrow> bool \<Rightarrow> nat \<Rightarrow> message_serialiser \<Rightarrow> (message_serialiser \<times> bool) option" where
  "process_existing_buffer buffer keep file_number s =
     (case deserialise buffer of
        None \<Rightarrow> None
      | Some (message_count, read_bytes, es, ok) \<Rightarrow>
          Some (s\<lparr>m_current_no_of_messages := word_of_nat message_count,
                  m_current_written_bytes := read_bytes,
                  m_message_memory_records :=
                    (if keep then index_entries file_number es (m_message_memory_records s)
                     else m_message_memory_records s)\<rparr>, ok))"

text \<open>The pass over the files \<open>i\<close>, \<open>i + 1\<close>, ... before the latest one.\<close>

fun index_old_files :: "nat list \<Rightarrow> message_serialiser \<Rightarrow> (message_serialiser \<times> bool) option" where
  "index_old_files [] s = Some (s, True)"
| "index_old_files (i # is) s =
     (case open_file i s of
        None \<Rightarrow> Some (s, False)
      | Some s1 \<Rightarrow>
          case process_existing_buffer (the (ser_files s1 i)) True i s1 of
            None \<Rightarrow> None
          | Some (s2, False) \<Rightarrow> Some (s2, False)
          | Some (s2, True) \<Rightarrow> index_old_files is s2)"

text \<open>\<open>initialise\<close>; the folder exists when \<open>latest\<close> is \<open>Some\<close> of the latest file number in it
  (\<open>Some None\<close>: an existing folder without files).\<close>

definition serialiser_initialise ::
    "nat option option \<Rightarrow> nat \<Rightarrow> bool \<Rightarrow> nat \<Rightarrow> message_serialiser \<Rightarrow> (message_serialiser \<times> bool) option" where
  "serialiser_initialise folder max_size keep initial_size s0 =
     (let s = s0\<lparr>m_initialised := False, m_keep_message_records_in_memory := keep\<rparr>
      in if keep \<and> initial_size = 0 then Some (s, False)
         else if max_size < 4096 \<or> max_size mod 4096 \<noteq> 0 then Some (s, False)
         else
           (let s = s\<lparr>m_serialised_file_max_size := max_size\<rparr>
            in case folder of
                 None \<Rightarrow>
                   (let s = s\<lparr>m_current_serialised_file_number := 1\<rparr>
                    in case open_file 1 s of
                         None \<Rightarrow> Some (s, False)
                       | Some s1 \<Rightarrow>
                           Some ((poke 0 (le_bytes 8 (unat (m_current_no_of_messages s1))) s1)
                                   \<lparr>m_current_written_bytes := 8, m_initialised := True\<rparr>, True))
               | Some latest \<Rightarrow>
                   (let n = (case latest of None \<Rightarrow> 1 | Some l \<Rightarrow> l)
                    in case index_old_files (if keep \<and> latest \<noteq> None \<and> 1 < n then [1..<n] else []) s of
                         None \<Rightarrow> None
                       | Some (s1, False) \<Rightarrow> Some (s1, False)
                       | Some (s1, True) \<Rightarrow>
                           (let s1 = s1\<lparr>m_current_serialised_file_number := n\<rparr>
                            in case open_file n s1 of
                                 None \<Rightarrow> Some (s1, False)
                               | Some s2 \<Rightarrow>
                                   (case process_existing_buffer (current_buffer s2) keep n s2 of
                                      None \<Rightarrow> None
                                    | Some (s3, False) \<Rightarrow> Some (s3, False)
                                    | Some (s3, True) \<Rightarrow> Some (s3\<lparr>m_initialised := True\<rparr>, True))))))"

subsection \<open>The journal as a list of entries\<close>

type_synonym entry = "u64 \<times> bool \<times> string"

definition entry_bytes :: "entry \<Rightarrow> string" where
  "entry_bytes e = (case e of (ts, ok, msg) \<Rightarrow>
     le_bytes 8 (unat ts) @ [char_of (if ok then 1 else 0 :: nat)] @ le_bytes 8 (length msg) @ msg)"

definition journal :: "string \<Rightarrow> entry list \<Rightarrow> nat \<Rightarrow> bool" where
  "journal b es w \<longleftrightarrow> (\<exists>tail. b = le_bytes 8 (length es) @ concat (map entry_bytes es) @ tail \<and>
     w = 8 + length (concat (map entry_bytes es)))"

fun entries_from :: "nat \<Rightarrow> entry list \<Rightarrow> journal_entry list" where
  "entries_from off [] = []"
| "entries_from off ((ts, ok, msg) # es) =
     \<lparr>je_timestamp = unat ts, je_success = ok, je_message = msg, je_offset = off + 17\<rparr>
       # entries_from (off + 17 + length msg) es"

lemma entries_from_contents:
  "map (\<lambda>e. (je_timestamp e, je_success e, je_message e)) (entries_from off es) =
     map (\<lambda>(ts, ok, msg). (unat ts, ok, msg)) es"
  by (induction off es rule: entries_from.induct) auto

lemma length_entries_from [simp]: "length (entries_from off es) = length es"
  by (induction off es rule: entries_from.induct) auto

lemma deserialise_loop_done: "message_count = length acc \<Longrightarrow>
    deserialise_loop b message_count off acc = Some (off, acc)"
  by (simp add: deserialise_loop.simps)

lemma flag_chars: "char_of (1 :: nat) = CHR 0x01" "char_of (Suc 0) = CHR 0x01" "char_of (0 :: nat) = CHR 0x00"
  by code_simp+

lemma deserialise_loop_step:
  assumes b: "b = pre @ entry_bytes (ts, ok, msg) @ rest" "length pre = off"
    and len: "length msg < 2 ^ 64" and more: "length acc < n" "Suc (length acc) < n \<Longrightarrow> rest \<noteq> []"
  shows "deserialise_loop b n off acc =
    deserialise_loop b n (off + 17 + length msg)
      (\<lparr>je_timestamp = unat ts, je_success = ok, je_message = msg, je_offset = off + 17\<rparr> # acc)"
proof -
  define e where "e = \<lparr>je_timestamp = unat ts, je_success = ok, je_message = msg, je_offset = off + 17\<rparr>"
  have lb: "length b = off + 17 + length msg + length rest"
    by (simp add: b(1) entry_bytes_def b(2))
  have d: "drop off b = le_bytes 8 (unat ts) @ char_of (if ok then 1 else 0 :: nat) # le_bytes 8 (length msg) @ msg @ rest"
    by (simp add: b(1) entry_bytes_def b(2) [symmetric])
  have d8: "drop (off + n) b = drop n (drop off b)" for n by (simp add: add.commute)
  have ts: "le_value (take 8 (drop off b)) = unat ts"
    unfolding d by (simp add: unsigned_less [where 'a = nat, THEN less_le_trans])
  have flag: "b ! (off + 8) = char_of (if ok then 1 else 0 :: nat)"
  proof -
    have "b ! (off + 8) = drop off b ! 8" using lb by simp
    also have "\<dots> = char_of (if ok then 1 else 0 :: nat)" unfolding d by (simp add: nth_append)
    finally show ?thesis .
  qed
  have l: "le_value (take 8 (drop (off + 9) b)) = length msg"
    unfolding d8 d using len by (simp add: drop_Cons')
  have m: "take (length msg) (drop (off + 17) b) = msg"
    unfolding d8 d by (simp add: drop_Cons')
  have ok: "(b ! (off + 8) = CHR 0x01) = ok" by (simp add: flag flag_chars)
  show ?thesis
  proof (cases "Suc (length acc) = n")
    case True
    then show ?thesis
      using more(1) lb by (simp add: deserialise_loop.simps [of b n off acc] Let_def ts ok l m
          e_def [symmetric] deserialise_loop_done)
  next
    case False
    then have "rest \<noteq> []" using more by simp
    then have "0 < length rest" by simp
    with False more(1) lb show ?thesis
      by (simp add: deserialise_loop.simps [of b n off acc] Let_def ts ok l m e_def [symmetric])
  qed
qed

lemma deserialise_loop_entries:
  assumes "b = pre @ concat (map entry_bytes es) @ tail" "length pre = off"
    "\<forall>(ts, ok, msg) \<in> set es. length msg < 2 ^ 64" "n = length acc + length es"
  shows "deserialise_loop b n off acc =
    Some (off + length (concat (map entry_bytes es)), rev (entries_from off es) @ acc)"
  using assms
proof (induction es arbitrary: pre off acc)
  case (Cons e es)
  obtain ts ok msg where e: "e = (ts, ok, msg)" by (cases e) auto
  have le: "length (entry_bytes e) = 17 + length msg" by (simp add: e entry_bytes_def)
  define x where "x = \<lparr>je_timestamp = unat ts, je_success = ok, je_message = msg, je_offset = off + 17\<rparr>"
  have "deserialise_loop b n off acc = deserialise_loop b n (off + 17 + length msg) (x # acc)"
    unfolding x_def
  proof (rule deserialise_loop_step [where rest = "concat (map entry_bytes es) @ tail"])
    show "b = pre @ entry_bytes (ts, ok, msg) @ concat (map entry_bytes es) @ tail"
      using Cons.prems(1) by (simp add: e)
    show "concat (map entry_bytes es) @ tail \<noteq> []" if "Suc (length acc) < n"
      using that Cons.prems(4) by (cases es) (auto simp: entry_bytes_def split: prod.splits)
  qed (use Cons.prems in \<open>auto simp: e\<close>)
  also have "\<dots> = Some (off + 17 + length msg + length (concat (map entry_bytes es)),
      rev (entries_from (off + 17 + length msg) es) @ x # acc)"
    by (rule Cons.IH [where pre = "pre @ entry_bytes e"]) (use Cons.prems le in auto)
  finally show ?case using le by (simp add: e x_def add.assoc)
qed (simp add: deserialise_loop_done)

lemma deserialise_journal:
  assumes "journal b es w" "length es < 2 ^ 64" "\<forall>(ts, ok, msg) \<in> set es. length msg < 2 ^ 64"
  shows "deserialise b = Some (length es, w, entries_from 8 es, True)"
proof -
  obtain tail where b: "b = le_bytes 8 (length es) @ concat (map entry_bytes es) @ tail"
    and w: "w = 8 + length (concat (map entry_bytes es))"
    using assms(1) by (auto simp: journal_def)
  have "le_value (take 8 b) = length es" using assms(2) by (simp add: b)
  moreover have "deserialise_loop b (length es) 8 [] = Some (w, rev (entries_from 8 es) @ [])"
    unfolding w by (rule deserialise_loop_entries [OF b _ assms(3)]) simp_all
  moreover have "8 \<le> length b" by (simp add: b)
  ultimately show ?thesis by (simp add: deserialise_def Let_def)
qed

subsection \<open>Writing an entry\<close>

lemma overwrite_at: "length pre = off \<Longrightarrow> overwrite (pre @ tail) off d = pre @ d @ drop (length d) tail"
  by (auto simp: overwrite_def)

lemma overwrite_overwrite:
  assumes "off + length d1 \<le> length b"
  shows "overwrite (overwrite b off d1) (off + length d1) d2 = overwrite b off (d1 @ d2)"
proof -
  define pre tail where "pre = take off b" and "tail = drop off b"
  have b: "b = pre @ tail" "length pre = off" using assms by (simp_all add: pre_def tail_def)
  have "overwrite b off d1 = (pre @ d1) @ drop (length d1) tail"
    unfolding b(1) by (subst overwrite_at [OF b(2)]) simp
  moreover have "length (pre @ d1) = off + length d1" by (simp add: b(2))
  ultimately have "overwrite (overwrite b off d1) (off + length d1) d2
      = (pre @ d1) @ d2 @ drop (length d2) (drop (length d1) tail)"
    by (simp only: overwrite_at)
  also have "\<dots> = overwrite b off (d1 @ d2)"
    unfolding b(1) by (subst overwrite_at [OF b(2)]) (simp add: add.commute)
  finally show ?thesis .
qed

lemma poke_fields [simp]:
  "m_current_written_bytes (poke off d s) = m_current_written_bytes s"
  "m_current_serialised_file_number (poke off d s) = m_current_serialised_file_number s"
  "m_current_no_of_messages (poke off d s) = m_current_no_of_messages s"
  "m_current_mapped (poke off d s) = m_current_mapped s"
  "m_serialised_file_max_size (poke off d s) = m_serialised_file_max_size s"
  "m_keep_message_records_in_memory (poke off d s) = m_keep_message_records_in_memory s"
  "m_message_memory_records (poke off d s) = m_message_memory_records s"
  "ser_openable (poke off d s) = ser_openable s"
  "current_buffer (poke off d s) = overwrite (current_buffer s) off d"
  "n \<noteq> m_current_serialised_file_number s \<Longrightarrow> ser_files (poke off d s) n = ser_files s n"
  by (simp_all add: poke_def current_buffer_def)

lemma append_fields [simp]:
  "m_current_written_bytes (append_bytes d s) = m_current_written_bytes s + length d"
  "m_current_serialised_file_number (append_bytes d s) = m_current_serialised_file_number s"
  "m_current_no_of_messages (append_bytes d s) = m_current_no_of_messages s"
  "m_current_mapped (append_bytes d s) = m_current_mapped s"
  "m_serialised_file_max_size (append_bytes d s) = m_serialised_file_max_size s"
  "m_keep_message_records_in_memory (append_bytes d s) = m_keep_message_records_in_memory s"
  "m_message_memory_records (append_bytes d s) = m_message_memory_records s"
  "ser_openable (append_bytes d s) = ser_openable s"
  "current_buffer (append_bytes d s) = overwrite (current_buffer s) (m_current_written_bytes s) d"
  "n \<noteq> m_current_serialised_file_number s \<Longrightarrow> ser_files (append_bytes d s) n = ser_files s n"
  using poke_fields(9) [of "m_current_written_bytes s" d s]
  by (simp_all add: append_bytes_def current_buffer_def)

lemma current_buffer_update [simp]:
  "current_buffer (s\<lparr>m_message_memory_records := r\<rparr>) = current_buffer s"
  "current_buffer (s\<lparr>m_current_no_of_messages := c\<rparr>) = current_buffer s"
  by (simp_all add: current_buffer_def)

lemma write_entry_effect:
  assumes room: "m_current_written_bytes s + 17 + length msg \<le> length (current_buffer s)"
    and s': "s' = write_entry ts msg ok q s"
  shows "current_buffer s' = overwrite (overwrite (current_buffer s) (m_current_written_bytes s)
            (entry_bytes (ts, ok, msg))) 0 (le_bytes 8 (unat (m_current_no_of_messages s + 1)))"
    and "m_current_written_bytes s' = m_current_written_bytes s + 17 + length msg"
    and "m_current_no_of_messages s' = m_current_no_of_messages s + 1"
    and "m_message_memory_records s' =
      (if m_keep_message_records_in_memory s \<and> m_message_memory_records s q = None
       then (m_message_memory_records s)(q \<mapsto> \<lparr>rec_offset = m_current_written_bytes s + 17,
          rec_length = length msg, rec_file_number = m_current_serialised_file_number s\<rparr>)
       else m_message_memory_records s)"
    and "m_keep_message_records_in_memory s' = m_keep_message_records_in_memory s"
    and "m_current_serialised_file_number s' = m_current_serialised_file_number s"
    and "ser_openable s' = ser_openable s" "m_current_mapped s' = m_current_mapped s"
    and "m_serialised_file_max_size s' = m_serialised_file_max_size s"
    and "n \<noteq> m_current_serialised_file_number s \<Longrightarrow> ser_files s' n = ser_files s n"
proof -
  let ?b = "current_buffer s" and ?w = "m_current_written_bytes s"
  have o: "overwrite (overwrite (overwrite (overwrite ?b ?w (le_bytes 8 (unat ts))) (?w + 8) [f])
        (9 + ?w) (le_bytes 8 (length msg))) (17 + ?w) msg
      = overwrite ?b ?w (le_bytes 8 (unat ts) @ [f] @ le_bytes 8 (length msg) @ msg)" for f
  proof -
    have 1: "overwrite (overwrite ?b ?w (le_bytes 8 (unat ts))) (?w + 8) [f]
        = overwrite ?b ?w (le_bytes 8 (unat ts) @ [f])"
      using overwrite_overwrite [of ?w "le_bytes 8 (unat ts)" ?b "[f]"] room by simp
    have 2: "overwrite (overwrite ?b ?w (le_bytes 8 (unat ts) @ [f])) (9 + ?w) (le_bytes 8 (length msg))
        = overwrite ?b ?w ((le_bytes 8 (unat ts) @ [f]) @ le_bytes 8 (length msg))"
      using overwrite_overwrite [of ?w "le_bytes 8 (unat ts) @ [f]" ?b] room by (simp add: add.commute)
    show ?thesis unfolding 1 2
      using overwrite_overwrite [of ?w "(le_bytes 8 (unat ts) @ [f]) @ le_bytes 8 (length msg)" ?b msg] room
      by (simp add: add.commute)
  qed
  show "current_buffer s' = overwrite (overwrite ?b ?w (entry_bytes (ts, ok, msg))) 0
      (le_bytes 8 (unat (m_current_no_of_messages s + 1)))"
    using o [of "char_of (if ok then 1 else 0 :: nat)"]
    by (simp add: s' write_entry_def Let_def entry_bytes_def add.assoc)
qed (simp_all add: s' write_entry_def Let_def add.assoc add.commute)

subsection \<open>Properties\<close>

text \<open>The current file holds exactly the entries \<open>es\<close> and there is room to count one more.\<close>

definition serialiser_holds :: "message_serialiser \<Rightarrow> entry list \<Rightarrow> bool" where
  "serialiser_holds s es \<longleftrightarrow>
     journal (current_buffer s) es (m_current_written_bytes s) \<and>
     m_current_no_of_messages s = word_of_nat (length es) \<and> Suc (length es) < 2 ^ 64 \<and>
     (\<forall>(ts, ok, msg) \<in> set es. length msg < 2 ^ 64) \<and>
     m_serialised_file_max_size s \<le> length (current_buffer s) \<and>
     m_serialised_file_max_size s < 2 ^ 64 \<and>
     m_current_mapped s \<and>
     (\<forall>q r. m_message_memory_records s q = Some r \<and> rec_file_number r = m_current_serialised_file_number s
        \<longrightarrow> 8 \<le> rec_offset r \<and> rec_offset r + rec_length r \<le> m_current_written_bytes s)"

lemma write_entry_journal:
  assumes "serialiser_holds s es" "has_room s msg" "m_current_written_bytes s \<le> m_serialised_file_max_size s"
    and s': "s' = write_entry ts msg ok q s"
  shows "journal (current_buffer s') (es @ [(ts, ok, msg)]) (m_current_written_bytes s')"
    and "m_current_written_bytes s + 17 + length msg \<le> length (current_buffer s)"
proof -
  let ?b = "current_buffer s" and ?w = "m_current_written_bytes s" and ?e = "(ts, ok, msg) :: entry"
  obtain tail where b: "?b = le_bytes 8 (length es) @ concat (map entry_bytes es) @ tail"
    and w: "?w = 8 + length (concat (map entry_bytes es))"
    using assms(1) by (auto simp: serialiser_holds_def journal_def)
  show room: "?w + 17 + length msg \<le> length ?b"
    using assms(1,2,3) by (auto simp: serialiser_holds_def has_room_def m_serialisation_overhead_bytes_def)
  have count: "unat (m_current_no_of_messages s + 1) = Suc (length es)"
  proof -
    have "m_current_no_of_messages s + 1 = word_of_nat (Suc (length es))"
      using assms(1) by (simp add: serialiser_holds_def add.commute)
    then show ?thesis using assms(1)
      by (simp add: serialiser_holds_def unat_of_nat take_bit_eq_mod del: of_nat_Suc)
  qed
  have "overwrite ?b ?w (entry_bytes ?e)
      = (le_bytes 8 (length es) @ concat (map entry_bytes es)) @ entry_bytes ?e @ drop (length (entry_bytes ?e)) tail"
  proof -
    have "?b = (le_bytes 8 (length es) @ concat (map entry_bytes es)) @ tail" using b by simp
    then show ?thesis by (simp only:) (rule overwrite_at, simp add: w)
  qed
  then have "current_buffer s' = overwrite (le_bytes 8 (length es) @ concat (map entry_bytes (es @ [?e]))
      @ drop (length (entry_bytes ?e)) tail) 0 (le_bytes 8 (Suc (length es)))"
    using write_entry_effect(1) [OF room s'] count by simp
  also have "\<dots> = le_bytes 8 (length (es @ [?e])) @ concat (map entry_bytes (es @ [?e]))
      @ drop (length (entry_bytes ?e)) tail"
    using overwrite_at [of "[]" 0 "le_bytes 8 (length es) @ concat (map entry_bytes (es @ [?e]))
      @ drop (length (entry_bytes ?e)) tail" "le_bytes 8 (Suc (length es))"] by simp
  finally show "journal (current_buffer s') (es @ [?e]) (m_current_written_bytes s')"
    using write_entry_effect(2) [OF room s'] w by (auto simp: journal_def entry_bytes_def)
qed

text \<open>What was just written is found under its number.\<close>

lemma read_written:
  assumes room: "m_current_written_bytes s + 17 + length msg \<le> length (current_buffer s)"
    and s': "s' = write_entry ts msg ok q s"
    and "m_keep_message_records_in_memory s" "m_message_memory_records s q = None"
  shows "read_message s' q cap = (if cap < length msg then None else Some msg)"
proof -
  note eff = write_entry_effect [OF room s']
  let ?b = "current_buffer s" and ?w = "m_current_written_bytes s"
  obtain h where h: "entry_bytes (ts, ok, msg) = h @ msg" "length h = 17"
    by (simp add: entry_bytes_def)
  have "overwrite ?b ?w (h @ msg) = (take ?w ?b @ h) @ msg @ drop (?w + 17 + length msg) ?b"
    by (simp add: overwrite_def h(2) add.assoc)
  moreover have "length (take ?w ?b @ h) = ?w + 17" using room h(2) by simp
  ultimately have "take (length msg) (drop (?w + 17) (overwrite ?b ?w (h @ msg))) = msg"
    by (metis append_eq_conv_conj)
  moreover have "drop (?w + 17) (overwrite x 0 (le_bytes 8 c)) = drop (?w + 17) x" for x c
    by (simp add: overwrite_def add.commute)
  ultimately have "take (length msg) (drop (?w + 17) (current_buffer s')) = msg" unfolding eff(1) h(1) by simp
  then show ?thesis using assms(3,4) by (simp add: read_message_def has_message_in_memory_def eff(4-6))
qed

text \<open>C13: the journal is faithful: with room in the current file, after writing a message the file read
  back by \<open>deserialise\<close> consists of exactly the earlier entries followed by the new one, with their
  timestamps, transmission flags and contents, and the reader reports success and the write position. A serialiser
  that keeps records, and has none under the number yet, gives the message back unchanged under that
  number into any buffer that is large enough for it.\<close>

theorem journal_write_then_read:
  assumes "serialiser_holds s es" "has_room s msg" "m_current_written_bytes s \<le> m_serialised_file_max_size s"
  shows "(\<exists>entries.
    deserialise (current_buffer (serialiser_write ts msg ok q s)) =
      Some (Suc (length es), m_current_written_bytes (serialiser_write ts msg ok q s), entries, True) \<and>
    map (\<lambda>e. (je_timestamp e, je_success e, je_message e)) entries =
      map (\<lambda>(ts, ok, msg). (unat ts, ok, msg)) (es @ [(ts, ok, msg)])) \<and>
    (m_keep_message_records_in_memory s \<and> m_message_memory_records s q = None \<longrightarrow>
      read_message (serialiser_write ts msg ok q s) q cap = (if cap < length msg then None else Some msg))"
proof -
  define s' where "s' = write_entry ts msg ok q s"
  have w: "serialiser_write ts msg ok q s = s'"
    using assms by (simp add: serialiser_write_def s'_def serialiser_holds_def)
  note j = write_entry_journal [OF assms s'_def]
  have "length msg < 2 ^ 64"
    using assms by (auto simp: serialiser_holds_def has_room_def)
  then have "deserialise (current_buffer s') = Some (length (es @ [(ts, ok, msg)]),
      m_current_written_bytes s', entries_from 8 (es @ [(ts, ok, msg)]), True)"
    using assms(1) by (intro deserialise_journal [OF j(1)]) (auto simp: serialiser_holds_def)
  then show ?thesis unfolding w using read_written [OF j(2) s'_def] by (auto simp: entries_from_contents)
qed

definition fresh_serialiser :: message_serialiser where
  "fresh_serialiser = \<lparr>m_initialised = True, m_serialised_file_max_size = 4096,
     ser_files = [1 \<mapsto> replicate 4096 (CHR 0x00)], ser_openable = (\<lambda>_. True),
     m_current_serialised_file_number = 1, m_current_mapped = True, m_current_written_bytes = 8,
     m_current_no_of_messages = 0, m_message_memory_records = Map.empty,
     m_keep_message_records_in_memory = True\<rparr>"

lemma le_bytes_0: "le_bytes k 0 = replicate k (CHR 0x00)"
  by (induction k) (simp_all add: flag_chars)

lemma fresh_serialiser_holds: "serialiser_holds fresh_serialiser []"
proof -
  have "replicate 4096 (CHR 0x00) = le_bytes 8 0 @ replicate 4088 (CHR 0x00)"
    by (simp add: le_bytes_0 replicate_add [symmetric])
  then show ?thesis
    by (auto simp: serialiser_holds_def fresh_serialiser_def journal_def current_buffer_def)
qed

theorem journal_write_then_read_witness:
  "(\<exists>entries.
    deserialise (current_buffer (serialiser_write 5 ''8=FIX.4.4'' True 1 fresh_serialiser)) =
      Some (1, m_current_written_bytes (serialiser_write 5 ''8=FIX.4.4'' True 1 fresh_serialiser), entries, True) \<and>
    map (\<lambda>e. (je_timestamp e, je_success e, je_message e)) entries = [(5, True, ''8=FIX.4.4'')]) \<and>
    read_message (serialiser_write 5 ''8=FIX.4.4'' True 1 fresh_serialiser) 1 9 = Some ''8=FIX.4.4''"
proof -
  have "has_room fresh_serialiser ''8=FIX.4.4''" "m_current_written_bytes fresh_serialiser \<le> m_serialised_file_max_size fresh_serialiser"
    "m_keep_message_records_in_memory fresh_serialiser" "m_message_memory_records fresh_serialiser 1 = None"
    by (simp_all add: has_room_def fresh_serialiser_def m_serialisation_overhead_bytes_def)
  with journal_write_then_read [OF fresh_serialiser_holds this(1,2), of 5 True 1 9] show ?thesis by auto
qed

text \<open>C39: the replay index keeps the first message written under a sequence number: writing again, under
  the same number (as happens after the numbers were reset) or another, never changes what a replay of
  an indexed number reads from the current file.\<close>

theorem indexed_message_never_replaced:
  assumes "serialiser_holds s es" "has_room s msg" "m_current_written_bytes s \<le> m_serialised_file_max_size s"
    and "m_keep_message_records_in_memory s" "m_message_memory_records s q' = Some r"
    and "rec_file_number r = m_current_serialised_file_number s"
  shows "read_message (serialiser_write ts msg ok q s) q' cap = read_message s q' cap"
proof -
  define s' where "s' = write_entry ts msg ok q s"
  have w: "serialiser_write ts msg ok q s = s'"
    using assms by (simp add: serialiser_write_def s'_def serialiser_holds_def)
  let ?b = "current_buffer s" and ?w = "m_current_written_bytes s"
  have room: "?w + 17 + length msg \<le> length ?b"
    by (rule write_entry_journal(2) [OF assms(1-3) s'_def])
  note eff = write_entry_effect [OF room s'_def]
  have r: "8 \<le> rec_offset r" "rec_offset r + rec_length r \<le> ?w"
    using assms(1,5,6) by (auto simp: serialiser_holds_def)
  have same: "take (rec_length r) (drop (rec_offset r) (overwrite (overwrite ?b ?w d) 0 (le_bytes 8 c)))
      = take (rec_length r) (drop (rec_offset r) ?b)" for d c
  proof -
    have "drop (rec_offset r) (overwrite (overwrite ?b ?w d) 0 (le_bytes 8 c))
        = drop (rec_offset r) (overwrite ?b ?w d)"
      using r(1) by (simp add: overwrite_def [of _ 0])
    moreover have "take (rec_offset r + rec_length r) (overwrite ?b ?w d)
        = take (rec_offset r + rec_length r) ?b"
      using r(2) room by (simp add: overwrite_def)
    ultimately show ?thesis
      by (metis add.commute add_diff_cancel_left' drop_take)
  qed
  have "m_message_memory_records s' q' = Some r" using eff(4) assms(5) by auto
  then show ?thesis unfolding w read_message_def has_message_in_memory_def
    using assms(4-6) eff(5,6) same by (simp add: eff(1))
qed

theorem indexed_message_never_replaced_witness:
  "read_message (serialiser_write 9 ''35=8'' True 1 (serialiser_write 5 ''35=D'' True 1 fresh_serialiser)) 1 100
     = read_message (serialiser_write 5 ''35=D'' True 1 fresh_serialiser) 1 100"
proof -
  define s where "s = write_entry 5 ''35=D'' True 1 fresh_serialiser"
  have room: "has_room fresh_serialiser ''35=D''"
    by (simp add: has_room_def fresh_serialiser_def m_serialisation_overhead_bytes_def)
  have w: "serialiser_write 5 ''35=D'' True 1 fresh_serialiser = s"
    using room by (simp add: serialiser_write_def s_def fresh_serialiser_def)
  have le: "m_current_written_bytes fresh_serialiser + 17 + length ''35=D''
      \<le> length (current_buffer fresh_serialiser)"
    by (simp add: fresh_serialiser_def current_buffer_def)
  note eff = write_entry_effect [OF le s_def]
  have j: "journal (current_buffer s) ([] @ [(5, True, ''35=D'')]) (m_current_written_bytes s)"
    by (rule write_entry_journal(1) [OF fresh_serialiser_holds room _ s_def]) (simp add: fresh_serialiser_def)
  have len: "length (current_buffer s) = 4096"
    using eff(1) by (simp add: fresh_serialiser_def current_buffer_def overwrite_def entry_bytes_def)
  have h: "serialiser_holds s [(5, True, ''35=D'')]"
    using j len eff by (auto simp: serialiser_holds_def fresh_serialiser_def)
  show ?thesis unfolding w
    by (rule indexed_message_never_replaced [OF h])
      (use eff in \<open>auto simp: has_room_def fresh_serialiser_def m_serialisation_overhead_bytes_def\<close>)
qed

end
