(* ===== verification/Outgoing_Message.thy ===== *)
theory Outgoing_Message
  imports Session_Settings Fix_Utilities
begin

text \<open>
  \<open>outgoing_fix_message.h\<close>, with the \<open>FixString\<close> cache of \<open>fix_string.h\<close> and \<open>object_cache.h\<close>: tags
  collected per component, the encoder, and the loader that rebuilds a stored message for a replay.
  A cached \<open>FixString\<close> is its buffer, whose bytes past the value are those of its earlier uses; they
  matter because the loader passes \<open>data()\<close> as a C string. A \<open>FixString\<close> that outgrows its buffer gets
  a new one whose last byte is taken to be zero. \<open>encode\<close> returns the bytes it writes; the callers
  compare their number with the capacity of the target, which the code does not. \<^term>\<open>None\<close> is
  undefined behaviour.
\<close>

datatype FixMessageComponent = HEADER | BODY | TRAILER

record outgoing_message =
  m_msg_type :: string
  m_fix_string_send_time :: "string option"
  m_additional_static_header_tags :: "(u32 \<times> string) list"
  m_header :: "(u32 \<times> string) list"
  m_body :: "(u32 \<times> string) list"
  m_trailer :: "(u32 \<times> string) list"
  m_fix_string_cache :: "string list"
  m_cache_pointer :: nat

definition fix_string_buffer :: string where
  "fix_string_buffer = replicate 64 (CHR 0x00)"

definition new_outgoing_message :: outgoing_message where
  "new_outgoing_message = \<lparr>m_msg_type = [CHR 0x00], m_fix_string_send_time = None,
     m_additional_static_header_tags = [], m_header = [], m_body = [], m_trailer = [],
     m_fix_string_cache = replicate 256 fix_string_buffer, m_cache_pointer = 0\<rparr>"

subsection \<open>Values\<close>

definition copy_from :: "string \<Rightarrow> string \<Rightarrow> string" where
  "copy_from text buf =
     (if length buf < length text then text @ [CHR 0x00] else text @ drop (length text) buf)"

text \<open>\<open>allocate\<close> followed by \<open>copy_from\<close>; a full cache doubles.\<close>

definition allocate_copy :: "string \<Rightarrow> outgoing_message \<Rightarrow> outgoing_message" where
  "allocate_copy text m =
     (let cache = (if length (m_fix_string_cache m) \<le> m_cache_pointer m then
                     m_fix_string_cache m @ replicate (length (m_fix_string_cache m)) fix_string_buffer
                   else m_fix_string_cache m);
          p = m_cache_pointer m
      in m\<lparr>m_fix_string_cache := cache[p := copy_from text (cache ! p)], m_cache_pointer := p + 1\<rparr>)"

definition last_value_data :: "outgoing_message \<Rightarrow> string" where
  "last_value_data m = m_fix_string_cache m ! (m_cache_pointer m - 1)"

definition set_tag_internal ::
    "FixMessageComponent \<Rightarrow> u32 \<Rightarrow> string \<Rightarrow> outgoing_message \<Rightarrow> outgoing_message" where
  "set_tag_internal component tag v m =
     (case component of
        HEADER \<Rightarrow> m\<lparr>m_header := m_header m @ [(tag, v)]\<rparr>
      | BODY \<Rightarrow> m\<lparr>m_body := m_body m @ [(tag, v)]\<rparr>
      | TRAILER \<Rightarrow> m\<lparr>m_trailer := m_trailer m @ [(tag, v)]\<rparr>)"

definition set_tag_view ::
    "FixMessageComponent \<Rightarrow> u32 \<Rightarrow> string \<Rightarrow> outgoing_message \<Rightarrow> outgoing_message" where
  "set_tag_view component tag v m = set_tag_internal component tag v (allocate_copy v m)"

text \<open>\<open>const char*\<close> and \<open>std::string\<close> values go through a C string.\<close>

definition set_tag_text ::
    "FixMessageComponent \<Rightarrow> u32 \<Rightarrow> string \<Rightarrow> outgoing_message \<Rightarrow> outgoing_message" where
  "set_tag_text component tag v m = set_tag_view component tag (takeWhile (\<lambda>c. c \<noteq> CHR 0x00) v) m"

definition u32_text :: "u32 \<Rightarrow> string" where
  "u32_text v =
     (case uint32_to_chars v fix_string_buffer of None \<Rightarrow> [] | Some (len, buf) \<Rightarrow> take len buf)"

definition int_text :: "i32 \<Rightarrow> string" where
  "int_text v =
     (case int_to_chars v fix_string_buffer of None \<Rightarrow> [] | Some (len, buf) \<Rightarrow> take len buf)"

definition set_tag_u32 ::
    "FixMessageComponent \<Rightarrow> u32 \<Rightarrow> u32 \<Rightarrow> outgoing_message \<Rightarrow> outgoing_message" where
  "set_tag_u32 component tag v m = set_tag_view component tag (u32_text v) m"

definition set_tag_int ::
    "FixMessageComponent \<Rightarrow> u32 \<Rightarrow> i32 \<Rightarrow> outgoing_message \<Rightarrow> outgoing_message" where
  "set_tag_int component tag v m = set_tag_view component tag (int_text v) m"

definition set_tag_char ::
    "FixMessageComponent \<Rightarrow> u32 \<Rightarrow> char \<Rightarrow> outgoing_message \<Rightarrow> outgoing_message" where
  "set_tag_char component tag c m = set_tag_view component tag [c] m"

definition set_tag_bool ::
    "FixMessageComponent \<Rightarrow> u32 \<Rightarrow> bool \<Rightarrow> outgoing_message \<Rightarrow> outgoing_message" where
  "set_tag_bool component tag b m = set_tag_view component tag [if b then CHR ''Y'' else CHR ''N''] m"

definition set_binary_tag ::
    "FixMessageComponent \<Rightarrow> u32 \<Rightarrow> string \<Rightarrow> outgoing_message \<Rightarrow> outgoing_message" where
  "set_binary_tag component tag buffer m = set_tag_view component tag buffer m"

definition ensure_send_time :: "SubsecondPrecision \<Rightarrow> nat \<Rightarrow> outgoing_message \<Rightarrow> string" where
  "ensure_send_time precision now m =
     (case m_fix_string_send_time m of None \<Rightarrow> encode_current_time precision now | Some t \<Rightarrow> t)"

definition set_timestamp_tag :: "SubsecondPrecision \<Rightarrow> nat \<Rightarrow> FixMessageComponent \<Rightarrow> u32 \<Rightarrow>
    outgoing_message \<Rightarrow> outgoing_message" where
  "set_timestamp_tag precision now component tag m =
     (let t = ensure_send_time precision now m
      in set_tag_internal component tag t (m\<lparr>m_fix_string_send_time := Some t\<rparr>))"

definition set_msg_type_char :: "char \<Rightarrow> outgoing_message \<Rightarrow> outgoing_message" where
  "set_msg_type_char c m = m\<lparr>m_msg_type := [c]\<rparr>"

definition set_msg_type :: "string \<Rightarrow> outgoing_message \<Rightarrow> outgoing_message option" where
  "set_msg_type buffer m = (if length buffer \<le> 4 then Some (m\<lparr>m_msg_type := buffer\<rparr>) else None)"

definition set_additional_static_header_tag :: "u32 \<Rightarrow> string \<Rightarrow> outgoing_message \<Rightarrow> outgoing_message" where
  "set_additional_static_header_tag tag val m =
     m\<lparr>m_additional_static_header_tags := m_additional_static_header_tags m @ [(tag, val)]\<rparr>"

definition is_static_header_tag :: "outgoing_message \<Rightarrow> u32 \<Rightarrow> bool" where
  "is_static_header_tag m tag \<longleftrightarrow> tag \<in> fst ` set (m_additional_static_header_tags m)"

subsection \<open>Encoding\<close>

definition field :: "u32 \<times> string \<Rightarrow> string" where
  "field tv = u32_text (fst tv) @ ''='' @ snd tv @ [SOH]"

definition fields_length :: "(u32 \<times> string) list \<Rightarrow> nat" where
  "fields_length tvs = sum_list (map (\<lambda>(t, v). 2 + length (u32_text t) + length v) tvs)"

definition body_length :: "session_settings \<Rightarrow> u32 \<Rightarrow> string \<Rightarrow> u32 \<Rightarrow> outgoing_message \<Rightarrow> nat" where
  "body_length st incoming_seq_no send_time sequence_no m =
     20 + length send_time + length (m_msg_type m) + length (u32_text sequence_no) +
     length (sender_comp_id st) + length (target_comp_id st) +
     (if include_last_processed_seqnum_in_header st then 5 + length (u32_text incoming_seq_no) else 0) +
     fields_length (m_header m) + fields_length (m_body m) + fields_length (m_trailer m) +
     fields_length (m_additional_static_header_tags m)"

definition encode_after_length :: "session_settings \<Rightarrow> u32 \<Rightarrow> string \<Rightarrow> u32 \<Rightarrow> outgoing_message \<Rightarrow> string" where
  "encode_after_length st incoming_seq_no send_time sequence_no m =
     ''35='' @ m_msg_type m @ [SOH] @
     ''34='' @ u32_text sequence_no @ [SOH] @
     ''49='' @ sender_comp_id st @ [SOH] @
     ''52='' @ send_time @ [SOH] @
     ''56='' @ target_comp_id st @ [SOH] @
     (if include_last_processed_seqnum_in_header st then ''369='' @ u32_text incoming_seq_no @ [SOH] else []) @
     concat (map field (m_additional_static_header_tags m)) @
     concat (map field (m_header m)) @
     concat (map field (m_body m)) @
     concat (map field (m_trailer m))"

definition encode :: "session_settings \<Rightarrow> u32 \<Rightarrow> nat \<Rightarrow> u32 \<Rightarrow> outgoing_message \<Rightarrow> string \<times> outgoing_message" where
  "encode st incoming_seq_no now sequence_no m =
     (let send_time = ensure_send_time (timestamp_subseconds_precision st) now m;
          len = body_length st incoming_seq_no send_time sequence_no m;
          prefix = ''8='' @ begin_string st @ [SOH] @ ''9='' @ u32_text (word_of_nat len) @ [SOH] @
                   encode_after_length st incoming_seq_no send_time sequence_no m;
          checksum = (if enable_simd_avx2 st then encode_checksum_simd_avx2 prefix
                      else encode_checksum_no_simd prefix)
      in (prefix @ ''10='' @ checksum @ [SOH],
          m\<lparr>m_header := [], m_body := [], m_trailer := [], m_cache_pointer := 0,
            m_fix_string_send_time := None\<rparr>))"

subsection \<open>Loading a stored message\<close>

definition not_loaded :: "u32 \<Rightarrow> bool" where
  "not_loaded tag \<longleftrightarrow> tag = TAG_BEGIN_STRING \<or> tag = TAG_BODY_LENGTH \<or> tag = TAG_SENDER_COMP_ID \<or>
     tag = TAG_TARGET_COMP_ID \<or> tag = TAG_CHECKSUM"

definition load_msg_type :: "string \<Rightarrow> outgoing_message \<Rightarrow> (outgoing_message \<times> bool) option" where
  "load_msg_type v m =
     (if is_a_non_retransmittable_admin_message_type v then
        Some (set_msg_type_char MSG_TYPE_SEQUENCE_RESET m, True)
      else if length v = 1 then Some (set_msg_type_char (v ! 0) m, False)
      else if CHR 0x00 \<notin> set (last_value_data m) then None
      else (case set_msg_type (takeWhile (\<lambda>c. c \<noteq> CHR 0x00) (last_value_data m)) m of
              None \<Rightarrow> None
            | Some m' \<Rightarrow> Some (m', False)))"

definition load_field ::
    "string \<Rightarrow> string \<Rightarrow> outgoing_message \<times> bool \<Rightarrow> (outgoing_message \<times> bool) option" where
  "load_field tag_text v st =
     (case st of (m, replacing) \<Rightarrow>
        (let tag = chars_to_unsigned_int tag_text
         in if not_loaded tag then Some (m, replacing)
            else if is_static_header_tag m tag then Some (m, replacing)
            else
              (let m1 = allocate_copy v m
               in if tag = TAG_MSG_TYPE then load_msg_type v m1
                  else if tag = TAG_SENDING_TIME then
                    Some (set_tag_view HEADER TAG_ORIG_SENDING_TIME v m1, replacing)
                  else if tag = TAG_MSG_SEQ_NUM then
                    (if replacing then
                       Some (set_tag_u32 BODY TAG_NEW_SEQ_NO (chars_to_unsigned_int v + 1) m1, replacing)
                     else Some (m1, replacing))
                  else if \<not> replacing then Some (set_tag_view BODY tag v m1, replacing)
                  else Some (m1, replacing))))"

text \<open>The scan; \<open>tag\<close> holds the characters since the last delimiter, the value those since the equals
  sign (\<open>None\<close> while looking for it).\<close>

fun load_scan :: "string \<Rightarrow> string \<Rightarrow> string option \<Rightarrow> outgoing_message \<times> bool \<Rightarrow>
    (outgoing_message \<times> bool) option" where
  "load_scan [] tag v st = Some st"
| "load_scan (c # cs) tag None st =
     (if c = CHR ''='' then load_scan cs tag (Some []) st else load_scan cs (tag @ [c]) None st)"
| "load_scan (c # cs) tag (Some v) st =
     (if c = SOH then
        (case load_field tag v st of None \<Rightarrow> None | Some st' \<Rightarrow> load_scan cs [] None st')
      else load_scan cs tag (Some (v @ [c])) st)"

text \<open>An empty buffer makes the loop run past it: the end is tested after the first read.\<close>

definition load_from_buffer :: "string \<Rightarrow> outgoing_message \<Rightarrow> outgoing_message option" where
  "load_from_buffer buffer m =
     (if buffer = [] then None else map_option fst (load_scan buffer [] None (m, False)))"

subsection \<open>Facts on encoding\<close>

lemma u32_text_dec [simp]: "u32_text v = dec (unat v)"
proof -
  have "length (dec (unat v)) \<le> length fix_string_buffer"
    using dec_unat_length32 [of v] by (simp add: fix_string_buffer_def)
  then show ?thesis by (simp add: u32_text_def uint32_to_chars_eq)
qed

lemma fields_length_eq: "fields_length tvs = length (concat (map field tvs))"
  by (induction tvs) (auto simp: fields_length_def field_def)

lemma body_length_eq:
  "body_length st i t q m = length (encode_after_length st i t q m)"
  by (simp add: body_length_def encode_after_length_def fields_length_eq)

lemma encode_checksum_either:
  "(if b then encode_checksum_simd_avx2 p else encode_checksum_no_simd p) = dec3 (checksum_of p)"
  by (simp add: encode_checksum_simd encode_checksum_scalar)

subsection \<open>Properties\<close>

text \<open>C14: the encoder produces a well-formed FIX message: BodyLength counts exactly the bytes between
  its delimiter and the checksum field, whatever tags were set, CheckSum is the three-digit sum of all
  bytes before it modulo 256 (with or without SIMD), and the message is ready for the next one.\<close>

theorem encode_well_formed:
  assumes "length (encode_after_length st i (ensure_send_time (timestamp_subseconds_precision st) now m) q m) < 2 ^ 32"
  shows "\<exists>body prefix. body = encode_after_length st i
        (ensure_send_time (timestamp_subseconds_precision st) now m) q m \<and>
    prefix = ''8='' @ begin_string st @ [SOH] @ ''9='' @ dec (length body) @ [SOH] @ body \<and>
    encode st i now q m = (prefix @ ''10='' @ dec3 (checksum_of prefix) @ [SOH],
      m\<lparr>m_header := [], m_body := [], m_trailer := [], m_cache_pointer := 0, m_fix_string_send_time := None\<rparr>)"
proof -
  have "unat (word_of_nat (length (encode_after_length st i
      (ensure_send_time (timestamp_subseconds_precision st) now m) q m)) :: u32)
    = length (encode_after_length st i (ensure_send_time (timestamp_subseconds_precision st) now m) q m)"
    using assms by (simp add: unat_of_nat take_bit_nat_eq_self)
  then show ?thesis
    by (simp add: encode_def Let_def body_length_eq encode_checksum_either)
qed

theorem encode_well_formed_witness:
  "\<exists>body prefix. body = encode_after_length (office_hours\<lparr>enable_simd_avx2 := True\<rparr>) 0
        (ensure_send_time NANOSECONDS 1709208000123456789
           (set_tag_u32 BODY 108 30 (set_msg_type_char (CHR ''A'') new_outgoing_message))) 1
        (set_tag_u32 BODY 108 30 (set_msg_type_char (CHR ''A'') new_outgoing_message)) \<and>
    prefix = ''8='' @ begin_string (office_hours\<lparr>enable_simd_avx2 := True\<rparr>) @ [SOH] @
      ''9='' @ dec (length body) @ [SOH] @ body \<and>
    encode (office_hours\<lparr>enable_simd_avx2 := True\<rparr>) 0 1709208000123456789 1
        (set_tag_u32 BODY 108 30 (set_msg_type_char (CHR ''A'') new_outgoing_message))
      = (prefix @ ''10='' @ dec3 (checksum_of prefix) @ [SOH],
         (set_tag_u32 BODY 108 30 (set_msg_type_char (CHR ''A'') new_outgoing_message))
           \<lparr>m_header := [], m_body := [], m_trailer := [], m_cache_pointer := 0, m_fix_string_send_time := None\<rparr>)"
proof -
  let ?st = "office_hours\<lparr>enable_simd_avx2 := True\<rparr>"
  let ?m = "set_tag_u32 BODY 108 30 (set_msg_type_char (CHR ''A'') new_outgoing_message)"
  have p: "timestamp_subseconds_precision ?st = NANOSECONDS"
    by (simp add: office_hours_def default_session_settings_def)
  have t: "m_fix_string_send_time ?m = None"
    by (simp add: set_tag_u32_def set_tag_view_def set_tag_internal_def allocate_copy_def Let_def
        set_msg_type_char_def new_outgoing_message_def)
  have "length (ensure_send_time NANOSECONDS 1709208000123456789 ?m) = 27"
    by (simp add: ensure_send_time_def t encode_current_time_eq length_datetime TIME_LENGTHS_def)
  moreover have "length (dec (unat (1 :: u32))) \<le> 10" "length (dec (unat (108 :: u32))) \<le> 10"
    "length (dec (unat (30 :: u32))) \<le> 10"
    by (rule dec_unat_length32)+
  ultimately have "length (encode_after_length ?st 0 (ensure_send_time NANOSECONDS 1709208000123456789 ?m) 1 ?m) < 2 ^ 32"
    by (simp add: encode_after_length_def set_tag_u32_def set_tag_view_def set_tag_internal_def
        allocate_copy_def Let_def set_msg_type_char_def new_outgoing_message_def field_def
        office_hours_def default_session_settings_def)
  then show ?thesis using encode_well_formed [of ?st 0 1709208000123456789 ?m 1] unfolding p by simp
qed

subsection \<open>Facts on loading\<close>

fun load_fields :: "(string \<times> string) list \<Rightarrow> outgoing_message \<times> bool \<Rightarrow>
    (outgoing_message \<times> bool) option" where
  "load_fields [] st = Some st"
| "load_fields ((t, v) # tvs) st =
     (case load_field t v st of None \<Rightarrow> None | Some st' \<Rightarrow> load_fields tvs st')"

lemma load_scan_tag:
  "CHR ''='' \<notin> set t \<Longrightarrow> load_scan (t @ CHR ''='' # rest) tag None st = load_scan rest (tag @ t) (Some []) st"
  by (induction t arbitrary: tag) auto

lemma load_scan_value:
  "SOH \<notin> set v \<Longrightarrow> load_scan (v @ SOH # rest) tag (Some w) st =
     (case load_field tag (w @ v) st of None \<Rightarrow> None | Some st' \<Rightarrow> load_scan rest [] None st')"
  by (induction v arbitrary: w) auto

lemma load_scan_fields:
  "list_all (\<lambda>(t, v). CHR ''='' \<notin> set t \<and> SOH \<notin> set v) tvs \<Longrightarrow>
   load_scan (concat (map (\<lambda>(t, v). t @ ''='' @ v @ [SOH]) tvs)) [] None st = load_fields tvs st"
  by (induction tvs arbitrary: st) (auto simp: load_scan_tag load_scan_value split: option.splits)

lemma load_fields_append:
  "load_fields (xs @ ys) st = (case load_fields xs st of None \<Rightarrow> None | Some st' \<Rightarrow> load_fields ys st')"
  by (induction xs arbitrary: st) (auto split: option.splits)

lemma allocate_copy_fields [simp]:
  "m_msg_type (allocate_copy v m) = m_msg_type m" "m_header (allocate_copy v m) = m_header m"
  "m_body (allocate_copy v m) = m_body m" "m_trailer (allocate_copy v m) = m_trailer m"
  "m_additional_static_header_tags (allocate_copy v m) = m_additional_static_header_tags m"
  "m_fix_string_send_time (allocate_copy v m) = m_fix_string_send_time m"
  by (simp_all add: allocate_copy_def Let_def)

lemma set_tag_view_fields [simp]:
  "m_msg_type (set_tag_view c t v m) = m_msg_type m"
  "m_header (set_tag_view c t v m) = (if c = HEADER then m_header m @ [(t, v)] else m_header m)"
  "m_body (set_tag_view c t v m) = (if c = BODY then m_body m @ [(t, v)] else m_body m)"
  "m_trailer (set_tag_view c t v m) = (if c = TRAILER then m_trailer m @ [(t, v)] else m_trailer m)"
  "m_additional_static_header_tags (set_tag_view c t v m) = m_additional_static_header_tags m"
  "m_fix_string_send_time (set_tag_view c t v m) = m_fix_string_send_time m"
  by (cases c; simp add: set_tag_view_def set_tag_internal_def)+

text \<open>Two messages agree up to their value cache.\<close>

definition same_content :: "outgoing_message \<Rightarrow> outgoing_message \<Rightarrow> bool" where
  "same_content m m' \<longleftrightarrow> m_msg_type m = m_msg_type m' \<and> m_header m = m_header m' \<and>
     m_body m = m_body m' \<and> m_trailer m = m_trailer m' \<and>
     m_additional_static_header_tags m = m_additional_static_header_tags m' \<and>
     m_fix_string_send_time m = m_fix_string_send_time m'"

definition reserved :: "u32 \<Rightarrow> bool" where
  "reserved t \<longleftrightarrow> not_loaded t \<or> t = TAG_MSG_TYPE \<or> t = TAG_SENDING_TIME \<or> t = TAG_MSG_SEQ_NUM"

lemma load_field_plain:
  assumes "\<not> reserved t"
  shows "\<exists>m'. load_field (dec (unat t)) v (m, False) = Some (m', False) \<and>
    same_content m' (m\<lparr>m_body := m_body m @ (if is_static_header_tag m t then [] else [(t, v)])\<rparr>)"
  using assms
  by (auto simp: load_field_def reserved_def Let_def same_content_def dec_simps)

lemma same_content_body:
  "same_content m1 (m\<lparr>m_body := b\<rparr>) \<Longrightarrow> same_content m2 (m1\<lparr>m_body := m_body m1 @ c\<rparr>) \<Longrightarrow>
   same_content m2 (m\<lparr>m_body := b @ c\<rparr>)"
  by (simp add: same_content_def)

lemma load_fields_plain:
  assumes "list_all (\<lambda>(t, v). \<not> reserved t) tvs"
  shows "\<exists>m'. load_fields (map (\<lambda>(t, v). (dec (unat t), v)) tvs) (m, False) = Some (m', False) \<and>
    same_content m' (m\<lparr>m_body := m_body m @ filter (\<lambda>(t, v). \<not> is_static_header_tag m t) tvs\<rparr>)"
  using assms
proof (induction tvs arbitrary: m)
  case Nil
  then show ?case by (simp add: same_content_def)
next
  case (Cons tv tvs)
  obtain t v where tv: "tv = (t, v)" by (cases tv)
  obtain m1 where m1: "load_field (dec (unat t)) v (m, False) = Some (m1, False)"
    "same_content m1 (m\<lparr>m_body := m_body m @ (if is_static_header_tag m t then [] else [(t, v)])\<rparr>)"
    using load_field_plain [of t v m] Cons.prems tv by auto
  then have st: "is_static_header_tag m1 = is_static_header_tag m"
    by (simp add: same_content_def is_static_header_tag_def fun_eq_iff)
  obtain m2 where "load_fields (map (\<lambda>(t, v). (dec (unat t), v)) tvs) (m1, False) = Some (m2, False)"
    "same_content m2 (m1\<lparr>m_body := m_body m1 @ filter (\<lambda>(t, v). \<not> is_static_header_tag m t) tvs\<rparr>)"
    using Cons.IH [of m1] Cons.prems by (auto simp: st)
  with same_content_body [OF m1(2)] m1(1) tv show ?case by auto
qed

lemma SOH_not_digit: "list_all is_digit s \<Longrightarrow> SOH \<notin> set s"
  by (auto simp: list_all_iff is_digit_def)

lemma dec_clean [simp]: "SOH \<notin> set (dec n)" "CHR ''='' \<notin> set (dec n)"
  by (auto dest!: dec_digits simp: is_digit_def)

lemma send_time_clean: "SOH \<notin> set (encode_current_time p now)"
proof -
  obtain y m d h mi s sub where g: "encode_current_time p now = time_stamp y (m + 1) d h mi s sub"
    "subsecond_part sub" "m < 12" "1 \<le> d" "d \<le> 31" "h \<le> 23" "mi \<le> 59" "s \<le> 59"
    by (rule encode_current_time_stamp [of p now]) blast
  have two: "list_all is_digit (digits2 n)" if "n < 100" for n
    using that by (simp add: digits2_def)
  have "list_all is_digit (digits4 y)" by (simp add: digits4_def)
  moreover have "SOH \<notin> set sub"
    using g(2) SOH_not_digit by (auto simp: subsecond_part_def)
  ultimately show ?thesis
    using SOH_not_digit [OF two, of "m + 1"] SOH_not_digit [OF two, of d] SOH_not_digit [OF two, of h]
      SOH_not_digit [OF two, of mi] SOH_not_digit [OF two, of s] g
    by (simp add: time_stamp_def SOH_not_digit)
qed

text \<open>What \<open>encode\<close> writes, as a list of textual tags and values.\<close>

definition encoded_fields :: "session_settings \<Rightarrow> u32 \<Rightarrow> string \<Rightarrow> u32 \<Rightarrow> string \<Rightarrow> string \<Rightarrow>
    outgoing_message \<Rightarrow> (string \<times> string) list" where
  "encoded_fields st i t q len checksum m =
     [(''8'', begin_string st), (''9'', len), (''35'', m_msg_type m), (''34'', dec (unat q)),
      (''49'', sender_comp_id st), (''52'', t), (''56'', target_comp_id st)] @
     map (\<lambda>(t, v). (dec (unat t), v))
       ((if include_last_processed_seqnum_in_header st then [(369, dec (unat i))] else []) @
        m_additional_static_header_tags m @ m_header m @ m_body m @ m_trailer m) @
     [(''10'', checksum)]"

lemma dec_369: "dec 369 = ''369''"
  by code_simp

lemma encoded_fields_text:
  "concat (map (\<lambda>(t, v). t @ ''='' @ v @ [SOH]) (encoded_fields st i t q len checksum m)) =
     ''8='' @ begin_string st @ [SOH] @ ''9='' @ len @ [SOH] @ encode_after_length st i t q m @
     ''10='' @ checksum @ [SOH]"
proof -
  have f: "(\<lambda>(t, v). t @ CHR ''='' # v @ [SOH]) \<circ> (\<lambda>(t, v). (dec (unat t), v)) = field"
    by (auto simp: field_def fun_eq_iff)
  show ?thesis
    by (cases "include_last_processed_seqnum_in_header st")
      (simp_all add: encoded_fields_def encode_after_length_def f dec_369 field_def)
qed

lemma encode_as_fields:
  obtains len checksum where "checksum < 256" "fst (encode st i now q m) =
     concat (map (\<lambda>(t, v). t @ ''='' @ v @ [SOH])
       (encoded_fields st i (ensure_send_time (timestamp_subseconds_precision st) now m) q (dec len)
         (dec3 checksum) m))"
proof -
  let ?t = "ensure_send_time (timestamp_subseconds_precision st) now m"
  let ?len = "unat (word_of_nat (body_length st i ?t q m) :: u32)"
  let ?p = "''8='' @ begin_string st @ [SOH] @ ''9='' @ dec ?len @ [SOH] @ encode_after_length st i ?t q m"
  show ?thesis
    by (rule that [of "checksum_of ?p" ?len], simp, subst encoded_fields_text)
      (simp add: encode_def Let_def encode_checksum_either)
qed

lemma known_tags:
  "(chars_to_unsigned_int ''8'' :: u32) = TAG_BEGIN_STRING" "(chars_to_unsigned_int ''9'' :: u32) = TAG_BODY_LENGTH"
  "(chars_to_unsigned_int ''35'' :: u32) = TAG_MSG_TYPE" "(chars_to_unsigned_int ''34'' :: u32) = TAG_MSG_SEQ_NUM"
  "(chars_to_unsigned_int ''49'' :: u32) = TAG_SENDER_COMP_ID" "(chars_to_unsigned_int ''52'' :: u32) = TAG_SENDING_TIME"
  "(chars_to_unsigned_int ''56'' :: u32) = TAG_TARGET_COMP_ID" "(chars_to_unsigned_int ''10'' :: u32) = TAG_CHECKSUM"
  by code_simp+

lemma load_prefix:
  assumes "\<not> is_a_non_retransmittable_admin_message_type [c]"
    and "list_all (\<lambda>t. \<not> is_static_header_tag r t) [TAG_MSG_TYPE, TAG_MSG_SEQ_NUM, TAG_SENDING_TIME]"
  shows "\<exists>r'. load_fields [(''8'', b), (''9'', len), (''35'', [c]), (''34'', q), (''49'', s), (''52'', t),
        (''56'', tg)] (r, False) = Some (r', False) \<and>
     same_content r' (r\<lparr>m_msg_type := [c], m_header := m_header r @ [(TAG_ORIG_SENDING_TIME, t)]\<rparr>)"
proof -
  have st: "is_static_header_tag (allocate_copy v m) = is_static_header_tag m"
    "is_static_header_tag (m\<lparr>m_msg_type := mt\<rparr>) = is_static_header_tag m" for v m mt
    by (simp_all add: is_static_header_tag_def fun_eq_iff)
  have tags: "not_loaded TAG_BEGIN_STRING" "not_loaded TAG_BODY_LENGTH" "not_loaded TAG_SENDER_COMP_ID"
    "not_loaded TAG_TARGET_COMP_ID" "\<not> not_loaded TAG_MSG_TYPE" "\<not> not_loaded TAG_MSG_SEQ_NUM"
    "\<not> not_loaded TAG_SENDING_TIME" "TAG_SENDING_TIME \<noteq> TAG_MSG_TYPE" "TAG_MSG_SEQ_NUM \<noteq> TAG_MSG_TYPE"
    "TAG_MSG_SEQ_NUM \<noteq> TAG_SENDING_TIME"
    by (simp_all add: not_loaded_def tag_defs)
  show ?thesis
    using assms
    by (simp add: load_field_def known_tags tags load_msg_type_def set_msg_type_char_def st same_content_def)
qed

lemma same_content_static: "same_content m m' \<Longrightarrow> is_static_header_tag m = is_static_header_tag m'"
  by (simp add: same_content_def is_static_header_tag_def fun_eq_iff)

lemma dec3_clean: "n < 256 \<Longrightarrow> SOH \<notin> set (dec3 n)"
  by (rule SOH_not_digit) (simp add: dec3_def)

lemma load_encoded:
  assumes "m_msg_type m = [c]" "\<not> is_a_non_retransmittable_admin_message_type [c]"
    and "list_all (\<lambda>(t, v). \<not> reserved t)
      (m_additional_static_header_tags m @ m_header m @ m_body m @ m_trailer m)"
    and static: "m_additional_static_header_tags r = m_additional_static_header_tags m"
  shows "\<exists>r'. load_fields (encoded_fields st i t q len checksum m) (r, False) = Some (r', False) \<and>
     same_content r' (r\<lparr>m_msg_type := [c], m_header := m_header r @ [(TAG_ORIG_SENDING_TIME, t)],
       m_body := m_body r @ filter (\<lambda>(t, v). \<not> is_static_header_tag m t)
        ((if include_last_processed_seqnum_in_header st then [(369, dec (unat i))] else []) @
         m_additional_static_header_tags m @ m_header m @ m_body m @ m_trailer m)\<rparr>)"
proof -
  let ?tvs = "(if include_last_processed_seqnum_in_header st then [(369, dec (unat i))] else []) @
     m_additional_static_header_tags m @ m_header m @ m_body m @ m_trailer m"
  have nr: "\<not> is_static_header_tag r t" if "reserved t" for t
    using assms(3) that by (auto simp: is_static_header_tag_def static list_all_iff)
  obtain r1 where r1: "load_fields [(''8'', begin_string st), (''9'', len), (''35'', [c]), (''34'', dec (unat q)),
      (''49'', sender_comp_id st), (''52'', t), (''56'', target_comp_id st)] (r, False) = Some (r1, False)"
    "same_content r1 (r\<lparr>m_msg_type := [c], m_header := m_header r @ [(TAG_ORIG_SENDING_TIME, t)]\<rparr>)"
    using load_prefix [OF assms(2), of r "begin_string st" len "dec (unat q)" "sender_comp_id st" t "target_comp_id st"] nr
    by (auto simp: reserved_def)
  have s1: "is_static_header_tag r1 = is_static_header_tag m"
    using same_content_static [OF r1(2)] static by (simp add: is_static_header_tag_def fun_eq_iff)
  have "list_all (\<lambda>(t, v). \<not> reserved t) ?tvs"
    using assms(3) by (auto simp: reserved_def not_loaded_def tag_defs)
  from load_fields_plain [OF this, of r1]
  obtain r2 where r2: "load_fields (map (\<lambda>(t, v). (dec (unat t), v)) ?tvs) (r1, False) = Some (r2, False)"
    "same_content r2 (r1\<lparr>m_body := m_body r1 @ filter (\<lambda>(t, v). \<not> is_static_header_tag m t) ?tvs\<rparr>)"
    unfolding s1 by blast
  have "load_field ''10'' checksum (r2, False) = Some (r2, False)"
    by (simp add: load_field_def known_tags not_loaded_def)
  then have "load_fields (encoded_fields st i t q len checksum m) (r, False) = Some (r2, False)"
    using r1(1) r2(1) unfolding encoded_fields_def assms(1) load_fields_append by simp
  moreover have "same_content r2 (r\<lparr>m_msg_type := [c], m_header := m_header r @ [(TAG_ORIG_SENDING_TIME, t)],
       m_body := m_body r @ filter (\<lambda>(t, v). \<not> is_static_header_tag m t) ?tvs\<rparr>)"
    using r1(2) r2(2) by (simp add: same_content_def)
  ultimately show ?thesis by blast
qed

text \<open>Once a message is being replaced its remaining fields are dropped.\<close>

lemma load_field_dropped:
  "\<not> reserved t \<Longrightarrow> \<exists>m'. load_field (dec (unat t)) v (m, True) = Some (m', True) \<and> same_content m' m"
  by (auto simp: load_field_def reserved_def Let_def same_content_def dec_simps)

lemma load_fields_dropped:
  assumes "list_all (\<lambda>(t, v). \<not> reserved t) tvs"
  shows "\<exists>m'. load_fields (map (\<lambda>(t, v). (dec (unat t), v)) tvs) (m, True) = Some (m', True) \<and> same_content m' m"
  using assms
proof (induction tvs arbitrary: m)
  case Nil
  then show ?case by (simp add: same_content_def)
next
  case (Cons tv tvs)
  obtain t v where tv: "tv = (t, v)" by (cases tv)
  obtain m1 where m1: "load_field (dec (unat t)) v (m, True) = Some (m1, True)" "same_content m1 m"
    using load_field_dropped Cons.prems tv by fastforce
  then show ?case using Cons.IH [of m1] Cons.prems tv by (auto simp: same_content_def)
qed

lemma load_prefix_replacing:
  assumes "is_a_non_retransmittable_admin_message_type [c]"
    and "list_all (\<lambda>t. \<not> is_static_header_tag r t) [TAG_MSG_TYPE, TAG_MSG_SEQ_NUM, TAG_SENDING_TIME]"
  shows "\<exists>r'. load_fields [(''8'', b), (''9'', len), (''35'', [c]), (''34'', dec (unat (q :: u32))), (''49'', s), (''52'', t),
        (''56'', tg)] (r, False) = Some (r', True) \<and>
     same_content r' (r\<lparr>m_msg_type := [MSG_TYPE_SEQUENCE_RESET], m_header := m_header r @ [(TAG_ORIG_SENDING_TIME, t)],
       m_body := m_body r @ [(TAG_NEW_SEQ_NO, dec (unat (q + 1)))]\<rparr>)"
proof -
  have st: "is_static_header_tag (allocate_copy v m) = is_static_header_tag m"
    "is_static_header_tag (m\<lparr>m_msg_type := mt\<rparr>) = is_static_header_tag m"
    "is_static_header_tag (set_tag_view c t v m) = is_static_header_tag m" for v m mt c t
    by (simp_all add: is_static_header_tag_def fun_eq_iff)
  have tags: "not_loaded TAG_BEGIN_STRING" "not_loaded TAG_BODY_LENGTH" "not_loaded TAG_SENDER_COMP_ID"
    "not_loaded TAG_TARGET_COMP_ID" "\<not> not_loaded TAG_MSG_TYPE" "\<not> not_loaded TAG_MSG_SEQ_NUM"
    "\<not> not_loaded TAG_SENDING_TIME" "TAG_SENDING_TIME \<noteq> TAG_MSG_TYPE" "TAG_MSG_SEQ_NUM \<noteq> TAG_MSG_TYPE"
    "TAG_MSG_SEQ_NUM \<noteq> TAG_SENDING_TIME"
    by (simp_all add: not_loaded_def tag_defs)
  have number: "(chars_to_unsigned_int (dec (unat q)) :: u32) = q"
    by (simp add: dec_simps ucast_id)
  show ?thesis
    using assms
    by (simp add: load_field_def known_tags tags load_msg_type_def set_msg_type_char_def set_tag_u32_def st
        same_content_def number)
qed

subsection \<open>Replay properties\<close>

definition clean_fields :: "(u32 \<times> string) list \<Rightarrow> bool" where
  "clean_fields tvs \<longleftrightarrow> list_all (\<lambda>(t, v). \<not> reserved t \<and> SOH \<notin> set v) tvs"

lemma clean_fields_encoded:
  assumes "clean_fields (m_additional_static_header_tags m @ m_header m @ m_body m @ m_trailer m)"
    and "m_msg_type m = [c]" "c \<noteq> SOH" "SOH \<notin> set (begin_string st)" "SOH \<notin> set (sender_comp_id st)"
      "SOH \<notin> set (target_comp_id st)" "SOH \<notin> set t" "cs < 256"
  shows "list_all (\<lambda>(t, v). CHR ''='' \<notin> set t \<and> SOH \<notin> set v)
    (encoded_fields st i t q (dec len) (dec3 cs) m)"
  using assms dec3_clean [of cs]
  by (auto simp: encoded_fields_def clean_fields_def list_all_iff)

text \<open>Loading what \<open>encode\<close> wrote, for every type of one character.\<close>

lemma load_from_encoded:
  assumes "m_msg_type m = [c]" "c \<noteq> SOH" "\<And>t. m_fix_string_send_time m = Some t \<Longrightarrow> SOH \<notin> set t"
    and "clean_fields (m_additional_static_header_tags m @ m_header m @ m_body m @ m_trailer m)"
    and "SOH \<notin> set (begin_string st)" "SOH \<notin> set (sender_comp_id st)" "SOH \<notin> set (target_comp_id st)"
    and "m_additional_static_header_tags r = m_additional_static_header_tags m"
  shows "\<exists>r'. load_from_buffer (fst (encode st i now q m)) r = Some r' \<and>
    same_content r' (r\<lparr>
      m_msg_type := (if is_a_non_retransmittable_admin_message_type [c] then [MSG_TYPE_SEQUENCE_RESET] else [c]),
      m_header := m_header r @ [(TAG_ORIG_SENDING_TIME, ensure_send_time (timestamp_subseconds_precision st) now m)],
      m_body := m_body r @
        (if is_a_non_retransmittable_admin_message_type [c] then [(TAG_NEW_SEQ_NO, dec (unat (q + 1)))]
         else filter (\<lambda>(t, v). \<not> is_static_header_tag m t)
           ((if include_last_processed_seqnum_in_header st then [(369, dec (unat i))] else []) @
            m_additional_static_header_tags m @ m_header m @ m_body m @ m_trailer m))\<rparr>)"
proof -
  let ?t = "ensure_send_time (timestamp_subseconds_precision st) now m"
  let ?tvs = "(if include_last_processed_seqnum_in_header st then [(369, dec (unat i))] else []) @
     m_additional_static_header_tags m @ m_header m @ m_body m @ m_trailer m"
  obtain len cs where e: "cs < 256" "fst (encode st i now q m) =
      concat (map (\<lambda>(t, v). t @ ''='' @ v @ [SOH]) (encoded_fields st i ?t q (dec len) (dec3 cs) m))"
    by (rule encode_as_fields)
  have "SOH \<notin> set ?t" using assms(3) send_time_clean by (auto simp: ensure_send_time_def split: option.split)
  from clean_fields_encoded [OF assms(4,1,2,5,6,7) this e(1)]
  have clean: "list_all (\<lambda>(t, v). CHR ''='' \<notin> set t \<and> SOH \<notin> set v)
      (encoded_fields st i ?t q (dec len) (dec3 cs) m)" .
  have plain: "list_all (\<lambda>(t, v). \<not> reserved t)
      (m_additional_static_header_tags m @ m_header m @ m_body m @ m_trailer m)"
    using assms(4) by (auto simp: clean_fields_def list_all_iff)
  have ne: "fst (encode st i now q m) \<noteq> []" by (simp add: encode_def Let_def)
  have load: "load_from_buffer (fst (encode st i now q m)) r =
      map_option fst (load_fields (encoded_fields st i ?t q (dec len) (dec3 cs) m) (r, False))"
    unfolding load_from_buffer_def if_not_P [OF ne] unfolding e(2) load_scan_fields [OF clean] by (rule refl)
  show ?thesis
  proof (cases "is_a_non_retransmittable_admin_message_type [c]")
    case False
    from load_encoded [OF assms(1) this plain assms(8), of st i ?t q "dec len" "dec3 cs"] load
    show ?thesis by (auto simp: False)
  next
    case True
    have nr: "\<not> is_static_header_tag r t" if "reserved t" for t
      using plain that by (auto simp: is_static_header_tag_def assms(8) list_all_iff)
    from load_prefix_replacing [OF True, of r "begin_string st" "dec len" q "sender_comp_id st" ?t "target_comp_id st"] nr
    obtain r1 where r1: "load_fields [(''8'', begin_string st), (''9'', dec len), (''35'', [c]), (''34'', dec (unat q)),
        (''49'', sender_comp_id st), (''52'', ?t), (''56'', target_comp_id st)] (r, False) = Some (r1, True)"
      "same_content r1 (r\<lparr>m_msg_type := [MSG_TYPE_SEQUENCE_RESET], m_header := m_header r @ [(TAG_ORIG_SENDING_TIME, ?t)],
         m_body := m_body r @ [(TAG_NEW_SEQ_NO, dec (unat (q + 1)))]\<rparr>)"
      by (auto simp: reserved_def)
    have "list_all (\<lambda>(t, v). \<not> reserved t) ?tvs"
      using plain by (auto simp: reserved_def not_loaded_def tag_defs)
    from load_fields_dropped [OF this, of r1]
    obtain r2 where r2: "load_fields (map (\<lambda>(t, v). (dec (unat t), v)) ?tvs) (r1, True) = Some (r2, True)"
      "same_content r2 r1" by blast
    have "load_field ''10'' (dec3 cs) (r2, True) = Some (r2, True)"
      by (simp add: load_field_def known_tags not_loaded_def)
    with r1(1) r2(1) have "load_fields (encoded_fields st i ?t q (dec len) (dec3 cs) m) (r, False) = Some (r2, True)"
      unfolding encoded_fields_def assms(1) load_fields_append by simp
    with r1(2) r2(2) load show ?thesis by (auto simp: same_content_def True)
  qed
qed

text \<open>C17: a message whose type has one character, stored by \<open>encode\<close> and loaded for a retransmission: its SendingTime, given
  or taken from the clock, becomes OrigSendingTime. An application message keeps its type and all its fields
  in order, in the body; begin string, body length, comp ids, sequence number and the session's static header
  tags are left to the new encoding. LastMsgSeqNumProcessed is not left to it: when the session writes that field,
  a loaded message carries the old one in its body. An administrative message that is not retransmitted
  becomes a SequenceReset to the number after its own and loses its other fields. Types of several characters
  are not restored.\<close>

theorem replay_restores_message:
  assumes "m_msg_type m = [c]" "c \<noteq> SOH" "\<And>t. m_fix_string_send_time m = Some t \<Longrightarrow> SOH \<notin> set t"
    and "clean_fields (m_additional_static_header_tags m @ m_header m @ m_body m @ m_trailer m)"
    and "SOH \<notin> set (begin_string st)" "SOH \<notin> set (sender_comp_id st)" "SOH \<notin> set (target_comp_id st)"
    and "m_additional_static_header_tags r = m_additional_static_header_tags m"
  shows "\<exists>r'. load_from_buffer (fst (encode st i now q m)) r = Some r' \<and>
    m_header r' = m_header r @
      [(TAG_ORIG_SENDING_TIME, ensure_send_time (timestamp_subseconds_precision st) now m)] \<and>
    m_trailer r' = m_trailer r \<and>
    (if is_a_non_retransmittable_admin_message_type [c] then
       m_msg_type r' = [MSG_TYPE_SEQUENCE_RESET] \<and> m_body r' = m_body r @ [(TAG_NEW_SEQ_NO, dec (unat (q + 1)))]
     else
       m_msg_type r' = [c] \<and> m_body r' = m_body r @ filter (\<lambda>(t, v). \<not> is_static_header_tag m t)
         ((if include_last_processed_seqnum_in_header st then [(369, dec (unat i))] else []) @
          m_additional_static_header_tags m @ m_header m @ m_body m @ m_trailer m))"
  using load_from_encoded [OF assms, of i now q] by (auto simp: same_content_def)

definition order_message :: outgoing_message where
  "order_message = set_tag_view BODY 44 ''1.25'' (set_tag_view BODY 55 ''EURUSD'' (set_tag_view HEADER 50 ''DESK=1''
     (set_msg_type_char (CHR ''D'') new_outgoing_message)))"

lemma order_message_fields:
  "m_msg_type order_message = ''D''" "m_fix_string_send_time order_message = None"
  "m_header order_message = [(50, ''DESK=1'')]" "m_body order_message = [(55, ''EURUSD''), (44, ''1.25'')]"
  "m_trailer order_message = []" "m_additional_static_header_tags order_message = []"
  by (simp_all add: order_message_def set_msg_type_char_def new_outgoing_message_def)

theorem replay_restores_message_witness:
  "\<exists>r'. load_from_buffer (fst (encode (office_hours\<lparr>include_last_processed_seqnum_in_header := True\<rparr>) 41
        1709208000123456789 7 order_message)) new_outgoing_message = Some r' \<and> m_msg_type r' = ''D'' \<and>
    m_header r' = [(TAG_ORIG_SENDING_TIME, encode_current_time NANOSECONDS 1709208000123456789)] \<and>
    m_body r' = [(369, ''41''), (50, ''DESK=1''), (55, ''EURUSD''), (44, ''1.25'')] \<and>
    m_trailer r' = []"
proof -
  have d41: "dec 41 = ''41''" by code_simp
  have "\<not> is_a_non_retransmittable_admin_message_type ''D''" by code_simp
  with replay_restores_message [of order_message "CHR ''D''"
      "office_hours\<lparr>include_last_processed_seqnum_in_header := True\<rparr>" new_outgoing_message 41
      1709208000123456789 7]
  obtain r' where "load_from_buffer (fst (encode (office_hours\<lparr>include_last_processed_seqnum_in_header := True\<rparr>) 41
        1709208000123456789 7 order_message)) new_outgoing_message = Some r'" "m_msg_type r' = ''D''"
    "m_header r' = [(TAG_ORIG_SENDING_TIME, encode_current_time NANOSECONDS 1709208000123456789)]"
    "m_body r' = [(369, ''41''), (50, ''DESK=1''), (55, ''EURUSD''), (44, ''1.25'')]" "m_trailer r' = []"
    by (auto simp: order_message_fields clean_fields_def reserved_def not_loaded_def tag_defs d41 ensure_send_time_def
        office_hours_def default_session_settings_def new_outgoing_message_def is_static_header_tag_def)
  then show ?thesis by blast
qed

lemma takeWhile_append_long:
  "CHR 0x00 \<notin> set v \<Longrightarrow> takeWhile (\<lambda>c. c \<noteq> CHR 0x00) (v @ w) = v @ takeWhile (\<lambda>c. c \<noteq> CHR 0x00) w"
  by (induction v) auto

text \<open>C29: the loader passes a message type of two or more characters to \<open>set_msg_type\<close> as a C string,
  and a cached value is not terminated: what an earlier message left in the same cache slot is read
  as part of the type, and a type that becomes longer than four characters overflows the message's
  type buffer.\<close>

theorem replayed_long_message_type:
  assumes "2 \<le> length v" "CHR 0x00 \<notin> set v" "\<not> is_a_non_retransmittable_admin_message_type v"
    and "m_cache_pointer m < length (m_fix_string_cache m)"
    and "m_fix_string_cache m ! m_cache_pointer m = buf" "length v \<le> length buf" "CHR 0x00 \<in> set (drop (length v) buf)"
    and "\<not> is_static_header_tag m TAG_MSG_TYPE"
    and "read_type = v @ takeWhile (\<lambda>c. c \<noteq> CHR 0x00) (drop (length v) buf)"
  shows "(load_field ''35'' v (m, False) = None \<longleftrightarrow> 4 < length read_type) \<and>
    (length read_type \<le> 4 \<longrightarrow>
      (\<exists>m'. load_field ''35'' v (m, False) = Some (m', False) \<and> m_msg_type m' = read_type))"
proof -
  have data: "last_value_data (allocate_copy v m) = v @ drop (length v) buf"
    using assms(4-6) by (simp add: last_value_data_def allocate_copy_def Let_def copy_from_def)
  have "length v \<noteq> 1" "CHR 0x00 \<in> set (v @ drop (length v) buf)" using assms(1,7) by auto
  then have "load_field ''35'' v (m, False) =
      (case set_msg_type read_type (allocate_copy v m) of None \<Rightarrow> None | Some m' \<Rightarrow> Some (m', False))"
    using assms(2,3,8,9)
    by (simp add: load_field_def known_tags not_loaded_def tag_defs load_msg_type_def data takeWhile_append_long)
  then show ?thesis by (auto simp: set_msg_type_def)
qed

theorem replayed_long_message_type_witness:
  "load_field ''35'' ''AE'' ((allocate_copy ''EURUSD'' new_outgoing_message)\<lparr>m_cache_pointer := 0\<rparr>, False) = None"
proof -
  let ?m = "(allocate_copy ''EURUSD'' new_outgoing_message)\<lparr>m_cache_pointer := 0\<rparr>"
  have m: "m_cache_pointer ?m = 0" "length (m_fix_string_cache ?m) = 256"
    "m_fix_string_cache ?m ! 0 = ''EURUSD'' @ replicate 58 (CHR 0x00)" "m_additional_static_header_tags ?m = []"
    by (simp_all add: allocate_copy_def Let_def new_outgoing_message_def copy_from_def fix_string_buffer_def)
  have a: "\<not> is_a_non_retransmittable_admin_message_type ''AE''" by code_simp
  have "m_fix_string_cache ?m \<noteq> []" using m(2) by auto
  with replayed_long_message_type [OF _ _ a, of ?m "''EURUSD'' @ replicate 58 (CHR 0x00)" "''AERUSD''"] m
  show ?thesis by (simp add: is_static_header_tag_def takeWhile_append_long)
qed

end
