(* ===== verification/Session_State.thy ===== *)
theory Session_State
  imports Llfix_Prelude
begin

text \<open>
  \<open>session_state.h\<close>, \<open>sequence_store.h\<close> and \<open>modifying_admin_command.h\<close>: the states of a session in
  the order the code compares them, the two persisted 32-bit sequence numbers (they wrap around) and
  the administrative commands. The memory-mapped file behind the sequence store is its content.
\<close>

datatype SessionState = STATE_NONE | DISABLED | DISCONNECTED | LOGGED_OUT | LOGON_REJECTED
  | PENDING_CONNECTION | PENDING_LOGON | PENDING_LOGOUT | LOGGED_ON
  | IN_RETRANSMISSION_INITIATED_BY_SELF | IN_RETRANSMISSION_INITIATED_BY_PEER

fun state_number :: "SessionState \<Rightarrow> nat" where
  "state_number STATE_NONE = 0"
| "state_number DISABLED = 1"
| "state_number DISCONNECTED = 2"
| "state_number LOGGED_OUT = 3"
| "state_number LOGON_REJECTED = 4"
| "state_number PENDING_CONNECTION = 5"
| "state_number PENDING_LOGON = 6"
| "state_number PENDING_LOGOUT = 7"
| "state_number LOGGED_ON = 8"
| "state_number IN_RETRANSMISSION_INITIATED_BY_SELF = 9"
| "state_number IN_RETRANSMISSION_INITIATED_BY_PEER = 10"

lemma state_number_inject: "state_number s = state_number t \<Longrightarrow> s = t"
  by (cases s; cases t) simp_all

instantiation SessionState :: linorder
begin

definition less_eq_SessionState :: "SessionState \<Rightarrow> SessionState \<Rightarrow> bool" where
  "less_eq_SessionState s t \<longleftrightarrow> state_number s \<le> state_number t"

definition less_SessionState :: "SessionState \<Rightarrow> SessionState \<Rightarrow> bool" where
  "less_SessionState s t \<longleftrightarrow> state_number s < state_number t"

instance
  by standard (auto simp: less_eq_SessionState_def less_SessionState_def dest: state_number_inject)

end

definition is_state_live :: "SessionState \<Rightarrow> bool" where
  "is_state_live state \<longleftrightarrow> LOGGED_ON \<le> state"

lemma is_state_live_simps [simp]:
  "\<not> is_state_live STATE_NONE" "\<not> is_state_live DISABLED" "\<not> is_state_live DISCONNECTED"
  "\<not> is_state_live LOGGED_OUT" "\<not> is_state_live LOGON_REJECTED" "\<not> is_state_live PENDING_CONNECTION"
  "\<not> is_state_live PENDING_LOGON" "\<not> is_state_live PENDING_LOGOUT" "is_state_live LOGGED_ON"
  "is_state_live IN_RETRANSMISSION_INITIATED_BY_SELF" "is_state_live IN_RETRANSMISSION_INITIATED_BY_PEER"
  by (simp_all add: is_state_live_def less_eq_SessionState_def)

lemma is_state_live_iff:
  "is_state_live s \<longleftrightarrow> s = LOGGED_ON \<or> s = IN_RETRANSMISSION_INITIATED_BY_SELF \<or>
     s = IN_RETRANSMISSION_INITIATED_BY_PEER"
  by (cases s) simp_all

subsection \<open>The sequence store\<close>

record sequence_store =
  outgoing_seq_no :: u32
  incoming_seq_no :: u32

definition reset_numbers :: "sequence_store \<Rightarrow> sequence_store" where
  "reset_numbers q = q\<lparr>outgoing_seq_no := 0, incoming_seq_no := 0\<rparr>"

definition increment_outgoing_seq_no :: "sequence_store \<Rightarrow> sequence_store" where
  "increment_outgoing_seq_no q = q\<lparr>outgoing_seq_no := outgoing_seq_no q + 1\<rparr>"

definition decrement_outgoing_seq_no :: "sequence_store \<Rightarrow> sequence_store" where
  "decrement_outgoing_seq_no q = q\<lparr>outgoing_seq_no := outgoing_seq_no q - 1\<rparr>"

definition set_outgoing_seq_no :: "u32 \<Rightarrow> sequence_store \<Rightarrow> sequence_store" where
  "set_outgoing_seq_no n q = q\<lparr>outgoing_seq_no := n\<rparr>"

definition increment_incoming_seq_no :: "sequence_store \<Rightarrow> sequence_store" where
  "increment_incoming_seq_no q = q\<lparr>incoming_seq_no := incoming_seq_no q + 1\<rparr>"

definition set_incoming_seq_no :: "u32 \<Rightarrow> sequence_store \<Rightarrow> sequence_store" where
  "set_incoming_seq_no n q = q\<lparr>incoming_seq_no := n\<rparr>"

named_theorems seq_simps

lemmas [seq_simps] = reset_numbers_def increment_outgoing_seq_no_def decrement_outgoing_seq_no_def
  set_outgoing_seq_no_def increment_incoming_seq_no_def set_incoming_seq_no_def

subsection \<open>Administrative commands\<close>

datatype ModifyingAdminCommandType = SET_INCOMING_SEQUENCE_NUMBER | SET_OUTGOING_SEQUENCE_NUMBER
  | SEND_SEQUENCE_RESET | ENABLE_SESSION | DISABLE_SESSION | SET_IS_HA_PRIMARY_INSTANCE

record modifying_admin_command =
  cmd_type :: ModifyingAdminCommandType
  cmd_arg :: u32

end
