(* ===== verification/Fix_Session.thy ===== *)
theory Fix_Session
  imports Incoming_Message Outgoing_Message Message_Serialiser Session_State
begin

text \<open>
  \<open>fix_session.h\<close>: the session record, its initialisation, the administrative message builders, the
  handlers of the administrative messages a session receives and the validation of a received message.
  Locks, log lines, user attributes and the caches that only recycle memory are not modelled; the
  dictionary validator is compiled out of the default build.
\<close>

record session =
  m_state :: SessionState
  m_name :: string
  m_sequence_store :: sequence_store
  m_throttler :: throttler
  m_outgoing_messages_serialiser :: message_serialiser
  m_incoming_messages_serialiser :: message_serialiser
  m_settings :: session_settings
  m_last_sent_message_timestamp_nanoseconds :: u64
  m_last_received_message_timestamp_nanoseconds :: u64
  m_incoming_throttler_exceed_count :: u32
  m_outgoing_fix_message :: outgoing_message
  m_incoming_fix_message :: incoming_message
  m_incoming_test_request_id :: string
  m_needs_responding_to_incoming_test_request :: bool
  m_outgoing_test_request_id :: u32
  m_outgoing_test_request_timestamp_nanoseconds :: u64
  m_expecting_response_for_outgoing_test_request :: bool
  m_needs_responding_to_incoming_resend_request :: bool
  m_incoming_resend_request_begin_no :: u32
  m_incoming_resend_request_end_no :: u32
  m_needs_to_send_resend_request :: bool
  m_outgoing_resend_request_begin_no :: u32
  m_outgoing_resend_request_end_no :: u32
  m_outgoing_resend_request_timestamp_nanoseconds :: u64
  m_received_logout_response :: bool
  m_admin_commands :: "modifying_admin_command list"
  m_schedule_validator :: schedule_validator
  m_last_error_tag :: u32

definition set_state :: "SessionState \<Rightarrow> session \<Rightarrow> session" where
  "set_state st s = s\<lparr>m_state := st\<rparr>"

definition map_store :: "(sequence_store \<Rightarrow> sequence_store) \<Rightarrow> session \<Rightarrow> session" where
  "map_store f s = s\<lparr>m_sequence_store := f (m_sequence_store s)\<rparr>"

abbreviation session_incoming_seq_no :: "session \<Rightarrow> u32" where
  "session_incoming_seq_no s \<equiv> incoming_seq_no (m_sequence_store s)"

abbreviation session_outgoing_seq_no :: "session \<Rightarrow> u32" where
  "session_outgoing_seq_no s \<equiv> outgoing_seq_no (m_sequence_store s)"

definition serialisation_enabled :: "session \<Rightarrow> bool" where
  "serialisation_enabled s \<longleftrightarrow> 0 < max_serialised_file_size (m_settings s)"

definition is_now_valid_session_datetime :: "nat \<Rightarrow> session \<Rightarrow> bool" where
  "is_now_valid_session_datetime now s = is_now_valid_datetime now (m_schedule_validator s)"

definition queue_outgoing_resend_request :: "u32 \<Rightarrow> u32 \<Rightarrow> session \<Rightarrow> session" where
  "queue_outgoing_resend_request store_incoming_seq_no live_incoming_seq_no s =
     (map_store (set_incoming_seq_no (store_incoming_seq_no - 1)) s)
       \<lparr>m_needs_to_send_resend_request := True,
        m_outgoing_resend_request_begin_no := store_incoming_seq_no,
        m_outgoing_resend_request_end_no := live_incoming_seq_no\<rparr>"

definition reset_flags :: "session \<Rightarrow> session" where
  "reset_flags s = s\<lparr>m_needs_responding_to_incoming_test_request := False,
     m_expecting_response_for_outgoing_test_request := False,
     m_needs_responding_to_incoming_resend_request := False,
     m_needs_to_send_resend_request := False, m_received_logout_response := False,
     m_incoming_throttler_exceed_count := 0\<rparr>"

subsection \<open>Initialisation\<close>

text \<open>\<open>std::stoi\<close>: leading blanks, an optional sign, then the longest run of digits; \<^term>\<open>None\<close> is an
  exception (no digits, or a value that does not fit an \<open>int\<close>).\<close>

definition is_blank :: "char \<Rightarrow> bool" where
  "is_blank c \<longleftrightarrow> c = CHR '' '' \<or> (9 \<le> (of_char c :: nat) \<and> (of_char c :: nat) \<le> 13)"

definition stoi :: "string \<Rightarrow> int option" where
  "stoi str =
     (let t = dropWhile is_blank str;
          negative = (t \<noteq> [] \<and> hd t = CHR ''-'');
          u = (if t \<noteq> [] \<and> (hd t = CHR ''-'' \<or> hd t = CHR ''+'') then tl t else t);
          ds = takeWhile is_digit u;
          n = (if negative then - int (dval ds) else int (dval ds))
      in if ds = [] \<or> n < -2147483648 \<or> 2147483647 < n then None else Some n)"

fun add_static_header_tags :: "string list \<Rightarrow> outgoing_message \<Rightarrow> outgoing_message option" where
  "add_static_header_tags [] m = Some m"
| "add_static_header_tags (pair # pairs) m =
     (case split_string pair (CHR ''='') of
        [t, v] \<Rightarrow>
          (case stoi t of
             None \<Rightarrow> None
           | Some tag \<Rightarrow> if tag \<le> 0 then None
               else add_static_header_tags pairs (set_additional_static_header_tag (word_of_int tag) v m))
      | _ \<Rightarrow> None)"

text \<open>What the file system and the clock give a session that is initialised: the persisted sequence
  numbers (\<^term>\<open>None\<close>: the file cannot be opened), the two serialiser folders and their files.\<close>

record session_environment =
  env_supports_simd_avx2 :: bool
  env_monotonic :: u64
  env_sequence_store :: "sequence_store option"
  env_incoming_folder :: "nat option option"
  env_incoming_serialiser :: message_serialiser
  env_outgoing_folder :: "nat option option"
  env_outgoing_serialiser :: message_serialiser

definition initialise_serialisers ::
    "session_environment \<Rightarrow> session_settings \<Rightarrow> (message_serialiser \<times> message_serialiser) option" where
  "initialise_serialisers env st =
     (if 0 < max_serialised_file_size st then
        (case serialiser_initialise (env_incoming_folder env) (max_serialised_file_size st) False 0
                (env_incoming_serialiser env) of
           Some (incoming, True) \<Rightarrow>
             (case serialiser_initialise (env_outgoing_folder env) (max_serialised_file_size st)
                     (replay_messages_on_incoming_resend_request st)
                     (replay_message_cache_initial_size st) (env_outgoing_serialiser env) of
                Some (outgoing, True) \<Rightarrow> Some (incoming, outgoing)
              | _ \<Rightarrow> None)
         | _ \<Rightarrow> None)
      else Some (env_incoming_serialiser env, env_outgoing_serialiser env))"

definition session_initialise ::
    "session_environment \<Rightarrow> string \<Rightarrow> session_settings \<Rightarrow> session \<Rightarrow> session option" where
  "session_initialise env name st s =
     (if name = '''' \<or> 32 < length name then None
      else if validate_settings (env_supports_simd_avx2 env) st \<noteq> None then None
      else
        (case (env_sequence_store env, initialise_serialisers env st,
               incoming_initialise new_incoming_message,
               (if additional_static_header_tags st = '''' then Some new_outgoing_message
                else add_static_header_tags (split_string (additional_static_header_tags st) (CHR '',''))
                       new_outgoing_message)) of
           (Some store, Some (incoming, outgoing), Some im, Some om) \<Rightarrow>
             Some (s\<lparr>m_name := name, m_settings := st, m_incoming_throttler_exceed_count := 0,
               m_state := DISCONNECTED, m_schedule_validator := session_schedule st,
               m_throttler := (if 0 < throttle_limit st then
                   throttler_initialise (throttle_window_in_milliseconds st * 1000000) (throttle_limit st)
                     (env_monotonic env)
                 else m_throttler s),
               m_sequence_store := store, m_incoming_messages_serialiser := incoming,
               m_outgoing_messages_serialiser := outgoing, m_incoming_fix_message := im,
               m_outgoing_fix_message := om\<rparr>)
         | _ \<Rightarrow> None))"

definition new_session :: "session_environment \<Rightarrow> session" where
  "new_session env = \<lparr>m_state = STATE_NONE, m_name = '''',
     m_sequence_store = \<lparr>outgoing_seq_no = 0, incoming_seq_no = 0\<rparr>,
     m_throttler = throttler_initialise 0 0 0,
     m_outgoing_messages_serialiser = env_outgoing_serialiser env,
     m_incoming_messages_serialiser = env_incoming_serialiser env,
     m_settings = default_session_settings, m_last_sent_message_timestamp_nanoseconds = 0,
     m_last_received_message_timestamp_nanoseconds = 0, m_incoming_throttler_exceed_count = 0,
     m_outgoing_fix_message = new_outgoing_message, m_incoming_fix_message = new_incoming_message,
     m_incoming_test_request_id = '''', m_needs_responding_to_incoming_test_request = False,
     m_outgoing_test_request_id = 0, m_outgoing_test_request_timestamp_nanoseconds = 0,
     m_expecting_response_for_outgoing_test_request = False,
     m_needs_responding_to_incoming_resend_request = False, m_incoming_resend_request_begin_no = 0,
     m_incoming_resend_request_end_no = 0, m_needs_to_send_resend_request = False,
     m_outgoing_resend_request_begin_no = 0, m_outgoing_resend_request_end_no = 0,
     m_outgoing_resend_request_timestamp_nanoseconds = 0, m_received_logout_response = False,
     m_admin_commands = [], m_schedule_validator = new_schedule_validator, m_last_error_tag = 0\<rparr>"

subsection \<open>Administrative messages\<close>

definition build_heartbeat_message :: "string option \<Rightarrow> outgoing_message \<Rightarrow> outgoing_message" where
  "build_heartbeat_message test_request_id m =
     (let m = set_msg_type_char MSG_TYPE_HEARTBEAT m
      in case test_request_id of None \<Rightarrow> m | Some i \<Rightarrow> set_tag_view BODY TAG_TEST_REQ_ID i m)"

definition build_test_request_message :: "session \<Rightarrow> outgoing_message \<Rightarrow> session \<times> outgoing_message" where
  "build_test_request_message s m =
     (let m = set_msg_type_char MSG_TYPE_TEST_REQUEST m;
          i = m_outgoing_test_request_id s + 1
      in (s\<lparr>m_outgoing_test_request_id := i\<rparr>, set_tag_u32 BODY TAG_TEST_REQ_ID i m))"

definition build_resend_request_message :: "session \<Rightarrow> string \<Rightarrow> outgoing_message \<Rightarrow> outgoing_message" where
  "build_resend_request_message s end_no m =
     (let m = set_msg_type_char MSG_TYPE_RESEND_REQUEST m;
          m = set_tag_u32 BODY TAG_BEGIN_SEQ_NO (m_outgoing_resend_request_begin_no s) m
      in set_tag_text BODY TAG_END_SEQ_NO end_no m)"

definition build_logout_message :: "string \<Rightarrow> outgoing_message \<Rightarrow> outgoing_message" where
  "build_logout_message reason_text m =
     (let m = set_msg_type_char MSG_TYPE_LOGOUT m
      in if reason_text \<noteq> '''' then set_tag_text BODY TAG_TEXT reason_text m else m)"

definition build_session_level_reject_message ::
    "session \<Rightarrow> u32 \<Rightarrow> string \<Rightarrow> u32 \<Rightarrow> outgoing_message \<Rightarrow> outgoing_message" where
  "build_session_level_reject_message s reject_reason_code reject_reason_text error_tag m =
     (let im = m_incoming_fix_message s;
          m = set_msg_type_char MSG_TYPE_REJECT m;
          m = (if has_tag im TAG_MSG_SEQ_NUM then
                 set_tag_u32 BODY TAG_REF_SEQ_NUM (tag_u32 im TAG_MSG_SEQ_NUM) m else m);
          m = (if error_tag \<noteq> 0 then set_tag_u32 BODY TAG_REF_TAG error_tag m else m);
          m = (if has_tag im TAG_MSG_TYPE then
                 set_tag_text BODY TAG_REF_MSG_TYPE (tag_value im TAG_MSG_TYPE) m else m);
          m = set_tag_u32 BODY TAG_SESSION_REJECT_REASON reject_reason_code m
      in set_tag_text BODY TAG_TEXT reject_reason_text m)"

definition build_gap_fill_message :: "session \<Rightarrow> outgoing_message \<Rightarrow> outgoing_message" where
  "build_gap_fill_message s m =
     (let m = set_msg_type_char MSG_TYPE_SEQUENCE_RESET m;
          m = set_tag_u32 BODY TAG_NEW_SEQ_NO (session_outgoing_seq_no s + 1) m
      in set_tag_char BODY TAG_GAP_FILL_FLAG (CHR ''Y'') m)"

definition build_sequence_reset_message ::
    "u32 \<Rightarrow> session \<Rightarrow> outgoing_message \<Rightarrow> session \<times> outgoing_message" where
  "build_sequence_reset_message desired_sequence_no s m =
     (let m = set_msg_type_char MSG_TYPE_SEQUENCE_RESET m
      in (map_store (set_outgoing_seq_no desired_sequence_no) s,
          set_tag_u32 BODY TAG_NEW_SEQ_NO (desired_sequence_no + 1) m))"

subsection \<open>Handlers of received administrative messages\<close>

definition process_incoming_sequence_reset_message :: "incoming_message \<Rightarrow> session \<Rightarrow> session \<times> bool" where
  "process_incoming_sequence_reset_message message s =
     (if has_tag message TAG_NEW_SEQ_NO then
        (if is_tag_value_numeric message TAG_NEW_SEQ_NO then
           (let new_incoming_seq_no = tag_u32 message TAG_NEW_SEQ_NO
            in if new_incoming_seq_no = 0 then (s, False)
               else if new_incoming_seq_no \<le> session_incoming_seq_no s then (s, False)
               else (set_state LOGGED_ON (map_store (set_incoming_seq_no (new_incoming_seq_no - 1)) s), True))
         else (s, True))
      else (s, True))"

definition process_resend_request :: "incoming_message \<Rightarrow> session \<Rightarrow> session" where
  "process_resend_request message s =
     (if has_tag message TAG_BEGIN_SEQ_NO \<and> has_tag message TAG_END_SEQ_NO then
        (if is_tag_value_numeric message TAG_BEGIN_SEQ_NO \<and> is_tag_value_numeric message TAG_END_SEQ_NO then
           (set_state IN_RETRANSMISSION_INITIATED_BY_PEER s)
             \<lparr>m_incoming_resend_request_begin_no := tag_u32 message TAG_BEGIN_SEQ_NO,
              m_incoming_resend_request_end_no := tag_u32 message TAG_END_SEQ_NO,
              m_needs_responding_to_incoming_resend_request := True\<rparr>
         else s)
      else s)"

definition process_test_request_message :: "incoming_message \<Rightarrow> session \<Rightarrow> session" where
  "process_test_request_message message s =
     (if \<not> m_expecting_response_for_outgoing_test_request s then
        (let s = s\<lparr>m_needs_responding_to_incoming_test_request := True\<rparr>
         in if has_tag message TAG_TEST_REQ_ID then
              s\<lparr>m_incoming_test_request_id := tag_value message TAG_TEST_REQ_ID\<rparr>
            else s)
      else s)"

definition is_a_hard_sequence_reset_message :: "incoming_message \<Rightarrow> bool" where
  "is_a_hard_sequence_reset_message message =
     (if \<not> has_tag message TAG_MSG_TYPE then False
      else if tag_char message TAG_MSG_TYPE \<noteq> MSG_TYPE_SEQUENCE_RESET then False
      else if has_tag message TAG_GAP_FILL_FLAG then tag_char message TAG_GAP_FILL_FLAG \<noteq> CHR ''Y''
      else True)"

subsection \<open>Validation of a received message\<close>

definition validate_header_tags_order :: "u32 \<Rightarrow> u32 \<Rightarrow> u32 \<Rightarrow> u32" where
  "validate_header_tags_order tag tag_index parser_reject_code =
     (if tag_index < 4 then
        (if tag_index = 1 then (if tag \<noteq> TAG_BEGIN_STRING then OUT_OF_ORDER_HEADER_FIELDS else parser_reject_code)
         else if tag_index = 2 then (if tag \<noteq> TAG_BODY_LENGTH then OUT_OF_ORDER_HEADER_FIELDS else parser_reject_code)
         else if tag_index = 3 then (if tag \<noteq> TAG_MSG_TYPE then OUT_OF_ORDER_HEADER_FIELDS else parser_reject_code)
         else parser_reject_code)
      else parser_reject_code)"

definition validate_tag_format :: "string \<Rightarrow> bool \<Rightarrow> u32 \<Rightarrow> bool \<times> u32" where
  "validate_tag_format buffer numeric parser_reject_code =
     (if buffer = [] \<or> 10 < length buffer then (False, FIX_ERROR_CODE_INVALID_TAG_NUMBER)
      else if \<not> list_all is_digit buffer then (False, FIX_ERROR_CODE_INVALID_TAG_NUMBER)
      else (numeric, parser_reject_code))"

text \<open>\<open>tag_35_tag_start_index\<close> is -1 when the message has no tag 35; the body length is compared as an
  \<open>int\<close>.\<close>

definition validate_tag9_and_tag35 :: "incoming_message \<Rightarrow> int \<Rightarrow> int \<Rightarrow> u32 \<Rightarrow> u32" where
  "validate_tag9_and_tag35 message tag_10_start_index tag_35_tag_start_index parser_reject_code =
     (if tag_35_tag_start_index \<noteq> -1 then
        (if has_tag message TAG_BODY_LENGTH then
           (if is_tag_value_numeric message TAG_BODY_LENGTH then
              (if sint (ucast (tag_u32 message TAG_BODY_LENGTH) :: i32)
                    \<noteq> tag_10_start_index - tag_35_tag_start_index
               then WRONG_BODY_LENGTH else parser_reject_code)
            else INVALID_TAG_9)
         else NO_TAG_9)
      else NO_TAG_35)"

definition failed_validation :: "u32 \<Rightarrow> u32 \<Rightarrow> session \<Rightarrow> session \<times> bool \<times> u32" where
  "failed_validation error_tag out_code s = (s\<lparr>m_last_error_tag := error_tag\<rparr>, False, out_code)"

definition validate_fix_message ::
    "nat \<Rightarrow> incoming_message \<Rightarrow> string \<Rightarrow> u32 \<Rightarrow> u32 \<Rightarrow> session \<Rightarrow> session \<times> bool \<times> u32" where
  "validate_fix_message now message buffer reject_reason_code out_code s =
     (let st = m_settings s;
          checked = take (length buffer - 7) buffer;
          sending_time = tag_value message TAG_SENDING_TIME
      in if \<not> has_tag message TAG_MSG_SEQ_NUM then failed_validation 0 out_code s
         else if \<not> is_tag_value_numeric message TAG_MSG_SEQ_NUM then failed_validation 0 out_code s
         else if reject_reason_code \<noteq> -1 then
           failed_validation 0 (if FIX_MAX_ERROR_CODE < reject_reason_code then out_code else reject_reason_code) s
         else if \<not> has_tag message TAG_BEGIN_STRING then failed_validation 0 out_code s
         else if tag_value message TAG_BEGIN_STRING \<noteq> begin_string st then failed_validation 0 out_code s
         else if \<not> has_tag message TAG_SENDER_COMP_ID then failed_validation 0 out_code s
         else if tag_value message TAG_SENDER_COMP_ID \<noteq> target_comp_id st then
           failed_validation 0 FIX_ERROR_CODE_COMPID_PROBLEM s
         else if \<not> has_tag message TAG_TARGET_COMP_ID then failed_validation 0 out_code s
         else if tag_value message TAG_TARGET_COMP_ID \<noteq> sender_comp_id st then
           failed_validation 0 FIX_ERROR_CODE_COMPID_PROBLEM s
         else if \<not> is_tag_value_numeric message TAG_CHECKSUM then failed_validation 0 out_code s
         else if enable_simd_avx2 st \<and> \<not> validate_checksum_simd_avx2 checked (tag_u32 message TAG_CHECKSUM) then
           failed_validation 0 out_code s
         else if \<not> enable_simd_avx2 st \<and> \<not> validate_checksum_no_simd checked (tag_u32 message TAG_CHECKSUM) then
           failed_validation 0 out_code s
         else if \<not> has_tag message TAG_SENDING_TIME then failed_validation 0 out_code s
         else if 0 < max_allowed_message_age_seconds st \<and> \<not> is_timestamp sending_time then
           failed_validation TAG_SENDING_TIME FIX_ERROR_CODE_FORMAT_INCORRECT_FOR_TAG s
         else if 0 < max_allowed_message_age_seconds st \<and>
                 is_utc_timestamp_stale sending_time (sint (word_of_nat (max_allowed_message_age_seconds st) :: i32)) now then
           failed_validation 0 FIX_ERROR_CODE_SENDING_TIME_ACCURACY_PROBLEM s
         else (s, True, out_code))"

subsection \<open>Facts\<close>

lemma map_store_simps [simp]:
  "m_state (map_store f s) = m_state s" "m_name (map_store f s) = m_name s"
  "m_sequence_store (map_store f s) = f (m_sequence_store s)" "m_settings (map_store f s) = m_settings s"
  "m_incoming_fix_message (map_store f s) = m_incoming_fix_message s"
  "m_outgoing_fix_message (map_store f s) = m_outgoing_fix_message s"
  by (simp_all add: map_store_def)

lemma set_state_simps [simp]:
  "m_state (set_state st s) = st" "m_name (set_state st s) = m_name s"
  "m_sequence_store (set_state st s) = m_sequence_store s" "m_settings (set_state st s) = m_settings s"
  "m_incoming_fix_message (set_state st s) = m_incoming_fix_message s"
  "m_outgoing_fix_message (set_state st s) = m_outgoing_fix_message s"
  by (simp_all add: set_state_def)

text \<open>The messages a session accepts, with the checksum as the sum of the bytes.\<close>

definition acceptable_message :: "nat \<Rightarrow> session_settings \<Rightarrow> incoming_message \<Rightarrow> string \<Rightarrow> bool" where
  "acceptable_message now st message buffer \<longleftrightarrow>
     has_tag message TAG_MSG_SEQ_NUM \<and> is_tag_value_numeric message TAG_MSG_SEQ_NUM \<and>
     has_tag message TAG_BEGIN_STRING \<and> tag_value message TAG_BEGIN_STRING = begin_string st \<and>
     has_tag message TAG_SENDER_COMP_ID \<and> tag_value message TAG_SENDER_COMP_ID = target_comp_id st \<and>
     has_tag message TAG_TARGET_COMP_ID \<and> tag_value message TAG_TARGET_COMP_ID = sender_comp_id st \<and>
     is_tag_value_numeric message TAG_CHECKSUM \<and>
     unat (tag_u32 message TAG_CHECKSUM) = checksum_of (take (length buffer - 7) buffer) \<and>
     has_tag message TAG_SENDING_TIME \<and>
     (max_allowed_message_age_seconds st = 0 \<or>
      (is_timestamp (tag_value message TAG_SENDING_TIME) \<and>
       \<not> is_utc_timestamp_stale (tag_value message TAG_SENDING_TIME)
            (sint (word_of_nat (max_allowed_message_age_seconds st) :: i32)) now))"

lemma validate_fix_message_accepted:
  "acceptable_message now (m_settings s) message buffer \<Longrightarrow>
   validate_fix_message now message buffer (-1) out_code s = (s, True, out_code)"
  unfolding acceptable_message_def validate_fix_message_def Let_def validate_checksum_simd validate_checksum_scalar
  by (auto simp del: not_gr_zero)

definition refusal :: "session \<Rightarrow> u32 set \<Rightarrow> session \<times> bool \<times> u32 \<Rightarrow> bool" where
  "refusal s codes r \<longleftrightarrow> (\<exists>e c. r = (s\<lparr>m_last_error_tag := e\<rparr>, False, c) \<and> c \<in> codes)"

lemma refusal_failed: "c \<in> codes \<Longrightarrow> refusal s codes (failed_validation e c s)"
  by (auto simp: refusal_def failed_validation_def)

lemma refusal_if: "(a \<Longrightarrow> refusal s codes x) \<Longrightarrow> (\<not> a \<Longrightarrow> refusal s codes y) \<Longrightarrow> refusal s codes (if a then x else y)"
  by simp

lemma validate_fix_message_refused:
  assumes "\<not> (acceptable_message now (m_settings s) message buffer \<and> code = -1)"
  shows "refusal s {out_code, code, FIX_ERROR_CODE_COMPID_PROBLEM, FIX_ERROR_CODE_FORMAT_INCORRECT_FOR_TAG,
      FIX_ERROR_CODE_SENDING_TIME_ACCURACY_PROBLEM} (validate_fix_message now message buffer code out_code s)"
  unfolding validate_fix_message_def Let_def validate_checksum_simd validate_checksum_scalar
  apply (intro refusal_if refusal_failed; (simp (no_asm); fail)?)
  using assms unfolding acceptable_message_def zero_less_iff_neq_zero by blast

lemma process_sequence_reset_cases:
  obtains (unchanged) ok where "process_incoming_sequence_reset_message message s = (s, ok)"
    "ok \<longleftrightarrow> \<not> (has_tag message TAG_NEW_SEQ_NO \<and> is_tag_value_numeric message TAG_NEW_SEQ_NO)"
  | (reset) "has_tag message TAG_NEW_SEQ_NO" "is_tag_value_numeric message TAG_NEW_SEQ_NO"
    "session_incoming_seq_no s < tag_u32 message TAG_NEW_SEQ_NO"
    "process_incoming_sequence_reset_message message s =
      (set_state LOGGED_ON (map_store (set_incoming_seq_no (tag_u32 message TAG_NEW_SEQ_NO - 1)) s), True)"
proof (cases "has_tag message TAG_NEW_SEQ_NO \<and> is_tag_value_numeric message TAG_NEW_SEQ_NO \<and>
    session_incoming_seq_no s < tag_u32 message TAG_NEW_SEQ_NO")
  case True
  then have "tag_u32 message TAG_NEW_SEQ_NO \<noteq> 0" by auto
  with True show ?thesis by (intro reset) (auto simp: process_incoming_sequence_reset_message_def Let_def)
next
  case False
  show ?thesis
  proof (cases "has_tag message TAG_NEW_SEQ_NO \<and> is_tag_value_numeric message TAG_NEW_SEQ_NO")
    case True
    with False show ?thesis
      by (intro unchanged [of False]) (auto simp: process_incoming_sequence_reset_message_def Let_def not_less)
  next
    case neg: False
    then show ?thesis
      by (intro unchanged [of True]) (auto simp: process_incoming_sequence_reset_message_def)
  qed
qed

definition session_wf :: "session \<Rightarrow> bool" where
  "session_wf s \<longleftrightarrow> message_wf (m_incoming_fix_message s) \<and>
     (throttle_limit (m_settings s) = 0 \<or> throttler_wf (m_throttler s))"

lemma session_initialise_wf:
  assumes "session_initialise env name st s = Some s'"
  shows "session_wf s'" "m_state s' = DISCONNECTED"
proof -
  obtain im0 where im: "incoming_initialise new_incoming_message = Some im0" "message_wf im0"
    "message_view im0 = Map.empty"
    by (rule new_message_initialises)
  show "session_wf s'" "m_state s' = DISCONNECTED"
    using assms im by (auto simp: session_initialise_def session_wf_def initialise_wf
        split: option.splits prod.splits if_splits)
qed

text \<open>Handlers and validation keep a session well-formed.\<close>

lemma validated_wf:
  assumes "validate_fix_message t m b c oc s = (s', v, c')" "session_wf s"
  shows "session_wf s'"
proof (cases "acceptable_message t (m_settings s) m b \<and> c = -1")
  case True
  then show ?thesis using validate_fix_message_accepted [of t s m b oc] assms by auto
next
  case False
  then show ?thesis
    using validate_fix_message_refused [OF False, of oc] assms by (auto simp: refusal_def session_wf_def)
qed

lemma sequence_reset_wf:
  "process_incoming_sequence_reset_message m s = (s', ok) \<Longrightarrow> session_wf s \<Longrightarrow> session_wf s'"
  by (auto simp: process_incoming_sequence_reset_message_def Let_def session_wf_def set_state_def map_store_def
      split: if_splits)

lemma test_request_wf: "session_wf s \<Longrightarrow> session_wf (process_test_request_message m s)"
  by (simp add: session_wf_def process_test_request_message_def Let_def)

lemma resend_request_wf: "session_wf s \<Longrightarrow> session_wf (process_resend_request m s)"
  by (simp add: session_wf_def process_resend_request_def set_state_def)

subsection \<open>Properties\<close>

text \<open>C26: a received message passes validation exactly when its sequence number is present and numeric,
  the parser found nothing, begin string and comp ids are the session's mirrored ones, the checksum is
  the sum of the bytes before the last seven modulo 256, and its SendingTime, when the age limit is on,
  is well formed and fresh; a refusal changes only the recorded error tag and never invents a reject
  code outside the parser's and the three header codes.\<close>

theorem received_message_validation:
  "if acceptable_message now (m_settings s) message buffer \<and> code = -1
   then validate_fix_message now message buffer code out_code s = (s, True, out_code)
   else \<exists>e c. validate_fix_message now message buffer code out_code s = (s\<lparr>m_last_error_tag := e\<rparr>, False, c) \<and>
     c \<in> {out_code, code, FIX_ERROR_CODE_COMPID_PROBLEM, FIX_ERROR_CODE_FORMAT_INCORRECT_FOR_TAG,
          FIX_ERROR_CODE_SENDING_TIME_ACCURACY_PROBLEM}"
proof (cases "acceptable_message now (m_settings s) message buffer \<and> code = -1")
  case True
  then show ?thesis using validate_fix_message_accepted [of now s message buffer out_code] by auto
next
  case False
  then show ?thesis
    using validate_fix_message_refused [OF False, of out_code] unfolding refusal_def if_not_P [OF False] by simp
qed

text \<open>C27: a SequenceReset never lowers the expected sequence number: it is refused exactly when its
  NewSeqNo is numeric and not beyond the last processed number; otherwise either nothing changes (the
  tag is missing or not numeric) or the next expected number becomes NewSeqNo and the session is logged
  on. The outgoing number is never touched.\<close>

theorem sequence_reset_never_lowers:
  "case process_incoming_sequence_reset_message message s of (s', ok) \<Rightarrow>
     session_incoming_seq_no s \<le> session_incoming_seq_no s' \<and>
     session_outgoing_seq_no s' = session_outgoing_seq_no s \<and>
     (ok \<longleftrightarrow> \<not> (has_tag message TAG_NEW_SEQ_NO \<and> is_tag_value_numeric message TAG_NEW_SEQ_NO \<and>
                tag_u32 message TAG_NEW_SEQ_NO \<le> session_incoming_seq_no s)) \<and>
     (s' = s \<or> (session_incoming_seq_no s' + 1 = tag_u32 message TAG_NEW_SEQ_NO \<and> m_state s' = LOGGED_ON))"
proof (cases rule: process_sequence_reset_cases [of message s])
  case (unchanged ok)
  show ?thesis
  proof (cases ok)
    case True
    with unchanged show ?thesis by auto
  next
    case False
    with unchanged have h: "has_tag message TAG_NEW_SEQ_NO" "is_tag_value_numeric message TAG_NEW_SEQ_NO" by auto
    have "tag_u32 message TAG_NEW_SEQ_NO \<le> session_incoming_seq_no s"
    proof (rule ccontr)
      assume "\<not> tag_u32 message TAG_NEW_SEQ_NO \<le> session_incoming_seq_no s"
      then have "session_incoming_seq_no s < tag_u32 message TAG_NEW_SEQ_NO" by simp
      moreover from this have "tag_u32 message TAG_NEW_SEQ_NO \<noteq> 0" by auto
      ultimately have "snd (process_incoming_sequence_reset_message message s)"
        using h by (auto simp: process_incoming_sequence_reset_message_def Let_def)
      with unchanged(1) False show False by simp
    qed
    with False unchanged h show ?thesis by simp
  qed
next
  case reset
  let ?n = "tag_u32 message TAG_NEW_SEQ_NO"
  have "unat (session_incoming_seq_no s) < unat ?n" using reset(3) by (simp add: word_less_nat_alt)
  moreover from this have "unat (?n - 1) = unat ?n - 1" by (subst unat_sub) (simp_all add: word_le_nat_alt)
  ultimately have "session_incoming_seq_no s \<le> ?n - 1" by (simp add: word_le_nat_alt)
  with reset show ?thesis by (auto simp: seq_simps not_le)
qed

text \<open>A session that initialises has a name of 1 to 32 characters and settings that \<open>validate\<close>
  accepts; it starts disconnected, with an empty message store, a throttler of the configured limit,
  the configured schedule, and the persisted sequence numbers.\<close>

theorem initialised_session_ready:
  assumes "session_initialise env name st s = Some s'"
  shows "session_wf s' \<and> m_state s' = DISCONNECTED \<and> 1 \<le> length name \<and> length name \<le> 32 \<and>
    validate_settings (env_supports_simd_avx2 env) st = None \<and> m_settings s' = st \<and>
    message_view (m_incoming_fix_message s') = Map.empty \<and> m_schedule_validator s' = session_schedule st \<and>
    env_sequence_store env = Some (m_sequence_store s')"
proof -
  obtain im0 where im: "incoming_initialise new_incoming_message = Some im0" "message_wf im0"
    "message_view im0 = Map.empty"
    by (rule new_message_initialises)
  have "name \<noteq> ''''" "length name \<le> 32" "validate_settings (env_supports_simd_avx2 env) st = None"
    using assms by (auto simp: session_initialise_def split: if_splits)
  moreover have "1 \<le> length name" using \<open>name \<noteq> ''''\<close> by (cases name) auto
  ultimately show ?thesis
    using assms im session_initialise_wf [OF assms]
    by (auto simp: session_initialise_def split: option.splits prod.splits if_splits)
qed

definition sample_environment :: session_environment where
  "sample_environment = \<lparr>env_supports_simd_avx2 = False, env_monotonic = 5000000000,
     env_sequence_store = Some \<lparr>outgoing_seq_no = 7, incoming_seq_no = 9\<rparr>,
     env_incoming_folder = None, env_incoming_serialiser = fresh_serialiser,
     env_outgoing_folder = None, env_outgoing_serialiser = fresh_serialiser\<rparr>"

definition throttled_settings :: session_settings where
  "throttled_settings = office_hours\<lparr>throttle_limit := 3, additional_static_header_tags := ''50=DESK,57=X''\<rparr>"

theorem initialised_session_ready_witness:
  "\<exists>s'. session_initialise sample_environment ''S1'' throttled_settings (new_session sample_environment) = Some s' \<and>
    session_wf s' \<and> m_state s' = DISCONNECTED \<and> m_settings s' = throttled_settings \<and>
    message_view (m_incoming_fix_message s') = Map.empty \<and>
    m_sequence_store s' = \<lparr>outgoing_seq_no = 7, incoming_seq_no = 9\<rparr>"
proof -
  obtain im0 where im: "incoming_initialise new_incoming_message = Some im0"
    by (rule new_message_initialises)
  have v: "validate_settings False throttled_settings = None"
    by (simp add: validate_settings_def throttled_settings_def office_hours_def default_session_settings_def
      validate_general_def validate_headers_def validate_logon_def validate_requests_def
      validate_throttler_def validate_serialisation_def validate_schedule_def schar_def)
  have i: "\<exists>a b. initialise_serialisers sample_environment throttled_settings = Some (a, b)"
    by (simp add: initialise_serialisers_def sample_environment_def throttled_settings_def office_hours_def
        default_session_settings_def serialiser_initialise_def Let_def open_file_def fresh_serialiser_def)
  have d: "dval ''50'' = 50" "dval ''57'' = 57" by code_simp+
  have h: "\<exists>om. add_static_header_tags (split_string ''50=DESK,57=X'' CHR '','') new_outgoing_message = Some om"
    by (simp add: split_string_def stoi_def Let_def is_digit_def is_blank_def d)
  have "\<exists>s'. session_initialise sample_environment ''S1'' throttled_settings (new_session sample_environment) = Some s'"
    using im v i h by (auto simp: session_initialise_def sample_environment_def throttled_settings_def)
  then obtain s' where "session_initialise sample_environment ''S1'' throttled_settings (new_session sample_environment) = Some s'" ..
  with initialised_session_ready [OF this] show ?thesis by (auto simp: sample_environment_def)
qed

end
