(* ===== verification/Fix_Parser.thy ===== *)
theory Fix_Parser
  imports Fix_Session
begin

text \<open>
  The scanner of \<open>FixServer::process_rx_buffer\<close> (\<open>fix_server.h\<close>; \<open>fix_client.h\<close> has the same loop):
  one message is read from a receive buffer character by character into an \<open>IncomingFixMessage\<close>, with
  the parser's reject code. Indices are positions in the buffer; \<open>ps_tag35_start\<close> is -1 until tag 35 was
  seen. \<^term>\<open>Parse_undefined\<close> is undefined behaviour (a message type longer than four characters is
  packed by shifting past the word, or the message's table cannot hold the tag).
\<close>

record parse_state =
  ps_message :: incoming_message
  ps_looking_for_equals :: bool
  ps_tag_start :: nat
  ps_tag_len :: nat
  ps_value_start :: nat
  ps_tag35_start :: int
  ps_reject_code :: u32
  ps_tag_index :: u32
  ps_message_type :: u32
  ps_in_a_repeating_group :: bool
  ps_rg_count_tag :: u32

datatype parse_result =
    Parsed parse_state nat
  | Incomplete parse_state
  | Parse_undefined

definition start_state :: "nat \<Rightarrow> incoming_message \<Rightarrow> parse_state" where
  "start_state buffer_read_index m =
     \<lparr>ps_message = m, ps_looking_for_equals = True, ps_tag_start = buffer_read_index, ps_tag_len = 0,
      ps_value_start = buffer_read_index, ps_tag35_start = -1, ps_reject_code = -1, ps_tag_index = 0,
      ps_message_type = -1, ps_in_a_repeating_group = False, ps_rg_count_tag = 0\<rparr>"

text \<open>Entering and leaving a repeating group.\<close>

definition group_step :: "group_specs \<Rightarrow> u32 \<Rightarrow> parse_state \<Rightarrow> parse_state" where
  "group_step specs tag ps =
     (if ps_message_type ps \<noteq> -1 then
        (if \<not> ps_in_a_repeating_group ps then
           (if is_a_repeating_group_count_tag specs (ps_message_type ps) tag then
              ps\<lparr>ps_rg_count_tag := tag, ps_in_a_repeating_group := True\<rparr>
            else ps)
         else if \<not> is_a_repeating_group_tag specs (ps_message_type ps) (ps_rg_count_tag ps) tag then
           ps\<lparr>ps_in_a_repeating_group := False\<rparr>
         else ps)
      else ps)"

definition record_value :: "u32 \<Rightarrow> string \<Rightarrow> parse_state \<Rightarrow> parse_state option" where
  "record_value tag v ps =
     (if \<not> ps_in_a_repeating_group ps then
        (if \<not> has_tag (ps_message ps) tag then
           (case set_tag tag v (ps_message ps) of
              None \<Rightarrow> None
            | Some m \<Rightarrow> Some (ps\<lparr>ps_message := m\<rparr>))
         else Some (ps\<lparr>ps_reject_code := FIX_ERROR_CODE_TAG_APPEARS_MORE_THAN_ONCE\<rparr>))
      else Some (ps\<lparr>ps_message := set_repeating_group_tag tag v (ps_message ps)\<rparr>))"

text \<open>The delimiter after a value: the flag tells that tag 10 has ended the message.\<close>

definition record_numeric_tag :: "group_specs \<Rightarrow> u32 \<Rightarrow> string \<Rightarrow> parse_state \<Rightarrow> (parse_state \<times> bool) option" where
  "record_numeric_tag specs tag v ps =
     (let ps = (if tag = 0 then ps\<lparr>ps_reject_code := FIX_ERROR_CODE_INVALID_TAG_NUMBER\<rparr> else ps);
          ps = ps\<lparr>ps_tag_index := ps_tag_index ps + 1\<rparr>;
          ps = ps\<lparr>ps_reject_code := validate_header_tags_order tag (ps_tag_index ps) (ps_reject_code ps)\<rparr>
      in case record_value tag v (group_step specs tag ps) of
           None \<Rightarrow> None
         | Some ps \<Rightarrow>
             if tag = TAG_CHECKSUM then
               Some (ps\<lparr>ps_reject_code := validate_tag9_and_tag35 (ps_message ps) (int (ps_tag_start ps))
                          (ps_tag35_start ps) (ps_reject_code ps)\<rparr>, True)
             else if tag = TAG_MSG_TYPE then
               (case pack_message_type v of
                  None \<Rightarrow> None
                | Some mt \<Rightarrow>
                    Some (ps\<lparr>ps_tag35_start := int (ps_tag_start ps), ps_message_type := mt\<rparr>, False))
             else Some (ps, False))"

definition end_of_value :: "group_specs \<Rightarrow> string \<Rightarrow> nat \<Rightarrow> parse_state \<Rightarrow> (parse_state \<times> bool) option" where
  "end_of_value specs buffer i ps =
     (let tag_text = take (ps_tag_len ps) (drop (ps_tag_start ps) buffer);
          v = take (i - ps_value_start ps) (drop (ps_value_start ps) buffer);
          code = (if v = [] then FIX_ERROR_CODE_TAG_WITHOUT_VALUE else ps_reject_code ps);
          (numeric, code) = validate_tag_format tag_text True code;
          ps = ps\<lparr>ps_reject_code := code\<rparr>
      in case (if numeric then record_numeric_tag specs (chars_to_unsigned_int tag_text) v ps
               else Some (ps, False)) of
           None \<Rightarrow> None
         | Some (ps, True) \<Rightarrow> Some (ps, True)
         | Some (ps, False) \<Rightarrow>
             Some (ps\<lparr>ps_tag_start := i + 1, ps_looking_for_equals := True\<rparr>, False))"

definition parse_char :: "group_specs \<Rightarrow> string \<Rightarrow> nat \<Rightarrow> parse_state \<Rightarrow> (parse_state \<times> bool) option" where
  "parse_char specs buffer i ps =
     (let c = buffer ! i
      in if ps_looking_for_equals ps then
           (if c = CHR ''='' then
              Some (ps\<lparr>ps_tag_len := i - ps_tag_start ps, ps_value_start := i + 1,
                       ps_looking_for_equals := False\<rparr>, False)
            else if c = SOH then
              Some (ps\<lparr>ps_tag_start := i + 1, ps_reject_code := NO_EQUALS_SIGN\<rparr>, False)
            else Some (ps, False))
         else if c = SOH then end_of_value specs buffer i ps
         else Some (ps, False))"

function parse_loop :: "group_specs \<Rightarrow> string \<Rightarrow> nat \<Rightarrow> parse_state \<Rightarrow> parse_result" where
  "parse_loop specs buffer i ps =
     (case parse_char specs buffer i ps of
        None \<Rightarrow> Parse_undefined
      | Some (ps', True) \<Rightarrow> Parsed ps' i
      | Some (ps', False) \<Rightarrow>
          if length buffer \<le> i + 1 then Incomplete ps' else parse_loop specs buffer (i + 1) ps')"
  by auto
termination
  by (relation "measure (\<lambda>(specs, buffer, i, ps). length buffer - i)") auto

declare parse_loop.simps [simp del]

definition parse_message :: "group_specs \<Rightarrow> string \<Rightarrow> nat \<Rightarrow> incoming_message \<Rightarrow> parse_result" where
  "parse_message specs buffer buffer_read_index m =
     parse_loop specs buffer buffer_read_index (start_state buffer_read_index (reset_message m))"

lemma parse_loop_index: "parse_loop specs b i ps = Parsed ps' j \<Longrightarrow> i < length b \<Longrightarrow> i \<le> j \<and> j < length b"
proof (induction specs b i ps rule: parse_loop.induct)
  case (1 specs b i ps)
  show ?case
  proof (cases "parse_char specs b i ps")
    case None
    with 1(2) show ?thesis by (simp add: parse_loop.simps [of specs b i])
  next
    case (Some r)
    obtain ps1 stop where r: "r = (ps1, stop)" by (cases r)
    show ?thesis
    proof (cases "stop \<or> length b \<le> i + 1")
      case True
      with 1(2,3) Some r show ?thesis
        by (auto simp: parse_loop.simps [of specs b i] split: bool.splits if_splits)
    next
      case False
      then have n: "parse_loop specs b (i + 1) ps1 = Parsed ps' j" "i + 1 < length b"
        using 1(2) Some r by (auto simp: parse_loop.simps [of specs b i] split: bool.splits if_splits)
      have "i + 1 \<le> j \<and> j < length b"
        using 1(1) [of "(ps1, False)" ps1 False] Some r False n by simp
      then show ?thesis by simp
    qed
  qed
qed

subsection \<open>One field\<close>

lemma parse_tag_chars:
  "buffer = a @ t @ CHR ''='' # r \<Longrightarrow> CHR ''='' \<notin> set t \<Longrightarrow> SOH \<notin> set t \<Longrightarrow> r \<noteq> [] \<Longrightarrow>
   ps_looking_for_equals ps \<Longrightarrow>
   parse_loop specs buffer (length a) ps = parse_loop specs buffer (length a + length t + 1)
     (ps\<lparr>ps_tag_len := length a + length t - ps_tag_start ps,
         ps_value_start := length a + length t + 1, ps_looking_for_equals := False\<rparr>)"
proof (induction t arbitrary: a)
  case Nil
  then show ?case
    by (subst parse_loop.simps) (auto simp: parse_char_def nth_append Let_def)
next
  case (Cons c t)
  have "parse_loop specs buffer (length a) ps = parse_loop specs buffer (length (a @ [c])) ps"
    using Cons.prems by (subst parse_loop.simps) (auto simp: parse_char_def nth_append Let_def)
  with Cons.IH [of "a @ [c]"] Cons.prems show ?case by simp
qed

lemma parse_value_chars:
  "buffer = a @ v @ SOH # r \<Longrightarrow> SOH \<notin> set v \<Longrightarrow> \<not> ps_looking_for_equals ps \<Longrightarrow>
   parse_loop specs buffer (length a) ps = parse_loop specs buffer (length a + length v) ps"
proof (induction v arbitrary: a)
  case (Cons c v)
  have "parse_loop specs buffer (length a) ps = parse_loop specs buffer (length (a @ [c])) ps"
    using Cons.prems by (subst parse_loop.simps) (auto simp: parse_char_def nth_append Let_def)
  with Cons.IH [of "a @ [c]"] Cons.prems show ?case by simp
qed simp

text \<open>What the delimiter does, over the text of the tag and the value.\<close>

definition field_result :: "group_specs \<Rightarrow> string \<Rightarrow> string \<Rightarrow> parse_state \<Rightarrow> (parse_state \<times> bool) option" where
  "field_result specs t v ps =
     (let code = (if v = [] then FIX_ERROR_CODE_TAG_WITHOUT_VALUE else ps_reject_code ps);
          (numeric, code) = validate_tag_format t True code;
          i = ps_tag_start ps + length t + 1;
          ps = ps\<lparr>ps_tag_len := length t, ps_value_start := i, ps_looking_for_equals := False,
                  ps_reject_code := code\<rparr>
      in case (if numeric then record_numeric_tag specs (chars_to_unsigned_int t) v ps
               else Some (ps, False)) of
           None \<Rightarrow> None
         | Some (ps, True) \<Rightarrow> Some (ps, True)
         | Some (ps, False) \<Rightarrow>
             Some (ps\<lparr>ps_tag_start := i + length v + 1, ps_looking_for_equals := True\<rparr>, False))"

lemma parse_field:
  assumes b: "buffer = a @ t @ CHR ''='' # v @ SOH # r"
    and "CHR ''='' \<notin> set t" "SOH \<notin> set t" "SOH \<notin> set v"
    and ps: "ps_looking_for_equals ps" "ps_tag_start ps = length a"
  shows "parse_loop specs buffer (length a) ps =
    (case field_result specs t v ps of
       None \<Rightarrow> Parse_undefined
     | Some (ps', True) \<Rightarrow> Parsed ps' (length a + length t + length v + 1)
     | Some (ps', False) \<Rightarrow>
         if r = [] then Incomplete ps' else parse_loop specs buffer (length a + length t + length v + 2) ps')"
proof -
  define ps1 where "ps1 = ps\<lparr>ps_tag_len := length t, ps_value_start := length a + length t + 1,
    ps_looking_for_equals := False\<rparr>"
  let ?i = "length a + length t + length v + 1"
  have "parse_loop specs buffer (length a) ps = parse_loop specs buffer (length (a @ t @ ''='')) ps1"
    using parse_tag_chars [OF b assms(2,3) _ ps(1), of specs] by (simp add: ps(2) ps1_def)
  also have "\<dots> = parse_loop specs buffer ?i ps1"
    using parse_value_chars [of buffer "a @ t @ ''=''" v r ps1 specs] b assms(4) by (simp add: ps1_def)
  finally have *: "parse_loop specs buffer (length a) ps = parse_loop specs buffer ?i ps1" .
  have c: "buffer ! ?i = SOH" "length buffer \<le> ?i + 1 \<longleftrightarrow> r = []"
    by (auto simp: b nth_append)
  have td: "take (length t) (drop (length a) buffer) = t"
    "take (?i - (length a + length t + 1)) (drop (length a + length t + 1) buffer) = v"
    by (simp_all add: b)
  have p1: "ps_tag_len ps1 = length t" "ps_tag_start ps1 = length a" "ps_reject_code ps1 = ps_reject_code ps"
    "ps_value_start ps1 = length a + length t + 1" "\<not> ps_looking_for_equals ps1"
    by (simp_all add: ps1_def ps(2))
  have e: "length a + length t + 1 + length v + 1 = ?i + 1" by simp
  have "parse_char specs buffer ?i ps1 = end_of_value specs buffer ?i ps1"
    unfolding parse_char_def Let_def c(1) using p1(5) by simp
  also have "\<dots> = field_result specs t v ps"
    unfolding end_of_value_def field_result_def Let_def p1 td ps(2) e unfolding ps1_def by simp
  finally have pc: "parse_char specs buffer ?i ps1 = field_result specs t v ps" .
  have e2: "?i + 1 = length a + length t + length v + 2" by simp
  show ?thesis unfolding * parse_loop.simps [of specs buffer ?i] pc c(2) unfolding e2 by (rule refl)
qed

subsection \<open>Well-formed fields\<close>

definition parsing_at :: "parse_state \<Rightarrow> nat \<Rightarrow> u32 \<Rightarrow> (u32 \<rightharpoonup> string) \<Rightarrow> int \<Rightarrow> u32 \<Rightarrow> bool" where
  "parsing_at ps pos idx view t35 mt \<longleftrightarrow>
     ps_looking_for_equals ps \<and> ps_tag_start ps = pos \<and> ps_tag_index ps = idx \<and>
     message_wf (ps_message ps) \<and> message_view (ps_message ps) = view \<and>
     m_repeating_groups (ps_message ps) = [] \<and> ps_tag35_start ps = t35 \<and> ps_message_type ps = mt \<and>
     ps_reject_code ps = -1 \<and> \<not> ps_in_a_repeating_group ps"

definition no_groups_for :: "group_specs \<Rightarrow> u32 \<Rightarrow> bool" where
  "no_groups_for specs mt \<longleftrightarrow> mt = -1 \<or> (\<forall>tag. \<not> is_a_repeating_group_count_tag specs mt tag)"

lemma validate_tag_format_dec: "validate_tag_format (dec (unat (n :: u32))) b c = (b, c)"
proof -
  have "list_all is_digit (dec (unat n))" by (auto simp: list_all_iff dest: dec_digits)
  then show ?thesis using dec_unat_length32 [of n] by (simp add: validate_tag_format_def)
qed

lemma group_step_none:
  "no_groups_for specs (ps_message_type ps) \<Longrightarrow> \<not> ps_in_a_repeating_group ps \<Longrightarrow> group_step specs tag ps = ps"
  by (auto simp: group_step_def no_groups_for_def)

lemma numeric_tag_result:
  assumes ps: "parsing_at ps pos idx view t35 mt" and "n \<noteq> 0" "view n = None" "no_groups_for specs mt"
    and ord: "validate_header_tags_order n (idx + 1) (-1) = -1"
  obtains m where "message_wf m" "message_view m = view(n \<mapsto> v)" "m_repeating_groups m = []"
    "record_value n v (group_step specs n
       (ps\<lparr>ps_tag_len := tlen, ps_value_start := vstart, ps_looking_for_equals := False, ps_tag_index := idx + 1,
           ps_reject_code := -1\<rparr>)) =
     Some (ps\<lparr>ps_message := m, ps_tag_len := tlen, ps_value_start := vstart, ps_looking_for_equals := False,
              ps_tag_index := idx + 1, ps_reject_code := -1\<rparr>)"
proof -
  have wf: "message_wf (ps_message ps)" and view: "message_view (ps_message ps) = view"
    and g: "m_repeating_groups (ps_message ps) = []" "\<not> ps_in_a_repeating_group ps" "ps_message_type ps = mt"
    using ps by (auto simp: parsing_at_def)
  obtain m where m: "set_tag n v (ps_message ps) = Some m" "message_wf m"
    "message_view m = (message_view (ps_message ps))(n \<mapsto> v)" "m_repeating_groups m = []"
    using g(1) by (rule_tac set_tag_wf [OF wf, of n v]) auto
  show ?thesis
    by (rule that [of m]) (use m assms(3,4) g view in
      \<open>simp_all add: group_step_none record_value_def has_tag_view\<close>)
qed

lemma field_result_numeric:
  assumes ps: "parsing_at ps pos idx view t35 mt" and "n \<noteq> 0" "v \<noteq> []"
    and ord: "validate_header_tags_order n (idx + 1) (-1) = -1"
  shows "field_result specs (dec (unat n)) v ps =
    (case (case record_value n v (group_step specs n
         (ps\<lparr>ps_tag_len := length (dec (unat n)), ps_value_start := pos + length (dec (unat n)) + 1,
             ps_looking_for_equals := False, ps_tag_index := idx + 1, ps_reject_code := -1\<rparr>)) of
       None \<Rightarrow> None
     | Some ps \<Rightarrow>
         if n = TAG_CHECKSUM then
           Some (ps\<lparr>ps_reject_code := validate_tag9_and_tag35 (ps_message ps) (int (ps_tag_start ps))
                      (ps_tag35_start ps) (ps_reject_code ps)\<rparr>, True)
         else if n = TAG_MSG_TYPE then
           (case pack_message_type v of
              None \<Rightarrow> None
            | Some mt \<Rightarrow>
                Some (ps\<lparr>ps_tag35_start := int (ps_tag_start ps), ps_message_type := mt\<rparr>, False))
         else Some (ps, False)) of
       None \<Rightarrow> None
     | Some (ps, True) \<Rightarrow> Some (ps, True)
     | Some (ps, False) \<Rightarrow>
         Some (ps\<lparr>ps_tag_start := pos + length (dec (unat n)) + length v + 2, ps_looking_for_equals := True\<rparr>, False))"
proof -
  have p: "ps_reject_code ps = -1" "ps_tag_index ps = idx" "ps_tag_start ps = pos"
    using ps by (auto simp: parsing_at_def)
  have n: "(chars_to_unsigned_int (dec (unat n)) :: u32) = n" by (simp add: chars_to_unsigned_int_dec)
  have e: "pos + length (dec (unat n)) + 1 + length v + 1 = pos + length (dec (unat n)) + length v + 2" by simp
  show ?thesis
    unfolding field_result_def record_numeric_tag_def Let_def validate_tag_format_dec p n e
    using assms(2,3) p by (simp add: ord)
qed

lemma plain_field:
  assumes ps: "parsing_at ps pos idx view t35 mt" and "n \<noteq> 0" "view n = None" "no_groups_for specs mt"
    and "validate_header_tags_order n (idx + 1) (-1) = -1" "v \<noteq> []" "n \<noteq> TAG_CHECKSUM" "n \<noteq> TAG_MSG_TYPE"
  obtains ps' where "field_result specs (dec (unat n)) v ps = Some (ps', False)"
    "parsing_at ps' (pos + length (dec (unat n)) + length v + 2) (idx + 1) (view(n \<mapsto> v)) t35 mt"
proof -
  let ?tlen = "length (dec (unat n))"
  obtain m where m: "message_wf m" "message_view m = view(n \<mapsto> v)" "m_repeating_groups m = []"
    "record_value n v (group_step specs n
       (ps\<lparr>ps_tag_len := ?tlen, ps_value_start := pos + ?tlen + 1, ps_looking_for_equals := False,
           ps_tag_index := idx + 1, ps_reject_code := -1\<rparr>)) =
     Some (ps\<lparr>ps_message := m, ps_tag_len := ?tlen, ps_value_start := pos + ?tlen + 1, ps_looking_for_equals := False,
              ps_tag_index := idx + 1, ps_reject_code := -1\<rparr>)"
    by (rule numeric_tag_result [OF assms(1-5)])
  have "\<exists>ps'. field_result specs (dec (unat n)) v ps = Some (ps', False) \<and>
      parsing_at ps' (pos + ?tlen + length v + 2) (idx + 1) (view(n \<mapsto> v)) t35 mt"
    using ps m assms(7,8) by (simp add: field_result_numeric [OF ps assms(2,6,5)] parsing_at_def)
  with that show ?thesis by blast
qed

lemma type_field:
  assumes ps: "parsing_at ps pos idx view t35 mt" and "view TAG_MSG_TYPE = None" "no_groups_for specs mt"
    and "validate_header_tags_order TAG_MSG_TYPE (idx + 1) (-1) = -1" "v \<noteq> []" "pack_message_type v = Some mt'"
  obtains ps' where "field_result specs (dec (unat TAG_MSG_TYPE)) v ps = Some (ps', False)"
    "parsing_at ps' (pos + length (dec (unat TAG_MSG_TYPE)) + length v + 2) (idx + 1)
       (view(TAG_MSG_TYPE \<mapsto> v)) (int pos) mt'"
proof -
  have n: "TAG_MSG_TYPE \<noteq> 0" "TAG_MSG_TYPE \<noteq> TAG_CHECKSUM" by (simp_all add: tag_defs)
  let ?tlen = "length (dec (unat TAG_MSG_TYPE))"
  obtain m where m: "message_wf m" "message_view m = view(TAG_MSG_TYPE \<mapsto> v)" "m_repeating_groups m = []"
    "record_value TAG_MSG_TYPE v (group_step specs TAG_MSG_TYPE
       (ps\<lparr>ps_tag_len := ?tlen, ps_value_start := pos + ?tlen + 1, ps_looking_for_equals := False,
           ps_tag_index := idx + 1, ps_reject_code := -1\<rparr>)) =
     Some (ps\<lparr>ps_message := m, ps_tag_len := ?tlen, ps_value_start := pos + ?tlen + 1, ps_looking_for_equals := False,
              ps_tag_index := idx + 1, ps_reject_code := -1\<rparr>)"
    by (rule numeric_tag_result [OF ps n(1) assms(2-4)])
  have "\<exists>ps'. field_result specs (dec (unat TAG_MSG_TYPE)) v ps = Some (ps', False) \<and>
      parsing_at ps' (pos + ?tlen + length v + 2) (idx + 1) (view(TAG_MSG_TYPE \<mapsto> v)) (int pos) mt'"
    using ps m n assms(6) by (simp add: field_result_numeric [OF ps n(1) assms(5,4)] parsing_at_def)
  with that show ?thesis by blast
qed

lemma checksum_field:
  assumes ps: "parsing_at ps pos idx view t35 mt" and "view TAG_CHECKSUM = None" "no_groups_for specs mt"
    and "validate_header_tags_order TAG_CHECKSUM (idx + 1) (-1) = -1" "v \<noteq> []"
  obtains ps' where "field_result specs (dec (unat TAG_CHECKSUM)) v ps = Some (ps', True)"
    "message_wf (ps_message ps')" "message_view (ps_message ps') = view(TAG_CHECKSUM \<mapsto> v)"
    "m_repeating_groups (ps_message ps') = []"
    "ps_reject_code ps' = validate_tag9_and_tag35 (ps_message ps') (int pos) t35 (-1)"
proof -
  have n: "TAG_CHECKSUM \<noteq> 0" by (simp add: tag_defs)
  let ?tlen = "length (dec (unat TAG_CHECKSUM))"
  obtain m where m: "message_wf m" "message_view m = view(TAG_CHECKSUM \<mapsto> v)" "m_repeating_groups m = []"
    "record_value TAG_CHECKSUM v (group_step specs TAG_CHECKSUM
       (ps\<lparr>ps_tag_len := ?tlen, ps_value_start := pos + ?tlen + 1, ps_looking_for_equals := False,
           ps_tag_index := idx + 1, ps_reject_code := -1\<rparr>)) =
     Some (ps\<lparr>ps_message := m, ps_tag_len := ?tlen, ps_value_start := pos + ?tlen + 1, ps_looking_for_equals := False,
              ps_tag_index := idx + 1, ps_reject_code := -1\<rparr>)"
    by (rule numeric_tag_result [OF ps n assms(2-4)])
  have "\<exists>ps'. field_result specs (dec (unat TAG_CHECKSUM)) v ps = Some (ps', True) \<and>
      message_wf (ps_message ps') \<and> message_view (ps_message ps') = view(TAG_CHECKSUM \<mapsto> v) \<and>
      m_repeating_groups (ps_message ps') = [] \<and>
      ps_reject_code ps' = validate_tag9_and_tag35 (ps_message ps') (int pos) t35 (-1)"
    using ps m n by (simp add: field_result_numeric [OF ps n assms(5,4)] parsing_at_def)
  with that show ?thesis by blast
qed

subsection \<open>Whole messages\<close>

lemma header_order_later: "3 \<le> unat idx \<Longrightarrow> unat idx + 1 < 2 ^ 32 \<Longrightarrow> validate_header_tags_order n (idx + 1) c = c"
  by (simp add: validate_header_tags_order_def word_less_nat_alt unat_word_ariths)

definition body_field :: "u32 \<times> string \<Rightarrow> bool" where
  "body_field tv \<longleftrightarrow> fst tv \<noteq> 0 \<and> fst tv \<noteq> TAG_CHECKSUM \<and> fst tv \<noteq> TAG_MSG_TYPE \<and> snd tv \<noteq> [] \<and> SOH \<notin> set (snd tv)"

lemma length_field: "length (field (n, v)) = length (dec (unat n)) + length v + 2"
  by (simp add: field_def)

lemma parse_one:
  assumes b: "buffer = a @ field (n, v) @ r" and ps: "parsing_at ps (length a) idx view t35 mt" and "SOH \<notin> set v"
    and fr: "field_result specs (dec (unat n)) v ps = Some (ps', False)" and "r \<noteq> []"
  shows "parse_loop specs buffer (length a) ps = parse_loop specs buffer (length (a @ field (n, v))) ps'"
proof -
  have "parse_loop specs buffer (length a) ps =
    parse_loop specs buffer (length a + length (dec (unat n)) + length v + 2) ps'"
    using parse_field [of buffer a "dec (unat n)" v r ps specs] b ps assms(3,5) fr
    by (simp add: field_def parsing_at_def)
  then show ?thesis by (simp add: length_field add.assoc)
qed

lemma parse_fields:
  assumes "buffer = a @ concat (map field fs) @ r" "r \<noteq> []" "parsing_at ps (length a) idx view t35 mt"
    and "list_all body_field fs" "distinct (map fst fs)" "\<forall>n \<in> set (map fst fs). view n = None"
    and "no_groups_for specs mt" "3 \<le> unat idx" "unat idx + length fs < 2 ^ 32"
  shows "\<exists>ps'. parse_loop specs buffer (length a) ps = parse_loop specs buffer (length (a @ concat (map field fs))) ps' \<and>
    parsing_at ps' (length (a @ concat (map field fs))) (idx + word_of_nat (length fs)) (view ++ map_of fs) t35 mt"
  using assms
proof (induction fs arbitrary: a ps idx view)
  case Nil
  then show ?case by auto
next
  case (Cons f fs)
  obtain n v where f: "f = (n, v)" by (cases f)
  have bf: "n \<noteq> 0" "n \<noteq> TAG_CHECKSUM" "n \<noteq> TAG_MSG_TYPE" "v \<noteq> []" "SOH \<notin> set v" "view n = None"
    using Cons.prems(4,6) f by (auto simp: body_field_def)
  have ord: "validate_header_tags_order n (idx + 1) (- 1) = - 1"
    by (rule header_order_later) (use Cons.prems(8,9) in auto)
  obtain ps1 where ps1: "field_result specs (dec (unat n)) v ps = Some (ps1, False)"
    "parsing_at ps1 (length a + length (dec (unat n)) + length v + 2) (idx + 1) (view(n \<mapsto> v)) t35 mt"
    by (rule plain_field [OF Cons.prems(3) bf(1,6) Cons.prems(7) ord bf(4,2,3)])
  let ?a = "a @ field (n, v)"
  have step: "parse_loop specs buffer (length a) ps = parse_loop specs buffer (length ?a) ps1"
    by (rule parse_one [OF _ Cons.prems(3) bf(5) ps1(1), of _ "concat (map field fs) @ r"])
      (use Cons.prems(1,2) f in simp_all)
  have u: "unat (idx + 1) = unat idx + 1" using Cons.prems(9) by (simp add: unat_word_ariths)
  have fresh: "\<forall>k \<in> set (map fst fs). (view(n \<mapsto> v)) k = None"
    using Cons.prems(5,6) f by auto
  have at: "parsing_at ps1 (length ?a) (idx + 1) (view(n \<mapsto> v)) t35 mt"
    using ps1(2) by (simp add: length_field add.assoc)
  have "\<exists>ps2. parse_loop specs buffer (length ?a) ps1 =
      parse_loop specs buffer (length (?a @ concat (map field fs))) ps2 \<and>
    parsing_at ps2 (length (?a @ concat (map field fs))) (idx + 1 + word_of_nat (length fs))
       (view(n \<mapsto> v) ++ map_of fs) t35 mt"
    by (rule Cons.IH [OF _ Cons.prems(2) at _ _ fresh Cons.prems(7)])
      (use Cons.prems(1,4,5,8,9) f u in simp_all)
  then obtain ps2 where ps2: "parse_loop specs buffer (length ?a) ps1 =
      parse_loop specs buffer (length (?a @ concat (map field fs))) ps2"
    "parsing_at ps2 (length (?a @ concat (map field fs))) (idx + 1 + word_of_nat (length fs))
       (view(n \<mapsto> v) ++ map_of fs) t35 mt" by blast
  have view: "view(n \<mapsto> v) ++ map_of fs = view ++ map_of ((n, v) # fs)"
    using Cons.prems(5) f by (simp add: map_add_upd_left dom_map_of_conv_image_fst)
  show ?case
    using step ps2(1) ps2(2) [unfolded view] unfolding f
    by (intro exI [of _ ps2]) (simp add: add.assoc del: map_of.simps)
qed

lemma parsing_start:
  "message_wf im \<Longrightarrow> parsing_at (start_state pos (reset_message im)) pos 0 Map.empty (-1) (-1)"
  by (simp add: parsing_at_def start_state_def reset_message_wf)

lemma no_groups_unset: "no_groups_for specs (-1)"
  by (simp add: no_groups_for_def)

lemma header_order_head:
  "validate_header_tags_order TAG_BEGIN_STRING 1 c = c" "validate_header_tags_order TAG_BODY_LENGTH 2 c = c"
  "validate_header_tags_order TAG_MSG_TYPE 3 c = c"
  by (simp_all add: validate_header_tags_order_def)

definition head_fields :: "string \<Rightarrow> string \<Rightarrow> (u32 \<times> string) list" where
  "head_fields b l = [(TAG_BEGIN_STRING, b), (TAG_BODY_LENGTH, l)]"

lemma parse_head:
  assumes buf: "buffer = pre @ concat (map field (head_fields b l @ [(TAG_MSG_TYPE, c)])) @ r" and "r \<noteq> []"
    and "message_wf im" and b: "b \<noteq> []" "SOH \<notin> set b" and l: "l \<noteq> []" "SOH \<notin> set l" and c: "c \<noteq> []" "SOH \<notin> set c"
    and mt: "pack_message_type c = Some mt"
  obtains ps where "parse_message specs buffer (length pre) im =
      parse_loop specs buffer (length (pre @ concat (map field (head_fields b l @ [(TAG_MSG_TYPE, c)])))) ps"
    "parsing_at ps (length (pre @ concat (map field (head_fields b l @ [(TAG_MSG_TYPE, c)])))) 3
       [TAG_BEGIN_STRING \<mapsto> b, TAG_BODY_LENGTH \<mapsto> l, TAG_MSG_TYPE \<mapsto> c]
       (int (length (pre @ concat (map field (head_fields b l))))) mt"
proof -
  let ?ps0 = "start_state (length pre) (reset_message im)"
  have n: "TAG_BEGIN_STRING \<noteq> 0" "TAG_BEGIN_STRING \<noteq> TAG_CHECKSUM" "TAG_BEGIN_STRING \<noteq> TAG_MSG_TYPE"
    "TAG_BODY_LENGTH \<noteq> 0" "TAG_BODY_LENGTH \<noteq> TAG_CHECKSUM" "TAG_BODY_LENGTH \<noteq> TAG_MSG_TYPE"
    "TAG_BODY_LENGTH \<noteq> TAG_BEGIN_STRING" "TAG_MSG_TYPE \<noteq> TAG_BEGIN_STRING" "TAG_MSG_TYPE \<noteq> TAG_BODY_LENGTH"
    by (simp_all add: tag_defs)
  have idx: "0 + 1 = (1 :: u32)" "1 + 1 = (2 :: u32)" "2 + 1 = (3 :: u32)" by simp_all
  note p0 = parsing_start [OF assms(3), of "length pre"]
  obtain ps1 where ps1: "field_result specs (dec (unat TAG_BEGIN_STRING)) b ?ps0 = Some (ps1, False)"
    "parsing_at ps1 (length pre + length (dec (unat TAG_BEGIN_STRING)) + length b + 2) 1 [TAG_BEGIN_STRING \<mapsto> b] (-1) (-1)"
    by (rule plain_field [OF p0 n(1) _ no_groups_unset _ b(1) n(2,3), unfolded idx]) (simp_all add: header_order_head)
  let ?a1 = "pre @ field (TAG_BEGIN_STRING, b)"
  have at1: "parsing_at ps1 (length ?a1) 1 [TAG_BEGIN_STRING \<mapsto> b] (-1) (-1)"
    using ps1(2) by (simp add: length_field add.assoc)
  obtain ps2 where ps2: "field_result specs (dec (unat TAG_BODY_LENGTH)) l ps1 = Some (ps2, False)"
    "parsing_at ps2 (length ?a1 + length (dec (unat TAG_BODY_LENGTH)) + length l + 2) 2
       [TAG_BEGIN_STRING \<mapsto> b, TAG_BODY_LENGTH \<mapsto> l] (-1) (-1)"
    by (rule plain_field [OF at1 n(4) _ no_groups_unset _ l(1) n(5,6), unfolded idx]) (simp_all add: header_order_head n)
  let ?a2 = "?a1 @ field (TAG_BODY_LENGTH, l)"
  have at2: "parsing_at ps2 (length ?a2) 2 [TAG_BEGIN_STRING \<mapsto> b, TAG_BODY_LENGTH \<mapsto> l] (-1) (-1)"
    using ps2(2) by (simp add: length_field add.assoc)
  obtain ps3 where ps3: "field_result specs (dec (unat TAG_MSG_TYPE)) c ps2 = Some (ps3, False)"
    "parsing_at ps3 (length ?a2 + length (dec (unat TAG_MSG_TYPE)) + length c + 2) 3
       [TAG_BEGIN_STRING \<mapsto> b, TAG_BODY_LENGTH \<mapsto> l, TAG_MSG_TYPE \<mapsto> c] (int (length ?a2)) mt"
    by (rule type_field [OF at2 _ no_groups_unset _ c(1) mt, unfolded idx]) (simp_all add: header_order_head n)
  let ?a3 = "?a2 @ field (TAG_MSG_TYPE, c)"
  have "parse_loop specs buffer (length pre) ?ps0 = parse_loop specs buffer (length ?a1) ps1"
    by (rule parse_one [OF _ p0 b(2) ps1(1), of _ "field (TAG_BODY_LENGTH, l) @ field (TAG_MSG_TYPE, c) @ r"])
      (use buf \<open>r \<noteq> []\<close> in \<open>simp_all add: head_fields_def\<close>)
  also have "\<dots> = parse_loop specs buffer (length ?a2) ps2"
    by (rule parse_one [OF _ at1 l(2) ps2(1), of _ "field (TAG_MSG_TYPE, c) @ r"])
      (use buf \<open>r \<noteq> []\<close> in \<open>simp_all add: head_fields_def\<close>)
  also have "\<dots> = parse_loop specs buffer (length ?a3) ps3"
    by (rule parse_one [OF _ at2 c(2) ps3(1), of _ r]) (use buf \<open>r \<noteq> []\<close> in \<open>simp_all add: head_fields_def\<close>)
  finally show ?thesis
    using ps3(2) that [of ps3] by (simp add: parse_message_def head_fields_def length_field add.assoc)
qed

lemma parse_whole:
  assumes buf: "buffer = pre @ concat (map field (head_fields b l @ (TAG_MSG_TYPE, c) # fs @ [(TAG_CHECKSUM, cs)])) @ post"
    and wf: "message_wf im" and b: "b \<noteq> []" "SOH \<notin> set b" and l: "l \<noteq> []" "SOH \<notin> set l"
    and c: "c \<noteq> []" "SOH \<notin> set c" "pack_message_type c = Some mt" and cs: "cs \<noteq> []" "SOH \<notin> set cs"
    and fs: "list_all body_field fs" "distinct (map fst fs)" "TAG_BEGIN_STRING \<notin> set (map fst fs)"
      "TAG_BODY_LENGTH \<notin> set (map fst fs)" "length fs < 2 ^ 32 - 4"
    and g: "no_groups_for specs mt"
  obtains ps where "parse_message specs buffer (length pre) im = Parsed ps (length buffer - length post - 1)"
    "message_wf (ps_message ps)" "m_repeating_groups (ps_message ps) = []"
    "message_view (ps_message ps) =
       ([TAG_BEGIN_STRING \<mapsto> b, TAG_BODY_LENGTH \<mapsto> l, TAG_MSG_TYPE \<mapsto> c] ++ map_of fs)(TAG_CHECKSUM \<mapsto> cs)"
    "ps_reject_code ps = validate_tag9_and_tag35 (ps_message ps)
       (int (length (pre @ concat (map field (head_fields b l @ (TAG_MSG_TYPE, c) # fs)))))
       (int (length (pre @ concat (map field (head_fields b l))))) (-1)"
proof -
  let ?head = "concat (map field (head_fields b l @ [(TAG_MSG_TYPE, c)]))"
  let ?a = "pre @ ?head" and ?r = "field (TAG_CHECKSUM, cs) @ post"
  let ?view = "[TAG_BEGIN_STRING \<mapsto> b, TAG_BODY_LENGTH \<mapsto> l, TAG_MSG_TYPE \<mapsto> c]"
  let ?t35 = "int (length (pre @ concat (map field (head_fields b l))))"
  have n: "TAG_CHECKSUM \<noteq> TAG_BEGIN_STRING" "TAG_CHECKSUM \<noteq> TAG_BODY_LENGTH" "TAG_CHECKSUM \<noteq> TAG_MSG_TYPE"
    by (simp_all add: tag_defs)
  have r: "?r \<noteq> []" "concat (map field fs) @ ?r \<noteq> []" by (simp_all add: field_def)
  obtain ps1 where ps1: "parse_message specs buffer (length pre) im = parse_loop specs buffer (length ?a) ps1"
    "parsing_at ps1 (length ?a) 3 ?view ?t35 mt"
    by (rule parse_head [OF _ r(2) wf b l c, of buffer pre specs]) (simp_all add: buf)
  have new: "\<forall>k \<in> set (map fst fs). ?view k = None"
  proof
    fix k assume k: "k \<in> set (map fst fs)"
    then have "k \<noteq> TAG_BEGIN_STRING" "k \<noteq> TAG_BODY_LENGTH" using fs(3,4) by metis+
    moreover have "k \<noteq> TAG_MSG_TYPE" using k fs(1) by (auto simp: list_all_iff body_field_def)
    ultimately show "?view k = None" by simp
  qed
  have "\<exists>ps2. parse_loop specs buffer (length ?a) ps1 = parse_loop specs buffer (length (?a @ concat (map field fs))) ps2 \<and>
      parsing_at ps2 (length (?a @ concat (map field fs))) (3 + word_of_nat (length fs)) (?view ++ map_of fs) ?t35 mt"
    by (rule parse_fields [OF _ r(1) ps1(2) fs(1,2) new g]) (use buf fs in simp_all)
  then obtain ps2 where ps2: "parse_loop specs buffer (length ?a) ps1 =
      parse_loop specs buffer (length (?a @ concat (map field fs))) ps2"
    "parsing_at ps2 (length (?a @ concat (map field fs))) (3 + word_of_nat (length fs)) (?view ++ map_of fs) ?t35 mt"
    by blast
  have fresh: "(?view ++ map_of fs) TAG_CHECKSUM = None"
    using fs(1) n by (auto simp: map_add_None map_of_eq_None_iff list_all_iff body_field_def)
  have ord: "validate_header_tags_order TAG_CHECKSUM (3 + word_of_nat (length fs) + 1) (-1) = -1"
  proof (rule header_order_later)
    have "unat (3 + word_of_nat (length fs) :: u32) = 3 + length fs"
      using fs(5) by (simp add: unat_word_ariths unat_of_nat take_bit_nat_eq_self)
    with fs(5) show "3 \<le> unat (3 + word_of_nat (length fs) :: u32)"
      "unat (3 + word_of_nat (length fs) :: u32) + 1 < 2 ^ 32" by simp_all
  qed
  obtain ps3 where ps3: "field_result specs (dec (unat TAG_CHECKSUM)) cs ps2 = Some (ps3, True)"
    "message_wf (ps_message ps3)" "message_view (ps_message ps3) = (?view ++ map_of fs)(TAG_CHECKSUM \<mapsto> cs)"
    "m_repeating_groups (ps_message ps3) = []"
    "ps_reject_code ps3 = validate_tag9_and_tag35 (ps_message ps3) (int (length (?a @ concat (map field fs)))) ?t35 (-1)"
    by (rule checksum_field [OF ps2(2) fresh g ord cs(1)])
  have "parse_loop specs buffer (length (?a @ concat (map field fs))) ps2 =
      Parsed ps3 (length (?a @ concat (map field fs)) + length (dec (unat TAG_CHECKSUM)) + length cs + 1)"
    using parse_field [of buffer "?a @ concat (map field fs)" "dec (unat TAG_CHECKSUM)" cs post ps2 specs]
      buf cs(2) ps2(2) ps3(1) by (simp add: field_def parsing_at_def)
  then have "parse_message specs buffer (length pre) im = Parsed ps3 (length buffer - length post - 1)"
    using ps1(1) ps2(1) by (simp add: buf length_field add.assoc)
  then show ?thesis using ps3 by (rule_tac that) simp_all
qed

end
