(* ===== verification/Wire_Exchange.thy ===== *)
theory Wire_Exchange
  imports Fix_Parser
begin

text \<open>
  From one session to its peer: what \<open>OutgoingFixMessage::encode\<close> writes is read back by the receive
  scanner as the same fields, and the peer, whose settings mirror the sender's, accepts it. The theory
  holds no model of its own: it composes \<open>Outgoing_Message\<close>, \<open>Fix_Parser\<close> and \<open>Fix_Session\<close>.
\<close>

text \<open>The fields between MsgType and CheckSum; 369 is LastMsgSeqNumProcessed.\<close>

definition extra_fields :: "session_settings \<Rightarrow> u32 \<Rightarrow> outgoing_message \<Rightarrow> (u32 \<times> string) list" where
  "extra_fields st i m =
     (if include_last_processed_seqnum_in_header st then [(369, dec (unat i))] else []) @
     m_additional_static_header_tags m @ m_header m @ m_body m @ m_trailer m"

definition wire_fields :: "session_settings \<Rightarrow> u32 \<Rightarrow> string \<Rightarrow> u32 \<Rightarrow> outgoing_message \<Rightarrow> (u32 \<times> string) list" where
  "wire_fields st i t q m =
     [(TAG_MSG_SEQ_NUM, dec (unat q)), (TAG_SENDER_COMP_ID, sender_comp_id st), (TAG_SENDING_TIME, t),
      (TAG_TARGET_COMP_ID, target_comp_id st)] @ extra_fields st i m"

text \<open>What an application may put into a message: a type of one to four characters, and tags that are
  not the engine's own, none twice, with values that are not empty and do not hold the delimiter.\<close>

definition plain_value :: "string \<Rightarrow> bool" where
  "plain_value v \<longleftrightarrow> v \<noteq> [] \<and> SOH \<notin> set v"

definition engine_tags :: "u32 list" where
  "engine_tags = [TAG_BEGIN_STRING, TAG_BODY_LENGTH, TAG_MSG_TYPE, TAG_MSG_SEQ_NUM, TAG_SENDER_COMP_ID,
     TAG_SENDING_TIME, TAG_TARGET_COMP_ID, TAG_CHECKSUM]"

definition sendable :: "session_settings \<Rightarrow> u32 \<Rightarrow> outgoing_message \<Rightarrow> bool" where
  "sendable st i m \<longleftrightarrow>
     plain_value (m_msg_type m) \<and> length (m_msg_type m) \<le> 4 \<and> m_fix_string_send_time m = None \<and>
     plain_value (begin_string st) \<and> plain_value (sender_comp_id st) \<and> plain_value (target_comp_id st) \<and>
     list_all (\<lambda>(t, v). t \<noteq> 0 \<and> t \<notin> set engine_tags \<and> plain_value v) (extra_fields st i m) \<and>
     distinct (map fst (extra_fields st i m)) \<and> length (extra_fields st i m) < 2 ^ 31"

lemma tag_texts:
  "dec (unat TAG_BEGIN_STRING) = ''8''" "dec (unat TAG_BODY_LENGTH) = ''9''" "dec (unat TAG_MSG_TYPE) = ''35''"
  "dec (unat TAG_MSG_SEQ_NUM) = ''34''" "dec (unat TAG_SENDER_COMP_ID) = ''49''" "dec (unat TAG_SENDING_TIME) = ''52''"
  "dec (unat TAG_TARGET_COMP_ID) = ''56''" "dec (unat TAG_CHECKSUM) = ''10''"
  by code_simp+

lemma encoded_wire_fields:
  "encode_after_length st i t q m = concat (map field ((TAG_MSG_TYPE, m_msg_type m) # wire_fields st i t q m))"
  by (simp add: encode_after_length_def wire_fields_def extra_fields_def field_def tag_texts dec_369)

lemma wire_fields_body:
  assumes "sendable st i m" "plain_value t"
  shows "list_all body_field (wire_fields st i t q m)" "distinct (map fst (wire_fields st i t q m))"
    "TAG_BEGIN_STRING \<notin> set (map fst (wire_fields st i t q m))"
    "TAG_BODY_LENGTH \<notin> set (map fst (wire_fields st i t q m))"
    "length (wire_fields st i t q m) < 2 ^ 32 - 4"
proof -
  have e: "\<And>n v. (n, v) \<in> set (extra_fields st i m) \<Longrightarrow> n \<noteq> 0 \<and> n \<notin> set engine_tags \<and> plain_value v"
    using assms(1) by (auto simp: sendable_def list_all_iff)
  have tags: "list_all (\<lambda>n. n \<noteq> 0 \<and> n \<noteq> TAG_CHECKSUM \<and> n \<noteq> TAG_MSG_TYPE \<and> n \<noteq> TAG_BEGIN_STRING \<and>
      n \<noteq> TAG_BODY_LENGTH) [TAG_MSG_SEQ_NUM, TAG_SENDER_COMP_ID, TAG_SENDING_TIME, TAG_TARGET_COMP_ID]"
    "distinct [TAG_MSG_SEQ_NUM, TAG_SENDER_COMP_ID, TAG_SENDING_TIME, TAG_TARGET_COMP_ID]"
    by (simp_all add: tag_defs)
  have x: "body_field tv" "fst tv \<notin> {TAG_MSG_SEQ_NUM, TAG_SENDER_COMP_ID, TAG_SENDING_TIME, TAG_TARGET_COMP_ID,
      TAG_BEGIN_STRING, TAG_BODY_LENGTH}" if "tv \<in> set (extra_fields st i m)" for tv
    using e [of "fst tv" "snd tv"] that by (auto simp: body_field_def engine_tags_def plain_value_def)
  have c: "plain_value (sender_comp_id st)" "plain_value (target_comp_id st)" using assms(1) by (auto simp: sendable_def)
  have "body_field (TAG_MSG_SEQ_NUM, dec (unat q))" "body_field (TAG_SENDER_COMP_ID, sender_comp_id st)"
    "body_field (TAG_SENDING_TIME, t)" "body_field (TAG_TARGET_COMP_ID, target_comp_id st)"
    using c assms(2) tags(1) by (simp_all add: body_field_def plain_value_def)
  then show "list_all body_field (wire_fields st i t q m)"
    using x(1) by (simp add: wire_fields_def list_all_iff)
  have d: "set (map fst (extra_fields st i m)) \<inter> {TAG_MSG_SEQ_NUM, TAG_SENDER_COMP_ID, TAG_SENDING_TIME,
      TAG_TARGET_COMP_ID, TAG_BEGIN_STRING, TAG_BODY_LENGTH} = {}"
    unfolding set_map disjoint_iff by (intro allI impI, elim imageE, drule x(2), erule ssubst)
  have w: "map fst (wire_fields st i t q m) =
      [TAG_MSG_SEQ_NUM, TAG_SENDER_COMP_ID, TAG_SENDING_TIME, TAG_TARGET_COMP_ID] @ map fst (extra_fields st i m)"
    by (simp add: wire_fields_def)
  have "distinct (map fst (extra_fields st i m))" using assms(1) by (simp add: sendable_def)
  then show "distinct (map fst (wire_fields st i t q m))"
    unfolding w distinct_append using tags(2) d by simp
  show "TAG_BEGIN_STRING \<notin> set (map fst (wire_fields st i t q m))"
    "TAG_BODY_LENGTH \<notin> set (map fst (wire_fields st i t q m))"
    using tags(1) d by (auto simp: wire_fields_def)
  show "length (wire_fields st i t q m) < 2 ^ 32 - 4"
    using assms(1) by (simp add: wire_fields_def sendable_def)
qed

lemma dval_dec3: "n < 256 \<Longrightarrow> dval (dec3 n) = n"
proof -
  assume n: "n < 256"
  define a where "a = n div 10"
  have a: "n div 100 = a div 10" by (simp add: a_def div_mult2_eq [symmetric])
  have "a div 10 < 10" using n unfolding a [symmetric] by (simp add: less_mult_imp_div_less)
  moreover have "a mod 10 < 10" "n mod 10 < 10" by simp_all
  ultimately have "dval (dec3 n) = (a div 10 * 10 + a mod 10) * 10 + n mod 10"
    unfolding dval_def dec3_def a a_def [symmetric] by (simp del: mod_less_divisor)
  also have "\<dots> = n" by (simp add: a_def)
  finally show ?thesis .
qed

lemma dec3_digits: "n < 256 \<Longrightarrow> list_all is_digit (dec3 n)"
  by (simp add: dec3_def)

lemma checksum_text:
  assumes "n < 256"
  shows "is_numeric (dec3 n)" "unat (chars_to_unsigned_int (dec3 n) :: u32) = n" "plain_value (dec3 n)"
proof -
  have ne: "dec3 n \<noteq> []" by (simp add: dec3_def)
  show "is_numeric (dec3 n)" by (rule is_numeric_digits [OF dec3_digits [OF assms] ne])
  show "unat (chars_to_unsigned_int (dec3 n) :: u32) = n"
    using assms by (simp add: chars_to_unsigned_int_digits [OF dec3_digits [OF assms]] dval_dec3
        unat_of_nat take_bit_nat_eq_self)
  show "plain_value (dec3 n)" using dec3_clean [OF assms] ne by (simp add: plain_value_def)
qed

lemma plain_dec [simp]: "plain_value (dec n)"
  by (simp add: plain_value_def)

lemma body_length_check:
  assumes "message_view m TAG_BODY_LENGTH = Some (dec n)" "n < 2 ^ 31" "0 \<le> b" "a - b = int n"
  shows "validate_tag9_and_tag35 m a b (-1) = -1"
proof -
  have "is_numeric (dec n)" by (rule is_numeric_digits) simp_all
  moreover have "sint (word_of_nat n :: i32) = int n"
    using assms(2) by (simp add: sint_uint signed_take_bit_int_eq_self uint_nat unat_of_nat take_bit_nat_eq_self)
  ultimately show ?thesis
    using assms by (simp add: validate_tag9_and_tag35_def has_tag_view tag_value_view is_tag_value_numeric_def
        tag_u32_def chars_to_unsigned_int_dec)
qed

definition sent_at :: "session_settings \<Rightarrow> nat \<Rightarrow> string" where
  "sent_at st now = encode_current_time (timestamp_subseconds_precision st) now"

definition message_fields :: "session_settings \<Rightarrow> u32 \<Rightarrow> nat \<Rightarrow> u32 \<Rightarrow> outgoing_message \<Rightarrow> (u32 \<times> string) list" where
  "message_fields st i now q m =
     (let t = sent_at st now
      in head_fields (begin_string st) (dec (length (encode_after_length st i t q m))) @
         (TAG_MSG_TYPE, m_msg_type m) # wire_fields st i t q m)"

lemma encode_message_fields:
  assumes "m_fix_string_send_time m = None" "length (encode_after_length st i (sent_at st now) q m) < 2 ^ 32"
  shows "fst (encode st i now q m) =
    concat (map field (message_fields st i now q m @
      [(TAG_CHECKSUM, dec3 (checksum_of (concat (map field (message_fields st i now q m)))))]))"
proof -
  let ?t = "sent_at st now"
  let ?b = "encode_after_length st i ?t q m"
  have t: "ensure_send_time (timestamp_subseconds_precision st) now m = ?t"
    using assms(1) by (simp add: ensure_send_time_def sent_at_def)
  have l: "unat (word_of_nat (length ?b) :: u32) = length ?b"
    using assms(2) by (simp add: unat_of_nat take_bit_nat_eq_self)
  have p: "concat (map field (message_fields st i now q m)) =
      ''8='' @ begin_string st @ [SOH] @ ''9='' @ dec (length ?b) @ [SOH] @ ?b"
    unfolding message_fields_def Let_def map_append concat_append encoded_wire_fields [symmetric]
    by (simp add: head_fields_def field_def tag_texts)
  have c: "field (TAG_CHECKSUM, x) = ''10='' @ x @ [SOH]" for x by (simp add: field_def tag_texts)
  have e: "fst (encode st i now q m) = (''8='' @ begin_string st @ [SOH] @ ''9='' @ dec (length ?b) @ [SOH] @ ?b) @
      ''10='' @ dec3 (checksum_of (''8='' @ begin_string st @ [SOH] @ ''9='' @ dec (length ?b) @ [SOH] @ ?b)) @ [SOH]"
    unfolding encode_def Let_def t body_length_eq u32_text_dec l encode_checksum_either by simp
  show ?thesis unfolding map_append concat_append p using e by (simp add: c)
qed

lemma send_time_plain: "plain_value (sent_at st now)"
proof -
  have "length (sent_at st now) > 0"
    by (cases "timestamp_subseconds_precision st")
      (simp_all add: sent_at_def encode_current_time_eq length_datetime TIME_LENGTHS_def del: length_greater_0_conv)
  then show ?thesis using send_time_clean by (auto simp: plain_value_def sent_at_def)
qed

lemma map_of_message:
  assumes "distinct (map fst fs)" "set (map fst fs) \<inter> {a, b, c} = {}" "distinct [a, b, c]"
  shows "[a \<mapsto> x, b \<mapsto> y, c \<mapsto> z] ++ map_of fs = map_of ([(a, x), (b, y), (c, z)] @ fs)"
proof -
  have f: "map_of fs a = None" "map_of fs b = None" "map_of fs c = None"
    using assms(2) by (auto simp: map_of_eq_None_iff)
  have "[a \<mapsto> x, b \<mapsto> y, c \<mapsto> z] k = map_of [(a, x), (b, y), (c, z)] k" for k using assms(3) by auto
  then have "([a \<mapsto> x, b \<mapsto> y, c \<mapsto> z] ++ map_of fs) k = map_of ([(a, x), (b, y), (c, z)] @ fs) k" for k
    using f by (auto simp: map_add_def split: option.splits)
  then show ?thesis by blast
qed

lemma parse_encoded:
  assumes s: "sendable st i m" and wf: "message_wf im" and mt: "pack_message_type (m_msg_type m) = Some mt"
    and g: "no_groups_for specs mt" and len: "length (encode_after_length st i (sent_at st now) q m) < 2 ^ 31"
  obtains ps where "parse_message specs (pre @ fst (encode st i now q m) @ post) (length pre) im =
      Parsed ps (length pre + length (fst (encode st i now q m)) - 1)"
    "message_wf (ps_message ps)" "m_repeating_groups (ps_message ps) = []" "ps_reject_code ps = -1"
    "message_view (ps_message ps) = (map_of (message_fields st i now q m))
       (TAG_CHECKSUM \<mapsto> dec3 (checksum_of (concat (map field (message_fields st i now q m)))))"
proof -
  let ?t = "sent_at st now"
  let ?fs = "wire_fields st i ?t q m"
  let ?l = "dec (length (encode_after_length st i ?t q m))"
  let ?h = "head_fields (begin_string st) ?l"
  let ?cs = "dec3 (checksum_of (concat (map field (message_fields st i now q m))))"
  let ?buf = "pre @ concat (map field (?h @ (TAG_MSG_TYPE, m_msg_type m) # ?fs @ [(TAG_CHECKSUM, ?cs)])) @ post"
  have enc: "pre @ fst (encode st i now q m) @ post = ?buf"
  proof -
    have mf: "?h @ (TAG_MSG_TYPE, m_msg_type m) # ?fs @ [(TAG_CHECKSUM, ?cs)] =
        message_fields st i now q m @ [(TAG_CHECKSUM, ?cs)]"
      by (simp add: message_fields_def Let_def)
    have "fst (encode st i now q m) = concat (map field (message_fields st i now q m @ [(TAG_CHECKSUM, ?cs)]))"
      by (rule encode_message_fields) (use s len in \<open>simp_all add: sendable_def\<close>)
    then show ?thesis unfolding mf by simp
  qed
  have pv: "plain_value (begin_string st)" "plain_value (m_msg_type m)" "plain_value ?cs"
    using s checksum_text(3) [OF checksum_of_less] by (auto simp: sendable_def)
  note w = wire_fields_body [OF s send_time_plain [of st now], of q]
  obtain ps where ps: "parse_message specs ?buf (length pre) im = Parsed ps (length ?buf - length post - 1)"
    "message_wf (ps_message ps)" "m_repeating_groups (ps_message ps) = []"
    "message_view (ps_message ps) =
       ([TAG_BEGIN_STRING \<mapsto> begin_string st, TAG_BODY_LENGTH \<mapsto> ?l, TAG_MSG_TYPE \<mapsto> m_msg_type m] ++ map_of ?fs)
         (TAG_CHECKSUM \<mapsto> ?cs)"
    "ps_reject_code ps = validate_tag9_and_tag35 (ps_message ps)
       (int (length (pre @ concat (map field (?h @ (TAG_MSG_TYPE, m_msg_type m) # ?fs)))))
       (int (length (pre @ concat (map field ?h)))) (-1)"
    by (rule parse_whole [OF refl wf _ _ _ _ _ _ mt _ _ w g, of "begin_string st" ?l ?cs pre post])
      (use pv in \<open>simp_all add: plain_value_def\<close>)
  have dt: "distinct [TAG_BEGIN_STRING, TAG_BODY_LENGTH, TAG_MSG_TYPE]" by (simp add: tag_defs)
  have "TAG_MSG_TYPE \<notin> set (map fst ?fs)" using w(1) by (auto simp: list_all_iff body_field_def)
  then have dj: "set (map fst ?fs) \<inter> {TAG_BEGIN_STRING, TAG_BODY_LENGTH, TAG_MSG_TYPE} = {}" using w(3,4) by simp
  have view: "message_view (ps_message ps) = (map_of (message_fields st i now q m)) (TAG_CHECKSUM \<mapsto> ?cs)"
    unfolding ps(4) map_of_message [OF w(2) dj dt] by (simp add: message_fields_def head_fields_def Let_def)
  have len9: "message_view (ps_message ps) TAG_BODY_LENGTH = Some ?l"
    using dt by (simp add: view message_fields_def head_fields_def Let_def tag_defs)
  have code: "ps_reject_code ps = -1"
    unfolding ps(5) by (rule body_length_check [OF len9 len]) (simp_all add: encoded_wire_fields)
  have "length ?buf - length post - 1 = length pre + length (fst (encode st i now q m)) - 1"
    unfolding enc [symmetric] by simp
  with ps(1-3) view code show ?thesis using that [of ps] unfolding enc by simp
qed

subsection \<open>Properties\<close>

lemma order_message_sendable:
  "sendable office_hours 41 order_message" "pack_message_type (m_msg_type order_message) = Some 68"
  "no_groups_for no_group_specs 68" "length (encode_after_length office_hours 41 (sent_at office_hours now) 7 order_message) < 2 ^ 31"
proof -
  show "sendable office_hours 41 order_message"
    by (simp add: sendable_def plain_value_def extra_fields_def order_message_fields office_hours_def
        default_session_settings_def engine_tags_def tag_defs)
  show "pack_message_type (m_msg_type order_message) = Some 68"
    by (simp add: order_message_fields pack_message_type_def)
  show "no_groups_for no_group_specs 68"
    by (simp add: no_groups_for_def is_a_repeating_group_count_tag_def no_group_specs_def)
  have "length (sent_at office_hours now) \<le> 27"
    by (cases "timestamp_subseconds_precision office_hours")
      (simp_all add: sent_at_def encode_current_time_eq length_datetime TIME_LENGTHS_def)
  moreover have "length (dec (unat (7 :: u32))) \<le> 10" "length (dec (unat (50 :: u32))) \<le> 10"
    "length (dec (unat (55 :: u32))) \<le> 10" "length (dec (unat (44 :: u32))) \<le> 10"
    by (rule dec_unat_length32)+
  ultimately show "length (encode_after_length office_hours 41 (sent_at office_hours now) 7 order_message) < 2 ^ 31"
    by (simp add: encode_after_length_def field_def order_message_fields office_hours_def default_session_settings_def)
qed

text \<open>The receive scanner reads a message that \<open>encode\<close> wrote, wherever it stands in the receive
  buffer, up to its last byte and no further, without a reject code, and recovers exactly its fields:
  begin string, body length, type, sequence number, comp ids, SendingTime, static tags, header, body,
  trailer and checksum, each with its value.\<close>

theorem encoded_message_parsed:
  assumes "sendable st i m" "message_wf im" "pack_message_type (m_msg_type m) = Some mt"
    and "no_groups_for specs mt" "length (encode_after_length st i (sent_at st now) q m) < 2 ^ 31"
  shows "\<exists>ps. parse_message specs (pre @ fst (encode st i now q m) @ post) (length pre) im =
      Parsed ps (length pre + length (fst (encode st i now q m)) - 1) \<and>
    ps_reject_code ps = -1 \<and> message_wf (ps_message ps) \<and>
    message_view (ps_message ps) = (map_of (message_fields st i now q m))
      (TAG_CHECKSUM \<mapsto> dec3 (checksum_of (concat (map field (message_fields st i now q m)))))"
  by (rule parse_encoded [OF assms]) blast

theorem encoded_message_parsed_witness:
  "\<exists>ps. parse_message no_group_specs (''8=FIX'' @ fst (encode office_hours 41 1709208000123456789 7 order_message) @ ''8='')
        (length ''8=FIX'') (sample_message 3) =
      Parsed ps (length ''8=FIX'' + length (fst (encode office_hours 41 1709208000123456789 7 order_message)) - 1) \<and>
    ps_reject_code ps = -1 \<and> message_wf (ps_message ps) \<and>
    message_view (ps_message ps) = (map_of (message_fields office_hours 41 1709208000123456789 7 order_message))
      (TAG_CHECKSUM \<mapsto> dec3 (checksum_of (concat (map field
         (message_fields office_hours 41 1709208000123456789 7 order_message)))))"
  by (rule encoded_message_parsed [OF order_message_sendable(1) sample_message_wf(1)
      order_message_sendable(2-4)]) simp

definition mirrored :: "session_settings \<Rightarrow> session_settings \<Rightarrow> bool" where
  "mirrored st st' \<longleftrightarrow> begin_string st' = begin_string st \<and> target_comp_id st' = sender_comp_id st \<and>
     sender_comp_id st' = target_comp_id st"

lemma message_fields_lookup:
  "map_of (message_fields st i now q m) TAG_BEGIN_STRING = Some (begin_string st)"
  "map_of (message_fields st i now q m) TAG_MSG_TYPE = Some (m_msg_type m)"
  "map_of (message_fields st i now q m) TAG_MSG_SEQ_NUM = Some (dec (unat q))"
  "map_of (message_fields st i now q m) TAG_SENDER_COMP_ID = Some (sender_comp_id st)"
  "map_of (message_fields st i now q m) TAG_SENDING_TIME = Some (sent_at st now)"
  "map_of (message_fields st i now q m) TAG_TARGET_COMP_ID = Some (target_comp_id st)"
  by (simp_all add: message_fields_def head_fields_def wire_fields_def Let_def tag_defs)

lemma encoded_acceptable:
  assumes view: "message_view im = (map_of (message_fields st i now q m))
      (TAG_CHECKSUM \<mapsto> dec3 (checksum_of (concat (map field (message_fields st i now q m)))))"
    and "sendable st i m" "length (encode_after_length st i (sent_at st now) q m) < 2 ^ 31" "mirrored st st'"
    and "now div 1000000000 < 253402300800" "max_allowed_message_age_seconds st' < 2 ^ 31"
    and age: "max_allowed_message_age_seconds st' = 0 \<or>
      int (later div 1000000000) - int (now div 1000000000) \<le> int (max_allowed_message_age_seconds st')"
  shows "acceptable_message later st' im (fst (encode st i now q m))"
proof -
  let ?p = "concat (map field (message_fields st i now q m))"
  have n: "TAG_BEGIN_STRING \<noteq> TAG_CHECKSUM" "TAG_MSG_SEQ_NUM \<noteq> TAG_CHECKSUM" "TAG_SENDER_COMP_ID \<noteq> TAG_CHECKSUM"
    "TAG_SENDING_TIME \<noteq> TAG_CHECKSUM" "TAG_TARGET_COMP_ID \<noteq> TAG_CHECKSUM" by (simp_all add: tag_defs)
  have v: "message_view im TAG_BEGIN_STRING = Some (begin_string st)"
    "message_view im TAG_MSG_SEQ_NUM = Some (dec (unat q))" "message_view im TAG_SENDER_COMP_ID = Some (sender_comp_id st)"
    "message_view im TAG_SENDING_TIME = Some (sent_at st now)" "message_view im TAG_TARGET_COMP_ID = Some (target_comp_id st)"
    "message_view im TAG_CHECKSUM = Some (dec3 (checksum_of ?p))"
    using n by (simp_all add: view message_fields_lookup)
  have enc: "fst (encode st i now q m) = ?p @ field (TAG_CHECKSUM, dec3 (checksum_of ?p))"
    using encode_message_fields [of m st i now q] assms(2,3) by (simp add: sendable_def)
  have "length (field (TAG_CHECKSUM, dec3 (checksum_of ?p))) = 7"
    by (simp add: field_def tag_texts dec3_def)
  then have take: "take (length (fst (encode st i now q m)) - 7) (fst (encode st i now q m)) = ?p"
    unfolding enc by simp
  have num: "is_numeric (dec (unat q))" by (rule is_numeric_digits) simp_all
  have age_int: "sint (word_of_nat (max_allowed_message_age_seconds st') :: i32) = int (max_allowed_message_age_seconds st')"
    using assms(6) by (simp add: sint_uint signed_take_bit_int_eq_self uint_nat unat_of_nat take_bit_nat_eq_self)
  note fresh = stamped_time [OF assms(5), of "timestamp_subseconds_precision st"]
  show ?thesis
    unfolding acceptable_message_def take has_tag_view is_tag_value_numeric_def tag_u32_def age_int
    using assms(4) age fresh(1) num checksum_text [OF checksum_of_less, of ?p]
    by (auto simp: v tag_value_view [OF v(1)] tag_value_view [OF v(2)] tag_value_view [OF v(3)]
        tag_value_view [OF v(4)] tag_value_view [OF v(5)] tag_value_view [OF v(6)] mirrored_def
        sent_at_def fresh(2))
qed


definition peer_session :: session where
  "peer_session = (new_session sample_environment)\<lparr>m_settings :=
     office_hours\<lparr>sender_comp_id := ''B'', target_comp_id := ''A'', max_allowed_message_age_seconds := 60,
       enable_simd_avx2 := True\<rparr>\<rparr>"


end
