(* ===== verification/Transport.thy ===== *)
theory Transport
  imports Llfix_Prelude
begin

text \<open>
  The TCP layer under the FIX engine: the connector slots of \<open>connectors.h\<close>, the receive buffers and
  the send loop of \<open>tcp_reactor.h\<close> (\<open>tcp_connector.h\<close> has the same loop for the client). A socket is its
  descriptor; what the operating system answers to a call is an input. A connector's receive buffer is
  the bytes of the last receive, its incomplete buffer the bytes kept from earlier ones; \<^term>\<open>None\<close> is a
  write past the heap block of twice the receive capacity. Zeroing recycled memory, locks, socket
  options and polling are not modelled.
\<close>

subsection \<open>Connector slots\<close>

record connector =
  m_connected :: bool
  m_socket :: "nat option"
  m_last_receive_result :: int
  m_rx_buffer :: string
  m_incomplete_buffer :: string

definition new_connector :: connector where
  "new_connector = \<lparr>m_connected = False, m_socket = None, m_last_receive_result = 0, m_rx_buffer = '''',
     m_incomplete_buffer = ''''\<rparr>"

definition connector_initialise :: "connector \<Rightarrow> connector" where
  "connector_initialise c = c\<lparr>m_socket := None\<rparr>"

definition connector_close :: "connector \<Rightarrow> connector" where
  "connector_close c = c\<lparr>m_connected := False, m_incomplete_buffer := '''', m_last_receive_result := 0,
     m_socket := None\<rparr>"

record connectors =
  m_connectors :: "connector list"
  m_descriptor_index_table :: "nat \<rightharpoonup> nat"

fun unused_slot :: "connector list \<Rightarrow> nat \<Rightarrow> nat option" where
  "unused_slot [] i = None"
| "unused_slot (c # cs) i = (if \<not> m_connected c then Some i else unused_slot cs (i + 1))"

definition add_connector :: "nat \<Rightarrow> connectors \<Rightarrow> nat \<times> connectors" where
  "add_connector desc t =
     (case unused_slot (m_connectors t) 0 of
        None \<Rightarrow>
          (let c = (connector_initialise new_connector)\<lparr>m_connected := True, m_socket := Some desc\<rparr>;
               i = length (m_connectors t)
           in (i, t\<lparr>m_connectors := m_connectors t @ [c],
                    m_descriptor_index_table := (m_descriptor_index_table t)(desc \<mapsto> i)\<rparr>))
      | Some i \<Rightarrow>
          (let c = (connector_initialise (m_connectors t ! i))\<lparr>m_connected := True, m_socket := Some desc\<rparr>
           in (i, t\<lparr>m_connectors := (m_connectors t)[i := c],
                    m_descriptor_index_table := (m_descriptor_index_table t)(desc \<mapsto> i)\<rparr>)))"

definition recycle_connector :: "nat \<Rightarrow> connectors \<Rightarrow> connectors option" where
  "recycle_connector i t =
     (if i < length (m_connectors t) then
        Some (t\<lparr>m_connectors := (m_connectors t)[i := connector_close (m_connectors t ! i)]\<rparr>)
      else None)"

text \<open>\<open>operator[]\<close> of the table creates a zero entry for an unknown descriptor.\<close>

definition get_connector_index_from_descriptor :: "nat \<Rightarrow> connectors \<Rightarrow> nat" where
  "get_connector_index_from_descriptor fd t =
     (case m_descriptor_index_table t fd of None \<Rightarrow> 0 | Some i \<Rightarrow> i)"

subsection \<open>Receiving\<close>

text \<open>One \<open>recv\<close>: a positive result comes with that many bytes.\<close>

definition receive :: "int \<Rightarrow> string \<Rightarrow> connector \<Rightarrow> connector" where
  "receive result data c = c\<lparr>m_last_receive_result := result, m_rx_buffer := data\<rparr>"

definition get_rx_buffer :: "nat \<Rightarrow> connector \<Rightarrow> string option" where
  "get_rx_buffer rx_buffer_capacity c =
     (if m_incomplete_buffer c = [] then Some (m_rx_buffer c)
      else if 2 * rx_buffer_capacity < length (m_incomplete_buffer c) + length (m_rx_buffer c) then None
      else Some (m_incomplete_buffer c @ m_rx_buffer c))"

definition set_incomplete_buffer :: "nat \<Rightarrow> string \<Rightarrow> connector \<Rightarrow> connector option" where
  "set_incomplete_buffer rx_buffer_capacity buffer c =
     (if 2 * rx_buffer_capacity < length buffer then None else Some (c\<lparr>m_incomplete_buffer := buffer\<rparr>))"

definition reset_incomplete_buffer :: "connector \<Rightarrow> connector" where
  "reset_incomplete_buffer c = c\<lparr>m_incomplete_buffer := ''''\<rparr>"

subsection \<open>Sending\<close>

text \<open>\<open>os k n\<close> answers the \<open>k\<close>-th \<open>send\<close> call of the loop, for \<open>n\<close> bytes: its result, and for a failed
  call whether the error means that the connection is lost. The loop returns what it tells its caller
  and the number of bytes that are on their way; \<open>None\<close> is a loop that never ends.\<close>

datatype send_result = SendOk | SendFail | SendLost

partial_function (option) send_loop ::
    "(nat \<Rightarrow> nat \<Rightarrow> int \<times> bool) \<Rightarrow> nat \<Rightarrow> string \<Rightarrow> nat \<Rightarrow> nat \<Rightarrow> (send_result \<times> nat) option" where
  "send_loop os send_try_count buffer iteration bytes_sent =
     (if 0 < send_try_count \<and> iteration = send_try_count then Some (SendFail, bytes_sent)
      else
        (let (result, lost) = os iteration (length buffer - bytes_sent);
             sent = (if 0 < result \<and> result \<le> int (length buffer) then bytes_sent + nat result else bytes_sent)
         in if \<not> (0 < result \<and> result \<le> int (length buffer)) \<and> lost then Some (SendLost, sent)
            else if sent = length buffer then Some (SendOk, sent)
            else send_loop os send_try_count buffer (iteration + 1) sent))"

definition send_to_socket ::
    "(nat \<Rightarrow> nat \<Rightarrow> int \<times> bool) \<Rightarrow> nat \<Rightarrow> string \<Rightarrow> (send_result \<times> nat) option" where
  "send_to_socket os send_try_count buffer = send_loop os send_try_count buffer 0 0"

text \<open>What \<open>send\<close> is documented to do: it takes at most what it was given.\<close>

definition send_contract :: "(nat \<Rightarrow> nat \<Rightarrow> int \<times> bool) \<Rightarrow> bool" where
  "send_contract os \<longleftrightarrow> (\<forall>k n. fst (os k n) \<le> int n)"

lemma send_loop_step:
  assumes "send_contract os" "sent \<le> length buffer" "os k (length buffer - sent) = (r, lost)"
    and "\<not> (0 < tries \<and> k = tries)"
  obtains (lost) "r \<le> 0" "lost" "send_loop os tries buffer k sent = Some (SendLost, sent)"
  | (complete) "send_loop os tries buffer k sent = Some (SendOk, length buffer)" "sent \<le> length buffer"
      "0 < r \<or> buffer = []  \<or> sent = length buffer"
  | (stuck) "r \<le> 0" "\<not> lost" "sent < length buffer"
      "send_loop os tries buffer k sent = send_loop os tries buffer (k + 1) sent"
  | (more) "0 < r" "sent + nat r < length buffer"
      "send_loop os tries buffer k sent = send_loop os tries buffer (k + 1) (sent + nat r)"
proof -
  have r: "r \<le> int (length buffer - sent)"
    using assms(1) [unfolded send_contract_def, rule_format, of k "length buffer - sent"] assms(3) by simp
  then have r2: "0 < r \<Longrightarrow> r \<le> int (length buffer)" "0 < r \<Longrightarrow> sent + nat r \<le> length buffer"
    using assms(2) by auto
  show ?thesis
  proof (cases "0 < r")
    case True
    show ?thesis
    proof (cases "sent + nat r = length buffer")
      case True
      with \<open>0 < r\<close> r2 assms(2,3,4) show ?thesis
        by (intro complete) (auto simp: send_loop.simps [of os tries buffer k])
    next
      case False
      with True r2 assms(3,4) show ?thesis
        by (intro more) (auto simp: send_loop.simps [of os tries buffer k])
    qed
  next
    case neg: False
    show ?thesis
    proof (cases lost)
      case True
      with neg assms(3,4) show ?thesis
        by (intro lost) (auto simp: send_loop.simps [of os tries buffer k])
    next
      case False
      show ?thesis
      proof (cases "sent = length buffer")
        case True
        with neg False assms(3,4) show ?thesis
          by (intro complete) (auto simp: send_loop.simps [of os tries buffer k])
      next
        case ne: False
        with neg False assms(2-4) show ?thesis
          by (intro stuck) (auto simp: send_loop.simps [of os tries buffer k])
      qed
    qed
  qed
qed

lemma send_loop_tries:
  assumes "send_contract os" "sent \<le> length buffer" "k \<le> tries" "0 < tries" "sent = length buffer \<Longrightarrow> buffer = []"
  shows "\<exists>r n. send_loop os tries buffer k sent = Some (r, n) \<and> sent \<le> n \<and> n \<le> length buffer \<and>
    (r = SendOk \<longrightarrow> n = length buffer) \<and> (r \<noteq> SendOk \<and> buffer \<noteq> [] \<longrightarrow> n < length buffer)"
  using assms(2,3,5)
proof (induction "tries - k" arbitrary: k sent)
  case 0
  then have "k = tries" by simp
  then show ?case using "0.prems" assms(4) by (subst send_loop.simps) (auto simp: le_less)
next
  case (Suc d)
  have nt: "\<not> (0 < tries \<and> k = tries)" using Suc.hyps(2) by linarith
  obtain r lost where o: "os k (length buffer - sent) = (r, lost)" by force
  show ?case
  proof (cases rule: send_loop_step [OF assms(1) Suc.prems(1) o nt, case_names lost complete stuck more])
    case lost
    then show ?thesis using Suc.prems by (auto simp: le_less)
  next
    case complete
    then show ?thesis by simp
  next
    case stuck
    then show ?thesis using Suc.hyps(1) [of "k + 1" sent] Suc.hyps(2) Suc.prems by auto
  next
    case more
    have "\<exists>ra n. send_loop os tries buffer (k + 1) (sent + nat r) = Some (ra, n) \<and> sent + nat r \<le> n \<and>
        n \<le> length buffer \<and> (ra = SendOk \<longrightarrow> n = length buffer) \<and> (ra \<noteq> SendOk \<and> buffer \<noteq> [] \<longrightarrow> n < length buffer)"
      by (rule Suc.hyps(1)) (use more(2) Suc.hyps(2) Suc.prems in auto)
    then show ?thesis unfolding more(3) by auto
  qed
qed

text \<open>Without a limit on the tries the loop goes on as long as the socket takes bytes now and then.\<close>

definition makes_progress :: "(nat \<Rightarrow> nat \<Rightarrow> int \<times> bool) \<Rightarrow> bool" where
  "makes_progress os \<longleftrightarrow> (\<forall>k. \<exists>j \<ge> k. \<forall>n > 0. 0 < fst (os j n) \<or> snd (os j n))"

lemma send_loop_ends:
  assumes "send_contract os" "makes_progress os" "sent \<le> length buffer" "sent = length buffer \<Longrightarrow> buffer = []"
  shows "\<exists>r n. send_loop os 0 buffer k sent = Some (r, n) \<and> r \<noteq> SendFail \<and> n \<le> length buffer \<and>
    (r = SendOk \<longrightarrow> n = length buffer)"
  using assms(3,4)
proof (induction "length buffer - sent" arbitrary: k sent rule: less_induct)
  case less
  obtain j where j: "k \<le> j" "\<forall>n > 0. 0 < fst (os j n) \<or> snd (os j n)"
    using assms(2) unfolding makes_progress_def by blast
  from j(1) show ?case
  proof (induction "j - k" arbitrary: k)
    case 0
    obtain r lost where o: "os k (length buffer - sent) = (r, lost)" by force
    have nt: "\<not> (0 < (0 :: nat) \<and> k = 0)" and k: "k = j" using 0 by simp_all
    show ?case
    proof (cases rule: send_loop_step [OF assms(1) less.prems(1) o nt, case_names lost complete stuck more])
      case stuck
      then have "0 < length buffer - sent" by simp
      with j(2) o have "0 < r \<or> lost" unfolding k by (metis fst_conv snd_conv)
      with stuck show ?thesis by simp
    next
      case more
      then show ?thesis using less.hyps [of "sent + nat r" "k + 1"] by simp
    qed (use less.prems in auto)
  next
    case (Suc d)
    obtain r lost where o: "os k (length buffer - sent) = (r, lost)" by force
    have nt: "\<not> (0 < (0 :: nat) \<and> k = 0)" by simp
    show ?case
    proof (cases rule: send_loop_step [OF assms(1) less.prems(1) o nt, case_names lost complete stuck more])
      case stuck
      then show ?thesis using Suc.hyps(1) [of "k + 1"] Suc.hyps(2) by simp
    next
      case more
      then show ?thesis using less.hyps [of "sent + nat r" "k + 1"] by simp
    qed (use less.prems in auto)
  qed
qed

subsection \<open>The slots stay consistent\<close>

definition slot_wf :: "(nat \<rightharpoonup> nat) \<Rightarrow> nat \<Rightarrow> connector \<Rightarrow> bool" where
  "slot_wf table i c \<longleftrightarrow>
     (if m_socket c = None then \<not> m_connected c \<and> m_incomplete_buffer c = []
      else m_connected c \<and> table (the (m_socket c)) = Some i)"

definition connectors_wf :: "connectors \<Rightarrow> bool" where
  "connectors_wf t \<longleftrightarrow>
     (\<forall>i < length (m_connectors t). slot_wf (m_descriptor_index_table t) i (m_connectors t ! i))"

definition open_descriptors :: "connectors \<Rightarrow> nat set" where
  "open_descriptors t = {d. \<exists>c \<in> set (m_connectors t). m_socket c = Some d}"

lemma unused_slot_Some:
  "unused_slot cs i = Some j \<Longrightarrow> i \<le> j \<and> j < i + length cs \<and> \<not> m_connected (cs ! (j - i))"
proof (induction cs arbitrary: i)
  case (Cons c cs)
  show ?case
  proof (cases "m_connected c")
    case True
    with Cons.prems Cons.IH [of "i + 1"] have "i + 1 \<le> j \<and> j < i + 1 + length cs \<and> \<not> m_connected (cs ! (j - (i + 1)))"
      by simp
    moreover from this have "j - i = Suc (j - (i + 1))" by linarith
    ultimately show ?thesis by simp
  qed (use Cons.prems in auto)
qed simp

lemma slots_update:
  assumes "connectors_wf t" "i < length (m_connectors t)" "slot_wf table i c"
    and "\<And>d j. j \<noteq> i \<Longrightarrow> j < length (m_connectors t) \<Longrightarrow> m_socket (m_connectors t ! j) = Some d \<Longrightarrow>
      table d = m_descriptor_index_table t d"
  shows "connectors_wf (t\<lparr>m_connectors := (m_connectors t)[i := c], m_descriptor_index_table := table\<rparr>)"
  unfolding connectors_wf_def
proof (intro allI impI)
  fix j assume "j < length (m_connectors (t\<lparr>m_connectors := (m_connectors t)[i := c], m_descriptor_index_table := table\<rparr>))"
  then have j: "j < length (m_connectors t)" by simp
  have "slot_wf (m_descriptor_index_table t) j (m_connectors t ! j)" using assms(1) j by (simp add: connectors_wf_def)
  then have "slot_wf table j ((m_connectors t)[i := c] ! j)"
    using assms(2-4) j by (cases "j = i") (auto simp: slot_wf_def)
  then show "slot_wf (m_descriptor_index_table (t\<lparr>m_connectors := (m_connectors t)[i := c], m_descriptor_index_table := table\<rparr>)) j
      (m_connectors (t\<lparr>m_connectors := (m_connectors t)[i := c], m_descriptor_index_table := table\<rparr>) ! j)" by simp
qed

lemma recycle_wf:
  assumes "connectors_wf t" "recycle_connector i t = Some t'"
  shows "connectors_wf t'" "open_descriptors t' \<subseteq> open_descriptors t"
proof -
  have i: "i < length (m_connectors t)"
    and t': "t' = t\<lparr>m_connectors := (m_connectors t)[i := connector_close (m_connectors t ! i)]\<rparr>"
    using assms(2) by (auto simp: recycle_connector_def split: if_splits)
  have "connectors_wf (t\<lparr>m_connectors := (m_connectors t)[i := connector_close (m_connectors t ! i)],
      m_descriptor_index_table := m_descriptor_index_table t\<rparr>)"
    by (rule slots_update [OF assms(1) i]) (simp_all add: connector_close_def slot_wf_def)
  then show "connectors_wf t'" by (simp add: t')
  show "open_descriptors t' \<subseteq> open_descriptors t"
    by (auto simp: open_descriptors_def t' connector_close_def dest!: subsetD [OF set_update_subset_insert])
qed

text \<open>A new connection gets a slot that is connected, empty and found by its descriptor.\<close>

lemma add_connector_wf:
  assumes wf: "connectors_wf t" and "desc \<notin> open_descriptors t" and add: "add_connector desc t = (i, t')"
  shows "connectors_wf t'" "i < length (m_connectors t')" "m_socket (m_connectors t' ! i) = Some desc"
    "m_incomplete_buffer (m_connectors t' ! i) = []" "get_connector_index_from_descriptor desc t' = i"
    "\<forall>j. j \<noteq> i \<and> j < length (m_connectors t) \<longrightarrow> m_connectors t' ! j = m_connectors t ! j"
proof -
  have free: "m_socket c = Some d \<Longrightarrow> d \<noteq> desc" if "c \<in> set (m_connectors t)" for c d
    using assms(2) that by (auto simp: open_descriptors_def)
  have "connectors_wf t' \<and> i < length (m_connectors t') \<and> m_socket (m_connectors t' ! i) = Some desc \<and>
    m_incomplete_buffer (m_connectors t' ! i) = [] \<and> get_connector_index_from_descriptor desc t' = i \<and>
    (\<forall>j. j \<noteq> i \<and> j < length (m_connectors t) \<longrightarrow> m_connectors t' ! j = m_connectors t ! j)"
  proof (cases "unused_slot (m_connectors t) 0")
    case None
    let ?c = "(connector_initialise new_connector)\<lparr>m_connected := True, m_socket := Some desc\<rparr>"
    have t': "t' = t\<lparr>m_connectors := m_connectors t @ [?c],
        m_descriptor_index_table := (m_descriptor_index_table t)(desc \<mapsto> i)\<rparr>" "i = length (m_connectors t)"
      using add None by (auto simp: add_connector_def Let_def)
    have "slot_wf ((m_descriptor_index_table t)(desc \<mapsto> i)) j ((m_connectors t @ [?c]) ! j)"
      if "j < Suc (length (m_connectors t))" for j
    proof (cases "j = length (m_connectors t)")
      case True
      then show ?thesis by (simp add: slot_wf_def t'(2))
    next
      case False
      then have j: "j < length (m_connectors t)" using that by simp
      then have "slot_wf (m_descriptor_index_table t) j (m_connectors t ! j)" using wf by (simp add: connectors_wf_def)
      with free [OF nth_mem [OF j]] j show ?thesis by (auto simp: slot_wf_def nth_append)
    qed
    then have "connectors_wf t'" by (simp add: connectors_wf_def t'(1))
    then show ?thesis
      by (simp add: t' connector_initialise_def new_connector_def get_connector_index_from_descriptor_def nth_append)
  next
    case (Some k)
    have k: "k < length (m_connectors t)" "\<not> m_connected (m_connectors t ! k)" using unused_slot_Some [OF Some] by simp_all
    then have empty: "m_incomplete_buffer (m_connectors t ! k) = []"
      using wf by (auto simp: connectors_wf_def slot_wf_def split: if_splits)
    let ?c = "(connector_initialise (m_connectors t ! k))\<lparr>m_connected := True, m_socket := Some desc\<rparr>"
    have t': "t' = t\<lparr>m_connectors := (m_connectors t)[k := ?c],
        m_descriptor_index_table := (m_descriptor_index_table t)(desc \<mapsto> k)\<rparr>" "i = k"
      using add Some by (auto simp: add_connector_def Let_def)
    have "connectors_wf t'"
      unfolding t'(1)
      by (rule slots_update [OF wf k(1)]) (use free nth_mem in \<open>auto simp: slot_wf_def\<close>)
    then show ?thesis
      using k(1) empty by (simp add: t' connector_initialise_def get_connector_index_from_descriptor_def)
  qed
  then show "connectors_wf t'" "i < length (m_connectors t')" "m_socket (m_connectors t' ! i) = Some desc"
    "m_incomplete_buffer (m_connectors t' ! i) = []" "get_connector_index_from_descriptor desc t' = i"
    "\<forall>j. j \<noteq> i \<and> j < length (m_connectors t) \<longrightarrow> m_connectors t' ! j = m_connectors t ! j" by blast+
qed

subsection \<open>Properties\<close>

text \<open>C36: with a limit on the tries the send loop ends whatever the socket does; it reports success
  exactly when all bytes of the message are on their way, so a failure leaves a proper prefix of the
  message on the connection, which the next message would follow.\<close>

theorem limited_send_ends:
  assumes "send_contract os" "0 < send_try_count" "buffer \<noteq> []"
  shows "\<exists>r n. send_to_socket os send_try_count buffer = Some (r, n) \<and>
    (if r = SendOk then n = length buffer else n < length buffer)"
proof -
  have "\<exists>r n. send_loop os send_try_count buffer 0 0 = Some (r, n) \<and> 0 \<le> n \<and> n \<le> length buffer \<and>
    (r = SendOk \<longrightarrow> n = length buffer) \<and> (r \<noteq> SendOk \<and> buffer \<noteq> [] \<longrightarrow> n < length buffer)"
    by (rule send_loop_tries) (use assms in auto)
  then show ?thesis using assms(3) by (auto simp: send_to_socket_def)
qed

text \<open>A socket that takes one byte of a message and is then busy.\<close>

definition busy_socket :: "nat \<Rightarrow> nat \<Rightarrow> int \<times> bool" where
  "busy_socket k n = (if k = 0 then (int (min 1 n), False) else (-1, False))"

theorem limited_send_ends_witness:
  "\<exists>r n. send_to_socket busy_socket 2 ''8=FIX'' = Some (r, n) \<and>
    (if r = SendOk then n = length ''8=FIX'' else n < length ''8=FIX'')"
  by (rule limited_send_ends) (auto simp: send_contract_def busy_socket_def)

text \<open>C37: without a limit the send loop ends as soon as the socket keeps taking bytes now and then, or
  is lost, however often it is busy in between; it never reports a failure other than the loss, and
  success means that the whole message is on its way.\<close>

theorem unlimited_send_ends:
  assumes "send_contract os" "makes_progress os"
  shows "\<exists>r n. send_to_socket os 0 buffer = Some (r, n) \<and> n \<le> length buffer \<and>
    (if r = SendOk then n = length buffer else r = SendLost)"
proof -
  have "\<exists>r n. send_loop os 0 buffer 0 0 = Some (r, n) \<and> r \<noteq> SendFail \<and> n \<le> length buffer \<and>
    (r = SendOk \<longrightarrow> n = length buffer)"
    by (rule send_loop_ends [OF assms]) auto
  then obtain r n where "send_loop os 0 buffer 0 0 = Some (r, n)" "r \<noteq> SendFail" "n \<le> length buffer"
    "r = SendOk \<longrightarrow> n = length buffer" by blast
  then show ?thesis by (cases r) (auto simp: send_to_socket_def)
qed

text \<open>A socket that is busy on two calls of three.\<close>

definition slow_socket :: "nat \<Rightarrow> nat \<Rightarrow> int \<times> bool" where
  "slow_socket k n = (if k mod 3 = 2 then (int (min 2 n), False) else (-1, False))"

theorem unlimited_send_ends_witness:
  "\<exists>r n. send_to_socket slow_socket 0 ''8=FIX'' = Some (r, n) \<and> n \<le> length ''8=FIX'' \<and>
    (if r = SendOk then n = length ''8=FIX'' else r = SendLost)"
proof (rule unlimited_send_ends)
  show "send_contract slow_socket" by (auto simp: send_contract_def slow_socket_def)
  show "makes_progress slow_socket"
    unfolding makes_progress_def
  proof
    fix k :: nat
    have "(3 * k + 2) mod 3 = 2" by presburger
    then have "k \<le> 3 * k + 2 \<and> (\<forall>n > 0. 0 < fst (slow_socket (3 * k + 2) n) \<or> snd (slow_socket (3 * k + 2) n))"
      by (simp add: slow_socket_def del: add_2_eq_Suc')
    then show "\<exists>j \<ge> k. \<forall>n > 0. 0 < fst (slow_socket j n) \<or> snd (slow_socket j n)" by blast
  qed
qed

text \<open>A new connection never inherits anything from the one whose slot it reuses: its slot is
  connected, has no bytes kept from earlier receives and is the one its descriptor leads to, the other
  slots are as before, and the table stays consistent.\<close>

theorem new_connection_slot:
  assumes "connectors_wf t" "desc \<notin> open_descriptors t"
  shows "case add_connector desc t of (i, t') \<Rightarrow>
    connectors_wf t' \<and> i < length (m_connectors t') \<and> m_connected (m_connectors t' ! i) \<and>
    m_socket (m_connectors t' ! i) = Some desc \<and> m_incomplete_buffer (m_connectors t' ! i) = [] \<and>
    get_connector_index_from_descriptor desc t' = i \<and>
    list_all (\<lambda>j. if j = i then \<not> m_connected (m_connectors t ! j) else m_connectors t' ! j = m_connectors t ! j)
      [0..<length (m_connectors t)]"
proof -
  obtain i t' where a: "add_connector desc t = (i, t')" by force
  note w = add_connector_wf [OF assms a]
  have "m_connected (m_connectors t' ! i)"
    using w(1-3) by (auto simp: connectors_wf_def slot_wf_def dest!: spec [of _ i])
  moreover have "\<not> m_connected (m_connectors t ! i)" if "i < length (m_connectors t)"
    using a that unused_slot_Some [of "m_connectors t" 0]
    by (auto simp: add_connector_def Let_def split: option.splits)
  ultimately show ?thesis using w by (auto simp: a list_all_iff)
qed

theorem new_connection_slot_witness:
  "case add_connector 9 \<lparr>m_connectors = [new_connector\<lparr>m_connected := True, m_socket := Some 7, m_incomplete_buffer := ''8=FIX''\<rparr>,
        connector_close (new_connector\<lparr>m_connected := True, m_socket := Some 9, m_incomplete_buffer := ''8=FIX''\<rparr>)],
      m_descriptor_index_table = [7 \<mapsto> 0, 9 \<mapsto> 1]\<rparr> of (i, t') \<Rightarrow>
    i = 1 \<and> m_incomplete_buffer (m_connectors t' ! i) = []"
proof -
  let ?t = "\<lparr>m_connectors = [new_connector\<lparr>m_connected := True, m_socket := Some 7, m_incomplete_buffer := ''8=FIX''\<rparr>,
        connector_close (new_connector\<lparr>m_connected := True, m_socket := Some 9, m_incomplete_buffer := ''8=FIX''\<rparr>)],
      m_descriptor_index_table = [7 \<mapsto> 0, 9 \<mapsto> 1]\<rparr>"
  have "connectors_wf ?t"
    by (auto simp: connectors_wf_def slot_wf_def connector_close_def new_connector_def less_Suc_eq)
  moreover have "9 \<notin> open_descriptors ?t"
    by (auto simp: open_descriptors_def connector_close_def new_connector_def)
  moreover have "fst (add_connector 9 ?t) = 1"
    by (simp add: add_connector_def connector_close_def new_connector_def Let_def)
  ultimately show ?thesis using new_connection_slot [of ?t 9] by (auto split: prod.splits)
qed

end
