(* ===== verification/Server_Core.thy ===== *)
theory Server_Core
  imports Fix_Parser Transport "HOL-Library.Monad_Syntax"
begin

text \<open>
  The server of \<open>fix_server.h\<close>, first part: its state, the tables that connect peers and sessions
  (\<open>FixServerConnectors\<close>), the closing of a connection, and everything that sends a message.

  \<^item> A \<open>FixSession*\<close> is the name of the session; \<open>m_sessions\<close> maps names to sessions and
    \<open>srv_session_names\<close> is the order in which the loops visit them.
  \<^item> A peer index is a position in the connector table; \<open>size_t(-1)\<close> is \<^term>\<open>None\<close>.
  \<^item> The clocks, the outcome of each \<open>send\<close> (\<open>Transport.send_to_socket\<close>), the decision of
    \<open>authenticate_logon_request\<close> and the files found by a re-initialised serialiser are inputs: the
    \<open>k\<close>-th reading of a clock is \<open>e_monotonic e k\<close> or \<open>e_wall e k\<close>, the \<open>k\<close>-th send gives \<open>e_send e k\<close>.
  \<^item> \<open>srv_trace\<close> records, oldest first, what the server does to the outside: the bytes it sends, the
    connections it closes, the messages it gives to the persist plugin, and the callbacks of the
    application, whose default implementations do nothing.
  \<^item> \<^term>\<open>None\<close> as the result of an operation is undefined behaviour (a write past the encode or receive
    buffer, an index past the connector table) or a loop that never ends.

  Locks and log lines are not modelled; the transport is the single-threaded \<open>TcpReactor\<close>.
\<close>

datatype callback = On_new_order | On_cancel_order | On_replace_order | On_client_heartbeat
  | On_client_test_request | On_client_resend_request | On_session_level_reject
  | On_application_level_reject | On_custom_message | On_logon_request | On_logout_request

datatype event =
    Sent nat string string send_result
  | Connection_closed nat
  | Persist_outgoing string u32 string bool
  | Persist_incoming string u32 string
  | Callback callback string

record server_environment =
  e_monotonic :: "nat \<Rightarrow> u64"
  e_wall :: "nat \<Rightarrow> nat"
  e_send :: "nat \<Rightarrow> send_result"
  e_authenticate :: "string \<Rightarrow> incoming_message \<Rightarrow> bool"
  e_group_specs :: group_specs
  e_has_persist_plugin :: bool
  e_rx_buffer_capacity :: nat
  e_outgoing_folder :: "string \<Rightarrow> nat option option"
  e_starts_as_primary_instance :: bool
  e_refresh_resend_cache_during_promotion :: bool
  e_tx_encode_buffer_capacity :: nat

record server =
  srv_session_names :: "string list"
  m_sessions :: "string \<Rightarrow> session"
  m_peer_index_session_table :: "nat \<rightharpoonup> string"
  m_session_peer_index_table :: "string \<rightharpoonup> nat"
  m_is_ha_primary :: bool
  m_is_stopping :: bool
  srv_connectors :: connectors
  srv_unknown_message :: incoming_message
  srv_clock_reads :: nat
  srv_sends :: nat
  srv_trace :: "event list"

definition upd_session :: "string \<Rightarrow> (session \<Rightarrow> session) \<Rightarrow> server \<Rightarrow> server" where
  "upd_session n f w = w\<lparr>m_sessions := (m_sessions w)(n := f (m_sessions w n))\<rparr>"

definition emit :: "event \<Rightarrow> server \<Rightarrow> server" where
  "emit ev w = w\<lparr>srv_trace := srv_trace w @ [ev]\<rparr>"

definition tick :: "server \<Rightarrow> server" where
  "tick w = w\<lparr>srv_clock_reads := srv_clock_reads w + 1\<rparr>"

definition now_monotonic :: "server_environment \<Rightarrow> server \<Rightarrow> u64" where
  "now_monotonic e w = e_monotonic e (srv_clock_reads w)"

definition now_wall :: "server_environment \<Rightarrow> server \<Rightarrow> nat" where
  "now_wall e w = e_wall e (srv_clock_reads w)"

subsection \<open>Peers and sessions\<close>

definition has_peer :: "server \<Rightarrow> nat \<Rightarrow> bool" where
  "has_peer w peer_index \<longleftrightarrow> m_peer_index_session_table w peer_index \<noteq> None"

definition update_peer :: "nat \<Rightarrow> string \<Rightarrow> server \<Rightarrow> server" where
  "update_peer peer_index n w =
     (let by_peer = (case m_session_peer_index_table w n of
                       None \<Rightarrow> m_peer_index_session_table w
                     | Some existing \<Rightarrow>
                         if existing \<noteq> peer_index then (m_peer_index_session_table w)(existing := None)
                         else m_peer_index_session_table w)
      in w\<lparr>m_peer_index_session_table := by_peer(peer_index \<mapsto> n),
           m_session_peer_index_table := (m_session_peer_index_table w)(n \<mapsto> peer_index)\<rparr>)"

definition get_session :: "server \<Rightarrow> nat \<Rightarrow> string option" where
  "get_session w peer_index = m_peer_index_session_table w peer_index"

definition get_peer_index :: "server \<Rightarrow> string \<Rightarrow> nat option" where
  "get_peer_index w n = m_session_peer_index_table w n"

definition remove_peer :: "nat \<Rightarrow> string \<Rightarrow> server \<Rightarrow> server" where
  "remove_peer peer_index n w =
     w\<lparr>m_peer_index_session_table := (m_peer_index_session_table w)(peer_index := None),
       m_session_peer_index_table := (m_session_peer_index_table w)(n := None)\<rparr>"

subsection \<open>Closing a connection\<close>

definition transport_on_client_disconnected :: "nat \<Rightarrow> server \<Rightarrow> server option" where
  "transport_on_client_disconnected peer_index w =
     (case recycle_connector peer_index (srv_connectors w) of
        None \<Rightarrow> None
      | Some t \<Rightarrow> Some (emit (Connection_closed peer_index) (w\<lparr>srv_connectors := t\<rparr>)))"

definition on_session_disconnected :: "string \<Rightarrow> server \<Rightarrow> server" where
  "on_session_disconnected n w = upd_session n (set_state DISCONNECTED) w"

definition on_client_disconnected :: "nat \<Rightarrow> server \<Rightarrow> server option" where
  "on_client_disconnected peer_index w =
     do {
       w \<leftarrow> transport_on_client_disconnected peer_index w;
       (case get_session w peer_index of
          None \<Rightarrow> Some w
        | Some n \<Rightarrow> Some (remove_peer peer_index n (on_session_disconnected n w)))
     }"

definition close_connection :: "nat option \<Rightarrow> server \<Rightarrow> server option" where
  "close_connection peer_index w =
     (case peer_index of None \<Rightarrow> None | Some p \<Rightarrow> on_client_disconnected p w)"

subsection \<open>Sending\<close>

definition has_socket :: "server \<Rightarrow> nat \<Rightarrow> bool" where
  "has_socket w peer_index \<longleftrightarrow> peer_index < length (m_connectors (srv_connectors w)) \<and>
     m_socket (m_connectors (srv_connectors w) ! peer_index) \<noteq> None"

definition transport_send :: "server_environment \<Rightarrow> nat \<Rightarrow> string \<Rightarrow> string \<Rightarrow> server \<Rightarrow> (bool \<times> server) option" where
  "transport_send e peer_index n buffer w =
     (if \<not> has_socket w peer_index then None
      else
        (let r = e_send e (srv_sends w);
             w = emit (Sent peer_index n buffer r) (w\<lparr>srv_sends := srv_sends w + 1\<rparr>)
         in if r = SendLost then do { w \<leftarrow> on_client_disconnected peer_index w; Some (False, w) }
            else Some (r = SendOk, w)))"

definition serialise_outgoing :: "server_environment \<Rightarrow> string \<Rightarrow> string \<Rightarrow> bool \<Rightarrow> server \<Rightarrow> server" where
  "serialise_outgoing e n buffer ok w =
     (if serialisation_enabled (m_sessions w n) then
        tick (upd_session n (\<lambda>s. s\<lparr>m_outgoing_messages_serialiser :=
            serialiser_write (word_of_nat (now_wall e w)) buffer ok (session_outgoing_seq_no s)
              (m_outgoing_messages_serialiser s)\<rparr>) w)
      else w)"

definition send_bytes :: "server_environment \<Rightarrow> bool \<Rightarrow> string \<Rightarrow> string \<Rightarrow> server \<Rightarrow> (bool \<times> server) option" where
  "send_bytes e increment_outgoing n buffer w =
     (case get_peer_index w n of
        None \<Rightarrow> Some (False, w)
      | Some peer_index \<Rightarrow>
          do {
            (ok, w) \<leftarrow> transport_send e peer_index n buffer w;
            let w = (if increment_outgoing \<and> ok then upd_session n (map_store increment_outgoing_seq_no) w else w);
            let w = serialise_outgoing e n buffer ok w;
            let w = (if e_has_persist_plugin e then
                       emit (Persist_outgoing n (session_outgoing_seq_no (m_sessions w n)) buffer ok) w
                     else w);
            Some (ok, tick (upd_session n (\<lambda>s. s\<lparr>m_last_sent_message_timestamp_nanoseconds := now_monotonic e w\<rparr>) w))
          })"

text \<open>\<open>encode\<close> into the session's transmit buffer with the given sequence number.\<close>

definition encode_outgoing :: "server_environment \<Rightarrow> string \<Rightarrow> u32 \<Rightarrow> server \<Rightarrow> (string \<times> server) option" where
  "encode_outgoing e n sequence_no w =
     (let s = m_sessions w n;
          (buffer, m) = encode (m_settings s) (session_incoming_seq_no s) (now_wall e w) sequence_no
                          (m_outgoing_fix_message s)
      in if e_tx_encode_buffer_capacity e < length buffer then None
         else Some (buffer, tick (upd_session n (\<lambda>s. s\<lparr>m_outgoing_fix_message := m\<rparr>) w)))"

definition send_outgoing_message :: "server_environment \<Rightarrow> string \<Rightarrow> server \<Rightarrow> (bool \<times> server) option" where
  "send_outgoing_message e n w =
     do {
       (buffer, w) \<leftarrow> encode_outgoing e n (session_outgoing_seq_no (m_sessions w n) + 1) w;
       send_bytes e True n buffer w
     }"

definition build :: "string \<Rightarrow> (outgoing_message \<Rightarrow> outgoing_message) \<Rightarrow> server \<Rightarrow> server" where
  "build n f w = upd_session n (\<lambda>s. s\<lparr>m_outgoing_fix_message := f (m_outgoing_fix_message s)\<rparr>) w"

definition send_heartbeat :: "server_environment \<Rightarrow> string \<Rightarrow> string option \<Rightarrow> server \<Rightarrow> (bool \<times> server) option" where
  "send_heartbeat e n test_request_id w =
     send_outgoing_message e n (build n (build_heartbeat_message test_request_id) w)"

definition build_logon_response :: "session \<Rightarrow> outgoing_message \<Rightarrow> outgoing_message" where
  "build_logon_response s m =
     (let m = set_msg_type_char MSG_TYPE_LOGON m;
          m = set_tag_int BODY TAG_ENCRYPT_METHOD 0 m;
          m = set_tag_u32 BODY TAG_HEART_BT_INT
                (ucast (heartbeat_interval_in_nanoseconds (m_settings s) div 1000000000)) m
      in if 0 < length (default_app_ver_id (m_settings s)) then
           set_tag_text BODY TAG_DEFAULT_APPL_VER_ID (default_app_ver_id (m_settings s)) m
         else m)"

definition send_logon_response :: "server_environment \<Rightarrow> string \<Rightarrow> server \<Rightarrow> (bool \<times> server) option" where
  "send_logon_response e n w =
     send_outgoing_message e n (build n (build_logon_response (m_sessions w n)) w)"

definition send_logout_message :: "server_environment \<Rightarrow> string \<Rightarrow> string \<Rightarrow> server \<Rightarrow> (bool \<times> server) option" where
  "send_logout_message e n reason_text w =
     send_outgoing_message e n (build n (build_logout_message reason_text) w)"

text \<open>Builders that also change the session.\<close>

definition build_with :: "string \<Rightarrow> (session \<Rightarrow> outgoing_message \<Rightarrow> session \<times> outgoing_message) \<Rightarrow> server \<Rightarrow> server" where
  "build_with n f w =
     upd_session n (\<lambda>s. let (s', m) = f s (m_outgoing_fix_message s) in s'\<lparr>m_outgoing_fix_message := m\<rparr>) w"

definition send_test_request :: "server_environment \<Rightarrow> string \<Rightarrow> server \<Rightarrow> (bool \<times> server) option" where
  "send_test_request e n w = send_outgoing_message e n (build_with n build_test_request_message w)"

definition send_resend_request :: "server_environment \<Rightarrow> string \<Rightarrow> server \<Rightarrow> (bool \<times> server) option" where
  "send_resend_request e n w =
     send_outgoing_message e n (build n (build_resend_request_message (m_sessions w n) ''0'') w)"

definition send_sequence_reset_message ::
    "server_environment \<Rightarrow> string \<Rightarrow> u32 \<Rightarrow> server \<Rightarrow> (bool \<times> server) option" where
  "send_sequence_reset_message e n desired_sequence_no w =
     do {
       (buffer, w) \<leftarrow> encode_outgoing e n desired_sequence_no
                        (build_with n (build_sequence_reset_message desired_sequence_no) w);
       send_bytes e False n buffer w
     }"

definition send_gap_fill_message :: "server_environment \<Rightarrow> string \<Rightarrow> server \<Rightarrow> (bool \<times> server) option" where
  "send_gap_fill_message e n w =
     do {
       (buffer, w) \<leftarrow> encode_outgoing e n (m_incoming_resend_request_begin_no (m_sessions w n))
                        (build n (build_gap_fill_message (m_sessions w n)) w);
       send_bytes e False n buffer w
     }"

definition send_reject_message ::
    "server_environment \<Rightarrow> string \<Rightarrow> u32 \<Rightarrow> u32 \<Rightarrow> server \<Rightarrow> (bool \<times> server) option" where
  "send_reject_message e n reject_reason_code error_tag w =
     send_outgoing_message e n
       (build n (build_session_level_reject_message (m_sessions w n) reject_reason_code
          (get_reject_reason_text reject_reason_code) error_tag) w)"

definition build_throttle_reject :: "session \<Rightarrow> outgoing_message \<Rightarrow> outgoing_message" where
  "build_throttle_reject s m =
     (let im = m_incoming_fix_message s;
          m = set_msg_type_char MSG_TYPE_BUSINESS_REJECT m;
          m = set_tag_text BODY TAG_TEXT (throttler_reject_message (m_settings s)) m;
          m = (if has_tag im TAG_MSG_SEQ_NUM then
                 set_tag_u32 BODY TAG_REF_SEQ_NUM (tag_u32 im TAG_MSG_SEQ_NUM) m else m)
      in if has_tag im TAG_MSG_TYPE then
           set_tag_text BODY TAG_REF_MSG_TYPE (tag_value im TAG_MSG_TYPE) m
         else m)"

definition send_throttle_reject_message :: "server_environment \<Rightarrow> string \<Rightarrow> server \<Rightarrow> (bool \<times> server) option" where
  "send_throttle_reject_message e n w =
     send_outgoing_message e n (build n (build_throttle_reject (m_sessions w n)) w)"

text \<open>The body of the resend loop for sequence number \<open>i\<close>; a message that cannot be read is loaded from a
  buffer of length zero.\<close>

definition resend_message :: "server_environment \<Rightarrow> string \<Rightarrow> u32 \<Rightarrow> server \<Rightarrow> server option" where
  "resend_message e n i w =
     (let s = m_sessions w n;
          stored = (case read_message (m_outgoing_messages_serialiser s) i (e_tx_encode_buffer_capacity e) of
                      None \<Rightarrow> [] | Some b \<Rightarrow> b)
      in do {
           m \<leftarrow> load_from_buffer stored (m_outgoing_fix_message s);
           let m = set_tag_char HEADER TAG_POSS_DUP_FLAG (CHR ''Y'') m;
           let m = (if include_t97_during_resends (m_settings s) then
                      set_tag_char HEADER TAG_POSS_RESEND (CHR ''Y'') m else m);
           (buffer, w) \<leftarrow> encode_outgoing e n i (upd_session n (\<lambda>s. s\<lparr>m_outgoing_fix_message := m\<rparr>) w);
           (ok, w) \<leftarrow> send_bytes e False n buffer w;
           Some w
         })"

text \<open>The loops over \<open>uint32_t i = begin; i <= end; i++\<close> have a second counter \<open>k\<close> of their iterations: after
  \<open>2 ^ 32\<close> of them \<open>i\<close> has taken every value and the loop can never end.\<close>

function resend_loop :: "server_environment \<Rightarrow> string \<Rightarrow> nat \<Rightarrow> u32 \<Rightarrow> u32 \<Rightarrow> server \<Rightarrow> server option" where
  "resend_loop e n k i end_seq_no w =
     (if 2 ^ 32 \<le> k then None
      else if end_seq_no < i then Some w
      else case resend_message e n i w of
             None \<Rightarrow> None
           | Some w' \<Rightarrow> resend_loop e n (k + 1) (i + 1) end_seq_no w')"
  by auto
termination
  by (relation "measure (\<lambda>(e, n, k, i, last, w). 2 ^ 32 - k)") auto

declare resend_loop.simps [simp del]

definition resend_messages_to_client ::
    "server_environment \<Rightarrow> string \<Rightarrow> u32 \<Rightarrow> u32 \<Rightarrow> server \<Rightarrow> server option" where
  "resend_messages_to_client e n begining_seq_no end_seq_no w = resend_loop e n 0 begining_seq_no end_seq_no w"

subsection \<open>Ending a connection\<close>

definition process_connection_closure ::
    "server_environment \<Rightarrow> nat option \<Rightarrow> bool \<Rightarrow> string \<Rightarrow> server \<Rightarrow> server option" where
  "process_connection_closure e peer_index send_logout logout_reason_text w =
     do {
       w \<leftarrow> (case (if send_logout then Option.bind peer_index (get_session w) else None) of
               None \<Rightarrow> Some w
             | Some n \<Rightarrow> map_option snd (send_logout_message e n logout_reason_text w));
       close_connection peer_index w
     }"

definition process_invalid_logon :: "server_environment \<Rightarrow> nat \<Rightarrow> server \<Rightarrow> server option" where
  "process_invalid_logon e peer_index w = process_connection_closure e (Some peer_index) False '''' w"

end
