(* ===== verification/Server_Receive.thy ===== *)
theory Server_Receive
  imports Server_Core
begin

text \<open>
  The server of \<open>fix_server.h\<close>, second part: what happens with received bytes. \<open>process_rx_buffer\<close> cuts
  the receive buffer into messages, \<open>accept_session\<close> finds the session of a first Logon,
  \<open>process_incoming_fix_message\<close> validates a message, tracks its sequence number and hands it to its
  handler. The virtual functions are the default implementations; their calls into the application are
  events of the trace.
\<close>

subsection \<open>Throttling\<close>

definition process_incoming_throttling :: "server_environment \<Rightarrow> string \<Rightarrow> server \<Rightarrow> (bool \<times> server) option" where
  "process_incoming_throttling e n w =
     (if throttle_limit (m_settings (m_sessions w n)) = 0 then Some (True, w)
      else
        (let w = tick (upd_session n (\<lambda>s. s\<lparr>m_throttler := throttler_update (now_monotonic e w) (m_throttler s)\<rparr>) w)
         in if \<not> reached_limit (m_throttler (m_sessions w n)) then Some (True, w)
            else
              (let w = upd_session n (\<lambda>s. s\<lparr>m_incoming_throttler_exceed_count :=
                         m_incoming_throttler_exceed_count s + 1\<rparr>) w
               in case throttle_action (m_settings (m_sessions w n)) of
                    ACTION_WAIT \<Rightarrow>
                      Some (True, tick (upd_session n (\<lambda>s. s\<lparr>m_throttler :=
                        throttler_wait (now_monotonic e w) (m_throttler s)\<rparr>) w))
                  | ACTION_DISCONNECT \<Rightarrow>
                      map_option (Pair False) (process_connection_closure e (get_peer_index w n) False '''' w)
                  | ACTION_REJECT \<Rightarrow>
                      map_option (\<lambda>(_, w). (False, w)) (send_throttle_reject_message e n w)
                  | ACTION_NONE \<Rightarrow> Some (True, w))))"

subsection \<open>Accepting a session\<close>

definition find_session :: "server \<Rightarrow> string \<Rightarrow> string \<Rightarrow> string \<Rightarrow> string option" where
  "find_session w bs sender target =
     List.find (\<lambda>n. sender_comp_id (m_settings (m_sessions w n)) = sender \<and>
       target_comp_id (m_settings (m_sessions w n)) = target \<and> begin_string (m_settings (m_sessions w n)) = bs)
       (srv_session_names w)"

definition bind_session :: "nat \<Rightarrow> string \<Rightarrow> incoming_message \<Rightarrow> server \<Rightarrow> server option" where
  "bind_session peer_index n message w =
     (let w = upd_session n reset_flags (update_peer peer_index n w)
      in do {
           im \<leftarrow> copy_non_dirty_tag_values_from message
                   (reset_message (m_incoming_fix_message (m_sessions w n)));
           let w = upd_session n (\<lambda>s. s\<lparr>m_incoming_fix_message := im\<rparr>) w;
           let w = (if has_tag message TAG_RESET_SEQ_NUM_FLAG \<and> tag_char message TAG_RESET_SEQ_NUM_FLAG = CHR ''Y''
                    then upd_session n (map_store reset_numbers) w else w);
           Some (upd_session n (set_state PENDING_LOGON) w)
         })"

definition accept_session :: "server_environment \<Rightarrow> nat \<Rightarrow> incoming_message \<Rightarrow> u32 \<Rightarrow> server \<Rightarrow>
    (string option \<times> server) option" where
  "accept_session e peer_index message parser_reject_code w =
     (let invalid = map_option (Pair None) (process_invalid_logon e peer_index w)
      in if parser_reject_code \<noteq> -1 then invalid
         else if \<not> (has_tag message TAG_BEGIN_STRING \<and> has_tag message TAG_MSG_SEQ_NUM \<and>
                    has_tag message TAG_SENDER_COMP_ID \<and> has_tag message TAG_TARGET_COMP_ID \<and>
                    has_tag message TAG_MSG_TYPE) then invalid
         else if tag_char message TAG_MSG_TYPE = MSG_TYPE_LOGON then
           (case find_session w (tag_value message TAG_BEGIN_STRING) (tag_value message TAG_TARGET_COMP_ID)
                   (tag_value message TAG_SENDER_COMP_ID) of
              None \<Rightarrow> invalid
            | Some n \<Rightarrow>
                if is_state_live (m_state (m_sessions w n)) then invalid
                else if m_state (m_sessions w n) = DISABLED then invalid
                else if \<not> is_now_valid_session_datetime (now_wall e w) (m_sessions w n) then
                  map_option (Pair None) (process_invalid_logon e peer_index (tick w))
                else map_option (Pair (Some n)) (bind_session peer_index n message (tick w)))
         else invalid)"

subsection \<open>Logon and logout\<close>

definition validate_logon_request :: "incoming_message \<Rightarrow> bool" where
  "validate_logon_request message =
     (if \<not> has_tag message TAG_ENCRYPT_METHOD then False
      else if \<not> has_tag message TAG_HEART_BT_INT then False
      else if CHR ''-'' \<in> set (tag_value message TAG_HEART_BT_INT) then False
      else if CHR ''.'' \<in> set (tag_value message TAG_HEART_BT_INT) then False
      else if tag_u32 message TAG_HEART_BT_INT = 0 then False
      else True)"

definition do_post_logon_sequence_number_check :: "string \<Rightarrow> server \<Rightarrow> server" where
  "do_post_logon_sequence_number_check n w =
     (let s = m_sessions w n
      in if m_state s = LOGGED_ON then
           (let sequence_store_incoming_seq_no = session_incoming_seq_no s;
                incoming_seq_no = tag_u32 (m_incoming_fix_message s) TAG_MSG_SEQ_NUM
            in if sequence_store_incoming_seq_no < incoming_seq_no then
                 (if \<not> is_a_hard_sequence_reset_message (m_incoming_fix_message s) then
                    upd_session n (queue_outgoing_resend_request sequence_store_incoming_seq_no incoming_seq_no) w
                  else w)
               else w)
         else w)"

definition set_requested_heartbeat :: "u32 \<Rightarrow> session \<Rightarrow> session" where
  "set_requested_heartbeat requested_heartbeat_interval s =
     (let nanoseconds = ucast requested_heartbeat_interval * 1000000000
      in s\<lparr>m_settings := (m_settings s)\<lparr>heartbeat_interval_in_nanoseconds := nanoseconds,
           outgoing_test_request_interval_in_nanoseconds :=
             nanoseconds * word_of_int (outgoing_test_request_interval_multiplier (m_settings s))\<rparr>\<rparr>)"

definition process_logon_request :: "server_environment \<Rightarrow> string \<Rightarrow> nat \<Rightarrow> server \<Rightarrow> server option" where
  "process_logon_request e n peer_index w =
     (let message = m_incoming_fix_message (m_sessions w n)
      in if \<not> validate_logon_request message then process_invalid_logon e peer_index w
         else if \<not> e_authenticate e n message then process_invalid_logon e peer_index w
         else do {
           let w = upd_session n (set_requested_heartbeat (tag_u32 message TAG_HEART_BT_INT)) w;
           (ok, w) \<leftarrow> send_logon_response e n w;
           let w = upd_session n (set_state LOGGED_ON) w;
           let w = do_post_logon_sequence_number_check n w;
           Some (emit (Callback On_logon_request n) w)
         })"

definition process_logout_request :: "server_environment \<Rightarrow> string \<Rightarrow> server \<Rightarrow> server option" where
  "process_logout_request e n w =
     do {
       (ok, w) \<leftarrow> send_logout_message e n '''' w;
       Some (emit (Callback On_logout_request n) (upd_session n (set_state LOGGED_OUT) w))
     }"

subsection \<open>One message\<close>

text \<open>Reading tag 34 or 35 of a message that lacks it, which only happens with validations switched off,
  throws out of the reactor thread or reads a view of an earlier buffer.\<close>

definition serialise_incoming :: "server_environment \<Rightarrow> string \<Rightarrow> string \<Rightarrow> server \<Rightarrow> server" where
  "serialise_incoming e n buffer w =
     (if serialisation_enabled (m_sessions w n) then
        tick (upd_session n (\<lambda>s. s\<lparr>m_incoming_messages_serialiser :=
          serialiser_write (word_of_nat (now_wall e w)) buffer True 0 (m_incoming_messages_serialiser s)\<rparr>) w)
      else w)"

definition dispatch_message :: "server_environment \<Rightarrow> string \<Rightarrow> nat \<Rightarrow> server \<Rightarrow> server option" where
  "dispatch_message e n peer_index w =
     (let message = m_incoming_fix_message (m_sessions w n);
          t = tag_value message TAG_MSG_TYPE;
          app = (\<lambda>c. Some (emit (Callback c n) w))
      in if \<not> has_tag message TAG_MSG_TYPE then None
         else if length t = 1 then
           (let c = t ! 0
            in if c = MSG_TYPE_NEW_ORDER then app On_new_order
               else if c = MSG_TYPE_ORDER_CANCEL then app On_cancel_order
               else if c = MSG_TYPE_ORDER_CANCEL_REPLACE then app On_replace_order
               else if c = MSG_TYPE_HEARTBEAT then app On_client_heartbeat
               else if c = MSG_TYPE_TEST_REQUEST then
                 Some (emit (Callback On_client_test_request n) (upd_session n (process_test_request_message message) w))
               else if c = MSG_TYPE_RESEND_REQUEST then
                 Some (emit (Callback On_client_resend_request n) (upd_session n (process_resend_request message) w))
               else if c = MSG_TYPE_REJECT then app On_session_level_reject
               else if c = MSG_TYPE_BUSINESS_REJECT then app On_application_level_reject
               else if c = MSG_TYPE_LOGON then process_logon_request e n peer_index w
               else if c = MSG_TYPE_LOGOUT then process_logout_request e n w
               else if c = MSG_TYPE_SEQUENCE_RESET then
                 (case process_incoming_sequence_reset_message message (m_sessions w n) of
                    (s, ok) \<Rightarrow>
                      (let w = upd_session n (\<lambda>_. s) w
                       in if \<not> ok then
                            map_option snd (send_reject_message e n FIX_ERROR_CODE_VALUE_INCORRECT_FOR_TAG TAG_NEW_SEQ_NO w)
                          else Some w))
               else app On_custom_message)
         else app On_custom_message)"

text \<open>The text of the Logout for a Logon whose number is too low.\<close>

definition too_low_text :: "u32 \<Rightarrow> u32 \<Rightarrow> string" where
  "too_low_text expected received =
     ''MsgSeqNum too low, expecting '' @ dec (unat expected) @ '' but received '' @ dec (unat received)"

datatype seq_check = Seq_continue | Seq_stop

definition check_sequence_number :: "server_environment \<Rightarrow> string \<Rightarrow> nat \<Rightarrow> server \<Rightarrow> (seq_check \<times> server) option" where
  "check_sequence_number e n peer_index w =
     (let s = m_sessions w n;
          expected = session_incoming_seq_no s;
          message = m_incoming_fix_message s;
          received = tag_u32 message TAG_MSG_SEQ_NUM
      in if \<not> has_tag message TAG_MSG_SEQ_NUM then None
         else if expected < received \<and> \<not> is_a_hard_sequence_reset_message message \<and> m_state s \<noteq> PENDING_LOGON then
           Some (Seq_stop, upd_session n (queue_outgoing_resend_request expected received) w)
         else if received < expected \<and> \<not> is_a_hard_sequence_reset_message message then
           (let pending = (m_state s = PENDING_LOGON);
                w = upd_session n (map_store (set_incoming_seq_no (expected - 1))) w
            in map_option (Pair Seq_stop) (process_connection_closure e (Some peer_index) pending
                 (if pending then too_low_text expected received else '''') w))
         else if m_state s = IN_RETRANSMISSION_INITIATED_BY_SELF \<and>
                 received = m_outgoing_resend_request_end_no s then
           Some (Seq_continue, upd_session n (set_state LOGGED_ON) w)
         else Some (Seq_continue, w))"

definition accept_message :: "server_environment \<Rightarrow> string \<Rightarrow> nat \<Rightarrow> string \<Rightarrow> server \<Rightarrow> server option" where
  "accept_message e n peer_index buffer w =
     do {
       let w = upd_session n (map_store increment_incoming_seq_no) w;
       let w = (if e_has_persist_plugin e then
                  emit (Persist_incoming n (session_incoming_seq_no (m_sessions w n)) buffer) w
                else w);
       (c, w) \<leftarrow> check_sequence_number e n peer_index w;
       if c = Seq_stop then Some w
       else do {
         (ok, w) \<leftarrow> process_incoming_throttling e n w;
         if \<not> ok then Some w else dispatch_message e n peer_index w
       }
     }"

definition note_received :: "server_environment \<Rightarrow> string \<Rightarrow> string \<Rightarrow> server \<Rightarrow> server" where
  "note_received e n buffer w =
     (let w = tick (upd_session n (\<lambda>s. s\<lparr>m_last_received_message_timestamp_nanoseconds := now_monotonic e w\<rparr>) w);
          w = serialise_incoming e n buffer w
      in if m_expecting_response_for_outgoing_test_request (m_sessions w n) then
           upd_session n (\<lambda>s. s\<lparr>m_expecting_response_for_outgoing_test_request := False\<rparr>) w
         else w)"

definition process_incoming_fix_message ::
    "server_environment \<Rightarrow> string \<Rightarrow> nat \<Rightarrow> string \<Rightarrow> u32 \<Rightarrow> server \<Rightarrow> server option" where
  "process_incoming_fix_message e n peer_index buffer parser_reject_code w =
     (let w = note_received e n buffer w
      in if \<not> validations_enabled (m_settings (m_sessions w n)) then accept_message e n peer_index buffer w
         else
           (case validate_fix_message (now_wall e w) (m_incoming_fix_message (m_sessions w n)) buffer
                   parser_reject_code (-1) (m_sessions w n) of
              (s, valid, reject_message_code) \<Rightarrow>
                (let w = tick (upd_session n (\<lambda>_. s) w)
                 in if valid then accept_message e n peer_index buffer w
                    else if reject_message_code \<noteq> -1 then
                      map_option snd (send_reject_message e n reject_message_code (m_last_error_tag s) w)
                    else Some w)))"

subsection \<open>The receive buffer\<close>

definition map_connector :: "nat \<Rightarrow> (connector \<Rightarrow> connector option) \<Rightarrow> server \<Rightarrow> server option" where
  "map_connector p f w =
     (let t = srv_connectors w
      in if p < length (m_connectors t) then
           (case f (m_connectors t ! p) of
              None \<Rightarrow> None
            | Some c \<Rightarrow> Some (w\<lparr>srv_connectors := t\<lparr>m_connectors := (m_connectors t)[p := c]\<rparr>\<rparr>))
         else None)"

definition keep_incomplete :: "server_environment \<Rightarrow> nat \<Rightarrow> string \<Rightarrow> server \<Rightarrow> server option" where
  "keep_incomplete e p buffer w = map_connector p (set_incomplete_buffer (e_rx_buffer_capacity e) buffer) w"

text \<open>The message the scanner fills: the session's own, or the one for peers without a session, which
  \<open>get_thread_local_unknown_session_context\<close> initialises again every time.\<close>

definition message_to_fill :: "string option \<Rightarrow> server \<Rightarrow> incoming_message option" where
  "message_to_fill session w =
     (case session of
        Some n \<Rightarrow> Some (m_incoming_fix_message (m_sessions w n))
      | None \<Rightarrow> incoming_initialise (srv_unknown_message w))"

definition store_message :: "string option \<Rightarrow> incoming_message \<Rightarrow> server \<Rightarrow> server" where
  "store_message session m w =
     (case session of
        Some n \<Rightarrow> upd_session n (\<lambda>s. s\<lparr>m_incoming_fix_message := m\<rparr>) w
      | None \<Rightarrow> w\<lparr>srv_unknown_message := m\<rparr>)"

text \<open>One round of the loop, which reads the message that starts at the next begin string; the result
  is the position after it and the session, when the loop goes on.\<close>

definition rx_parsed :: "server_environment \<Rightarrow> nat \<Rightarrow> string \<Rightarrow> nat \<Rightarrow> nat \<Rightarrow> string \<Rightarrow> nat \<Rightarrow> u32 \<Rightarrow> server \<Rightarrow>
    ((nat \<times> string) option \<times> server) option" where
  "rx_parsed e p buffer final_tag10_delimiter_index start n tag_10_delimiter_index parser_reject_code w =
     (let message = take (tag_10_delimiter_index + 1 - start) (drop start buffer);
          next = tag_10_delimiter_index + 1
      in do {
           w \<leftarrow> process_incoming_fix_message e n p message parser_reject_code w;
           if m_state (m_sessions w n) = DISCONNECTED then Some (None, w)
           else if next = length buffer then
             map_option (Pair None) (map_connector p (\<lambda>c. Some (reset_incomplete_buffer c)) w)
           else if final_tag10_delimiter_index < next then
             map_option (Pair None) (keep_incomplete e p (drop next buffer) w)
           else Some (Some (next, n), w)
         })"

definition session_for :: "server_environment \<Rightarrow> nat \<Rightarrow> string option \<Rightarrow> parse_state \<Rightarrow> server \<Rightarrow>
    (string option \<times> server) option" where
  "session_for e p session ps w =
     (case session of
        Some n \<Rightarrow> Some (Some n, w)
      | None \<Rightarrow> accept_session e p (ps_message ps) (ps_reject_code ps) w)"

definition rx_message :: "server_environment \<Rightarrow> nat \<Rightarrow> string \<Rightarrow> nat \<Rightarrow> nat \<Rightarrow> string option \<Rightarrow> server \<Rightarrow>
    ((nat \<times> string) option \<times> server) option" where
  "rx_message e p buffer final_tag10_delimiter_index buffer_read_index session w =
     (case find_begin_string_position (drop buffer_read_index buffer) of
        None \<Rightarrow> Some (None, w)
      | Some offset \<Rightarrow>
          (let start = buffer_read_index + offset
           in case message_to_fill session w of
                None \<Rightarrow> None
              | Some im \<Rightarrow>
                  (case parse_message (e_group_specs e) buffer start im of
                     Parse_undefined \<Rightarrow> None
                   | Incomplete ps \<Rightarrow>
                       map_option (Pair None)
                         (keep_incomplete e p (drop start buffer) (store_message session (ps_message ps) w))
                   | Parsed ps tag_10_delimiter_index \<Rightarrow>
                       (case session_for e p session ps (store_message session (ps_message ps) w) of
                          None \<Rightarrow> None
                        | Some (None, w) \<Rightarrow> Some (None, w)
                        | Some (Some n, w) \<Rightarrow>
                            rx_parsed e p buffer final_tag10_delimiter_index start n tag_10_delimiter_index
                              (ps_reject_code ps) w))))"

lemma rx_parsed_next:
  "rx_parsed e p buffer final start n j code w = Some (Some (next, m), w') \<Longrightarrow>
   next = j + 1 \<and> next \<noteq> length buffer"
  by (auto simp: rx_parsed_def bind_eq_Some_conv Let_def split: if_splits)

lemma rx_message_next:
  assumes "rx_message e p buffer final idx session w = Some (Some (next, n), w')" "idx < length buffer"
  shows "idx < next \<and> next < length buffer"
proof -
  obtain offset where f: "find_begin_string_position (drop idx buffer) = Some offset"
    using assms(1) by (auto simp: rx_message_def split: option.splits)
  have st: "idx + offset < length buffer" using find_begin_Some [OF f] by auto
  obtain im ps j n0 w0 where pm: "parse_message (e_group_specs e) buffer (idx + offset) im = Parsed ps j"
    and rp: "rx_parsed e p buffer final (idx + offset) n0 j (ps_reject_code ps) w0 = Some (Some (next, n), w')"
    using assms(1) f by (auto simp: rx_message_def Let_def split: option.splits parse_result.splits prod.splits)
  have "idx + offset \<le> j \<and> j < length buffer"
    by (rule parse_loop_index [OF pm [unfolded parse_message_def] st])
  with rx_parsed_next [OF rp] show ?thesis by simp
qed

function rx_loop :: "server_environment \<Rightarrow> nat \<Rightarrow> string \<Rightarrow> nat \<Rightarrow> nat \<Rightarrow> string option \<Rightarrow> server \<Rightarrow> server option" where
  "rx_loop e p buffer final_tag10_delimiter_index buffer_read_index session w =
     (if length buffer \<le> buffer_read_index then None
      else case rx_message e p buffer final_tag10_delimiter_index buffer_read_index session w of
             None \<Rightarrow> None
           | Some (None, w') \<Rightarrow> Some w'
           | Some (Some (next, n), w') \<Rightarrow> rx_loop e p buffer final_tag10_delimiter_index next (Some n) w')"
  by auto
termination
  by (relation "measure (\<lambda>(e, p, buffer, final, i, session, w). length buffer - i)") (auto dest!: rx_message_next)

declare rx_loop.simps [simp del]

definition MINIMUM_REQUIRED_INITIAL_BUFFER_FOR_PARSING :: nat where
  "MINIMUM_REQUIRED_INITIAL_BUFFER_FOR_PARSING = 4"

definition process_rx_buffer :: "server_environment \<Rightarrow> nat \<Rightarrow> string \<Rightarrow> server \<Rightarrow> server option" where
  "process_rx_buffer e p buffer w =
     (if length buffer < MINIMUM_REQUIRED_INITIAL_BUFFER_FOR_PARSING then keep_incomplete e p buffer w
      else case find_delimiter_from_end buffer of
             None \<Rightarrow> keep_incomplete e p buffer w
           | Some current_index \<Rightarrow>
               (case find_tag10_start_from_end buffer current_index of
                  (_, None) \<Rightarrow> keep_incomplete e p buffer w
                | (_, Some final_tag10_delimiter_index) \<Rightarrow>
                    rx_loop e p buffer final_tag10_delimiter_index 0 (get_session w p) w))"

text \<open>\<open>receive_done\<close>: a result that is not positive closes the connection when it is zero or when the error
  means that the connection is lost; other errors are only logged.\<close>

definition receive_done :: "nat \<Rightarrow> bool \<Rightarrow> server \<Rightarrow> server option" where
  "receive_done p lost w =
     (if p < length (m_connectors (srv_connectors w)) then
        (let c = m_connectors (srv_connectors w) ! p
         in if 0 < m_last_receive_result c then Some w
            else if m_last_receive_result c = 0 \<or> lost then on_client_disconnected p w
            else Some w)
      else None)"

text \<open>One readable event: \<open>result\<close> is what \<open>recv\<close> returns and \<open>data\<close> the bytes it wrote.\<close>

definition on_data_ready :: "server_environment \<Rightarrow> nat \<Rightarrow> int \<Rightarrow> string \<Rightarrow> bool \<Rightarrow> server \<Rightarrow> server option" where
  "on_data_ready e p result data lost w =
     do {
       w \<leftarrow> map_connector p (\<lambda>c. Some (receive result data c)) w;
       w \<leftarrow> (if 0 < result \<and> result \<le> int (e_rx_buffer_capacity e) then
               (case get_rx_buffer (e_rx_buffer_capacity e) (m_connectors (srv_connectors w) ! p) of
                  None \<Rightarrow> None
                | Some buffer \<Rightarrow> if buffer \<noteq> [] then process_rx_buffer e p buffer w else Some w)
             else Some w);
       receive_done p lost w
     }"

text \<open>A new connection gets a slot; the server itself only logs it.\<close>

definition accept_new_connection :: "nat \<Rightarrow> server \<Rightarrow> nat \<times> server" where
  "accept_new_connection desc w =
     (case add_connector desc (srv_connectors w) of (i, t) \<Rightarrow> (i, w\<lparr>srv_connectors := t\<rparr>))"

end
