(* ===== verification/Resend_Decision.thy ===== *)
theory Resend_Decision
  imports Fix_Session
begin

text \<open>
  Whether a ResendRequest is answered with the stored messages or with a gap fill: the decision of
  \<open>respond_to_resend_request_if_necessary\<close>, which \<open>fix_server.h\<close> and \<open>fix_client.h\<close> share word for word.
\<close>

text \<open>The loop that looks for a message that is missing from the replay cache; \<open>k\<close> counts iterations as in the
  replay loops: after \<open>2 ^ 32\<close> of them the loop can never end.\<close>

function all_in_memory :: "message_serialiser \<Rightarrow> nat \<Rightarrow> u32 \<Rightarrow> u32 \<Rightarrow> bool option" where
  "all_in_memory ser k i last_outgoing_seq_no =
     (if 2 ^ 32 \<le> k then None
      else if last_outgoing_seq_no < i then Some True
      else if \<not> has_message_in_memory ser i then Some False
      else all_in_memory ser (k + 1) (i + 1) last_outgoing_seq_no)"
  by auto
termination
  by (relation "measure (\<lambda>(ser, k, i, last). 2 ^ 32 - k)") auto

declare all_in_memory.simps [simp del]

definition will_replay :: "session \<Rightarrow> bool option" where
  "will_replay s =
     (let last_outgoing_seq_no = session_outgoing_seq_no s;
          begin_no = m_incoming_resend_request_begin_no s;
          end_no = m_incoming_resend_request_end_no s;
          replay = (serialisation_enabled s \<and> replay_messages_on_incoming_resend_request (m_settings s) \<and>
                    (end_no = 0 \<or> end_no = last_outgoing_seq_no) \<and> begin_no \<le> last_outgoing_seq_no);
          replay = (if begin_no < last_outgoing_seq_no \<and>
                       max_resend_range (m_settings s) < unat (last_outgoing_seq_no - begin_no + 1)
                    then False else replay)
      in if replay then all_in_memory (m_outgoing_messages_serialiser s) 0 begin_no last_outgoing_seq_no
         else Some False)"

end
