(* ===== verification/Server_Tick.thy ===== *)
theory Server_Tick
  imports Server_Receive Resend_Decision
begin

text \<open>
  The server of \<open>fix_server.h\<close>, third part: what a turn of the reactor does without received data. For
  each session it runs one administrative command, and for a live session its timers: the resend
  request, the test request, the answers to the peer's requests, the heartbeat and the schedule. Also
  the loading of sessions and the step relation of the whole server.
\<close>

subsection \<open>Administrative commands\<close>

definition disable_session :: "server_environment \<Rightarrow> string \<Rightarrow> server \<Rightarrow> server option" where
  "disable_session e n w =
     do {
       w \<leftarrow> (if is_state_live (m_state (m_sessions w n)) then
               process_connection_closure e (get_peer_index w n) True '''' w
             else Some w);
       Some (upd_session n (set_state DISABLED) w)
     }"

definition reinitialise_outgoing_serialiser :: "server_environment \<Rightarrow> session \<Rightarrow> session option" where
  "reinitialise_outgoing_serialiser e s =
     (case serialiser_initialise (e_outgoing_folder e (outgoing_message_serialisation_path (m_settings s)))
             (max_serialised_file_size (m_settings s))
             (replay_messages_on_incoming_resend_request (m_settings s))
             (replay_message_cache_initial_size (m_settings s)) (m_outgoing_messages_serialiser s) of
        None \<Rightarrow> None
      | Some (ser, ok) \<Rightarrow> Some (s\<lparr>m_outgoing_messages_serialiser := ser\<rparr>))"

definition enable_session :: "server_environment \<Rightarrow> string \<Rightarrow> server \<Rightarrow> server option" where
  "enable_session e n w =
     (if m_state (m_sessions w n) = DISABLED then
        (let s = set_state DISCONNECTED (m_sessions w n)
         in if e_refresh_resend_cache_during_promotion e then
              map_option (\<lambda>s. upd_session n (\<lambda>_. s) w) (reinitialise_outgoing_serialiser e s)
            else Some (upd_session n (\<lambda>_. s) w))
      else Some w)"

definition process_admin_command :: "server_environment \<Rightarrow> string \<Rightarrow> modifying_admin_command \<Rightarrow> server \<Rightarrow> server option" where
  "process_admin_command e n c w =
     (case cmd_type c of
        SET_INCOMING_SEQUENCE_NUMBER \<Rightarrow> Some (upd_session n (map_store (set_incoming_seq_no (cmd_arg c))) w)
      | SET_OUTGOING_SEQUENCE_NUMBER \<Rightarrow> Some (upd_session n (map_store (set_outgoing_seq_no (cmd_arg c))) w)
      | SEND_SEQUENCE_RESET \<Rightarrow>
          (if m_state (m_sessions w n) = LOGGED_ON then
             map_option snd (send_sequence_reset_message e n (cmd_arg c) w)
           else Some w)
      | DISABLE_SESSION \<Rightarrow> disable_session e n w
      | ENABLE_SESSION \<Rightarrow> if m_is_ha_primary w then enable_session e n w else Some w
      | SET_IS_HA_PRIMARY_INSTANCE \<Rightarrow>
          (let w = w\<lparr>m_is_ha_primary := (cmd_arg c = 1)\<rparr>
           in if cmd_arg c = 1 then enable_session e n w else disable_session e n w))"

definition process_admin_commands :: "server_environment \<Rightarrow> string \<Rightarrow> server \<Rightarrow> server option" where
  "process_admin_commands e n w =
     (case m_admin_commands (m_sessions w n) of
        [] \<Rightarrow> Some w
      | c # cs \<Rightarrow> process_admin_command e n c (upd_session n (\<lambda>s. s\<lparr>m_admin_commands := cs\<rparr>) w))"

definition push_admin_command_internal ::
    "string \<Rightarrow> ModifyingAdminCommandType \<Rightarrow> u32 \<Rightarrow> server \<Rightarrow> server" where
  "push_admin_command_internal n t arg w =
     upd_session n (\<lambda>s. s\<lparr>m_admin_commands := m_admin_commands s @ [\<lparr>cmd_type = t, cmd_arg = arg\<rparr>]\<rparr>) w"

definition push_admin_command :: "string \<Rightarrow> ModifyingAdminCommandType \<Rightarrow> u32 \<Rightarrow> server \<Rightarrow> server" where
  "push_admin_command n t arg w =
     (if n \<noteq> ''*'' then push_admin_command_internal n t arg w
      else fold (\<lambda>n. push_admin_command_internal n t arg) (srv_session_names w) w)"

subsection \<open>The timers of a live session\<close>

definition process_outgoing_resend_request_if_necessary ::
    "server_environment \<Rightarrow> string \<Rightarrow> u64 \<Rightarrow> server \<Rightarrow> server option" where
  "process_outgoing_resend_request_if_necessary e n current_timestamp_nanoseconds w =
     (let s = m_sessions w n
      in if m_state s = IN_RETRANSMISSION_INITIATED_BY_SELF then
           (let delta_nanoseconds = current_timestamp_nanoseconds - m_outgoing_resend_request_timestamp_nanoseconds s;
                required_delta_nanoseconds =
                  word_of_int (outgoing_resend_request_expire_in_secs (m_settings s)) * 1000000000
            in if required_delta_nanoseconds \<le> delta_nanoseconds then
                 process_connection_closure e (get_peer_index w n) False '''' w
               else Some w)
         else if m_needs_to_send_resend_request s then
           do {
             (ok, w) \<leftarrow> send_resend_request e n w;
             Some (upd_session n (\<lambda>s. (set_state IN_RETRANSMISSION_INITIATED_BY_SELF s)
               \<lparr>m_outgoing_resend_request_timestamp_nanoseconds := current_timestamp_nanoseconds,
                m_needs_to_send_resend_request := False\<rparr>) w)
           }
         else Some w)"

definition process_outgoing_test_request_if_necessary ::
    "server_environment \<Rightarrow> string \<Rightarrow> u64 \<Rightarrow> server \<Rightarrow> server option" where
  "process_outgoing_test_request_if_necessary e n current_timestamp_nanoseconds w =
     (let s = m_sessions w n
      in if \<not> m_expecting_response_for_outgoing_test_request s then
           (let delta_nanoseconds = current_timestamp_nanoseconds - m_last_received_message_timestamp_nanoseconds s
            in if outgoing_test_request_interval_in_nanoseconds (m_settings s) \<le> delta_nanoseconds then
                 do {
                   (ok, w) \<leftarrow> send_test_request e n w;
                   Some (upd_session n (\<lambda>s. s
                     \<lparr>m_outgoing_test_request_timestamp_nanoseconds := current_timestamp_nanoseconds,
                      m_expecting_response_for_outgoing_test_request := True\<rparr>) w)
                 }
               else Some w)
         else
           (let delta_nanoseconds = current_timestamp_nanoseconds - m_outgoing_test_request_timestamp_nanoseconds s
            in if heartbeat_interval_in_nanoseconds (m_settings s) * 2 \<le> delta_nanoseconds then
                 process_connection_closure e (get_peer_index w n) False ''''
                   (upd_session n (\<lambda>s. s\<lparr>m_expecting_response_for_outgoing_test_request := False\<rparr>) w)
               else Some w))"

definition respond_to_resend_request_if_necessary :: "server_environment \<Rightarrow> string \<Rightarrow> server \<Rightarrow> server option" where
  "respond_to_resend_request_if_necessary e n w =
     (let s = m_sessions w n
      in if m_needs_responding_to_incoming_resend_request s then
           do {
             replay \<leftarrow> will_replay s;
             w \<leftarrow> (if replay then
                     resend_messages_to_client e n (m_incoming_resend_request_begin_no s) (session_outgoing_seq_no s) w
                   else map_option snd (send_gap_fill_message e n w));
             Some (upd_session n (\<lambda>s. (set_state LOGGED_ON s)\<lparr>m_needs_responding_to_incoming_resend_request := False\<rparr>) w)
           }
         else Some w)"

definition respond_to_test_request_if_necessary :: "server_environment \<Rightarrow> string \<Rightarrow> server \<Rightarrow> server option" where
  "respond_to_test_request_if_necessary e n w =
     (let s = m_sessions w n
      in if m_needs_responding_to_incoming_test_request s then
           do {
             w \<leftarrow> (if 0 < length (m_incoming_test_request_id s) then
                     map_option (\<lambda>(_, w). upd_session n (\<lambda>s. s\<lparr>m_incoming_test_request_id := ''''\<rparr>) w)
                       (send_heartbeat e n (Some (m_incoming_test_request_id s)) w)
                   else map_option snd (send_heartbeat e n None w));
             Some (upd_session n (\<lambda>s. s\<lparr>m_needs_responding_to_incoming_test_request := False\<rparr>) w)
           }
         else Some w)"

definition send_heartbeat_if_necessary :: "server_environment \<Rightarrow> string \<Rightarrow> u64 \<Rightarrow> server \<Rightarrow> server option" where
  "send_heartbeat_if_necessary e n current_timestamp_nanoseconds w =
     (let s = m_sessions w n;
          delta_nanoseconds = current_timestamp_nanoseconds - m_last_sent_message_timestamp_nanoseconds s
      in if heartbeat_interval_in_nanoseconds (m_settings s) * 9 div 10 \<le> delta_nanoseconds then
           map_option snd (send_heartbeat e n None w)
         else Some w)"

definition process_schedule_validator :: "server_environment \<Rightarrow> string \<Rightarrow> server \<Rightarrow> server option" where
  "process_schedule_validator e n w =
     (if \<not> is_now_valid_session_datetime (now_wall e w) (m_sessions w n) then
        process_connection_closure e (get_peer_index w n) True '''' (tick w)
      else Some (tick w))"

definition process_live_session :: "server_environment \<Rightarrow> string \<Rightarrow> server \<Rightarrow> server option" where
  "process_live_session e n w =
     do {
       w \<leftarrow> process_outgoing_resend_request_if_necessary e n (now_monotonic e w) (tick w);
       w \<leftarrow> process_outgoing_test_request_if_necessary e n (now_monotonic e w) (tick w);
       w \<leftarrow> respond_to_resend_request_if_necessary e n w;
       w \<leftarrow> respond_to_test_request_if_necessary e n w;
       w \<leftarrow> send_heartbeat_if_necessary e n (now_monotonic e w) (tick w);
       process_schedule_validator e n w
     }"

definition process_one_session :: "server_environment \<Rightarrow> string \<Rightarrow> server \<Rightarrow> server option" where
  "process_one_session e n w =
     do {
       w \<leftarrow> process_admin_commands e n w;
       if is_state_live (m_state (m_sessions w n)) then process_live_session e n w else Some w
     }"

fun for_each_session :: "(string \<Rightarrow> server \<Rightarrow> server option) \<Rightarrow> string list \<Rightarrow> server \<Rightarrow> server option" where
  "for_each_session f [] w = Some w"
| "for_each_session f (n # ns) w = do { w \<leftarrow> f n w; for_each_session f ns w }"

definition send_logout_messages_to_all_sessions :: "server_environment \<Rightarrow> server \<Rightarrow> server option" where
  "send_logout_messages_to_all_sessions e w =
     for_each_session (\<lambda>n w.
       if m_state (m_sessions w n) \<noteq> DISCONNECTED then
         do {
           (ok, w) \<leftarrow> send_logout_message e n '''' w;
           Some (on_session_disconnected n w)
         }
       else Some w) (srv_session_names w) w"

definition process :: "server_environment \<Rightarrow> server \<Rightarrow> server option" where
  "process e w =
     (if \<not> m_is_stopping w then for_each_session (process_one_session e) (srv_session_names w) w
      else send_logout_messages_to_all_sessions e w)"

subsection \<open>Loading sessions\<close>

definition has_session :: "server \<Rightarrow> string \<Rightarrow> bool" where
  "has_session w n \<longleftrightarrow> n \<in> set (srv_session_names w)"

definition does_any_session_use_path :: "server \<Rightarrow> string \<Rightarrow> bool" where
  "does_any_session_use_path w fp \<longleftrightarrow>
     list_ex (\<lambda>n. let s = m_sessions w n
        in sequence_store_file_path (m_settings s) = fp \<or>
           (incoming_message_serialisation_path (m_settings s) = fp \<and> serialisation_enabled s) \<or>
           (outgoing_message_serialisation_path (m_settings s) = fp \<and> serialisation_enabled s))
       (srv_session_names w)"

text \<open>Sessions that share comp ids are only warned about. \<open>env\<close> is what the new session finds when it is
  initialised; the settings are those of the server and the propagated buffer capacity.\<close>

definition internal_add_session ::
    "server_environment \<Rightarrow> session_environment \<Rightarrow> string \<Rightarrow> session_settings \<Rightarrow> server \<Rightarrow> (bool \<times> server) option" where
  "internal_add_session e env n st w =
     (if has_session w n then Some (False, w)
      else if does_any_session_use_path w (sequence_store_file_path st) then Some (False, w)
      else if does_any_session_use_path w (incoming_message_serialisation_path st) then Some (False, w)
      else if does_any_session_use_path w (outgoing_message_serialisation_path st) then Some (False, w)
      else
        (let st = st\<lparr>is_server := True, tx_encode_buffer_capacity := e_tx_encode_buffer_capacity e\<rparr>
         in case session_initialise env n st (new_session env) of
              None \<Rightarrow> Some (False, w)
            | Some s \<Rightarrow>
                (let w = (upd_session n (\<lambda>_. s) w)\<lparr>srv_session_names := srv_session_names w @ [n]\<rparr>
                 in if \<not> e_starts_as_primary_instance e then map_option (Pair True) (disable_session e n w)
                    else Some (True, w))))"

subsection \<open>The server as a step relation\<close>

text \<open>The reactor thread takes one of these steps at a time; commands come from the management thread
  through the queue of the session. The bytes of a receive are as many as its result says, and the
  acceptor's descriptors are not open already.\<close>

inductive server_step :: "server_environment \<Rightarrow> server \<Rightarrow> server \<Rightarrow> bool" for e :: server_environment where
  turn: "process e w = Some w' \<Longrightarrow> server_step e w w'"
| data: "has_socket w p \<Longrightarrow> int (length data) = max 0 result \<Longrightarrow>
    on_data_ready e p result data lost w = Some w' \<Longrightarrow> server_step e w w'"
| accept: "desc \<notin> open_descriptors (srv_connectors w) \<Longrightarrow>
    server_step e w (snd (accept_new_connection desc w))"
| command: "has_session w n \<Longrightarrow> server_step e w (push_admin_command n t arg w)"
| command_all: "server_step e w (push_admin_command ''*'' t arg w)"
| stop: "server_step e w (w\<lparr>m_is_stopping := True\<rparr>)"

end
