(* ===== verification/Outcome.thy ===== *)
theory Outcome
  imports Main "HOL-Library.Monad_Syntax"
begin

text \<open>
  Verification conditions for operations that may be undefined: \<open>post r Q\<close> says that the outcome, if
  there is one, satisfies \<open>Q\<close>. The rules \<open>post_rules\<close> take a composed operation apart.
\<close>

definition post :: "'a option \<Rightarrow> ('a \<Rightarrow> bool) \<Rightarrow> bool" where
  "post r Q = (case r of None \<Rightarrow> True | Some x \<Rightarrow> Q x)"

named_theorems post_rules \<open>decomposition of outcomes\<close>

lemma postI: "(\<And>x. r = Some x \<Longrightarrow> Q x) \<Longrightarrow> post r Q"
  by (cases r) (simp_all add: post_def)

lemma postD: "post r Q \<Longrightarrow> r = Some x \<Longrightarrow> Q x"
  by (simp add: post_def)

lemma post_mono: "post r P \<Longrightarrow> (\<And>x. P x \<Longrightarrow> Q x) \<Longrightarrow> post r Q"
  by (cases r) (simp_all add: post_def)

lemma post_None [post_rules]: "post None Q"
  by (simp add: post_def)

lemma post_Some [post_rules]: "Q x \<Longrightarrow> post (Some x) Q"
  by (simp add: post_def)

lemma post_bind [post_rules]: "post r (\<lambda>x. post (f x) Q) \<Longrightarrow> post (r \<bind> f) Q"
  by (cases r) (simp_all add: post_def)

lemma post_seq: "post r P \<Longrightarrow> (\<And>x. P x \<Longrightarrow> post (f x) Q) \<Longrightarrow> post (r \<bind> f) Q"
  by (cases r) (simp_all add: post_def)

lemma post_map [post_rules]: "post r (\<lambda>x. Q (f x)) \<Longrightarrow> post (map_option f r) Q"
  by (cases r) (simp_all add: post_def)

lemma post_if [post_rules]: "(b \<Longrightarrow> post r Q) \<Longrightarrow> (\<not> b \<Longrightarrow> post r' Q) \<Longrightarrow> post (if b then r else r') Q"
  by simp

lemma post_case_option [post_rules]:
  "(x = None \<Longrightarrow> post r Q) \<Longrightarrow> (\<And>y. x = Some y \<Longrightarrow> post (f y) Q) \<Longrightarrow> post (case x of None \<Rightarrow> r | Some y \<Rightarrow> f y) Q"
  by (cases x) simp_all

lemma post_case_bind: "post r (\<lambda>x. post (f x) Q) \<Longrightarrow> post (case r of None \<Rightarrow> None | Some x \<Rightarrow> f x) Q"
  by (cases r) (simp_all add: post_def)

lemma post_case_stop:
  "post r (\<lambda>x. post (if snd x then f (fst x) else g (fst x)) Q) \<Longrightarrow>
   post (case r of None \<Rightarrow> None | Some (x, True) \<Rightarrow> f x | Some (x, False) \<Rightarrow> g x) Q"
  by (cases r) (auto simp: post_def split: bool.splits option.splits)

lemma post_pair: "post (f x y) Q \<Longrightarrow> post (case (x, y) of (x, y) \<Rightarrow> f x y) Q"
  by simp

lemma post_case_prod [post_rules]:
  "(\<And>x y. p = (x, y) \<Longrightarrow> post (f x y) Q) \<Longrightarrow> post (case p of (x, y) \<Rightarrow> f x y) Q"
  by (cases p) simp

lemma post_case_list [post_rules]:
  "(xs = [] \<Longrightarrow> post r Q) \<Longrightarrow> (\<And>y ys. xs = y # ys \<Longrightarrow> post (f y ys) Q) \<Longrightarrow>
   post (case xs of [] \<Rightarrow> r | y # ys \<Rightarrow> f y ys) Q"
  by (cases xs) simp_all

lemma post_Let [post_rules]: "post (f t) Q \<Longrightarrow> post (let x = t in f x) Q"
  by (simp add: Let_def)

end
