(* ===== verification/Parser_Invariant.thy ===== *)
theory Parser_Invariant
  imports Fix_Parser Outcome
begin

text \<open>
  The receive scanner keeps the message it fills well-formed, whatever bytes it reads: what the
  invariants of the server and of the client need of it.
\<close>

lemma set_tag_keeps_wf: "set_tag t v m = Some m' \<Longrightarrow> message_wf m \<Longrightarrow> message_wf m'"
  using set_tag_wf [of m t v] by (metis option.inject)

lemma group_step_message [simp]: "ps_message (group_step specs t ps) = ps_message ps"
  by (simp add: group_step_def)

lemma record_value_wf:
  assumes "message_wf (ps_message ps)" "\<And>ps'. message_wf (ps_message ps') \<Longrightarrow> Q ps'"
  shows "post (record_value t v ps) Q"
proof -
  have g: "message_wf (set_repeating_group_tag t v (ps_message ps))"
    using assms(1) by (simp add: message_wf_def set_repeating_group_tag_def)
  show ?thesis
    unfolding record_value_def
    by (intro post_rules assms(2)) (use assms(1) g in \<open>auto dest: set_tag_keeps_wf\<close>)
qed

lemma record_numeric_tag_wf:
  assumes "message_wf (ps_message ps)" "\<And>ps' stop. message_wf (ps_message ps') \<Longrightarrow> Q (ps', stop)"
  shows "post (record_numeric_tag specs t v ps) Q"
  unfolding record_numeric_tag_def Let_def
  by (intro post_case_bind record_value_wf post_rules assms(2)) (simp_all add: assms(1))

lemma end_of_value_wf:
  assumes "message_wf (ps_message ps)" "\<And>ps' stop. message_wf (ps_message ps') \<Longrightarrow> Q (ps', stop)"
  shows "post (end_of_value specs b i ps) Q"
  unfolding end_of_value_def Let_def
  by (rule post_case_prod, rule post_case_stop, rule post_if;
      intro record_numeric_tag_wf post_rules assms(2); simp add: assms(1))

lemma parse_char_wf:
  assumes "parse_char specs b i ps = Some (ps', stop)" "message_wf (ps_message ps)"
  shows "message_wf (ps_message ps')"
proof -
  have "post (parse_char specs b i ps) (\<lambda>(ps', stop). message_wf (ps_message ps'))"
    unfolding parse_char_def Let_def by (intro post_rules end_of_value_wf) (simp_all add: assms(2))
  from postD [OF this assms(1)] show ?thesis by simp
qed

lemma parse_loop_wf:
  "message_wf (ps_message ps) \<Longrightarrow>
   (case parse_loop specs b i ps of Parsed ps' j \<Rightarrow> message_wf (ps_message ps')
    | Incomplete ps' \<Rightarrow> message_wf (ps_message ps') | Parse_undefined \<Rightarrow> True)"
proof (induction specs b i ps rule: parse_loop.induct)
  case (1 specs b i ps)
  show ?case
  proof (cases "parse_char specs b i ps")
    case None
    then show ?thesis by (simp add: parse_loop.simps [of specs b i])
  next
    case (Some r)
    obtain ps1 stop where r: "r = (ps1, stop)" by (cases r)
    have wf: "message_wf (ps_message ps1)" using parse_char_wf [OF _ 1(2)] Some r by simp
    show ?thesis
    proof (cases "stop \<or> length b \<le> i + 1")
      case True
      then show ?thesis using Some r wf by (cases stop) (auto simp: parse_loop.simps [of specs b i])
    next
      case False
      then show ?thesis
        using 1(1) [of "(ps1, False)" ps1 False] Some r wf by (subst parse_loop.simps) simp
    qed
  qed
qed

lemma parse_wf:
  assumes "message_wf im"
  shows "case parse_message specs b i im of Parsed ps j \<Rightarrow> message_wf (ps_message ps)
    | Incomplete ps \<Rightarrow> message_wf (ps_message ps) | Parse_undefined \<Rightarrow> True"
  unfolding parse_message_def
  by (rule parse_loop_wf) (simp add: start_state_def reset_message_wf [OF assms])

lemma post_case_parse [post_rules]:
  "(\<And>ps j. r = Parsed ps j \<Longrightarrow> post (f ps j) Q) \<Longrightarrow> (\<And>ps. r = Incomplete ps \<Longrightarrow> post (g ps) Q) \<Longrightarrow>
   (r = Parse_undefined \<Longrightarrow> post h Q) \<Longrightarrow>
   post (case r of Parsed ps j \<Rightarrow> f ps j | Incomplete ps \<Rightarrow> g ps | Parse_undefined \<Rightarrow> h) Q"
  by (cases r) simp_all

subsection \<open>Which bytes end a message\<close>

text \<open>The fields of a text as the scanner cuts them: a tag goes up to the first equals sign, its value up to the delimiter,
  and a delimiter inside a tag starts the tag anew. \<open>tag\<close> is what was read of the tag, \<open>v\<close> of the value.\<close>

fun cut_fields :: "string \<Rightarrow> string option \<Rightarrow> string \<Rightarrow> (string \<times> string) list" where
  "cut_fields tag v [] = []"
| "cut_fields tag None (c # cs) =
     (if c = CHR ''='' then cut_fields tag (Some []) cs
      else if c = SOH then cut_fields [] None cs
      else cut_fields (tag @ [c]) None cs)"
| "cut_fields tag (Some v) (c # cs) =
     (if c = SOH then (tag, v) # cut_fields [] None cs else cut_fields tag (Some (v @ [c])) cs)"

definition has_tag_number :: "u32 \<Rightarrow> string \<times> string \<Rightarrow> bool" where
  "has_tag_number n f \<longleftrightarrow> fst f \<noteq> [] \<and> length (fst f) \<le> 10 \<and> list_all is_digit (fst f) \<and> chars_to_unsigned_int (fst f) = n"

definition ends_message :: "string \<times> string \<Rightarrow> bool" where
  "ends_message f \<longleftrightarrow> has_tag_number TAG_CHECKSUM f"

definition type_too_long :: "string \<times> string \<Rightarrow> bool" where
  "type_too_long f \<longleftrightarrow> has_tag_number TAG_MSG_TYPE f \<and> 4 < length (snd f)"

definition goes_on :: "string \<times> string \<Rightarrow> bool" where
  "goes_on f \<longleftrightarrow> \<not> ends_message f \<and> \<not> type_too_long f"

text \<open>What of the current field lies before position \<open>i\<close>.\<close>

definition read_so_far :: "string \<Rightarrow> nat \<Rightarrow> parse_state \<Rightarrow> string \<Rightarrow> string option \<Rightarrow> bool" where
  "read_so_far b i ps t mv \<longleftrightarrow>
     (if ps_looking_for_equals ps then
        ps_tag_start ps \<le> i \<and> t = take (i - ps_tag_start ps) (drop (ps_tag_start ps) b) \<and> mv = None
      else
        ps_value_start ps \<le> i \<and> t = take (ps_tag_len ps) (drop (ps_tag_start ps) b) \<and>
        mv = Some (take (i - ps_value_start ps) (drop (ps_value_start ps) b)))"

lemma record_value_defined:
  assumes "message_wf (ps_message ps)"
  shows "\<exists>ps'. record_value t v ps = Some ps'"
proof -
  obtain m where "set_tag t v (ps_message ps) = Some m" by (rule set_tag_wf [OF assms])
  then show ?thesis by (simp add: record_value_def)
qed

lemma record_numeric_tag_outcome:
  assumes "message_wf (ps_message ps)"
  shows "case record_numeric_tag specs n v ps of
      None \<Rightarrow> n = TAG_MSG_TYPE \<and> 4 < length v
    | Some (ps', stop) \<Rightarrow> (stop \<longleftrightarrow> n = TAG_CHECKSUM) \<and> \<not> (n = TAG_MSG_TYPE \<and> 4 < length v)"
proof -
  have "\<exists>q. ps_message q = ps_message ps \<and> record_numeric_tag specs n v ps = (case record_value n v (group_step specs n q) of
       None \<Rightarrow> None
     | Some ps \<Rightarrow>
         if n = TAG_CHECKSUM then
           Some (ps\<lparr>ps_reject_code := validate_tag9_and_tag35 (ps_message ps) (int (ps_tag_start ps))
                      (ps_tag35_start ps) (ps_reject_code ps)\<rparr>, True)
         else if n = TAG_MSG_TYPE then
           (case pack_message_type v of
              None \<Rightarrow> None
            | Some mt \<Rightarrow> Some (ps\<lparr>ps_tag35_start := int (ps_tag_start ps), ps_message_type := mt\<rparr>, False))
         else Some (ps, False))"
    unfolding record_numeric_tag_def Let_def by (rule exI, rule conjI [rotated], rule refl) simp
  then obtain q where q: "ps_message q = ps_message ps" "record_numeric_tag specs n v ps = (case record_value n v (group_step specs n q) of
       None \<Rightarrow> None
     | Some ps \<Rightarrow>
         if n = TAG_CHECKSUM then
           Some (ps\<lparr>ps_reject_code := validate_tag9_and_tag35 (ps_message ps) (int (ps_tag_start ps))
                      (ps_tag35_start ps) (ps_reject_code ps)\<rparr>, True)
         else if n = TAG_MSG_TYPE then
           (case pack_message_type v of
              None \<Rightarrow> None
            | Some mt \<Rightarrow> Some (ps\<lparr>ps_tag35_start := int (ps_tag_start ps), ps_message_type := mt\<rparr>, False))
         else Some (ps, False))" by blast
  obtain r where "record_value n v (group_step specs n q) = Some r"
    using record_value_defined [of "group_step specs n q"] q(1) assms by auto
  moreover have "TAG_MSG_TYPE \<noteq> TAG_CHECKSUM" by (simp add: tag_defs)
  ultimately show ?thesis unfolding q(2) by (auto simp: pack_message_type_def)
qed

lemma end_of_value_outcome:
  assumes "message_wf (ps_message ps)" "read_so_far b i ps t (Some v)"
  shows "case end_of_value specs b i ps of
      None \<Rightarrow> type_too_long (t, v)
    | Some (ps', stop) \<Rightarrow> (stop \<longleftrightarrow> ends_message (t, v)) \<and> \<not> type_too_long (t, v) \<and>
        (\<not> stop \<longrightarrow> read_so_far b (i + 1) ps' [] None)"
proof -
  have t: "take (ps_tag_len ps) (drop (ps_tag_start ps) b) = t" "take (i - ps_value_start ps) (drop (ps_value_start ps) b) = v"
    using assms(2) by (auto simp: read_so_far_def split: if_splits)
  show ?thesis
  proof (cases "t \<noteq> [] \<and> length t \<le> 10 \<and> list_all is_digit t")
    case True
    let ?ps = "ps\<lparr>ps_reject_code := (if v = [] then FIX_ERROR_CODE_TAG_WITHOUT_VALUE else ps_reject_code ps)\<rparr>"
    define result where "result = record_numeric_tag specs (chars_to_unsigned_int t) v ?ps"
    have e: "end_of_value specs b i ps = (case result of
        None \<Rightarrow> None
      | Some (ps, True) \<Rightarrow> Some (ps, True)
      | Some (ps, False) \<Rightarrow> Some (ps\<lparr>ps_tag_start := i + 1, ps_looking_for_equals := True\<rparr>, False))"
      using True by (simp add: end_of_value_def Let_def t validate_tag_format_def result_def)
    have n: "has_tag_number n (t, v) \<longleftrightarrow> n = chars_to_unsigned_int t" for n
      using True by (auto simp: has_tag_number_def)
    have o: "case result of
        None \<Rightarrow> type_too_long (t, v)
      | Some (ps', stop) \<Rightarrow> (stop \<longleftrightarrow> ends_message (t, v)) \<and> \<not> type_too_long (t, v)"
      using record_numeric_tag_outcome [where ps = ?ps and specs = specs and n = "chars_to_unsigned_int t" and v = v] assms(1)
      by (auto simp: result_def [symmetric] type_too_long_def ends_message_def n split: option.splits)
    show ?thesis
    proof (cases result)
      case None
      with o show ?thesis by (simp add: e)
    next
      case (Some r)
      with o show ?thesis by (cases r; cases "snd r") (auto simp: e read_so_far_def)
    qed
  next
    case False
    then have "end_of_value specs b i ps = Some (ps\<lparr>ps_reject_code := FIX_ERROR_CODE_INVALID_TAG_NUMBER,
        ps_tag_start := i + 1, ps_looking_for_equals := True\<rparr>, False)"
      by (auto simp: end_of_value_def Let_def t validate_tag_format_def)
    with False show ?thesis
      by (auto simp: type_too_long_def ends_message_def has_tag_number_def read_so_far_def)
  qed
qed

lemma take_one_more: "a \<le> i \<Longrightarrow> i < length b \<Longrightarrow> take (Suc i - a) (drop a b) = take (i - a) (drop a b) @ [b ! i]"
  by (simp add: Suc_diff_le take_Suc_conv_app_nth)

text \<open>One character.\<close>

lemma parse_char_outcome:
  assumes "message_wf (ps_message ps)" "read_so_far b i ps t mv" "i < length b"
  shows "case parse_char specs b i ps of
      None \<Rightarrow> \<exists>v. mv = Some v \<and> b ! i = SOH \<and> type_too_long (t, v)
    | Some (ps', True) \<Rightarrow> \<exists>v. mv = Some v \<and> b ! i = SOH \<and> ends_message (t, v)
    | Some (ps', False) \<Rightarrow> \<exists>t' mv'. read_so_far b (i + 1) ps' t' mv' \<and>
        ((\<forall>cs. cut_fields t mv (b ! i # cs) = cut_fields t' mv' cs) \<or>
         (\<exists>f. goes_on f \<and> (\<forall>cs. cut_fields t mv (b ! i # cs) = f # cut_fields t' mv' cs)))"
proof (cases "ps_looking_for_equals ps")
  case True
  note r = assms(2) [unfolded read_so_far_def, simplified True]
  then show ?thesis
    using True assms(3) take_one_more [of "ps_tag_start ps" i b]
    by (auto simp: parse_char_def Let_def read_so_far_def)
next
  case False
  then obtain v where v: "mv = Some v" "v = take (i - ps_value_start ps) (drop (ps_value_start ps) b)" "ps_value_start ps \<le> i"
    using assms(2) by (auto simp: read_so_far_def)
  show ?thesis
  proof (cases "b ! i = SOH")
    case True
    then show ?thesis
      using False end_of_value_outcome [OF assms(1) assms(2) [unfolded v(1)], of specs] v(1)
      by (auto simp: parse_char_def Let_def goes_on_def split: option.splits bool.splits)
  next
    case other: False
    then have "parse_char specs b i ps = Some (ps, False)" using False by (simp add: parse_char_def Let_def)
    moreover have "read_so_far b (i + 1) ps t (Some (v @ [b ! i]))"
      using assms(2,3) False v take_one_more [of "ps_value_start ps" i b] by (simp add: read_so_far_def)
    ultimately show ?thesis using other v(1) by auto
  qed
qed

text \<open>Where the scanner stops, over the fields of what it has to read: at the first that ends the message, undefined at
  the first message type that is too long, and at the end of the bytes when there is neither.\<close>

definition stops_right :: "string \<Rightarrow> string option \<Rightarrow> string \<Rightarrow> nat \<Rightarrow> parse_result \<Rightarrow> bool" where
  "stops_right t mv b i result \<longleftrightarrow>
     (let fields = cut_fields t mv (drop i b); rest = dropWhile goes_on fields
      in case result of
           Parsed ps j \<Rightarrow> i \<le> j \<and> j < length b \<and> rest \<noteq> [] \<and> ends_message (hd rest) \<and>
             cut_fields t mv (take (Suc j - i) (drop i b)) = takeWhile goes_on fields @ [hd rest]
         | Incomplete ps \<Rightarrow> rest = []
         | Parse_undefined \<Rightarrow> rest \<noteq> [] \<and> type_too_long (hd rest))"

lemma stops_right_later:
  assumes "stops_right t' mv' b (i + 1) result" "i < length b"
    and "(\<forall>cs. cut_fields t mv (b ! i # cs) = cut_fields t' mv' cs) \<or>
      (\<exists>f. goes_on f \<and> (\<forall>cs. cut_fields t mv (b ! i # cs) = f # cut_fields t' mv' cs))"
  shows "stops_right t mv b i result"
proof -
  have d: "drop i b = b ! i # drop (i + 1) b" using assms(2) by (simp add: Cons_nth_drop_Suc)
  have k: "take (Suc j - i) (drop i b) = b ! i # take (Suc j - (i + 1)) (drop (i + 1) b)" if "i < j" for j
    using that by (simp add: d Suc_diff_le)
  from assms(3) show ?thesis
  proof
    assume "\<forall>cs. cut_fields t mv (b ! i # cs) = cut_fields t' mv' cs"
    then show ?thesis
      using assms(1) k unfolding stops_right_def Let_def d by (auto split: parse_result.splits)
  next
    assume "\<exists>f. goes_on f \<and> (\<forall>cs. cut_fields t mv (b ! i # cs) = f # cut_fields t' mv' cs)"
    then show ?thesis
      using assms(1) k unfolding stops_right_def Let_def d by (auto split: parse_result.splits)
  qed
qed

lemma stops_right_here:
  assumes "i < length b" "b ! i = SOH" "type_too_long (t, v) \<or> ends_message (t, v)"
  shows "stops_right t (Some v) b i (if ends_message (t, v) then Parsed ps i else Parse_undefined)"
proof -
  have "drop i b = SOH # drop (i + 1) b"
    using Cons_nth_drop_Suc [OF assms(1)] by (simp add: assms(2))
  moreover have "\<not> goes_on (t, v)" using assms(3) by (auto simp: goes_on_def)
  ultimately show ?thesis using assms(1,3) by (auto simp: stops_right_def Let_def)
qed

lemma parse_loop_stops:
  assumes "message_wf (ps_message ps)" "read_so_far b i ps t mv" "i < length b"
  shows "stops_right t mv b i (parse_loop specs b i ps)"
  using assms
proof (induction specs b i ps arbitrary: t mv rule: parse_loop.induct)
  case (1 specs b i ps)
  note one = parse_char_outcome [OF 1(2-4), of specs]
  show ?case
  proof (cases "parse_char specs b i ps")
    case None
    with one obtain v where v: "mv = Some v" "b ! i = SOH" "type_too_long (t, v)" by auto
    then have "\<not> ends_message (t, v)" by (auto simp: type_too_long_def ends_message_def has_tag_number_def tag_defs)
    with v None stops_right_here [OF 1(4) v(2), of t v] show ?thesis by (simp add: parse_loop.simps [of specs b i])
  next
    case (Some r)
    obtain ps1 stop where r: "r = (ps1, stop)" by (cases r)
    show ?thesis
    proof (cases stop)
      case True
      with one Some r obtain v where v: "mv = Some v" "b ! i = SOH" "ends_message (t, v)" by auto
      with True Some r stops_right_here [OF 1(4) v(2), of t v ps1] show ?thesis by (simp add: parse_loop.simps [of specs b i])
    next
      case False
      with one Some r obtain t' mv' where n: "read_so_far b (i + 1) ps1 t' mv'"
        and cut: "(\<forall>cs. cut_fields t mv (b ! i # cs) = cut_fields t' mv' cs) \<or>
          (\<exists>f. goes_on f \<and> (\<forall>cs. cut_fields t mv (b ! i # cs) = f # cut_fields t' mv' cs))" by auto
      have wf: "message_wf (ps_message ps1)" using parse_char_wf [OF _ 1(2)] Some r by simp
      have "stops_right t' mv' b (i + 1) (if length b \<le> i + 1 then Incomplete ps1 else parse_loop specs b (i + 1) ps1)"
      proof (cases "length b \<le> i + 1")
        case True
        then show ?thesis by (simp add: stops_right_def)
      next
        case more: False
        then show ?thesis using 1(1) [of "(ps1, False)" ps1 False] Some r False wf n by simp
      qed
      from stops_right_later [OF this 1(4) cut] show ?thesis
        using Some r False by (subst parse_loop.simps) simp
    qed
  qed
qed

subsection \<open>Properties\<close>

text \<open>C25: whatever bytes arrive and whatever repeating groups are specified, what the scanner does follows from the fields
  of the bytes. It ends the message at the first field whose tag is the number 10, at that field's delimiter, inside
  the buffer and not before it started; it waits for more bytes when there is none; and in both cases it leaves a
  well-formed message, in which every lookup is defined. Its behaviour is undefined exactly when a field with tag 35
  and a value of more than four characters comes first.\<close>

theorem scanner_keeps_message_wf:
  assumes "message_wf im" "start < length b"
  shows "let fields = cut_fields [] None (drop start b); rest = dropWhile goes_on fields
    in case parse_message specs b start im of
      Parsed ps j \<Rightarrow> message_wf (ps_message ps) \<and> start \<le> j \<and> j < length b \<and> rest \<noteq> [] \<and> ends_message (hd rest) \<and>
        cut_fields [] None (take (Suc j - start) (drop start b)) = takeWhile goes_on fields @ [hd rest]
    | Incomplete ps \<Rightarrow> message_wf (ps_message ps) \<and> rest = []
    | Parse_undefined \<Rightarrow> rest \<noteq> [] \<and> type_too_long (hd rest)"
proof -
  have "stops_right [] None b start (parse_message specs b start im)"
    unfolding parse_message_def using assms
    by (intro parse_loop_stops) (simp_all add: start_state_def read_so_far_def reset_message_wf)
  with parse_wf [OF assms(1), of specs b start] show ?thesis
    by (auto simp: stops_right_def Let_def split: parse_result.splits)
qed

text \<open>An incomplete message, a whole one, and one with a message type of five characters.\<close>

theorem scanner_keeps_message_wf_witness:
  "(\<exists>ps. parse_message no_group_specs ''8=FIX.4.4'' 0 (sample_message 3) = Incomplete ps \<and> message_wf (ps_message ps)) \<and>
   (\<exists>ps j. parse_message no_group_specs (''8=F'' @ [SOH] @ ''10=1'' @ [SOH]) 0 (sample_message 3) = Parsed ps j \<and>
      message_wf (ps_message ps)) \<and>
   parse_message no_group_specs (''35=ABCDE'' @ [SOH] @ ''10=1'' @ [SOH]) 0 (sample_message 3) = Parse_undefined"
proof -
  have fields: "dropWhile goes_on (cut_fields [] None ''8=FIX.4.4'') = []"
    "dropWhile goes_on (cut_fields [] None (''8=F'' @ [SOH] @ ''10=1'' @ [SOH])) = [(''10'', ''1'')]"
    "dropWhile goes_on (cut_fields [] None (''35=ABCDE'' @ [SOH] @ ''10=1'' @ [SOH])) = [(''35'', ''ABCDE''), (''10'', ''1'')]"
    "ends_message (''10'', ''1'')" "\<not> type_too_long (''10'', ''1'')"
    "\<not> ends_message (''35'', ''ABCDE'')" "type_too_long (''35'', ''ABCDE'')"
    by code_simp+
  have wf: "message_wf (sample_message 3)" by (rule sample_message_wf(1)) simp
  note scan = scanner_keeps_message_wf [OF wf, where start = 0 and specs = no_group_specs, unfolded Let_def drop0]
  have "\<exists>ps. parse_message no_group_specs ''8=FIX.4.4'' 0 (sample_message 3) = Incomplete ps \<and> message_wf (ps_message ps)"
    using scan [where b = "''8=FIX.4.4''", unfolded fields] by (simp split: parse_result.splits)
  moreover have "\<exists>ps j. parse_message no_group_specs (''8=F'' @ [SOH] @ ''10=1'' @ [SOH]) 0 (sample_message 3) = Parsed ps j \<and>
      message_wf (ps_message ps)"
    using scan [where b = "''8=F'' @ [SOH] @ ''10=1'' @ [SOH]", unfolded fields] fields(5) by (simp split: parse_result.splits)
  moreover have "parse_message no_group_specs (''35=ABCDE'' @ [SOH] @ ''10=1'' @ [SOH]) 0 (sample_message 3) = Parse_undefined"
    using scan [where b = "''35=ABCDE'' @ [SOH] @ ''10=1'' @ [SOH]", unfolded fields] fields(6) by (simp split: parse_result.splits)
  ultimately show ?thesis by blast
qed

end
