(* ===== verification/Server_Invariant.thy ===== *)
theory Server_Invariant
  imports Server_Tick Parser_Invariant
begin

text \<open>
  What every operation of the server respects. The locale \<open>serving\<close> states what a relation between
  server states must allow (the primitive changes an operation on one session makes) and proves once
  that all operations of that session stay within it. Its interpretations give that the server's tables
  stay consistent and that serving one session leaves all others alone.
\<close>

text \<open>The settings a session keeps as they were loaded: all but the two intervals that a Logon sets.\<close>

definition loaded_settings :: "session \<Rightarrow> session_settings" where
  "loaded_settings s = (m_settings s)\<lparr>heartbeat_interval_in_nanoseconds := 0,
     outgoing_test_request_interval_in_nanoseconds := 0\<rparr>"

definition session_kept :: "session \<Rightarrow> session \<Rightarrow> bool" where
  "session_kept s s' \<longleftrightarrow> session_wf s' \<and> loaded_settings s' = loaded_settings s"

lemmas session_kept_defs = session_kept_def loaded_settings_def session_wf_def

lemma validated_kept:
  assumes "validate_fix_message t m b c oc s = (s', v, c')" "session_wf s"
  shows "session_kept s s'"
proof (cases "acceptable_message t (m_settings s) m b \<and> c = -1")
  case True
  then show ?thesis using validate_fix_message_accepted [of t s m b oc] assms by (auto simp: session_kept_def)
next
  case False
  then show ?thesis
    using validate_fix_message_refused [OF False, of oc] assms by (auto simp: refusal_def session_kept_defs)
qed

lemma sequence_reset_kept:
  "process_incoming_sequence_reset_message m s = (s', ok) \<Longrightarrow> session_wf s \<Longrightarrow> session_kept s s'"
  by (frule sequence_reset_wf, assumption)
    (auto simp: process_incoming_sequence_reset_message_def Let_def session_kept_def loaded_settings_def set_state_def
      map_store_def split: if_splits)

lemma test_request_kept: "session_wf s \<Longrightarrow> session_kept s (process_test_request_message m s)"
  by (frule test_request_wf) (simp add: session_kept_def loaded_settings_def process_test_request_message_def Let_def)

lemma resend_request_kept: "session_wf s \<Longrightarrow> session_kept s (process_resend_request m s)"
  by (frule resend_request_wf) (simp add: session_kept_def loaded_settings_def process_resend_request_def set_state_def)

definition owner :: "nat \<Rightarrow> string \<Rightarrow> server \<Rightarrow> bool" where
  "owner p n w \<longleftrightarrow> get_session w p = None \<or> get_session w p = Some n"

definition within :: "(server \<Rightarrow> bool) \<Rightarrow> (server \<Rightarrow> server \<Rightarrow> bool) \<Rightarrow> server \<Rightarrow> server \<Rightarrow> bool" where
  "within I R a w \<longleftrightarrow> I a \<and> R a w"

locale serving =
  fixes n :: string
    and I :: "server \<Rightarrow> bool"
    and R :: "server \<Rightarrow> server \<Rightarrow> bool"
  assumes R_refl: "R w w"
    and R_trans: "R w w' \<Longrightarrow> R w' w'' \<Longrightarrow> R w w''"
    and R_inv: "I w \<Longrightarrow> R w w' \<Longrightarrow> I w'"
    and R_owner: "I w \<Longrightarrow> R w w' \<Longrightarrow> owner p n w \<Longrightarrow> owner p n w'"
    and I_tables: "I w \<Longrightarrow> get_peer_index w n = Some p \<Longrightarrow> owner p n w"
    and I_session: "I w \<Longrightarrow> session_wf (m_sessions w n)"
    and prim_session: "I w \<Longrightarrow> session_kept (m_sessions w n) (f (m_sessions w n)) \<Longrightarrow> R w (upd_session n f w)"
    and prim_emit: "I w \<Longrightarrow> R w (emit ev w)"
    and prim_tick: "I w \<Longrightarrow> R w (tick w)"
    and prim_count: "I w \<Longrightarrow> R w (w\<lparr>srv_sends := srv_sends w + 1\<rparr>)"
    and prim_primary: "I w \<Longrightarrow> R w (w\<lparr>m_is_ha_primary := b\<rparr>)"
    and prim_disconnect: "I w \<Longrightarrow> owner p n w \<Longrightarrow> on_client_disconnected p w = Some w' \<Longrightarrow> R w w'"
begin

lemma withinE: "within I R a w \<Longrightarrow> (I a \<Longrightarrow> R a w \<Longrightarrow> I w \<Longrightarrow> P) \<Longrightarrow> P"
  by (auto simp: within_def intro: R_inv)

lemma within_start: "I w \<Longrightarrow> within I R w w"
  by (simp add: within_def R_refl)

lemma within_step: "within I R a w \<Longrightarrow> (I w \<Longrightarrow> R w w') \<Longrightarrow> within I R a w'"
  by (erule withinE) (auto simp: within_def intro: R_trans)

lemma step_session: "within I R a w \<Longrightarrow> (session_wf (m_sessions w n) \<Longrightarrow> session_kept (m_sessions w n) (f (m_sessions w n))) \<Longrightarrow>
    within I R a (upd_session n f w)"
  by (rule within_step, assumption, rule prim_session) (auto intro: I_session)

lemma step_emit: "within I R a w \<Longrightarrow> within I R a (emit ev w)"
  by (rule within_step, assumption, rule prim_emit)

lemma step_tick: "within I R a w \<Longrightarrow> within I R a (tick w)"
  by (rule within_step, assumption, rule prim_tick)

lemma step_count: "within I R a w \<Longrightarrow> within I R a (w\<lparr>srv_sends := srv_sends w + 1\<rparr>)"
  by (rule within_step, assumption, rule prim_count)

lemma step_primary: "within I R a w \<Longrightarrow> within I R a (w\<lparr>m_is_ha_primary := b\<rparr>)"
  by (rule within_step, assumption, rule prim_primary)

lemma step_disconnect:
  assumes "within I R a w" "owner p n w" "\<And>w'. within I R a w' \<Longrightarrow> Q w'"
  shows "post (on_client_disconnected p w) Q"
  by (rule postI, rule assms(3), rule within_step [OF assms(1)], rule prim_disconnect [OF _ assms(2)])

lemma step_owner: "within I R a w \<Longrightarrow> owner p n a \<Longrightarrow> owner p n w"
  by (erule withinE) (rule R_owner)

lemma peer_owner: "within I R a w \<Longrightarrow> get_peer_index w n = Some p \<Longrightarrow> owner p n w"
  by (erule withinE) (rule I_tables)

lemma step_if: "(b \<Longrightarrow> within I R a w) \<Longrightarrow> (\<not> b \<Longrightarrow> within I R a w') \<Longrightarrow> within I R a (if b then w else w')"
  by simp

lemmas steps = step_session step_emit step_tick step_count step_primary step_if

lemma transport_send_R:
  assumes "within I R a w" "owner p n w" "\<And>ok w'. within I R a w' \<Longrightarrow> Q (ok, w')"
  shows "post (transport_send e p m b w) Q"
proof -
  have o: "owner p n (emit ev (w\<lparr>srv_sends := k\<rparr>))" for ev k
    using assms(2) by (simp add: owner_def get_session_def emit_def)
  have "within I R a (emit ev (w\<lparr>srv_sends := srv_sends w + 1\<rparr>))" for ev
    by (rule step_emit, rule step_count [OF assms(1)])
  then show ?thesis
    unfolding transport_send_def
    by (intro post_rules step_disconnect [OF _ o] assms(3)) simp_all
qed

lemma serialise_outgoing_R: "within I R a w \<Longrightarrow> within I R a (serialise_outgoing e n b ok w)"
  unfolding serialise_outgoing_def by (intro steps) (simp_all add: session_kept_defs)

lemma send_bytes_R:
  assumes "within I R a w" "\<And>ok w'. within I R a w' \<Longrightarrow> Q (ok, w')"
  shows "post (send_bytes e inc n b w) Q"
  unfolding send_bytes_def
  by (intro post_pair post_rules transport_send_R [OF assms(1)] assms(2) peer_owner [OF assms(1)] steps
      serialise_outgoing_R assms(1))
    (simp_all add: session_kept_defs map_store_def)

lemma encode_outgoing_R:
  assumes "within I R a w" "\<And>b w'. within I R a w' \<Longrightarrow> Q (b, w')"
  shows "post (encode_outgoing e n q w) Q"
  unfolding encode_outgoing_def
  by (intro post_pair post_rules assms steps) (simp_all add: session_kept_defs)

lemma send_outgoing_message_R:
  assumes "within I R a w" "\<And>ok w'. within I R a w' \<Longrightarrow> Q (ok, w')"
  shows "post (send_outgoing_message e n w) Q"
  unfolding send_outgoing_message_def
  by (intro post_pair post_rules encode_outgoing_R [OF assms(1)] send_bytes_R assms(2))

lemma build_R: "within I R a w \<Longrightarrow> within I R a (build n f w)"
  unfolding build_def by (intro steps) (simp_all add: session_kept_defs)

lemmas outcomes = post_pair post_rules

lemmas sending = send_outgoing_message_R send_bytes_R encode_outgoing_R build_R steps

lemma send_heartbeat_R:
  assumes "within I R a w" "\<And>ok w'. within I R a w' \<Longrightarrow> Q (ok, w')"
  shows "post (send_heartbeat e n t w) Q"
  unfolding send_heartbeat_def by (intro outcomes sending [where a = a] assms)

lemma send_logon_response_R:
  assumes "within I R a w" "\<And>ok w'. within I R a w' \<Longrightarrow> Q (ok, w')"
  shows "post (send_logon_response e n w) Q"
  unfolding send_logon_response_def by (intro outcomes sending [where a = a] assms)

lemma send_logout_message_R:
  assumes "within I R a w" "\<And>ok w'. within I R a w' \<Longrightarrow> Q (ok, w')"
  shows "post (send_logout_message e n t w) Q"
  unfolding send_logout_message_def by (intro outcomes sending [where a = a] assms)

lemma send_test_request_R:
  assumes "within I R a w" "\<And>ok w'. within I R a w' \<Longrightarrow> Q (ok, w')"
  shows "post (send_test_request e n w) Q"
  unfolding send_test_request_def build_with_def
  by (intro outcomes sending [where a = a] assms) (simp add: build_test_request_message_def session_kept_defs Let_def)

lemma send_resend_request_R:
  assumes "within I R a w" "\<And>ok w'. within I R a w' \<Longrightarrow> Q (ok, w')"
  shows "post (send_resend_request e n w) Q"
  unfolding send_resend_request_def by (intro outcomes sending [where a = a] assms)

lemma send_sequence_reset_message_R:
  assumes "within I R a w" "\<And>ok w'. within I R a w' \<Longrightarrow> Q (ok, w')"
  shows "post (send_sequence_reset_message e n q w) Q"
  unfolding send_sequence_reset_message_def build_with_def
  by (intro outcomes sending [where a = a] assms) (simp add: build_sequence_reset_message_def session_kept_defs map_store_def Let_def)

lemma send_gap_fill_message_R:
  assumes "within I R a w" "\<And>ok w'. within I R a w' \<Longrightarrow> Q (ok, w')"
  shows "post (send_gap_fill_message e n w) Q"
  unfolding send_gap_fill_message_def by (intro outcomes sending [where a = a] assms)

lemma send_reject_message_R:
  assumes "within I R a w" "\<And>ok w'. within I R a w' \<Longrightarrow> Q (ok, w')"
  shows "post (send_reject_message e n c t w) Q"
  unfolding send_reject_message_def by (intro outcomes sending [where a = a] assms)

lemma send_throttle_reject_message_R:
  assumes "within I R a w" "\<And>ok w'. within I R a w' \<Longrightarrow> Q (ok, w')"
  shows "post (send_throttle_reject_message e n w) Q"
  unfolding send_throttle_reject_message_def by (intro outcomes sending [where a = a] assms)

lemma resend_message_R:
  assumes "within I R a w" "\<And>w'. within I R a w' \<Longrightarrow> Q w'"
  shows "post (resend_message e n i w) Q"
  unfolding resend_message_def Let_def
  by (rule post_bind, rule postI, intro outcomes sending [where a = a] assms) (simp_all add: session_kept_defs)

lemma resend_loop_R:
  assumes "within I R a w" "\<And>w'. within I R a w' \<Longrightarrow> Q w'"
  shows "post (resend_loop e n k i l w) Q"
  using assms
proof (induction e m\<equiv>n k i l w rule: resend_loop.induct)
  case (1 e k i l w)
  show ?case
  proof (cases "2 ^ 32 \<le> k \<or> l < i")
    case True
    with 1(2,3) show ?thesis by (subst resend_loop.simps) (auto intro: post_rules)
  next
    case False
    have "post (resend_message e n i w) (\<lambda>w'. post (resend_loop e n (k + 1) (i + 1) l w') Q)"
    proof (rule postI)
      fix w' assume w': "resend_message e n i w = Some w'"
      have "within I R a w'"
        by (rule postD [OF resend_message_R [OF 1(2)] w'])
      with 1(1) [OF _ _ w'] False 1(3) show "post (resend_loop e n (k + 1) (i + 1) l w') Q" by auto
    qed
    with False show ?thesis by (subst resend_loop.simps) (auto simp: post_def split: option.splits)
  qed
qed

lemma process_connection_closure_R:
  assumes "within I R a w" "\<And>p. peer = Some p \<Longrightarrow> owner p n w" "\<And>w'. within I R a w' \<Longrightarrow> Q w'"
  shows "post (process_connection_closure e peer lo t w) Q"
proof -
  have close: "post (close_connection peer w') Q" if w': "within I R w w'" for w'
  proof (cases peer)
    case (Some p)
    have "within I R a w'" using assms(1) w' by (auto simp: within_def intro: R_trans)
    moreover have "owner p n w'" by (rule step_owner [OF w' assms(2) [OF Some]])
    ultimately show ?thesis
      by (simp add: close_connection_def Some step_disconnect assms(3))
  qed (simp add: close_connection_def post_None)
  have w: "within I R w w" using assms(1) by (auto elim: withinE intro: within_start)
  show ?thesis
    unfolding process_connection_closure_def
  proof (intro outcomes close w)
    fix m assume "(if lo then Option.bind peer (get_session w) else None) = Some m"
    then obtain p where p: "peer = Some p" "get_session w p = Some m" by (auto simp: bind_eq_Some_conv split: if_splits)
    with assms(2) [OF p(1)] have m: "m = n" by (auto simp: owner_def)
    show "post (send_logout_message e m t w) (\<lambda>x. post (close_connection peer (snd x)) Q)"
      unfolding m by (rule send_logout_message_R [OF w]) (simp add: close)
  qed
qed

lemma process_incoming_throttling_R:
  assumes "within I R a w" "\<And>ok w'. within I R a w' \<Longrightarrow> Q (ok, w')"
  shows "post (process_incoming_throttling e n w) Q"
proof -
  define w1 where "w1 = tick (upd_session n (\<lambda>s. s\<lparr>m_throttler := throttler_update (now_monotonic e w) (m_throttler s)\<rparr>) w)"
  define w2 where "w2 = upd_session n (\<lambda>s. s\<lparr>m_incoming_throttler_exceed_count := m_incoming_throttler_exceed_count s + 1\<rparr>) w1"
  have w1: "within I R a w1"
    unfolding w1_def by (intro steps assms(1)) (auto simp: session_kept_defs update_window)
  have w2: "within I R a w2" unfolding w2_def by (intro steps w1) (auto simp: session_kept_defs)
  have wait: "within I R a (tick (upd_session n (\<lambda>s. s\<lparr>m_throttler := throttler_wait (now_monotonic e w2) (m_throttler s)\<rparr>) w2))"
    by (intro steps w2) (auto simp: session_kept_defs throttler_wait_wf)
  show ?thesis
    unfolding process_incoming_throttling_def Let_def w1_def [symmetric] w2_def [symmetric]
  proof (intro outcomes assms(2) assms(1) w1)
    show "post (case throttle_action (m_settings (m_sessions w2 n)) of
          ACTION_NONE \<Rightarrow> Some (True, w2)
        | ACTION_WAIT \<Rightarrow> Some (True, tick (upd_session n
            (\<lambda>s. s\<lparr>m_throttler := throttler_wait (now_monotonic e w2) (m_throttler s)\<rparr>) w2))
        | ACTION_REJECT \<Rightarrow> map_option (\<lambda>(_, w). (False, w)) (send_throttle_reject_message e n w2)
        | ACTION_DISCONNECT \<Rightarrow> map_option (Pair False) (process_connection_closure e (get_peer_index w2 n) False [] w2)) Q"
      by (cases "throttle_action (m_settings (m_sessions w2 n))")
        (simp_all, intro outcomes assms(2) w2, intro outcomes assms(2) wait,
          rule post_map, rule send_throttle_reject_message_R [OF w2], simp add: assms(2),
          rule post_map, rule process_connection_closure_R [OF w2 peer_owner [OF w2]], assumption, rule assms(2))
  qed
qed

lemma set_state_R: "within I R a w \<Longrightarrow> within I R a (upd_session n (set_state st) w)"
  by (intro steps) (auto simp: session_kept_defs set_state_def)

lemma map_store_R: "within I R a w \<Longrightarrow> within I R a (upd_session n (map_store f) w)"
  by (intro steps) (auto simp: session_kept_defs map_store_def)

lemma queue_resend_R: "within I R a w \<Longrightarrow> within I R a (upd_session n (queue_outgoing_resend_request x y) w)"
  by (intro steps) (auto simp: session_kept_defs map_store_def queue_outgoing_resend_request_def)

lemma process_invalid_logon_R:
  assumes "within I R a w" "owner p n w" "\<And>w'. within I R a w' \<Longrightarrow> Q w'"
  shows "post (process_invalid_logon e p w) Q"
  unfolding process_invalid_logon_def
  by (rule process_connection_closure_R [OF assms(1) _ assms(3)]) (use assms(2) in auto)

lemma process_logon_request_R:
  assumes "within I R a w" "owner p n w" "\<And>w'. within I R a w' \<Longrightarrow> Q w'"
  shows "post (process_logon_request e n p w) Q"
  unfolding process_logon_request_def do_post_logon_sequence_number_check_def Let_def
  by (intro outcomes process_invalid_logon_R [OF assms(1,2)] assms(3) send_logon_response_R [where a = a]
      set_state_R queue_resend_R step_emit step_if step_session assms(1))
    (auto simp: session_kept_defs set_requested_heartbeat_def Let_def)

lemma process_logout_request_R:
  assumes "within I R a w" "\<And>w'. within I R a w' \<Longrightarrow> Q w'"
  shows "post (process_logout_request e n w) Q"
  unfolding process_logout_request_def
  by (intro outcomes assms send_logout_message_R [where a = a] set_state_R step_emit)

lemma dispatch_message_R:
  assumes "within I R a w" "owner p n w" "\<And>w'. within I R a w' \<Longrightarrow> Q w'"
  shows "post (dispatch_message e n p w) Q"
  unfolding dispatch_message_def Let_def
  by (intro outcomes process_logon_request_R [OF assms(1,2)] process_logout_request_R [OF assms(1)] assms(3)
      send_reject_message_R [where a = a] step_emit step_session assms(1))
    (auto intro: sequence_reset_kept test_request_kept resend_request_kept)

lemma check_sequence_number_R:
  assumes "within I R a w" "owner p n w" "\<And>c w'. within I R a w' \<Longrightarrow> Q (c, w')"
  shows "post (check_sequence_number e n p w) Q"
proof -
  have o: "owner p n (upd_session n f w)" for f
    using assms(2) by (simp add: owner_def get_session_def upd_session_def)
  show ?thesis
    unfolding check_sequence_number_def Let_def
    by (intro outcomes assms(3) queue_resend_R set_state_R map_store_R assms(1)
        process_connection_closure_R [where a = a]) (use o in auto)
qed

lemma rebase:
  assumes "within I R a w" "within I R w w \<Longrightarrow> post r (within I R w)" "\<And>w'. within I R a w' \<Longrightarrow> Q w'"
  shows "post r Q"
proof (rule post_mono)
  show "post r (within I R w)"
    by (rule assms(2)) (use assms(1) in \<open>auto elim: withinE intro: within_start\<close>)
  show "Q w'" if "within I R w w'" for w'
    by (rule assms(3)) (use assms(1) that in \<open>auto simp: within_def intro: R_trans\<close>)
qed

lemma accept_message_R:
  assumes "within I R a w" "owner p n w" "\<And>w'. within I R a w' \<Longrightarrow> Q w'"
  shows "post (accept_message e n p b w) Q"
proof (rule rebase [OF assms(1) _ assms(3)])
  assume w: "within I R w w"
  show "post (accept_message e n p b w) (within I R w)"
    unfolding accept_message_def
    by (intro outcomes check_sequence_number_R [where a = w] process_incoming_throttling_R [where a = w]
        dispatch_message_R [where a = w] step_owner [OF _ assms(2)] map_store_R step_emit step_if w)
qed

lemma note_received_R: "within I R a w \<Longrightarrow> within I R a (note_received e n b w)"
  unfolding note_received_def serialise_incoming_def Let_def
  by (intro step_if steps; (assumption | simp add: session_kept_defs)?)

lemma process_incoming_fix_message_R:
  assumes "within I R a w" "owner p n w" "\<And>w'. within I R a w' \<Longrightarrow> Q w'"
  shows "post (process_incoming_fix_message e n p b c w) Q"
proof (rule rebase [OF assms(1) _ assms(3)])
  assume w: "within I R w w"
  show "post (process_incoming_fix_message e n p b c w) (within I R w)"
    unfolding process_incoming_fix_message_def
    by (intro outcomes accept_message_R [where a = w] send_reject_message_R [where a = w]
        step_owner [OF _ assms(2)] note_received_R steps w) (auto intro: validated_kept)
qed

lemma disable_session_R:
  assumes "within I R a w" "\<And>w'. within I R a w' \<Longrightarrow> Q w'"
  shows "post (disable_session e n w) Q"
  unfolding disable_session_def
  by (intro outcomes process_connection_closure_R [OF assms(1) peer_owner [OF assms(1)]] set_state_R assms)

lemma enable_session_R:
  assumes "within I R a w" "\<And>w'. within I R a w' \<Longrightarrow> Q w'"
  shows "post (enable_session e n w) Q"
proof -
  have "post (reinitialise_outgoing_serialiser e s) (\<lambda>s'. session_wf s \<longrightarrow> session_kept s s')" for s
    unfolding reinitialise_outgoing_serialiser_def by (intro outcomes) (simp add: session_kept_defs)
  then have r: "post (reinitialise_outgoing_serialiser e s) (\<lambda>s'. Q (upd_session n (\<lambda>_. s') w))"
    if "s = set_state DISCONNECTED (m_sessions w n)" for s
    by (rule post_mono) (use that in \<open>auto intro!: assms steps simp: session_kept_defs set_state_def\<close>)
  show ?thesis
    unfolding enable_session_def Let_def
    by (intro outcomes r refl assms steps) (simp add: session_kept_defs set_state_def)
qed

lemma process_admin_command_R:
  assumes "within I R a w" "\<And>w'. within I R a w' \<Longrightarrow> Q w'"
  shows "post (process_admin_command e n c w) Q"
  unfolding process_admin_command_def Let_def
  by (cases "cmd_type c"; simp only: ModifyingAdminCommandType.case;
      intro outcomes assms map_store_R send_sequence_reset_message_R [where a = a] disable_session_R [where a = a]
        enable_session_R [where a = a] step_primary; simp add: assms)

lemma process_admin_commands_R:
  assumes "within I R a w" "\<And>w'. within I R a w' \<Longrightarrow> Q w'"
  shows "post (process_admin_commands e n w) Q"
  unfolding process_admin_commands_def
  by (intro outcomes assms process_admin_command_R [where a = a] steps) (simp add: session_kept_defs)

lemma resend_request_timer_R:
  assumes "within I R a w" "\<And>w'. within I R a w' \<Longrightarrow> Q w'"
  shows "post (process_outgoing_resend_request_if_necessary e n t w) Q"
  unfolding process_outgoing_resend_request_if_necessary_def Let_def
  by (intro outcomes assms process_connection_closure_R [OF assms(1) peer_owner [OF assms(1)]]
      send_resend_request_R [where a = a] steps)
    (simp_all add: session_kept_defs set_state_def)

lemma test_request_timer_R:
  assumes "within I R a w" "\<And>w'. within I R a w' \<Longrightarrow> Q w'"
  shows "post (process_outgoing_test_request_if_necessary e n t w) Q"
proof -
  let ?w = "upd_session n (\<lambda>s. s\<lparr>m_expecting_response_for_outgoing_test_request := False\<rparr>) w"
  have w: "within I R a ?w" by (intro steps assms(1)) (simp add: session_kept_defs)
  have o: "get_peer_index w n = Some p \<Longrightarrow> owner p n ?w" for p
    using peer_owner [OF assms(1)] by (simp add: owner_def get_session_def upd_session_def)
  show ?thesis
    unfolding process_outgoing_test_request_if_necessary_def Let_def
    by (intro outcomes assms process_connection_closure_R [OF w o] send_test_request_R [where a = a] steps)
      (simp_all add: session_kept_defs)
qed

lemma answer_resend_request_R:
  assumes "within I R a w" "\<And>w'. within I R a w' \<Longrightarrow> Q w'"
  shows "post (respond_to_resend_request_if_necessary e n w) Q"
  unfolding respond_to_resend_request_if_necessary_def resend_messages_to_client_def Let_def
  by (rule post_if, rule post_bind, rule postI)
    ((intro outcomes assms resend_loop_R [where a = a] send_gap_fill_message_R [where a = a] steps;
      simp add: session_kept_defs set_state_def), intro outcomes assms)

lemma answer_test_request_R:
  assumes "within I R a w" "\<And>w'. within I R a w' \<Longrightarrow> Q w'"
  shows "post (respond_to_test_request_if_necessary e n w) Q"
  unfolding respond_to_test_request_if_necessary_def Let_def
  by (intro outcomes assms send_heartbeat_R [where a = a] steps)
    (auto intro!: assms(2) step_session simp: session_kept_defs)

lemma heartbeat_timer_R:
  assumes "within I R a w" "\<And>w'. within I R a w' \<Longrightarrow> Q w'"
  shows "post (send_heartbeat_if_necessary e n t w) Q"
  unfolding send_heartbeat_if_necessary_def Let_def by (intro outcomes assms send_heartbeat_R [where a = a]) (simp_all add: assms)

lemma schedule_R:
  assumes "within I R a w" "\<And>w'. within I R a w' \<Longrightarrow> Q w'"
  shows "post (process_schedule_validator e n w) Q"
proof -
  have w: "within I R a (tick w)" by (intro steps assms(1))
  have o: "get_peer_index w n = Some p \<Longrightarrow> owner p n (tick w)" for p
    using peer_owner [OF assms(1)] by (simp add: owner_def get_session_def tick_def)
  show ?thesis
    unfolding process_schedule_validator_def by (intro outcomes assms(2) process_connection_closure_R [OF w o] w)
qed

lemma process_live_session_R:
  assumes "within I R a w" "\<And>w'. within I R a w' \<Longrightarrow> Q w'"
  shows "post (process_live_session e n w) Q"
  unfolding process_live_session_def
  by (intro outcomes assms resend_request_timer_R [where a = a] test_request_timer_R [where a = a]
      answer_resend_request_R [where a = a] answer_test_request_R [where a = a] heartbeat_timer_R [where a = a]
      schedule_R [where a = a] step_tick)

lemma process_one_session_R:
  assumes "within I R a w" "\<And>w'. within I R a w' \<Longrightarrow> Q w'"
  shows "post (process_one_session e n w) Q"
  unfolding process_one_session_def
  by (intro outcomes assms process_admin_commands_R [where a = a] process_live_session_R [where a = a])

lemma push_admin_command_R: "within I R a w \<Longrightarrow> within I R a (push_admin_command_internal n t arg w)"
  unfolding push_admin_command_internal_def by (intro steps) (simp_all add: session_kept_defs)

lemma logout_one_R:
  assumes "within I R a w" "\<And>w'. within I R a w' \<Longrightarrow> Q w'"
  shows "post (do { (ok, w) \<leftarrow> send_logout_message e n '''' w; Some (on_session_disconnected n w) }) Q"
  unfolding on_session_disconnected_def by (intro outcomes assms send_logout_message_R [where a = a] set_state_R)

end

subsection \<open>Handling received bytes of a known session\<close>

locale receiving = serving n I R for n :: string and I :: "server \<Rightarrow> bool" and R :: "server \<Rightarrow> server \<Rightarrow> bool" +
  fixes p :: nat
  assumes prim_keep: "I w \<Longrightarrow> keep_incomplete e p b w = Some w' \<Longrightarrow> R w w'"
    and prim_reset: "I w \<Longrightarrow> map_connector p (\<lambda>c. Some (reset_incomplete_buffer c)) w = Some w' \<Longrightarrow> R w w'"
begin

lemma keep_incomplete_R:
  assumes "within I R a w" "\<And>w'. within I R a w' \<Longrightarrow> Q w'"
  shows "post (keep_incomplete e p b w) Q"
  by (rule postI, rule assms(2), rule within_step [OF assms(1)], rule prim_keep)

lemma reset_incomplete_R:
  assumes "within I R a w" "\<And>w'. within I R a w' \<Longrightarrow> Q w'"
  shows "post (map_connector p (\<lambda>c. Some (reset_incomplete_buffer c)) w) Q"
  by (rule postI, rule assms(2), rule within_step [OF assms(1)], rule prim_reset)

lemma rx_parsed_R:
  assumes "within I R a w" "owner p n w" "\<And>r w'. within I R a w' \<Longrightarrow> (case r of None \<Rightarrow> True | Some (_, m) \<Rightarrow> m = n) \<Longrightarrow> Q (r, w')"
  shows "post (rx_parsed e p b f s n j c w) Q"
  unfolding rx_parsed_def Let_def
  by (intro outcomes process_incoming_fix_message_R [OF assms(1,2)] keep_incomplete_R [where a = a]
      reset_incomplete_R [where a = a] assms(3)) simp_all

lemma store_message_R: "within I R a w \<Longrightarrow> message_wf m \<Longrightarrow> within I R a (store_message (Some n) m w)"
  unfolding store_message_def by (simp, intro step_session) (simp_all add: session_kept_defs)

lemma rx_message_R:
  assumes "within I R a w" "owner p n w"
    "\<And>r w'. within I R a w' \<Longrightarrow> (case r of None \<Rightarrow> True | Some (_, m) \<Rightarrow> m = n) \<Longrightarrow> Q (r, w')"
  shows "post (rx_message e p b f i (Some n) w) Q"
proof -
  have "message_wf (m_incoming_fix_message (m_sessions w n))"
    using assms(1) by (auto elim!: withinE dest: I_session simp: session_wf_def)
  note wf = parse_wf [OF this]
  have parsed: "within I R a (store_message (Some n) (ps_message ps) w)"
    if "parse_message specs b k (m_incoming_fix_message (m_sessions w n)) = Parsed ps j" for specs k ps j
    using wf [of specs b k] that by (intro store_message_R assms(1)) simp
  have partial: "within I R a (store_message (Some n) (ps_message ps) w)"
    if "parse_message specs b k (m_incoming_fix_message (m_sessions w n)) = Incomplete ps" for specs k ps
    using wf [of specs b k] that by (intro store_message_R assms(1)) simp
  have o: "owner p n (store_message (Some n) m w)" for m
    using assms(2) by (simp add: owner_def get_session_def store_message_def upd_session_def)
  have body: "post (case parse_message (e_group_specs e) b k (m_incoming_fix_message (m_sessions w n)) of
        Parsed ps j \<Rightarrow> rx_parsed e p b f k n j (ps_reject_code ps) (store_message (Some n) (ps_message ps) w)
      | Incomplete ps \<Rightarrow> map_option (Pair None) (keep_incomplete e p (drop k b) (store_message (Some n) (ps_message ps) w))
      | Parse_undefined \<Rightarrow> None) Q" for k
    by (rule post_case_parse)
      (rule rx_parsed_R [where a = a] post_map post_None parsed partial o assms(3)
        keep_incomplete_R [where a = a] | assumption | simp)+
  show ?thesis
    unfolding rx_message_def message_to_fill_def session_for_def Let_def
    by (rule post_case_option; (unfold option.case prod.case)?) (simp_all add: post_Some assms(1,3) body)
qed

lemma rx_loop_R:
  assumes "within I R a w" "owner p n w" "\<And>w'. within I R a w' \<Longrightarrow> Q w'"
  shows "post (rx_loop e p b f i (Some n) w) Q"
proof (rule rebase [OF assms(1) _ assms(3)])
  assume start: "within I R w w"
  have "within I R w v \<Longrightarrow> post (rx_loop e p' b f i s v) (within I R w)" if "s = Some n" "p' = p" for v s p'
    using that
  proof (induction e p' b f i s v rule: rx_loop.induct)
    case (1 e p' b f i s v)
    have o: "owner p n v" by (rule step_owner [OF 1(2) assms(2)])
    have *: "post (rx_message e p b f i (Some n) v)
        (\<lambda>(r, w'). within I R w w' \<and> (case r of None \<Rightarrow> True | Some (_, m) \<Rightarrow> m = n))"
      by (rule rx_message_R [OF 1(2) o]) simp
    show ?case
    proof (cases "i < length b")
      case True
      then have "post (rx_loop e p' b f i2 (Some m) w') (within I R w)"
        if "rx_message e p b f i (Some n) v = Some (Some (i2, m), w')" for i2 m w'
        using * 1(1) [of "(Some (i2, m), w')" "Some (i2, m)" w' "(i2, m)" i2 m] that 1(3,4)
        by (simp add: post_def)
      with * True 1(3,4) show ?thesis
        by (subst rx_loop.simps) (auto simp: post_def split: option.splits)
    next
      case False
      then show ?thesis by (subst rx_loop.simps) (simp add: post_None)
    qed
  qed
  with start show "post (rx_loop e p b f i (Some n) w) (within I R w)" by simp
qed

end

end
