(* ===== verification/Server_Consistency.thy ===== *)
theory Server_Consistency
  imports Server_Invariant
begin

text \<open>
  The tables of the server in every reachable state: the two directions between peers and sessions
  agree, a session that has a peer is a known one whose connection is open, every slot of a closed
  connection is clean, and the sessions are well-formed. The interpretations of \<open>serving\<close> and
  \<open>receiving\<close> give at the same time that serving one session leaves all others alone.
\<close>

subsection \<open>Consistent servers\<close>

text \<open>While data of peer \<open>x\<close> is handled, its slot may have been closed and still get bytes of the buffer;
  the end of the handler cleans it again.\<close>

definition slot_clean :: "bool \<Rightarrow> (nat \<rightharpoonup> nat) \<Rightarrow> nat \<Rightarrow> connector \<Rightarrow> bool" where
  "slot_clean current descriptors i c \<longleftrightarrow>
     (case m_socket c of
        None \<Rightarrow> \<not> m_connected c \<and> m_last_receive_result c = 0 \<and> (current \<or> m_incomplete_buffer c = [])
      | Some d \<Rightarrow> m_connected c \<and> descriptors d = Some i)"

definition slots_wf :: "nat option \<Rightarrow> connectors \<Rightarrow> bool" where
  "slots_wf x t \<longleftrightarrow> (\<forall>i < length (m_connectors t).
     slot_clean (x = Some i) (m_descriptor_index_table t) i (m_connectors t ! i))"

definition tables_wf :: "server \<Rightarrow> bool" where
  "tables_wf w \<longleftrightarrow>
     (\<forall>p n. get_session w p = Some n \<longleftrightarrow> get_peer_index w n = Some p) \<and>
     (\<forall>p n. get_session w p = Some n \<longrightarrow> n \<in> set (srv_session_names w) \<and> has_socket w p)"

definition unknown_wf :: "incoming_message \<Rightarrow> bool" where
  "unknown_wf m \<longleftrightarrow> m = new_incoming_message \<or> message_wf m"

definition server_wf :: "nat option \<Rightarrow> server \<Rightarrow> bool" where
  "server_wf x w \<longleftrightarrow> tables_wf w \<and> slots_wf x (srv_connectors w) \<and> unknown_wf (srv_unknown_message w) \<and>
     distinct (srv_session_names w) \<and> (\<forall>n \<in> set (srv_session_names w). session_wf (m_sessions w n))"

lemma slots_wf_None: "slots_wf None t \<Longrightarrow> connectors_wf t"
  by (auto simp: slots_wf_def connectors_wf_def slot_clean_def slot_wf_def option.case_eq_if)

lemma slots_weaken: "slots_wf None t \<Longrightarrow> slots_wf x t"
  by (auto simp: slots_wf_def slot_clean_def option.case_eq_if)

lemma slots_change:
  assumes "slots_wf x t" "slot_clean (x = Some i) (m_descriptor_index_table t) i c"
  shows "slots_wf x (t\<lparr>m_connectors := (m_connectors t)[i := c]\<rparr>)"
  unfolding slots_wf_def
proof (intro allI impI)
  fix j assume "j < length (m_connectors (t\<lparr>m_connectors := (m_connectors t)[i := c]\<rparr>))"
  then show "slot_clean (x = Some j) (m_descriptor_index_table (t\<lparr>m_connectors := (m_connectors t)[i := c]\<rparr>)) j
      (m_connectors (t\<lparr>m_connectors := (m_connectors t)[i := c]\<rparr>) ! j)"
    using assms by (cases "j = i") (simp_all add: slots_wf_def)
qed

lemma server_weaken: "server_wf None w \<Longrightarrow> server_wf x w"
  by (auto simp: server_wf_def intro: slots_weaken)

lemma initialise_unknown:
  assumes "unknown_wf m" "incoming_initialise m = Some m'"
  shows "message_wf m'"
proof (cases "m = new_incoming_message")
  case True
  then show ?thesis using assms(2) by (metis new_message_initialises option.inject)
next
  case False
  then have wf: "message_wf m" using assms(1) by (simp add: unknown_wf_def)
  obtain d where d: "grow 64 (m_dict m) = Some d" "m' = m\<lparr>m_dict := d\<rparr>"
    using assms(2) by (auto simp: incoming_initialise_def dict_initialise_def split: option.splits)
  have dm: "dict_wf (m_dict m)" using wf by (simp add: message_wf_def)
  have room: "length (nodes (m_dict m)) \<le> 64" using grow_overflow [OF dm, of 64] d(1) by (metis not_le option.distinct(1))
  have "dict_wf d" "dict_map d = dict_map (m_dict m)"
    by (rule grow_wf [OF dm room], simp, simp add: d(1))+
  then show ?thesis using wf dm by (simp add: message_wf_def d(2) dict_get_map)
qed

subsection \<open>Serving one session\<close>

text \<open>What serving session \<open>n\<close> may change: its own session and connection, nothing of another session.\<close>

definition spares :: "string \<Rightarrow> server \<Rightarrow> server \<Rightarrow> bool" where
  "spares m w w' \<longleftrightarrow> m_sessions w' m = m_sessions w m \<and> get_peer_index w' m = get_peer_index w m \<and>
     (\<forall>q. get_peer_index w m = Some q \<longrightarrow> m_connectors (srv_connectors w') ! q = m_connectors (srv_connectors w) ! q)"

definition keeps_settings :: "server \<Rightarrow> server \<Rightarrow> bool" where
  "keeps_settings w w' \<longleftrightarrow> (\<forall>m. loaded_settings (m_sessions w' m) = loaded_settings (m_sessions w m))"

definition serves :: "nat option \<Rightarrow> string \<Rightarrow> server \<Rightarrow> server \<Rightarrow> bool" where
  "serves x n w w' \<longleftrightarrow> (server_wf x w \<longrightarrow> server_wf x w') \<and> srv_session_names w' = srv_session_names w \<and>
     keeps_settings w w' \<and>
     (\<forall>m. m \<noteq> n \<longrightarrow> spares m w w') \<and>
     (\<forall>q. get_session w' q = get_session w q \<or> get_session w q = Some n \<and> get_session w' q = None)"

definition served :: "nat option \<Rightarrow> string \<Rightarrow> server \<Rightarrow> bool" where
  "served x n w \<longleftrightarrow> server_wf x w \<and> n \<in> set (srv_session_names w) \<and> (\<forall>p. x = Some p \<longrightarrow> owner p n w)"

lemma spares_refl: "spares m w w"
  by (simp add: spares_def)

lemma spares_trans: "spares m w w' \<Longrightarrow> spares m w' w'' \<Longrightarrow> spares m w w''"
  by (simp add: spares_def)

lemma keeps_settings_refl [simp]: "keeps_settings w w"
  by (simp add: keeps_settings_def)

lemma keeps_settings_trans [trans]: "keeps_settings w w' \<Longrightarrow> keeps_settings w' w'' \<Longrightarrow> keeps_settings w w''"
  by (simp add: keeps_settings_def)

lemma serves_trans: "serves x n w w' \<Longrightarrow> serves x n w' w'' \<Longrightarrow> serves x n w w''"
  unfolding serves_def by (intro conjI; metis spares_trans keeps_settings_trans)

lemma serves_owner: "serves x n w w' \<Longrightarrow> owner p n w \<Longrightarrow> owner p n w'"
  unfolding serves_def owner_def by metis

lemma serves_inv: "served x n w \<Longrightarrow> serves x n w w' \<Longrightarrow> served x n w'"
  unfolding served_def by (metis serves_def serves_owner)

lemmas server_ops = get_session_def get_peer_index_def has_socket_def upd_session_def emit_def tick_def

lemma serves_upd:
  "served x n w \<Longrightarrow> session_kept (m_sessions w n) (f (m_sessions w n)) \<Longrightarrow> serves x n w (upd_session n f w)"
  by (auto simp: serves_def served_def server_wf_def tables_wf_def spares_def keeps_settings_def session_kept_def server_ops)

lemma serves_other:
  assumes "m_sessions w' = m_sessions w" "m_peer_index_session_table w' = m_peer_index_session_table w"
    "m_session_peer_index_table w' = m_session_peer_index_table w" "srv_session_names w' = srv_session_names w"
    "srv_connectors w' = srv_connectors w" "srv_unknown_message w' = srv_unknown_message w"
  shows "serves x n w w'"
  by (simp add: serves_def server_wf_def tables_wf_def spares_def keeps_settings_def has_socket_def get_session_def
      get_peer_index_def assms)

lemma recycled_clean: "slot_clean b descriptors i (connector_close c)"
  by (simp add: slot_clean_def connector_close_def)

text \<open>Closing a connection that belongs to \<open>n\<close> or to nobody.\<close>

lemma disconnect_cases:
  assumes "on_client_disconnected p w = Some w'"
  obtains (unbound) v where "p < length (m_connectors (srv_connectors w))" "get_session w p = None" "w' = v"
      "v = emit (Connection_closed p) (w\<lparr>srv_connectors := (srv_connectors w)\<lparr>m_connectors :=
        (m_connectors (srv_connectors w))[p := connector_close (m_connectors (srv_connectors w) ! p)]\<rparr>\<rparr>)"
  | (bound) v k where "p < length (m_connectors (srv_connectors w))" "get_session w p = Some k"
      "w' = remove_peer p k (on_session_disconnected k v)"
      "v = emit (Connection_closed p) (w\<lparr>srv_connectors := (srv_connectors w)\<lparr>m_connectors :=
        (m_connectors (srv_connectors w))[p := connector_close (m_connectors (srv_connectors w) ! p)]\<rparr>\<rparr>)"
proof -
  have p: "p < length (m_connectors (srv_connectors w))"
    using assms by (auto simp: on_client_disconnected_def transport_on_client_disconnected_def
        recycle_connector_def split: if_splits)
  show ?thesis
  proof (cases "get_session w p")
    case None
    then show ?thesis using assms p
      by (intro unbound) (auto simp: on_client_disconnected_def transport_on_client_disconnected_def
          recycle_connector_def get_session_def emit_def)
  next
    case (Some k)
    then show ?thesis using assms p
      by (intro bound) (auto simp: on_client_disconnected_def transport_on_client_disconnected_def
          recycle_connector_def get_session_def emit_def)
  qed
qed

lemma disconnect_effect:
  assumes "tables_wf w" "on_client_disconnected p w = Some w'"
  shows "p < length (m_connectors (srv_connectors w))"
    "get_session w' q = (if q = p then None else get_session w q)"
    "get_peer_index w' m = (if get_peer_index w m = Some p then None else get_peer_index w m)"
    "srv_session_names w' = srv_session_names w" "srv_unknown_message w' = srv_unknown_message w"
    "srv_connectors w' = (srv_connectors w)\<lparr>m_connectors := (m_connectors (srv_connectors w))[p :=
       connector_close (m_connectors (srv_connectors w) ! p)]\<rparr>"
    "m_sessions w' m = (if get_session w p = Some m then set_state DISCONNECTED (m_sessions w m) else m_sessions w m)"
proof -
  define t where "t = (srv_connectors w)\<lparr>m_connectors := (m_connectors (srv_connectors w))[p :=
       connector_close (m_connectors (srv_connectors w) ! p)]\<rparr>"
  have inv: "get_session w p = Some m \<longleftrightarrow> get_peer_index w m = Some p" for m
    using assms(1) by (simp add: tables_wf_def)
  have "get_session w' q = (if q = p then None else get_session w q) \<and>
    get_peer_index w' m = (if get_peer_index w m = Some p then None else get_peer_index w m) \<and>
    srv_session_names w' = srv_session_names w \<and> srv_unknown_message w' = srv_unknown_message w \<and>
    srv_connectors w' = t \<and>
    m_sessions w' m = (if get_session w p = Some m then set_state DISCONNECTED (m_sessions w m) else m_sessions w m)"
    using assms(2)
  proof (cases rule: disconnect_cases)
    case (unbound v)
    have "get_peer_index w m \<noteq> Some p" using inv [of m] unbound(2) by simp
    then show ?thesis using unbound by (simp add: t_def get_session_def get_peer_index_def emit_def)
  next
    case (bound v k)
    have "get_peer_index w m = Some p \<longleftrightarrow> m = k" using inv [of m] bound(2) by auto
    then show ?thesis using bound
      by (auto simp: t_def get_session_def get_peer_index_def emit_def remove_peer_def on_session_disconnected_def upd_session_def)
  qed
  moreover have "p < length (m_connectors (srv_connectors w))" using assms(2) by (cases rule: disconnect_cases)
  ultimately show "p < length (m_connectors (srv_connectors w))"
    "get_session w' q = (if q = p then None else get_session w q)"
    "get_peer_index w' m = (if get_peer_index w m = Some p then None else get_peer_index w m)"
    "srv_session_names w' = srv_session_names w" "srv_unknown_message w' = srv_unknown_message w"
    "srv_connectors w' = (srv_connectors w)\<lparr>m_connectors := (m_connectors (srv_connectors w))[p :=
       connector_close (m_connectors (srv_connectors w) ! p)]\<rparr>"
    "m_sessions w' m = (if get_session w p = Some m then set_state DISCONNECTED (m_sessions w m) else m_sessions w m)"
    unfolding t_def by blast+
qed

lemma disconnect_keeps_settings:
  assumes "on_client_disconnected p w = Some w'"
  shows "keeps_settings w w'"
  using assms by (cases rule: disconnect_cases)
    (auto simp: keeps_settings_def emit_def remove_peer_def on_session_disconnected_def upd_session_def set_state_def
      loaded_settings_def)

lemma disconnect_wf:
  assumes "server_wf x w" "on_client_disconnected p w = Some w'"
  shows "server_wf x w'"
proof -
  have tw: "tables_wf w" using assms(1) by (simp add: server_wf_def)
  note f = disconnect_effect [OF tw assms(2)]
  have "tables_wf w'"
    using tw unfolding tables_wf_def f(2,3,4) has_socket_def f(6)
    by (simp add: nth_list_update)
  moreover have "slots_wf x (srv_connectors w')"
    unfolding f(6) by (rule slots_change) (use assms(1) in \<open>auto simp: server_wf_def recycled_clean\<close>)
  ultimately show ?thesis
    using assms(1) by (auto simp: server_wf_def f(4,5,7) session_wf_def set_state_def)
qed

lemma disconnect_serves:
  assumes "server_wf x w" "owner p n w" "on_client_disconnected p w = Some w'"
  shows "serves x n w w'"
proof -
  have tw: "tables_wf w" using assms(1) by (simp add: server_wf_def)
  then have inv: "get_session w q = Some m \<longleftrightarrow> get_peer_index w m = Some q" for q m
    by (simp add: tables_wf_def)
  note f = disconnect_effect [OF tw assms(3)]
  have "spares m w w'" if "m \<noteq> n" for m
  proof -
    have "get_session w p \<noteq> Some m" using assms(2) that by (auto simp: owner_def)
    moreover from this have "get_peer_index w m \<noteq> Some p" using inv [of p m] by blast
    ultimately show ?thesis unfolding spares_def f(3,6,7) by auto
  qed
  then show ?thesis
    using disconnect_wf [OF assms(1,3)] disconnect_keeps_settings [OF assms(3)] assms(2)
    by (auto simp: serves_def f(2,4) owner_def)
qed

text \<open>Bytes kept in the slot of \<open>n\<close>'s peer.\<close>

lemma slot_change_wf:
  assumes "server_wf x w" "map_connector p f w = Some w'"
    and "\<And>c c'. f c = Some c' \<Longrightarrow> c = m_connectors (srv_connectors w) ! p \<Longrightarrow>
      slot_clean (x = Some p) (m_descriptor_index_table (srv_connectors w)) p c \<Longrightarrow>
      slot_clean (x = Some p) (m_descriptor_index_table (srv_connectors w)) p c' \<and> m_socket c' = m_socket c"
  shows "server_wf x w'"
proof -
  let ?cs = "m_connectors (srv_connectors w)"
  obtain c where p: "p < length ?cs" "f (?cs ! p) = Some c"
    and w': "w' = w\<lparr>srv_connectors := (srv_connectors w)\<lparr>m_connectors := ?cs[p := c]\<rparr>\<rparr>"
    using assms(2) by (auto simp: map_connector_def Let_def split: if_splits option.splits)
  have s: "slots_wf x (srv_connectors w)" using assms(1) by (simp add: server_wf_def)
  then have c: "slot_clean (x = Some p) (m_descriptor_index_table (srv_connectors w)) p c \<and> m_socket c = m_socket (?cs ! p)"
    by (intro assms(3) [OF p(2) refl]) (simp add: slots_wf_def p(1))
  then have "slots_wf x (srv_connectors w')" unfolding w' by (simp add: slots_change [OF s])
  moreover have "has_socket w' q = has_socket w q" for q
    using c p(1) by (cases "q = p") (simp_all add: w' has_socket_def)
  ultimately show ?thesis
    using assms(1) by (simp add: server_wf_def tables_wf_def w' get_session_def get_peer_index_def)
qed

lemma map_connector_spares:
  assumes "map_connector p f w = Some w'"
  shows "get_peer_index w m \<noteq> Some p \<Longrightarrow> spares m w w'" "srv_session_names w' = srv_session_names w"
    "get_session w' = get_session w" "keeps_settings w w'"
proof -
  let ?cs = "m_connectors (srv_connectors w)"
  obtain c where w': "w' = w\<lparr>srv_connectors := (srv_connectors w)\<lparr>m_connectors := ?cs[p := c]\<rparr>\<rparr>"
    using assms by (auto simp: map_connector_def Let_def split: if_splits option.splits)
  show "get_peer_index w m \<noteq> Some p \<Longrightarrow> spares m w w'" "srv_session_names w' = srv_session_names w"
    "get_session w' = get_session w" "keeps_settings w w'"
    by (auto simp: spares_def keeps_settings_def w' get_peer_index_def get_session_def fun_eq_iff)
qed

lemma slot_change_serves:
  assumes "served (Some p) n w" "map_connector p f w = Some w'"
    and "\<And>c c'. f c = Some c' \<Longrightarrow> \<exists>b. c' = c\<lparr>m_incomplete_buffer := b\<rparr>"
  shows "serves (Some p) n w w'"
proof -
  have wf: "server_wf (Some p) w" and o: "owner p n w" using assms(1) by (simp_all add: served_def)
  have inv: "get_session w q = Some m \<longleftrightarrow> get_peer_index w m = Some q" for q m
    using wf by (simp add: server_wf_def tables_wf_def)
  have "server_wf (Some p) w'"
    by (rule slot_change_wf [OF wf assms(2)]) (use assms(3) in \<open>force simp: slot_clean_def split: option.splits\<close>)
  moreover have "spares m w w'" if "m \<noteq> n" for m
  proof -
    have "get_session w p \<noteq> Some m" using o that by (auto simp: owner_def)
    then show ?thesis using inv [of p m] by (intro map_connector_spares [OF assms(2)]) blast
  qed
  ultimately show ?thesis by (simp add: serves_def map_connector_spares(2-4) [OF assms(2)])
qed

interpretation serve: serving n "served x n" "serves x n" for n x
proof
  fix w w' w'' f ev b p
  show "serves x n w w" by (simp add: serves_def spares_refl)
  show "serves x n w w' \<Longrightarrow> serves x n w' w'' \<Longrightarrow> serves x n w w''" by (rule serves_trans)
  show "served x n w \<Longrightarrow> serves x n w w' \<Longrightarrow> served x n w'" by (rule serves_inv)
  show "served x n w \<Longrightarrow> serves x n w w' \<Longrightarrow> owner p n w \<Longrightarrow> owner p n w'" by (rule serves_owner)
  show "served x n w \<Longrightarrow> get_peer_index w n = Some p \<Longrightarrow> owner p n w"
    by (simp add: served_def server_wf_def tables_wf_def owner_def)
  show "served x n w \<Longrightarrow> session_wf (m_sessions w n)" by (simp add: served_def server_wf_def)
  show "served x n w \<Longrightarrow> session_kept (m_sessions w n) (f (m_sessions w n)) \<Longrightarrow> serves x n w (upd_session n f w)"
    by (rule serves_upd)
  show "serves x n w (emit ev w)" "serves x n w (tick w)" "serves x n w (w\<lparr>srv_sends := srv_sends w + 1\<rparr>)"
    "serves x n w (w\<lparr>m_is_ha_primary := b\<rparr>)"
    by (rule serves_other; simp add: emit_def tick_def)+
  show "served x n w \<Longrightarrow> owner p n w \<Longrightarrow> on_client_disconnected p w = Some w' \<Longrightarrow> serves x n w w'"
    by (rule disconnect_serves) (simp_all add: served_def)
qed

interpretation rx: receiving n "served (Some p) n" "serves (Some p) n" p for n p
proof
  fix w w' e b
  show "served (Some p) n w \<Longrightarrow> keep_incomplete e p b w = Some w' \<Longrightarrow> serves (Some p) n w w'"
    unfolding keep_incomplete_def
    by (erule slot_change_serves) (auto simp: set_incomplete_buffer_def split: if_splits)
  show "served (Some p) n w \<Longrightarrow> map_connector p (\<lambda>c. Some (reset_incomplete_buffer c)) w = Some w' \<Longrightarrow> serves (Some p) n w w'"
    by (erule slot_change_serves) (auto simp: reset_incomplete_buffer_def)
qed

subsection \<open>Binding a connection to a session\<close>

text \<open>What a Logon from a new connection may change: the session it names and its own connection.\<close>

definition admits :: "nat \<Rightarrow> string \<Rightarrow> server \<Rightarrow> server \<Rightarrow> bool" where
  "admits p n w w' \<longleftrightarrow> server_wf (Some p) w' \<and> srv_session_names w' = srv_session_names w \<and>
     n \<in> set (srv_session_names w) \<and> get_session w' p = Some n \<and> keeps_settings w w' \<and>
     (\<forall>m. m \<noteq> n \<longrightarrow> spares m w w')"

lemma update_peer_admits:
  assumes wf: "server_wf (Some p) w" and free: "get_session w p = None" and open_: "has_socket w p"
    and n: "n \<in> set (srv_session_names w)"
  shows "admits p n w (update_peer p n w)"
proof -
  have inv: "get_session w q = Some m \<longleftrightarrow> get_peer_index w m = Some q"
    and names: "get_session w q = Some m \<Longrightarrow> m \<in> set (srv_session_names w) \<and> has_socket w q" for q m
    using wf by (simp_all add: server_wf_def tables_wf_def)
  define w' where "w' = update_peer p n w"
  have s: "get_session w' q = (if q = p then Some n else if get_peer_index w n = Some q then None else get_session w q)" for q
    by (auto simp: w'_def update_peer_def get_session_def get_peer_index_def Let_def split: option.splits)
  have i: "get_peer_index w' m = (if m = n then Some p else get_peer_index w m)" for m
    by (simp add: w'_def update_peer_def get_peer_index_def Let_def)
  have r: "m_sessions w' = m_sessions w" "srv_session_names w' = srv_session_names w"
    "srv_connectors w' = srv_connectors w" "srv_unknown_message w' = srv_unknown_message w" "has_socket w' = has_socket w"
    by (simp_all add: w'_def update_peer_def Let_def has_socket_def fun_eq_iff)
  have "get_session w' q = Some m \<longleftrightarrow> get_peer_index w' m = Some q" for q m
  proof (cases "q = p")
    case True
    have "get_peer_index w m \<noteq> Some p" using inv [of p m] free by simp
    then show ?thesis using True by (auto simp: s i)
  next
    case False
    then show ?thesis using inv [of q m] inv [of q n] by (auto simp: s i)
  qed
  moreover have "m \<in> set (srv_session_names w') \<and> has_socket w' q" if "get_session w' q = Some m" for q m
    using that names [of q m] n open_ by (auto simp: s r split: if_splits)
  ultimately have "server_wf (Some p) w'" using wf by (simp add: server_wf_def tables_wf_def r)
  moreover have "spares m w w'" if "m \<noteq> n" for m using that by (simp add: spares_def i r)
  moreover have "keeps_settings w w'" by (simp add: keeps_settings_def r)
  ultimately show ?thesis using n by (simp add: admits_def s r flip: w'_def)
qed

lemma admits_serves: "admits p n w w' \<Longrightarrow> serves (Some p) n w' w'' \<Longrightarrow> get_session w'' p = Some n \<Longrightarrow> admits p n w w''"
  unfolding admits_def serves_def by (metis spares_trans keeps_settings_trans)

lemma admits_served: "admits p n w w' \<Longrightarrow> served (Some p) n w'"
  by (simp add: admits_def served_def owner_def)

lemma get_session_upd [simp]: "get_session (upd_session n f w) p = get_session w p"
  by (simp add: get_session_def upd_session_def)

lemma bind_session_admits:
  assumes "server_wf (Some p) w" "get_session w p = None" "has_socket w p" "n \<in> set (srv_session_names w)"
    "message_wf message"
  shows "post (bind_session p n message w) (admits p n w)"
proof -
  define w1 where "w1 = update_peer p n w"
  have a: "admits p n w w1" unfolding w1_def by (rule update_peer_admits [OF assms(1-4)])
  note start = serve.within_start [OF admits_served [OF a]]
  have upd: "admits p n w (upd_session n f v)"
    if "admits p n w v" "session_wf (m_sessions v n) \<Longrightarrow> session_kept (m_sessions v n) (f (m_sessions v n))" for f v
    using that(1) by (rule admits_serves)
      (use that in \<open>auto intro!: serves_upd admits_served simp: admits_def server_wf_def\<close>)
  have flags: "session_wf s \<Longrightarrow> session_kept s (reset_flags s)" for s
    by (simp add: reset_flags_def session_kept_defs)
  have w2: "admits p n w (upd_session n reset_flags w1)" by (rule upd [OF a]) (rule flags)
  then have "message_wf (m_incoming_fix_message (m_sessions (upd_session n reset_flags w1) n))"
    by (simp add: admits_def server_wf_def session_wf_def)
  then have im: "message_wf im" if "copy_non_dirty_tag_values_from message
      (reset_message (m_incoming_fix_message (m_sessions (upd_session n reset_flags w1) n))) = Some im" for im
    using copy_non_dirty_view [OF assms(5) reset_message_wf(1)] that by (metis option.inject)
  show ?thesis
    unfolding bind_session_def Let_def w1_def [symmetric]
    by (rule post_bind, rule postI, rule post_Some)
      (auto intro!: upd w2 simp: session_kept_defs set_state_def map_store_def intro: im)
qed

definition leaves_all :: "nat \<Rightarrow> server \<Rightarrow> server \<Rightarrow> bool" where
  "leaves_all p w w' \<longleftrightarrow> server_wf (Some p) w' \<and> srv_session_names w' = srv_session_names w \<and> keeps_settings w w' \<and>
     (\<forall>m. spares m w w')"

lemma disconnect_leaves_all:
  assumes "server_wf (Some p) w" "get_session w p = None" "on_client_disconnected p w = Some w'"
  shows "leaves_all p w w'"
proof -
  have "serves (Some p) n w w'" for n by (rule disconnect_serves) (use assms in \<open>simp_all add: owner_def\<close>)
  then show ?thesis
    using assms(1) disconnect_wf [OF assms(1,3)] unfolding leaves_all_def serves_def by (metis list.distinct(1))
qed

lemma leaves_all_tick: "leaves_all p (tick w) w' \<Longrightarrow> leaves_all p w w'"
  by (simp add: leaves_all_def spares_def keeps_settings_def tick_def get_peer_index_def)

lemma admits_tick: "admits p n (tick w) w' \<Longrightarrow> admits p n w w'"
  by (simp add: admits_def spares_def keeps_settings_def tick_def get_peer_index_def)

lemma server_wf_tick [simp]: "server_wf x (tick w) \<longleftrightarrow> server_wf x w"
  by (simp add: server_wf_def tables_wf_def server_ops)

lemma tick_tables [simp]: "get_session (tick w) p = get_session w p" "has_socket (tick w) p = has_socket w p"
    "srv_session_names (tick w) = srv_session_names w" "m_sessions (tick w) = m_sessions w"
  by (simp_all add: server_ops)

lemma found_session:
  "find_session w bs sender target = Some n \<Longrightarrow> n \<in> set (srv_session_names w) \<and>
     sender_comp_id (m_settings (m_sessions w n)) = sender \<and>
     target_comp_id (m_settings (m_sessions w n)) = target \<and> begin_string (m_settings (m_sessions w n)) = bs"
  by (auto simp: find_session_def find_Some_iff)

lemma accept_session_outcome:
  assumes "server_wf (Some p) w" "get_session w p = None" "has_socket w p" "message_wf message"
  shows "post (accept_session e p message code w) (\<lambda>(r, w'). case r of
      None \<Rightarrow> leaves_all p w w'
    | Some n \<Rightarrow> admits p n w w' \<and> \<not> is_state_live (m_state (m_sessions w n)))"
proof -
  have invalid: "post (map_option (Pair None) (process_invalid_logon e p v)) (\<lambda>(r, w'). case r of
      None \<Rightarrow> leaves_all p w w'
    | Some n \<Rightarrow> admits p n w w' \<and> \<not> is_state_live (m_state (m_sessions w n)))" if "v \<in> {w, tick w}" for v
    unfolding process_invalid_logon_def process_connection_closure_def close_connection_def
    by (rule post_map, rule postI)
      (use that assms(1,2) in \<open>auto dest!: disconnect_leaves_all [rotated 2] intro: leaves_all_tick\<close>)
  have bind: "post (map_option (Pair (Some n)) (bind_session p n message (tick w))) (\<lambda>(r, w'). case r of
      None \<Rightarrow> leaves_all p w w'
    | Some n \<Rightarrow> admits p n w w' \<and> \<not> is_state_live (m_state (m_sessions w n)))"
    if "n \<in> set (srv_session_names w)" "\<not> is_state_live (m_state (m_sessions w n))" for n
    by (rule post_map, rule post_mono [OF bind_session_admits]) (use assms that in \<open>auto intro: admits_tick\<close>)
  show ?thesis
    unfolding accept_session_def Let_def
    by (intro post_if invalid post_case_option bind) (auto dest: found_session)
qed

subsection \<open>Data of one connection\<close>

text \<open>Handling data of peer \<open>p\<close> touches at most one session: the peer's own, or, for a peer that has none,
  a session that is not live.\<close>

definition touches :: "nat \<Rightarrow> string option \<Rightarrow> server \<Rightarrow> server \<Rightarrow> bool" where
  "touches p s w w' \<longleftrightarrow> server_wf (Some p) w' \<and> srv_session_names w' = srv_session_names w \<and>
     keeps_settings w w' \<and> (\<forall>m. s \<noteq> Some m \<longrightarrow> spares m w w')"

definition may_touch :: "nat \<Rightarrow> server \<Rightarrow> string option \<Rightarrow> bool" where
  "may_touch p w s \<longleftrightarrow> (case get_session w p of
       Some n \<Rightarrow> s = Some n
     | None \<Rightarrow> (case s of None \<Rightarrow> True | Some n \<Rightarrow> \<not> is_state_live (m_state (m_sessions w n))))"

definition handles :: "nat \<Rightarrow> server \<Rightarrow> server \<Rightarrow> bool" where
  "handles p w w' \<longleftrightarrow> (\<exists>s. may_touch p w s \<and> touches p s w w')"

lemma serves_handles:
  assumes "get_session w p = Some n" "server_wf (Some p) w" "serves (Some p) n w w'"
  shows "handles p w w'"
  using assms unfolding handles_def touches_def may_touch_def serves_def
  by (intro exI [of _ "Some n"]) auto

lemma admits_handles:
  assumes "admits p n w w'" "get_session w p = None" "\<not> is_state_live (m_state (m_sessions w n))"
    "serves (Some p) n w' w''"
  shows "handles p w w''"
proof -
  have "server_wf (Some p) w''" "srv_session_names w'' = srv_session_names w" "keeps_settings w w''"
    using assms(1,4) by (auto simp: admits_def serves_def intro: keeps_settings_trans)
  moreover have "spares m w w''" if "m \<noteq> n" for m
    using assms(1,4) that unfolding admits_def serves_def by (metis spares_trans)
  ultimately show ?thesis
    unfolding handles_def touches_def may_touch_def by (intro exI [of _ "Some n"]) (simp add: assms(2,3))
qed

lemma leaves_all_handles: "leaves_all p w w' \<Longrightarrow> handles p w w'"
  unfolding handles_def touches_def may_touch_def leaves_all_def
  by (intro exI [of _ "get_session w p"]) (simp split: option.splits)

lemma handles_refl: "server_wf (Some p) w \<Longrightarrow> handles p w w"
  by (rule leaves_all_handles) (simp add: leaves_all_def spares_refl)

lemma bound_served: "server_wf (Some p) w \<Longrightarrow> get_session w p = Some n \<Longrightarrow> served (Some p) n w"
  by (auto simp: served_def owner_def server_wf_def tables_wf_def)

lemma keep_handles:
  assumes "server_wf (Some p) w" "keep_incomplete e p b w = Some w'"
  shows "handles p w w'"
proof (cases "get_session w p")
  case (Some n)
  show ?thesis
    by (rule serves_handles [OF Some assms(1)]) (rule rx.prim_keep [OF bound_served [OF assms(1) Some] assms(2)])
next
  case None
  have wf: "server_wf (Some p) w'"
    by (rule slot_change_wf [OF assms(1) assms(2) [unfolded keep_incomplete_def]])
      (auto simp: set_incomplete_buffer_def slot_clean_def split: if_splits option.splits)
  have inv: "get_session w p = Some m \<longleftrightarrow> get_peer_index w m = Some p" for m
    using assms(1) by (simp add: server_wf_def tables_wf_def)
  have "get_peer_index w m \<noteq> Some p" for m using None inv [of m] by simp
  then have "spares m w w'" for m by (rule map_connector_spares [OF assms(2) [unfolded keep_incomplete_def]])
  then show ?thesis
    using wf map_connector_spares(2,4) [OF assms(2) [unfolded keep_incomplete_def]]
    by (intro leaves_all_handles) (simp add: leaves_all_def)
qed

text \<open>The scanner's message for a peer without a session.\<close>

definition with_unknown :: "incoming_message \<Rightarrow> server \<Rightarrow> server" where
  "with_unknown m w = w\<lparr>srv_unknown_message := m\<rparr>"

lemma with_unknown_wf: "server_wf x w \<Longrightarrow> message_wf m \<Longrightarrow> server_wf x (with_unknown m w)"
  by (simp add: server_wf_def tables_wf_def with_unknown_def unknown_wf_def get_session_def get_peer_index_def has_socket_def)

lemma with_unknown_tables [simp]: "get_session (with_unknown m w) p = get_session w p"
    "has_socket (with_unknown m w) p = has_socket w p" "m_sessions (with_unknown m w) = m_sessions w"
  by (simp_all add: with_unknown_def get_session_def has_socket_def)

lemma with_unknown_relations [simp]: "handles p (with_unknown m w) w' \<longleftrightarrow> handles p w w'"
    "admits p n (with_unknown m w) w' \<longleftrightarrow> admits p n w w'" "leaves_all p (with_unknown m w) w' \<longleftrightarrow> leaves_all p w w'"
  by (simp_all add: with_unknown_def handles_def touches_def may_touch_def admits_def leaves_all_def spares_def keeps_settings_def
      get_session_def get_peer_index_def cong: option.case_cong)

lemma rx_message_unbound:
  assumes wf: "server_wf (Some p) w" and free: "get_session w p = None" and open_: "has_socket w p"
  shows "post (rx_message e p b f i None w) (\<lambda>(r, w'). case r of None \<Rightarrow> handles p w w'
    | Some (_, n) \<Rightarrow> \<not> is_state_live (m_state (m_sessions w n)) \<and>
        (\<exists>v. admits p n w v \<and> within (served (Some p) n) (serves (Some p) n) v w'))"
proof -
  define Q where "Q = (\<lambda>(r :: (nat \<times> string) option, w'). case r of None \<Rightarrow> handles p w w'
    | Some (_, n) \<Rightarrow> \<not> is_state_live (m_state (m_sessions w n)) \<and>
        (\<exists>v. admits p n w v \<and> within (served (Some p) n) (serves (Some p) n) v w'))"
  have stop: "Q (None, w') \<longleftrightarrow> handles p w w'" for w' by (simp add: Q_def)
  have partial: "post (map_option (Pair None) (keep_incomplete e p c (with_unknown m w))) Q" if "message_wf m" for c m
    by (rule post_map, rule postI)
      (use keep_handles [OF with_unknown_wf [OF wf that]] in \<open>simp add: stop\<close>)
  have parsed: "post (case accept_session e p m code (with_unknown m w) of None \<Rightarrow> None
      | Some (None, w) \<Rightarrow> Some (None, w)
      | Some (Some n, w) \<Rightarrow> rx_parsed e p b f k n j code w) Q" if m: "message_wf m" for m code k j
  proof -
    note out = accept_session_outcome [OF with_unknown_wf [OF wf m], of m e code] 
    have next_: "Q r" if "admits p n w v" "\<not> is_state_live (m_state (m_sessions w n))"
      "rx_parsed e p b f k n j code v = Some r" for n v r
    proof (rule postD [OF rx.rx_parsed_R [OF serve.within_start [OF admits_served [OF that(1)]]] that(3)])
      show "owner p n v" using that(1) by (simp add: owner_def admits_def)
      fix r :: "(nat \<times> string) option" and w' assume "within (served (Some p) n) (serves (Some p) n) v w'"
        "case r of None \<Rightarrow> True | Some (_, m) \<Rightarrow> m = n"
      with that(1,2) show "Q (r, w')"
        by (auto simp: Q_def within_def intro: admits_handles [OF that(1) free that(2)] split: option.splits)
    qed
    with out free open_ m show ?thesis
      by (auto simp: post_def stop leaves_all_handles split: option.splits)
  qed
  have unk: "unknown_wf (srv_unknown_message w)" using wf by (simp add: server_wf_def)
  have body: "post (case parse_message (e_group_specs e) b k im of
        Parsed ps j \<Rightarrow> (case accept_session e p (ps_message ps) (ps_reject_code ps) (with_unknown (ps_message ps) w) of
            None \<Rightarrow> None
          | Some (None, w) \<Rightarrow> Some (None, w)
          | Some (Some n, w) \<Rightarrow> rx_parsed e p b f k n j (ps_reject_code ps) w)
      | Incomplete ps \<Rightarrow> map_option (Pair None) (keep_incomplete e p (drop k b) (with_unknown (ps_message ps) w))
      | Parse_undefined \<Rightarrow> None) Q" if "incoming_initialise (srv_unknown_message w) = Some im" for k im
    using parse_wf [OF initialise_unknown [OF unk that], of "e_group_specs e" b k]
    by (intro post_case_parse parsed partial post_None) simp_all
  show ?thesis
    unfolding Q_def [symmetric] rx_message_def message_to_fill_def session_for_def store_message_def Let_def
      with_unknown_def [symmetric]
    by (rule post_case_option; (unfold option.case prod.case)?)
      (auto simp: post_Some post_None stop handles_refl wf intro!: body post_case_option)
qed

lemma rx_loop_handles:
  assumes wf: "server_wf (Some p) w" and open_: "has_socket w p"
  shows "post (rx_loop e p b f i (get_session w p) w) (handles p w)"
proof (cases "get_session w p")
  case (Some n)
  have "post (rx_loop e p b f i (Some n) w) (handles p w)"
    by (rule rx.rx_loop_R [OF serve.within_start [OF bound_served [OF wf Some]]])
      (simp_all add: owner_def Some within_def serves_handles [OF Some wf])
  then show ?thesis by (simp add: Some)
next
  case None
  have next_: "post (rx_loop e p b f k (Some n) v') (handles p w)"
    if "admits p n w v" "\<not> is_state_live (m_state (m_sessions w n))"
      "within (served (Some p) n) (serves (Some p) n) v v'" for n v v' k
  proof (rule rx.rx_loop_R [OF that(3)])
    show "owner p n v'" by (rule serve.step_owner [OF that(3)]) (use that(1) in \<open>simp add: owner_def admits_def\<close>)
    show "handles p w w'" if "within (served (Some p) n) (serves (Some p) n) v w'" for w'
      by (rule admits_handles [OF \<open>admits p n w v\<close> None \<open>\<not> is_state_live _\<close>]) (use that in \<open>simp add: within_def\<close>)
  qed
  from rx_message_unbound [OF wf None open_, of e b f i] show ?thesis
    unfolding None by (subst rx_loop.simps) (auto simp: post_def [of "rx_message _ _ _ _ _ _ _"] post_None post_Some
        split: option.splits intro: next_)
qed

lemma process_rx_buffer_handles:
  assumes "server_wf (Some p) w" "has_socket w p"
  shows "post (process_rx_buffer e p b w) (handles p w)"
proof -
  have "post (keep_incomplete e p b w) (handles p w)"
    by (rule postI) (rule keep_handles [OF assms(1)])
  then show ?thesis
    unfolding process_rx_buffer_def
    by (intro post_if post_case_option post_case_prod) (auto split: option.splits intro: rx_loop_handles [OF assms])
qed

text \<open>The end of the handler leaves no bytes in a closed slot.\<close>

definition handled :: "nat \<Rightarrow> server \<Rightarrow> server \<Rightarrow> bool" where
  "handled p w w' \<longleftrightarrow> server_wf None w' \<and> handles p w w'"

lemma open_slot_wf: "server_wf (Some p) w \<Longrightarrow> (p < length (m_connectors (srv_connectors w)) \<Longrightarrow>
    m_last_receive_result (m_connectors (srv_connectors w) ! p) \<noteq> 0 \<or> m_incomplete_buffer (m_connectors (srv_connectors w) ! p) = []) \<Longrightarrow>
    server_wf None w"
  by (auto simp: server_wf_def slots_wf_def slot_clean_def split: option.splits)

lemma receive_done_handled:
  assumes "server_wf (Some p) w" "handles p w v"
  shows "post (receive_done p lost v) (handled p w)"
proof (rule postI)
  fix w' assume d: "receive_done p lost v = Some w'"
  obtain s where s: "may_touch p w s" "touches p s w v" using assms(2) by (auto simp: handles_def)
  then have wf: "server_wf (Some p) v" by (simp add: touches_def)
  let ?c = "m_connectors (srv_connectors v) ! p"
  show "handled p w w'"
  proof (cases "0 < m_last_receive_result ?c \<or> m_last_receive_result ?c \<noteq> 0 \<and> \<not> lost")
    case True
    then have "w' = v" using d by (auto simp: receive_done_def Let_def split: if_splits)
    then show ?thesis using True assms(2) open_slot_wf [OF wf] by (auto simp: handled_def)
  next
    case False
    then have c: "on_client_disconnected p v = Some w'"
      using d by (auto simp: receive_done_def Let_def split: if_splits)
    have tw: "tables_wf v" using wf by (simp add: server_wf_def)
    note eff = disconnect_effect [OF tw c] and wf' = disconnect_wf [OF wf c]
    have clean: "server_wf None w'" by (rule open_slot_wf [OF wf']) (simp add: eff(1,6) connector_close_def)
    have "spares m w w'" if "s \<noteq> Some m" for m
    proof -
      have m: "spares m w v" using s(2) that by (simp add: touches_def)
      have "get_peer_index v m \<noteq> Some p"
      proof
        assume "get_peer_index v m = Some p"
        with m have "get_peer_index w m = Some p" by (simp add: spares_def)
        with assms(1) have "get_session w p = Some m" by (simp add: server_wf_def tables_wf_def)
        with s(1) that show False by (simp add: may_touch_def)
      qed
      moreover from this have "get_session v p \<noteq> Some m" using tw by (simp add: tables_wf_def)
      ultimately have "spares m v w'" unfolding spares_def eff(3,6,7) by auto
      with m show ?thesis by (rule spares_trans)
    qed
    moreover have "keeps_settings w w'"
      using s(2) disconnect_keeps_settings [OF c] by (auto simp: touches_def intro: keeps_settings_trans)
    ultimately have "touches p s w w'" using s(2) wf' by (simp add: touches_def eff(4))
    with s(1) clean show ?thesis by (auto simp: handled_def handles_def)
  qed
qed

lemma get_session_receive: "map_connector p f w = Some w' \<Longrightarrow> m_sessions w' = m_sessions w"
  by (auto simp: map_connector_def Let_def split: if_splits option.splits)

lemma on_data_ready_handled:
  assumes wf: "server_wf None w" and open_: "has_socket w p"
  shows "post (on_data_ready e p result data lost w) (\<lambda>w'. server_wf None w' \<and> srv_session_names w' = srv_session_names w \<and>
    keeps_settings w w' \<and> (\<exists>s. may_touch p w s \<and> (\<forall>m. s \<noteq> Some m \<longrightarrow> get_peer_index w m \<noteq> Some p \<longrightarrow> spares m w w')))"
proof (rule postI)
  fix w' assume "on_data_ready e p result data lost w = Some w'"
  then obtain v where v: "map_connector p (\<lambda>c. Some (receive result data c)) w = Some v"
    and rest: "(if 0 < result \<and> result \<le> int (e_rx_buffer_capacity e) then
        (case get_rx_buffer (e_rx_buffer_capacity e) (m_connectors (srv_connectors v) ! p) of
           None \<Rightarrow> None
         | Some buffer \<Rightarrow> if buffer \<noteq> [] then process_rx_buffer e p buffer v else Some v)
      else Some v) \<bind> receive_done p lost = Some w'"
    by (auto simp: on_data_ready_def bind_eq_Some_conv)
  note r = map_connector_spares [OF v] get_session_receive [OF v]
  have sock: "has_socket v p"
    using open_ v by (auto simp: has_socket_def map_connector_def receive_def Let_def split: if_splits)
  have wfv: "server_wf (Some p) v"
    by (rule slot_change_wf [OF server_weaken [OF wf] v])
      (use open_ in \<open>auto simp: has_socket_def receive_def slot_clean_def split: option.splits\<close>)
  have "post (if 0 < result \<and> result \<le> int (e_rx_buffer_capacity e) then
        (case get_rx_buffer (e_rx_buffer_capacity e) (m_connectors (srv_connectors v) ! p) of
           None \<Rightarrow> None
         | Some buffer \<Rightarrow> if buffer \<noteq> [] then process_rx_buffer e p buffer v else Some v)
      else Some v) (handles p v)"
    by (intro post_if post_case_option post_None post_Some process_rx_buffer_handles wfv sock handles_refl)
  then have "post ((if 0 < result \<and> result \<le> int (e_rx_buffer_capacity e) then
        (case get_rx_buffer (e_rx_buffer_capacity e) (m_connectors (srv_connectors v) ! p) of
           None \<Rightarrow> None
         | Some buffer \<Rightarrow> if buffer \<noteq> [] then process_rx_buffer e p buffer v else Some v)
      else Some v) \<bind> receive_done p lost) (handled p v)"
    by (intro post_bind) (erule post_mono, rule receive_done_handled [OF wfv])
  from postD [OF this rest] have h: "handled p v w'" .
  show "server_wf None w' \<and> srv_session_names w' = srv_session_names w \<and>
    keeps_settings w w' \<and> (\<exists>s. may_touch p w s \<and> (\<forall>m. s \<noteq> Some m \<longrightarrow> get_peer_index w m \<noteq> Some p \<longrightarrow> spares m w w'))"
  proof -
    obtain s where s: "may_touch p v s" "touches p s v w'" and "server_wf None w'"
      using h by (auto simp: handled_def handles_def)
    moreover have "may_touch p w s" using s(1) unfolding may_touch_def r(3,5) .
    ultimately show ?thesis using r(1,2,4) unfolding touches_def by (metis spares_trans keeps_settings_trans)
  qed
qed

subsection \<open>Turns, connections and commands\<close>

lemma for_each_session_wf:
  assumes "server_wf None w" "set ns \<subseteq> set (srv_session_names w)"
    and "\<And>n v. n \<in> set (srv_session_names w) \<Longrightarrow> within (served None n) (serves None n) v v \<Longrightarrow>
      post (f n v) (within (served None n) (serves None n) v)"
  shows "post (for_each_session f ns w) (\<lambda>w'. server_wf None w' \<and> srv_session_names w' = srv_session_names w \<and>
    keeps_settings w w')"
  using assms
proof (induction ns arbitrary: w)
  case (Cons n ns)
  have n: "n \<in> set (srv_session_names w)" using Cons.prems(2) by simp
  have "served None n w" using Cons.prems(1) n by (simp add: served_def)
  then have "post (f n w) (within (served None n) (serves None n) w)"
    by (intro Cons.prems(3) n serve.within_start)
  then show ?case
    unfolding for_each_session.simps
  proof (intro post_bind, elim post_mono)
    fix w' assume "within (served None n) (serves None n) w w'"
    then have w': "server_wf None w'" "srv_session_names w' = srv_session_names w" "keeps_settings w w'"
      using Cons.prems(1) by (simp_all add: within_def serves_def)
    have "post (for_each_session f ns w') (\<lambda>v. server_wf None v \<and> srv_session_names v = srv_session_names w' \<and>
        keeps_settings w' v)"
      by (rule Cons.IH) (use w' Cons.prems in simp_all)
    then show "post (for_each_session f ns w') (\<lambda>v. server_wf None v \<and> srv_session_names v = srv_session_names w \<and>
        keeps_settings w v)"
      by (elim post_mono) (use w'(2,3) in \<open>auto intro: keeps_settings_trans\<close>)
  qed
qed (simp add: post_Some)

lemma process_wf:
  assumes "server_wf None w"
  shows "post (process e w) (\<lambda>w'. server_wf None w' \<and> srv_session_names w' = srv_session_names w \<and> keeps_settings w w')"
  unfolding process_def send_logout_messages_to_all_sessions_def
  by (intro post_if for_each_session_wf assms subset_refl serve.process_one_session_R serve.logout_one_R post_Some
      keeps_settings_refl)

lemma accept_new_connection_wf:
  assumes "server_wf None w" "desc \<notin> open_descriptors (srv_connectors w)"
  shows "server_wf None (snd (accept_new_connection desc w))"
proof -
  let ?cs = "m_connectors (srv_connectors w)"
  obtain i t where a: "add_connector desc (srv_connectors w) = (i, t)" by force
  have s: "slots_wf None (srv_connectors w)" using assms(1) by (simp add: server_wf_def)
  note t = add_connector_wf [OF slots_wf_None [OF s] assms(2) a]
  have len: "length ?cs \<le> length (m_connectors t)"
    using a by (auto simp: add_connector_def Let_def split: option.splits)
  have old: "j < length ?cs" if "j < length (m_connectors t)" "j \<noteq> i" for j
    using a that by (auto simp: add_connector_def Let_def split: option.splits)
  have same: "m_connectors t ! j = ?cs ! j \<and> j < length ?cs" if "j < length (m_connectors t)" "j \<noteq> i" for j
    using old [OF that] t(6) that(2) by blast
  have "slot_clean (None = Some j) (m_descriptor_index_table t) j (m_connectors t ! j)"
    if j: "j < length (m_connectors t)" for j
  proof (cases "m_socket (m_connectors t ! j)")
    case (Some d)
    then show ?thesis using t(1) j by (auto simp: connectors_wf_def slot_wf_def slot_clean_def)
  next
    case None
    then have "j \<noteq> i" using t(3) by auto
    from same [OF j this] None show ?thesis
      using s unfolding slots_wf_def slot_clean_def by (auto split: option.splits)
  qed
  then have slots: "slots_wf None t" by (simp add: slots_wf_def)
  have sock: "has_socket w q \<Longrightarrow> has_socket (w\<lparr>srv_connectors := t\<rparr>) q" for q
    using t(2,3,6) len by (cases "q = i") (auto simp: has_socket_def)
  show ?thesis
    using assms(1) slots sock
    by (auto simp: accept_new_connection_def a server_wf_def tables_wf_def get_session_def get_peer_index_def)
qed

lemma upd_session_wf:
  assumes "server_wf None w" "n \<in> set (srv_session_names w) \<Longrightarrow> session_wf (m_sessions w n) \<Longrightarrow> session_wf (f (m_sessions w n))"
  shows "server_wf None (upd_session n f w)"
  using assms by (auto simp: server_wf_def tables_wf_def server_ops)

lemma push_admin_command_wf:
  assumes "server_wf None w"
  shows "server_wf None (push_admin_command n t arg w)"
proof -
  have one: "server_wf None (push_admin_command_internal m t arg v)" if "server_wf None v" for m v
    unfolding push_admin_command_internal_def by (rule upd_session_wf [OF that]) (simp add: session_wf_def)
  then have "server_wf None (fold (\<lambda>n. push_admin_command_internal n t arg) ns v)" if "server_wf None v" for ns v
    using that by (induction ns arbitrary: v) auto
  with one assms show ?thesis by (simp add: push_admin_command_def)
qed

lemma internal_add_session_wf:
  assumes "server_wf None w"
  shows "post (internal_add_session e env n st w) (\<lambda>(ok, w'). server_wf None w')"
proof -
  have "server_wf None ((upd_session n (\<lambda>_. s) w)\<lparr>srv_session_names := srv_session_names w @ [n]\<rparr>)"
    if "session_wf s" "\<not> has_session w n" for s
    using that assms by (auto simp: server_wf_def tables_wf_def server_ops has_session_def)
  moreover have "post (disable_session e n v) (server_wf None)"
    if "server_wf None v" "m_state (m_sessions v n) = DISCONNECTED" for v
    using that by (auto simp: disable_session_def post_Some session_wf_def set_state_def intro!: post_Some upd_session_wf)
  ultimately show ?thesis
    unfolding internal_add_session_def Let_def
    by (intro post_rules) (use assms session_initialise_wf in \<open>auto simp: upd_session_def elim!: post_mono\<close>)
qed

lemma server_step_wf: "server_step e w w' \<Longrightarrow> server_wf None w \<Longrightarrow> server_wf None w'"
proof (induction rule: server_step.induct)
  case (turn w w')
  from postD [OF process_wf [OF turn(2)] turn(1)] show ?case by simp
next
  case (data w p data result lost w')
  from postD [OF on_data_ready_handled [OF data(4,1)] data(3)] show ?case by blast
next
  case (accept desc w)
  then show ?case by (intro accept_new_connection_wf)
next
  case (stop w)
  then show ?case
    by (simp add: server_wf_def tables_wf_def get_session_def get_peer_index_def has_socket_def)
qed (simp_all add: push_admin_command_wf)

text \<open>No step loads a session or changes what a session was loaded with.\<close>

lemma push_keeps_settings:
  "srv_session_names (push_admin_command n t arg w) = srv_session_names w \<and>
   keeps_settings w (push_admin_command n t arg w)"
proof -
  have one: "srv_session_names (push_admin_command_internal m t arg v) = srv_session_names v \<and>
      keeps_settings v (push_admin_command_internal m t arg v)" for m v
    by (simp add: push_admin_command_internal_def upd_session_def keeps_settings_def loaded_settings_def)
  have "srv_session_names (fold (\<lambda>n. push_admin_command_internal n t arg) ns v) = srv_session_names v \<and>
      keeps_settings v (fold (\<lambda>n. push_admin_command_internal n t arg) ns v)" for ns v
    by (induction ns arbitrary: v) (use one in \<open>auto intro: keeps_settings_trans\<close>)
  with one show ?thesis by (simp add: push_admin_command_def)
qed

lemma server_step_keeps:
  "server_step e w w' \<Longrightarrow> server_wf None w \<Longrightarrow> srv_session_names w' = srv_session_names w \<and> keeps_settings w w'"
proof (induction rule: server_step.induct)
  case (turn w w')
  from postD [OF process_wf [OF turn(2)] turn(1)] show ?case by simp
next
  case (data w p data result lost w')
  from postD [OF on_data_ready_handled [OF data(4,1)] data(3)] show ?case by blast
next
  case (accept desc w)
  then show ?case by (simp add: accept_new_connection_def keeps_settings_def split: prod.splits)
next
  case (stop w)
  then show ?case by (simp add: keeps_settings_def)
qed (simp_all add: push_keeps_settings)

end
