(* ===== verification/Server_Properties.thy ===== *)
theory Server_Properties
  imports Server_Consistency
begin

text \<open>
  The properties of the server as a whole: its tables in every reachable state, and the isolation of its
  sessions from each other.
\<close>

subsection \<open>Reachable states\<close>

text \<open>\<open>blank\<close> is what the function \<open>m_sessions\<close> gives for names that are not loaded.\<close>

definition new_server :: "server_environment \<Rightarrow> session \<Rightarrow> server" where
  "new_server e blank =
     \<lparr>srv_session_names = [], m_sessions = (\<lambda>_. blank), m_peer_index_session_table = Map.empty,
      m_session_peer_index_table = Map.empty, m_is_ha_primary = e_starts_as_primary_instance e,
      m_is_stopping = False, srv_connectors = \<lparr>m_connectors = [], m_descriptor_index_table = Map.empty\<rparr>,
      srv_unknown_message = new_incoming_message, srv_clock_reads = 0, srv_sends = 0, srv_trace = []\<rparr>"

inductive server_reachable :: "server_environment \<Rightarrow> server \<Rightarrow> bool" for e :: server_environment where
  created: "server_reachable e (new_server e blank)"
| loaded: "server_reachable e w \<Longrightarrow> internal_add_session e env n st w = Some (ok, w') \<Longrightarrow> server_reachable e w'"
| stepped: "server_reachable e w \<Longrightarrow> server_step e w w' \<Longrightarrow> server_reachable e w'"

lemma reachable_wf: "server_reachable e w \<Longrightarrow> server_wf None w"
proof (induction rule: server_reachable.induct)
  case created
  show ?case
    by (simp add: server_wf_def tables_wf_def slots_wf_def new_server_def get_session_def get_peer_index_def unknown_wf_def)
next
  case (loaded w env n st ok w')
  from postD [OF internal_add_session_wf [OF loaded(3)] loaded(2)] show ?case by simp
next
  case (stepped w w')
  then show ?case by (auto intro: server_step_wf)
qed

text \<open>C1: in every reachable state of the server the two tables between peers and sessions are inverse to each
  other, a peer that has a session has an open connection and the session is one of the server's, every
  slot is found by its descriptor and a closed one holds no bytes of its last connection, session names
  are distinct and every session's message store and throttler are well-formed.\<close>

theorem reachable_server_consistent:
  assumes "server_reachable e w"
  shows "(\<forall>p n. get_session w p = Some n \<longleftrightarrow> get_peer_index w n = Some p) \<and>
    (\<forall>p. case get_session w p of None \<Rightarrow> True | Some n \<Rightarrow> has_session w n \<and> has_socket w p) \<and>
    connectors_wf (srv_connectors w) \<and> distinct (srv_session_names w) \<and>
    list_all (\<lambda>n. session_wf (m_sessions w n)) (srv_session_names w)"
  using reachable_wf [OF assms]
  by (auto simp: server_wf_def tables_wf_def has_session_def list_all_iff intro: slots_wf_None split: option.splits)

subsection \<open>A sample server\<close>

definition sample_server_environment :: server_environment where
  "sample_server_environment =
     \<lparr>e_monotonic = (\<lambda>k. of_nat k), e_wall = (\<lambda>_. 0), e_send = (\<lambda>_. SendOk), e_authenticate = (\<lambda>_ _. True),
      e_group_specs = no_group_specs, e_has_persist_plugin = False, e_rx_buffer_capacity = 4096,
      e_outgoing_folder = (\<lambda>_. None), e_starts_as_primary_instance = True,
      e_refresh_resend_cache_during_promotion = False, e_tx_encode_buffer_capacity = 4096\<rparr>"

definition open_slot :: "nat \<Rightarrow> connector" where
  "open_slot desc = new_connector\<lparr>m_connected := True, m_socket := Some desc\<rparr>"

text \<open>A live session on the first of two connections, and a disabled one that is to be enabled.\<close>

definition two_connections :: "incoming_message \<Rightarrow> server" where
  "two_connections im =
     \<lparr>srv_session_names = [''A'', ''B''],
      m_sessions = (\<lambda>n. if n = ''A'' then (new_session sample_environment)\<lparr>m_incoming_fix_message := im, m_state := LOGGED_ON\<rparr>
        else (new_session sample_environment)\<lparr>m_incoming_fix_message := im, m_state := DISABLED,
               m_admin_commands := [\<lparr>cmd_type = ENABLE_SESSION, cmd_arg = 0\<rparr>]\<rparr>),
      m_peer_index_session_table = [0 \<mapsto> ''A''], m_session_peer_index_table = [''A'' \<mapsto> 0],
      m_is_ha_primary = True, m_is_stopping = False,
      srv_connectors = \<lparr>m_connectors = [open_slot 7, open_slot 9], m_descriptor_index_table = [7 \<mapsto> 0, 9 \<mapsto> 1]\<rparr>,
      srv_unknown_message = new_incoming_message, srv_clock_reads = 0, srv_sends = 0, srv_trace = []\<rparr>"

lemma two_connections_wf: "message_wf im \<Longrightarrow> server_wf None (two_connections im)"
  by (auto simp: server_wf_def tables_wf_def two_connections_def get_session_def get_peer_index_def has_socket_def
      slots_wf_def slot_clean_def open_slot_def new_connector_def unknown_wf_def session_wf_def new_session_def
      default_session_settings_def less_Suc_eq)

lemma sample_message_exists: "\<exists>im. message_wf im"
  using new_message_initialises by metis

theorem reachable_server_consistent_witness:
  "\<exists>w. connectors_wf (srv_connectors w) \<and> length (m_connectors (srv_connectors w)) = 1 \<and> has_socket w 0 \<and>
    server_reachable sample_server_environment w"
proof -
  let ?w0 = "new_server sample_server_environment (new_session sample_environment)"
  let ?w = "snd (accept_new_connection 7 ?w0)"
  have "server_reachable sample_server_environment ?w"
    by (rule stepped [OF created accept]) (simp add: open_descriptors_def new_server_def)
  moreover have "length (m_connectors (srv_connectors ?w)) = 1" "has_socket ?w 0"
    by (simp_all add: accept_new_connection_def add_connector_def new_server_def has_socket_def Let_def)
  ultimately show ?thesis using reachable_server_consistent by blast
qed

subsection \<open>Isolation\<close>

text \<open>C5: whatever arrives on a connection (garbage, a Logon for another session, a message that closes the
  connection), a live session of another connection is untouched: its state, sequence numbers and
  everything else of it, its binding, and its connection with the bytes kept for it.\<close>

theorem data_spares_other_connections:
  assumes "server_wf None w" "has_socket w p" "on_data_ready e p result data lost w = Some w'"
    and "get_peer_index w m = Some q" "q \<noteq> p" "is_state_live (m_state (m_sessions w m))"
  shows "m_sessions w' m = m_sessions w m \<and> get_peer_index w' m = Some q \<and> get_session w' q = Some m \<and>
    m_connectors (srv_connectors w') ! q = m_connectors (srv_connectors w) ! q"
proof -
  obtain s where s: "may_touch p w s" "\<forall>m. s \<noteq> Some m \<longrightarrow> get_peer_index w m \<noteq> Some p \<longrightarrow> spares m w w'"
    and wf: "server_wf None w'"
    using postD [OF on_data_ready_handled [OF assms(1,2)] assms(3)] by blast
  have "get_session w p \<noteq> Some m" using assms(1,4,5) by (auto simp: server_wf_def tables_wf_def)
  then have "s \<noteq> Some m" using s(1) assms(6) by (auto simp: may_touch_def split: option.splits)
  with s(2) assms(4,5) have "spares m w w'" by auto
  with assms(4) wf show ?thesis by (simp add: spares_def server_wf_def tables_wf_def)
qed

theorem data_spares_other_connections_witness:
  "\<exists>im w'. on_data_ready sample_server_environment 1 1 ''8'' False (two_connections im) = Some w' \<and>
    m_sessions w' ''A'' = m_sessions (two_connections im) ''A'' \<and> get_session w' 0 = Some ''A'' \<and>
    m_incomplete_buffer (m_connectors (srv_connectors w') ! 1) = ''8''"
proof -
  obtain im where im: "message_wf im" using sample_message_exists by blast
  obtain w' where w': "on_data_ready sample_server_environment 1 1 ''8'' False (two_connections im) = Some w'"
    "m_incomplete_buffer (m_connectors (srv_connectors w') ! 1) = ''8''"
    by (simp add: on_data_ready_def map_connector_def two_connections_def receive_def get_rx_buffer_def
        open_slot_def new_connector_def sample_server_environment_def process_rx_buffer_def
        MINIMUM_REQUIRED_INITIAL_BUFFER_FOR_PARSING_def keep_incomplete_def set_incomplete_buffer_def receive_done_def Let_def)
  have "m_sessions w' ''A'' = m_sessions (two_connections im) ''A'' \<and> get_peer_index w' ''A'' = Some 0 \<and>
    get_session w' 0 = Some ''A'' \<and>
    m_connectors (srv_connectors w') ! 0 = m_connectors (srv_connectors (two_connections im)) ! 0"
    by (rule data_spares_other_connections [OF two_connections_wf [OF im] _ w'(1)])
      (simp_all add: two_connections_def has_socket_def open_slot_def get_peer_index_def)
  with w' show ?thesis by blast
qed

text \<open>A turn of one session (its administrative command, its timers, everything it sends, even the loss of
  its connection) leaves every other session untouched, together with its binding and its connection.\<close>

theorem turn_spares_other_sessions:
  assumes "server_wf None w" "has_session w n" "process_one_session e n w = Some w'" "m \<noteq> n"
  shows "m_sessions w' m = m_sessions w m \<and> get_peer_index w' m = get_peer_index w m \<and>
    (case get_peer_index w m of None \<Rightarrow> True
     | Some q \<Rightarrow> m_connectors (srv_connectors w') ! q = m_connectors (srv_connectors w) ! q)"
proof -
  have "served None n w" using assms(1,2) by (simp add: served_def has_session_def)
  then have "post (process_one_session e n w) (within (served None n) (serves None n) w)"
    by (intro serve.process_one_session_R) (simp_all add: serve.within_start)
  from postD [OF this assms(3)] assms(4) show ?thesis
    by (auto simp: within_def serves_def spares_def split: option.splits)
qed

theorem turn_spares_other_sessions_witness:
  "\<exists>im w'. process_one_session sample_server_environment ''B'' (two_connections im) = Some w' \<and>
    m_sessions w' ''A'' = m_sessions (two_connections im) ''A'' \<and> m_state (m_sessions w' ''B'') = DISCONNECTED"
proof -
  obtain im where im: "message_wf im" using sample_message_exists by blast
  obtain w' where w': "process_one_session sample_server_environment ''B'' (two_connections im) = Some w'"
    "m_state (m_sessions w' ''B'') = DISCONNECTED"
    by (simp add: process_one_session_def process_admin_commands_def process_admin_command_def enable_session_def
        two_connections_def upd_session_def set_state_def sample_server_environment_def)
  have "m_sessions w' ''A'' = m_sessions (two_connections im) ''A'' \<and>
    get_peer_index w' ''A'' = get_peer_index (two_connections im) ''A'' \<and>
    (case get_peer_index (two_connections im) ''A'' of None \<Rightarrow> True
     | Some q \<Rightarrow> m_connectors (srv_connectors w') ! q = m_connectors (srv_connectors (two_connections im)) ! q)"
    by (rule turn_spares_other_sessions [OF two_connections_wf [OF im] _ w'(1)])
      (simp_all add: two_connections_def has_session_def)
  with w' show ?thesis by blast
qed

end
