(* ===== verification/Server_Behaviour.thy ===== *)
theory Server_Behaviour
  imports Server_Properties
begin

text \<open>
  What single operations of the server do: whom a Logon from a new connection reaches, which number and
  bytes an outgoing message has, and which incoming messages are delivered.
\<close>

subsection \<open>Admission of a new connection\<close>

definition requests_logon :: "incoming_message \<Rightarrow> bool" where
  "requests_logon message \<longleftrightarrow>
     list_all (has_tag message) [TAG_BEGIN_STRING, TAG_MSG_SEQ_NUM, TAG_SENDER_COMP_ID, TAG_TARGET_COMP_ID, TAG_MSG_TYPE] \<and>
     tag_char message TAG_MSG_TYPE = MSG_TYPE_LOGON"

definition addressed_to :: "incoming_message \<Rightarrow> session_settings \<Rightarrow> bool" where
  "addressed_to message st \<longleftrightarrow> sender_comp_id st = tag_value message TAG_TARGET_COMP_ID \<and>
     target_comp_id st = tag_value message TAG_SENDER_COMP_ID \<and> begin_string st = tag_value message TAG_BEGIN_STRING"

lemma trace_tick [simp]: "srv_trace (tick w) = srv_trace w"
  by (simp add: tick_def)

lemma invalid_logon_closes:
  assumes "process_invalid_logon e p v = Some w'" "get_session v p = None"
  shows "m_sessions w' = m_sessions v \<and> get_session w' = get_session v \<and> get_peer_index w' = get_peer_index v \<and>
    \<not> has_socket w' p \<and> (\<forall>q. q \<noteq> p \<longrightarrow> has_socket w' q = has_socket v q) \<and> srv_trace w' = srv_trace v @ [Connection_closed p]"
  using assms
  by (auto simp: process_invalid_logon_def process_connection_closure_def close_connection_def
      on_client_disconnected_def transport_on_client_disconnected_def recycle_connector_def has_socket_def
      connector_close_def server_ops split: if_splits)

lemma bind_session_effect:
  assumes "bind_session p n message w = Some w'"
  shows "m_state (m_sessions w' n) = PENDING_LOGON" "get_session w' p = Some n" "get_peer_index w' n = Some p"
    "m_settings (m_sessions w' n) = m_settings (m_sessions w n)" "srv_trace w' = srv_trace w"
    "m_sequence_store (m_sessions w' n) =
       (if has_tag message TAG_RESET_SEQ_NUM_FLAG \<and> tag_char message TAG_RESET_SEQ_NUM_FLAG = CHR ''Y''
        then reset_numbers (m_sequence_store (m_sessions w n)) else m_sequence_store (m_sessions w n))"
    "\<forall>m. m \<noteq> n \<longrightarrow> m_sessions w' m = m_sessions w m \<and> get_peer_index w' m = get_peer_index w m"
    "\<forall>q. q \<noteq> p \<longrightarrow> get_session w' q = (if get_peer_index w n = Some q then None else get_session w q)"
    "srv_connectors w' = srv_connectors w"
proof -
  obtain im where w': "w' = upd_session n (set_state PENDING_LOGON)
      (if has_tag message TAG_RESET_SEQ_NUM_FLAG \<and> tag_char message TAG_RESET_SEQ_NUM_FLAG = CHR ''Y''
       then upd_session n (map_store reset_numbers)
         (upd_session n (\<lambda>s. s\<lparr>m_incoming_fix_message := im\<rparr>) (upd_session n reset_flags (update_peer p n w)))
       else upd_session n (\<lambda>s. s\<lparr>m_incoming_fix_message := im\<rparr>) (upd_session n reset_flags (update_peer p n w)))"
    using assms unfolding bind_session_def Let_def bind_eq_Some_conv by blast
  show "m_state (m_sessions w' n) = PENDING_LOGON" "get_session w' p = Some n" "get_peer_index w' n = Some p"
    "m_settings (m_sessions w' n) = m_settings (m_sessions w n)" "srv_trace w' = srv_trace w"
    "m_sequence_store (m_sessions w' n) =
       (if has_tag message TAG_RESET_SEQ_NUM_FLAG \<and> tag_char message TAG_RESET_SEQ_NUM_FLAG = CHR ''Y''
        then reset_numbers (m_sequence_store (m_sessions w n)) else m_sequence_store (m_sessions w n))"
    "\<forall>m. m \<noteq> n \<longrightarrow> m_sessions w' m = m_sessions w m \<and> get_peer_index w' m = get_peer_index w m"
    "\<forall>q. q \<noteq> p \<longrightarrow> get_session w' q = (if get_peer_index w n = Some q then None else get_session w q)"
    "srv_connectors w' = srv_connectors w"
    by (simp_all add: w' upd_session_def update_peer_def get_session_def get_peer_index_def
        set_state_def map_store_def reset_flags_def Let_def split: option.split)
qed


lemma message_with_fields: "\<exists>m. message_wf m \<and> message_view m = map_of fs"
proof (induction fs)
  case Nil
  show ?case by (rule new_message_initialises) auto
next
  case (Cons tv fs)
  then obtain m where m: "message_wf m" "message_view m = map_of fs" by blast
  obtain t v where tv: "tv = (t, v)" by (cases tv)
  show ?case by (rule set_tag_wf [OF m(1), of t v]) (auto simp: m(2) tv)
qed

text \<open>A session that waits for its counterparty, and the Logon it waits for.\<close>

definition waiting_server :: "incoming_message \<Rightarrow> server" where
  "waiting_server im =
     upd_session ''B'' (\<lambda>s. s\<lparr>m_state := DISCONNECTED, m_settings := (m_settings s)
         \<lparr>begin_string := ''FIX.4.4'', sender_comp_id := ''SRV'', target_comp_id := ''CLI''\<rparr>\<rparr>)
       (two_connections im)"

definition logon_fields :: "(u32 \<times> string) list" where
  "logon_fields = [(TAG_BEGIN_STRING, ''FIX.4.4''), (TAG_MSG_SEQ_NUM, ''1''), (TAG_SENDER_COMP_ID, ''CLI''),
     (TAG_TARGET_COMP_ID, ''SRV''), (TAG_MSG_TYPE, ''A''), (TAG_ENCRYPT_METHOD, ''0''), (TAG_HEART_BT_INT, ''30'')]"


subsection \<open>Sending\<close>

lemma disconnect_keeps_books:
  assumes "on_client_disconnected p w = Some w'"
  shows "m_sequence_store (m_sessions w' n) = m_sequence_store (m_sessions w n)"
    "m_outgoing_fix_message (m_sessions w' n) = m_outgoing_fix_message (m_sessions w n)"
    "m_settings (m_sessions w' n) = m_settings (m_sessions w n)"
    "srv_trace w' = srv_trace w @ [Connection_closed p]" "srv_sends w' = srv_sends w"
proof -
  have "m_sequence_store (m_sessions w' n) = m_sequence_store (m_sessions w n) \<and>
    m_outgoing_fix_message (m_sessions w' n) = m_outgoing_fix_message (m_sessions w n) \<and>
    m_settings (m_sessions w' n) = m_settings (m_sessions w n) \<and>
    srv_trace w' = srv_trace w @ [Connection_closed p] \<and> srv_sends w' = srv_sends w"
    using assms
  proof (cases rule: disconnect_cases)
    case (unbound v)
    then show ?thesis by (simp add: emit_def)
  next
    case (bound v k)
    then show ?thesis
      by (simp add: emit_def upd_session_def on_session_disconnected_def remove_peer_def)
  qed
  then show "m_sequence_store (m_sessions w' n) = m_sequence_store (m_sessions w n)"
    "m_outgoing_fix_message (m_sessions w' n) = m_outgoing_fix_message (m_sessions w n)"
    "m_settings (m_sessions w' n) = m_settings (m_sessions w n)"
    "srv_trace w' = srv_trace w @ [Connection_closed p]" "srv_sends w' = srv_sends w" by simp_all
qed

lemma transport_send_effect:
  assumes "transport_send e p n buffer w = Some (ok, w')"
  shows "ok \<longleftrightarrow> e_send e (srv_sends w) = SendOk"
    "m_sequence_store (m_sessions w' n) = m_sequence_store (m_sessions w n)"
    "m_outgoing_fix_message (m_sessions w' n) = m_outgoing_fix_message (m_sessions w n)"
    "m_settings (m_sessions w' n) = m_settings (m_sessions w n)" "srv_sends w' = srv_sends w + 1"
    "srv_trace w' = srv_trace w @ Sent p n buffer (e_send e (srv_sends w)) #
       (if e_send e (srv_sends w) = SendLost then [Connection_closed p] else [])"
proof -
  define v where "v = emit (Sent p n buffer (e_send e (srv_sends w))) (w\<lparr>srv_sends := srv_sends w + 1\<rparr>)"
  have v: "m_sessions v = m_sessions w" "srv_sends v = srv_sends w + 1"
    "srv_trace v = srv_trace w @ [Sent p n buffer (e_send e (srv_sends w))]"
    by (simp_all add: v_def emit_def)
  consider (lost) "e_send e (srv_sends w) = SendLost" "\<not> ok" "on_client_disconnected p v = Some w'"
    | (kept) "e_send e (srv_sends w) \<noteq> SendLost" "ok \<longleftrightarrow> e_send e (srv_sends w) = SendOk" "w' = v"
    using assms by (auto simp: transport_send_def Let_def bind_eq_Some_conv v_def split: if_splits)
  then have "(ok \<longleftrightarrow> e_send e (srv_sends w) = SendOk) \<and>
    m_sequence_store (m_sessions w' n) = m_sequence_store (m_sessions w n) \<and>
    m_outgoing_fix_message (m_sessions w' n) = m_outgoing_fix_message (m_sessions w n) \<and>
    m_settings (m_sessions w' n) = m_settings (m_sessions w n) \<and> srv_sends w' = srv_sends w + 1 \<and>
    srv_trace w' = srv_trace w @ Sent p n buffer (e_send e (srv_sends w)) #
       (if e_send e (srv_sends w) = SendLost then [Connection_closed p] else [])"
  proof cases
    case lost
    show ?thesis unfolding disconnect_keeps_books [OF lost(3)] by (simp add: lost(1,2) v)
  next
    case kept
    then show ?thesis by (simp add: v)
  qed
  then show "ok \<longleftrightarrow> e_send e (srv_sends w) = SendOk"
    "m_sequence_store (m_sessions w' n) = m_sequence_store (m_sessions w n)"
    "m_outgoing_fix_message (m_sessions w' n) = m_outgoing_fix_message (m_sessions w n)"
    "m_settings (m_sessions w' n) = m_settings (m_sessions w n)" "srv_sends w' = srv_sends w + 1"
    "srv_trace w' = srv_trace w @ Sent p n buffer (e_send e (srv_sends w)) #
       (if e_send e (srv_sends w) = SendLost then [Connection_closed p] else [])" by blast+
qed

lemma serialise_outgoing_effect [simp]:
  "m_sequence_store (m_sessions (serialise_outgoing e n b ok w) k) = m_sequence_store (m_sessions w k)"
  "m_outgoing_fix_message (m_sessions (serialise_outgoing e n b ok w) k) = m_outgoing_fix_message (m_sessions w k)"
  "m_settings (m_sessions (serialise_outgoing e n b ok w) k) = m_settings (m_sessions w k)"
  "srv_trace (serialise_outgoing e n b ok w) = srv_trace w" "srv_sends (serialise_outgoing e n b ok w) = srv_sends w"
  by (auto simp: serialise_outgoing_def upd_session_def tick_def)

lemma send_bytes_effect:
  assumes "get_peer_index w n = Some p" "send_bytes e inc n buffer w = Some (ok, w')"
  shows "ok \<longleftrightarrow> e_send e (srv_sends w) = SendOk"
    "m_sequence_store (m_sessions w' n) =
       (if inc \<and> ok then increment_outgoing_seq_no (m_sequence_store (m_sessions w n)) else m_sequence_store (m_sessions w n))"
    "srv_trace w' = srv_trace w @ Sent p n buffer (e_send e (srv_sends w)) #
       (if e_send e (srv_sends w) = SendLost then [Connection_closed p] else []) @
       (if e_has_persist_plugin e then [Persist_outgoing n (session_outgoing_seq_no (m_sessions w' n)) buffer ok] else [])"
    "srv_sends w' = srv_sends w + 1" "m_outgoing_fix_message (m_sessions w' n) = m_outgoing_fix_message (m_sessions w n)"
    "m_settings (m_sessions w' n) = m_settings (m_sessions w n)"
proof -
  obtain v where v: "transport_send e p n buffer w = Some (ok, v)"
    and w': "w' = (let w = (if inc \<and> ok then upd_session n (map_store increment_outgoing_seq_no) v else v);
            w = serialise_outgoing e n buffer ok w;
            w = (if e_has_persist_plugin e then
                       emit (Persist_outgoing n (session_outgoing_seq_no (m_sessions w n)) buffer ok) w
                     else w)
        in tick (upd_session n (\<lambda>s. s\<lparr>m_last_sent_message_timestamp_nanoseconds := now_monotonic e w\<rparr>) w))"
    using assms by (auto simp: send_bytes_def bind_eq_Some_conv Let_def)
  note v = transport_send_effect [OF v]
  show "ok \<longleftrightarrow> e_send e (srv_sends w) = SendOk" by (rule v(1))
  show "m_sequence_store (m_sessions w' n) =
       (if inc \<and> ok then increment_outgoing_seq_no (m_sequence_store (m_sessions w n)) else m_sequence_store (m_sessions w n))"
    "srv_trace w' = srv_trace w @ Sent p n buffer (e_send e (srv_sends w)) #
       (if e_send e (srv_sends w) = SendLost then [Connection_closed p] else []) @
       (if e_has_persist_plugin e then [Persist_outgoing n (session_outgoing_seq_no (m_sessions w' n)) buffer ok] else [])"
    "srv_sends w' = srv_sends w + 1" "m_outgoing_fix_message (m_sessions w' n) = m_outgoing_fix_message (m_sessions w n)"
    "m_settings (m_sessions w' n) = m_settings (m_sessions w n)"
    by (simp_all add: w' Let_def upd_session_def emit_def tick_def map_store_def v(2-6))
qed

lemma encode_outgoing_effect:
  assumes "encode_outgoing e n k w = Some (buffer, w')"
  shows "buffer = fst (encode (m_settings (m_sessions w n)) (session_incoming_seq_no (m_sessions w n)) (now_wall e w) k
      (m_outgoing_fix_message (m_sessions w n)))"
    "m_sequence_store (m_sessions w' n) = m_sequence_store (m_sessions w n)" "srv_trace w' = srv_trace w"
    "srv_sends w' = srv_sends w" "get_peer_index w' m = get_peer_index w m"
    "m_settings (m_sessions w' n) = m_settings (m_sessions w n)"
  using assms
  by (auto simp: encode_outgoing_def Let_def upd_session_def tick_def get_peer_index_def split: prod.splits if_splits)

text \<open>A message that fits the encode buffer of a connected session is always sent or refused.\<close>

lemma disconnect_defined: "p < length (m_connectors (srv_connectors w)) \<Longrightarrow> \<exists>w'. on_client_disconnected p w = Some w'"
  by (auto simp: on_client_disconnected_def transport_on_client_disconnected_def recycle_connector_def split: option.splits)

lemma send_bytes_defined:
  assumes "get_peer_index w n = Some p" "has_socket w p"
  shows "\<exists>ok w'. send_bytes e inc n buffer w = Some (ok, w')"
proof -
  have "p < length (m_connectors (srv_connectors (emit ev (w\<lparr>srv_sends := k\<rparr>))))" for ev k
    using assms(2) by (simp add: emit_def has_socket_def)
  from disconnect_defined [OF this] have "\<exists>ok v. transport_send e p n buffer w = Some (ok, v)"
    using assms(2) by (auto simp: transport_send_def Let_def bind_eq_Some_conv)
  then show ?thesis using assms(1) by (auto simp: send_bytes_def Let_def)
qed

lemma send_outgoing_message_defined:
  assumes "get_peer_index w n = Some p" "has_socket w p"
    "length (fst (encode (m_settings (m_sessions w n)) (session_incoming_seq_no (m_sessions w n)) (now_wall e w)
       (session_outgoing_seq_no (m_sessions w n) + 1) (m_outgoing_fix_message (m_sessions w n)))) \<le> e_tx_encode_buffer_capacity e"
  shows "\<exists>ok w'. send_outgoing_message e n w = Some (ok, w')"
proof -
  have "\<exists>b v. encode_outgoing e n (session_outgoing_seq_no (m_sessions w n) + 1) w = Some (b, v)"
    using assms(3) by (auto simp: encode_outgoing_def Let_def split: prod.splits)
  then obtain b v where v: "encode_outgoing e n (session_outgoing_seq_no (m_sessions w n) + 1) w = Some (b, v)" by blast
  have "get_peer_index v n = Some p" "has_socket v p"
    using assms(1,2) v
    by (auto simp: encode_outgoing_def Let_def upd_session_def tick_def has_socket_def get_peer_index_def split: prod.splits if_splits)
  from send_bytes_defined [OF this] v show ?thesis by (simp add: send_outgoing_message_def)
qed

text \<open>C7: a message the server sends for a session carries the number after the last one; exactly these bytes go
  out on the connection of the session, and the stored number advances exactly when the transport took all
  of them: a failed send leaves its number to the next message, and a lost connection is closed.\<close>

theorem outgoing_message_numbering:
  assumes "get_peer_index w n = Some p" "send_outgoing_message e n w = Some (ok, w')"
  shows "let s = m_sessions w n;
      buffer = fst (encode (m_settings s) (session_incoming_seq_no s) (now_wall e w) (session_outgoing_seq_no s + 1)
        (m_outgoing_fix_message s));
      r = e_send e (srv_sends w);
      next = (if ok then session_outgoing_seq_no s + 1 else session_outgoing_seq_no s)
    in (ok \<longleftrightarrow> r = SendOk) \<and> session_outgoing_seq_no (m_sessions w' n) = next \<and>
      session_incoming_seq_no (m_sessions w' n) = session_incoming_seq_no s \<and>
      srv_trace w' = srv_trace w @ Sent p n buffer r # (if r = SendLost then [Connection_closed p] else []) @
        (if e_has_persist_plugin e then [Persist_outgoing n next buffer ok] else [])"
proof -
  obtain buffer v where v: "encode_outgoing e n (session_outgoing_seq_no (m_sessions w n) + 1) w = Some (buffer, v)"
    "send_bytes e True n buffer v = Some (ok, w')"
    using assms(2) by (auto simp: send_outgoing_message_def bind_eq_Some_conv)
  note enc = encode_outgoing_effect [OF v(1)]
  have "get_peer_index v n = Some p" using assms(1) by (simp add: enc(5))
  note snd = send_bytes_effect [OF this v(2)]
  show ?thesis
    unfolding Let_def snd(3) enc(1) [symmetric] using snd(1,2)
    by (simp add: enc increment_outgoing_seq_no_def)
qed

theorem outgoing_message_numbering_witness:
  "\<exists>e im w'. send_outgoing_message e ''A'' (two_connections im) = Some (True, w') \<and>
    session_outgoing_seq_no (m_sessions w' ''A'') = 1 \<and> length (srv_trace w') = 1"
proof -
  obtain im where im: "message_wf im" using sample_message_exists by blast
  let ?w = "two_connections im"
  define e where "e = sample_server_environment\<lparr>e_tx_encode_buffer_capacity :=
    length (fst (encode (m_settings (m_sessions ?w ''A'')) 0 0 1 (m_outgoing_fix_message (m_sessions ?w ''A''))))\<rparr>"
  have p: "get_peer_index ?w ''A'' = Some 0" by (simp add: two_connections_def get_peer_index_def)
  have "\<exists>ok w'. send_outgoing_message e ''A'' ?w = Some (ok, w')"
    by (rule send_outgoing_message_defined [OF p])
      (simp_all add: e_def two_connections_def has_socket_def open_slot_def sample_server_environment_def now_wall_def new_session_def)
  then obtain ok w' where w': "send_outgoing_message e ''A'' ?w = Some (ok, w')" by blast
  have "e_send e k = SendOk" "\<not> e_has_persist_plugin e" for k by (simp_all add: e_def sample_server_environment_def)
  moreover have "session_outgoing_seq_no (m_sessions ?w ''A'') = 0" "srv_trace ?w = []"
    by (simp_all add: two_connections_def new_session_def)
  ultimately show ?thesis
    using outgoing_message_numbering [OF p w'] w'
    by (intro exI [of _ e] exI [of _ im] exI [of _ w']) (auto simp: Let_def)
qed

subsection \<open>Sequence numbers of received messages\<close>

text \<open>Nothing is handed to the application between two states.\<close>

definition is_callback :: "event \<Rightarrow> bool" where
  "is_callback ev \<longleftrightarrow> (case ev of Callback _ _ \<Rightarrow> True | _ \<Rightarrow> False)"

definition quiet :: "server \<Rightarrow> server \<Rightarrow> bool" where
  "quiet w w' \<longleftrightarrow> (\<exists>evs. srv_trace w' = srv_trace w @ evs \<and> list_all (Not \<circ> is_callback) evs)"

lemma quiet_refl: "srv_trace w' = srv_trace w \<Longrightarrow> quiet w w'"
  by (simp add: quiet_def)

lemma quiet_trans: "quiet w w' \<Longrightarrow> quiet w' w'' \<Longrightarrow> quiet w w''"
  by (auto simp: quiet_def)

lemma quiet_step: "srv_trace w' = srv_trace w @ evs \<Longrightarrow> list_all (Not \<circ> is_callback) evs \<Longrightarrow> quiet w w'"
  by (auto simp: quiet_def)

lemma send_outgoing_quiet:
  assumes "send_outgoing_message e n w = Some (ok, w')"
  shows "quiet w w'" "session_incoming_seq_no (m_sessions w' n) = session_incoming_seq_no (m_sessions w n)"
proof -
  obtain b v where v: "encode_outgoing e n (session_outgoing_seq_no (m_sessions w n) + 1) w = Some (b, v)"
    "send_bytes e True n b v = Some (ok, w')"
    using assms by (auto simp: send_outgoing_message_def bind_eq_Some_conv)
  note enc = encode_outgoing_effect [OF v(1)]
  have "quiet v w' \<and> session_incoming_seq_no (m_sessions w' n) = session_incoming_seq_no (m_sessions v n)"
  proof (cases "get_peer_index v n")
    case None
    then show ?thesis using v(2) by (auto simp: send_bytes_def quiet_refl)
  next
    case (Some p)
    note snd = send_bytes_effect [OF Some v(2)]
    have "quiet v w'" by (rule quiet_step [OF snd(3)]) (simp add: is_callback_def)
    then show ?thesis using snd(2) by (simp add: increment_outgoing_seq_no_def)
  qed
  then show "quiet w w'" "session_incoming_seq_no (m_sessions w' n) = session_incoming_seq_no (m_sessions w n)"
    using quiet_trans [OF quiet_refl [OF enc(3)]] enc(2) by auto
qed

lemma closure_quiet:
  assumes "process_connection_closure e (Some p) send_logout t w = Some w'" "get_session w p = Some n"
  shows "quiet w w' \<and> session_incoming_seq_no (m_sessions w' n) = session_incoming_seq_no (m_sessions w n) \<and> \<not> has_socket w' p"
proof -
  obtain v where v: "quiet w v" "session_incoming_seq_no (m_sessions v n) = session_incoming_seq_no (m_sessions w n)"
    and d: "on_client_disconnected p v = Some w'"
  proof (cases send_logout)
    case True
    then obtain ok v where "send_outgoing_message e n (build n (build_logout_message t) w) = Some (ok, v)"
      "on_client_disconnected p v = Some w'"
      using assms by (auto simp: process_connection_closure_def bind_eq_Some_conv close_connection_def send_logout_message_def)
    from send_outgoing_quiet [OF this(1)] this(2) show ?thesis
      by (intro that [of v]) (auto simp: build_def upd_session_def quiet_def)
  next
    case False
    then show ?thesis using assms by (intro that [of w]) (auto simp: process_connection_closure_def close_connection_def quiet_refl)
  qed
  have "quiet v w'"
    by (rule quiet_step [OF disconnect_keeps_books(4) [OF d]]) (simp add: is_callback_def)
  moreover have "\<not> has_socket w' p"
    using d by (cases rule: disconnect_cases)
      (auto simp: has_socket_def emit_def remove_peer_def on_session_disconnected_def upd_session_def connector_close_def)
  ultimately show ?thesis using v quiet_trans disconnect_keeps_books(1) [OF d] by auto
qed


end
