(* ===== verification/Fix_Client.thy ===== *)
theory Fix_Client
  imports Fix_Parser Transport Resend_Decision "HOL-Library.Monad_Syntax"
begin

text \<open>
  The client of \<open>fix_client.h\<close> over the \<open>TCPConnector\<close> of \<open>tcp_connector.h\<close>: its settings, its one
  session, connecting, sending, the handling of received messages, the timers of \<open>process\<close>, the
  administrative commands and the shutdown with its wait for the Logout response.

  \<^item> The clocks, the answers of \<open>select\<close>, \<open>recv\<close>, \<open>connect\<close> and of each \<open>send\<close> on an open socket are inputs,
    read in order: the \<open>k\<close>-th send gives \<open>c_send e k\<close>, and so on.
  \<^item> \<open>cl_trace\<close> records, oldest first, the bytes sent, the closing of the socket, the messages given to the
    persist plugin and the callbacks of the application, whose default implementations do nothing.
  \<^item> \<^term>\<open>None\<close> as the result of an operation is undefined behaviour (a write past the encode or receive
    buffer) or a loop that never ends.

  Threads, log lines and socket options are not modelled.
\<close>

subsection \<open>Settings\<close>

record fix_client_settings =
  cpu_core_id :: int
  send_try_count :: int
  starts_as_primary_instance :: bool
  refresh_resend_cache_during_promotion :: bool
  nic_address :: string
  nic_name :: string
  nic_ringbuffer_tx_size :: int
  nic_ringbuffer_rx_size :: int
  socket_rx_size :: int
  socket_tx_size :: int
  rx_buffer_capacity :: nat
  client_tx_encode_buffer_capacity :: nat
  disable_nagle :: bool
  quick_ack :: bool
  receive_size :: int
  async_io_timeout_nanoseconds :: int
  spin_count :: int
  busy_poll_microseconds :: int
  primary_address :: string
  primary_port :: int
  secondary_address :: string
  secondary_port :: int
  connect_timeout_seconds :: int

definition default_client_settings :: fix_client_settings where
  "default_client_settings =
     \<lparr>cpu_core_id = -1, send_try_count = 0, starts_as_primary_instance = True,
      refresh_resend_cache_during_promotion = True, nic_address = '''', nic_name = '''',
      nic_ringbuffer_tx_size = 2048, nic_ringbuffer_rx_size = 4096, socket_rx_size = 212992,
      socket_tx_size = 212992, rx_buffer_capacity = 212992, client_tx_encode_buffer_capacity = 212992,
      disable_nagle = True, quick_ack = False, receive_size = 4096, async_io_timeout_nanoseconds = 1000,
      spin_count = 1, busy_poll_microseconds = 0, primary_address = '''', primary_port = 0,
      secondary_address = '''', secondary_port = 0, connect_timeout_seconds = 3\<rparr>"

text \<open>\<open>validate\<close>: the error it leaves in \<open>validation_error\<close>, or nothing.\<close>

definition validate_client_settings :: "fix_client_settings \<Rightarrow> string option" where
  "validate_client_settings st =
     (if send_try_count st < 0 then Some ''send_try_count can't be negative.''
      else if nic_ringbuffer_rx_size st = 0 then Some ''nic_ringbuffer_rx_size should be greater than zero''
      else if nic_ringbuffer_tx_size st = 0 then Some ''nic_ringbuffer_tx_size should be greater than zero''
      else if socket_rx_size st = 0 then Some ''socket_rx_size should be greater than zero''
      else if socket_tx_size st = 0 then Some ''socket_tx_size should be greater than zero''
      else if rx_buffer_capacity st = 0 then Some ''rx_buffer_capacity should be greater than zero''
      else if client_tx_encode_buffer_capacity st = 0 then Some ''tx_encode_buffer_capacity should be greater than zero''
      else if receive_size st \<le> 0 then Some ''receive_size should be positive''
      else if int (rx_buffer_capacity st) < receive_size st then Some ''receive_size can't be greater than rx_buffer_capacity''
      else if spin_count st \<le> 0 then Some ''spin_count should be greater than zero''
      else if length (primary_address st) = 0 then Some ''primary_address length should be greater than zero''
      else if primary_port st \<le> 0 then Some ''primary_port should be greater than zero''
      else None)"

subsection \<open>The connector\<close>

text \<open>A closed socket has no descriptor.\<close>

record tcp_connector =
  tc_open :: bool
  tc_last_receive_result :: int
  tc_rx_buffer :: string
  tc_incomplete_buffer :: string

definition new_tcp_connector :: tcp_connector where
  "new_tcp_connector = \<lparr>tc_open = False, tc_last_receive_result = 0, tc_rx_buffer = '''', tc_incomplete_buffer = ''''\<rparr>"

definition tc_close :: "tcp_connector \<Rightarrow> tcp_connector" where
  "tc_close c = c\<lparr>tc_rx_buffer := '''', tc_open := False, tc_last_receive_result := 0, tc_incomplete_buffer := ''''\<rparr>"

text \<open>The outcome of a connection attempt: no socket (or buffers) could be had, the socket exists but is not
  connected, or it is.\<close>

datatype connect_result = Connect_no_socket | Connect_refused | Connect_ok

definition tc_connect :: "connect_result \<Rightarrow> nat \<Rightarrow> string \<Rightarrow> int \<Rightarrow> tcp_connector \<Rightarrow> bool \<times> tcp_connector" where
  "tc_connect result capacity target_address port c =
     (if capacity = 0 \<or> length target_address = 0 \<or> port \<le> 0 then (False, c)
      else (result = Connect_ok, (tc_close c)\<lparr>tc_open := (result \<noteq> Connect_no_socket)\<rparr>))"

definition tc_receive :: "int \<Rightarrow> string \<Rightarrow> tcp_connector \<Rightarrow> tcp_connector" where
  "tc_receive result data c = c\<lparr>tc_last_receive_result := result, tc_rx_buffer := data\<rparr>"

definition tc_get_rx_buffer :: "nat \<Rightarrow> tcp_connector \<Rightarrow> string option" where
  "tc_get_rx_buffer capacity c =
     (if tc_incomplete_buffer c = [] then Some (tc_rx_buffer c)
      else if 2 * capacity < length (tc_incomplete_buffer c) + length (tc_rx_buffer c) then None
      else Some (tc_incomplete_buffer c @ tc_rx_buffer c))"

definition tc_set_incomplete_buffer :: "nat \<Rightarrow> string \<Rightarrow> tcp_connector \<Rightarrow> tcp_connector option" where
  "tc_set_incomplete_buffer capacity buffer c =
     (if 2 * capacity < length buffer then None else Some (c\<lparr>tc_incomplete_buffer := buffer\<rparr>))"

definition tc_reset_incomplete_buffer :: "tcp_connector \<Rightarrow> tcp_connector" where
  "tc_reset_incomplete_buffer c = c\<lparr>tc_incomplete_buffer := ''''\<rparr>"

text \<open>A \<open>send\<close> on a closed socket uses the descriptor \<open>-1\<close>: it fails with \<open>EBADF\<close>, which
  \<open>is_connection_lost_during_send\<close> does not count as a lost connection.\<close>

definition closed_socket :: "nat \<Rightarrow> nat \<Rightarrow> int \<times> bool" where
  "closed_socket k n = (-1, False)"

subsection \<open>State\<close>

datatype client_callback = On_connection | On_disconnection | On_logon_response | On_logout_response | On_logon_reject
  | On_server_heartbeat | On_server_test_request | On_server_resend_request | On_execution_report
  | On_order_cancel_replace_reject | On_session_reject | On_application_reject | On_custom_message_type

datatype client_event =
    Client_sent string send_result
  | Client_closed
  | Client_persist_outgoing u32 string bool
  | Client_persist_incoming u32 string
  | Client_callback client_callback

text \<open>What one round of \<open>select\<close> and \<open>recv\<close> gives: nothing, an error, or a result of \<open>recv\<close> with the bytes and
  whether the error of a result that is not positive means a lost connection (or no error at all).\<close>

datatype poll_result = Poll_timeout | Poll_error | Poll_data int string bool

record client_environment =
  c_monotonic :: "nat \<Rightarrow> u64"
  c_steady :: "nat \<Rightarrow> int"
  c_wall :: "nat \<Rightarrow> nat"
  c_send :: "nat \<Rightarrow> send_result"
  c_poll :: "nat \<Rightarrow> poll_result"
  c_connect :: "nat \<Rightarrow> connect_result"
  c_group_specs :: group_specs
  c_has_persist_plugin :: bool
  c_outgoing_folder :: "nat option option"

record client =
  cl_session :: session
  cl_settings :: fix_client_settings
  cl_is_ha_primary :: bool
  m_last_logon_attempt_timestamp :: u64
  m_connected_to_primary :: bool
  m_connected_to_secondary :: bool
  cl_connector :: tcp_connector
  cl_clock_reads :: nat
  cl_sends :: nat
  cl_polls :: nat
  cl_connects :: nat
  cl_trace :: "client_event list"

definition on_session :: "(session \<Rightarrow> session) \<Rightarrow> client \<Rightarrow> client" where
  "on_session f w = w\<lparr>cl_session := f (cl_session w)\<rparr>"

definition cl_emit :: "client_event \<Rightarrow> client \<Rightarrow> client" where
  "cl_emit ev w = w\<lparr>cl_trace := cl_trace w @ [ev]\<rparr>"

definition cl_tick :: "client \<Rightarrow> client" where
  "cl_tick w = w\<lparr>cl_clock_reads := cl_clock_reads w + 1\<rparr>"

definition cl_now :: "client_environment \<Rightarrow> client \<Rightarrow> u64" where
  "cl_now e w = c_monotonic e (cl_clock_reads w)"

definition cl_wall :: "client_environment \<Rightarrow> client \<Rightarrow> nat" where
  "cl_wall e w = c_wall e (cl_clock_reads w)"

definition on_connector :: "(tcp_connector \<Rightarrow> tcp_connector option) \<Rightarrow> client \<Rightarrow> client option" where
  "on_connector f w = map_option (\<lambda>c. w\<lparr>cl_connector := c\<rparr>) (f (cl_connector w))"

abbreviation cl_state :: "client \<Rightarrow> SessionState" where
  "cl_state w \<equiv> m_state (cl_session w)"

subsection \<open>Losing the connection\<close>

definition on_connection_lost :: "client \<Rightarrow> client" where
  "on_connection_lost w =
     cl_emit (Client_callback On_disconnection)
       ((on_session (set_state DISCONNECTED) w)\<lparr>m_connected_to_primary := False, m_connected_to_secondary := False\<rparr>)"

definition close_socket :: "client \<Rightarrow> client" where
  "close_socket w = cl_emit Client_closed (w\<lparr>cl_connector := tc_close (cl_connector w)\<rparr>)"

text \<open>\<open>do_shutdown\<close> without the Logout: also what every termination of the session does.\<close>

definition terminate_session :: "client \<Rightarrow> client" where
  "terminate_session w = on_session (set_state DISCONNECTED) (close_socket (on_connection_lost w))"

subsection \<open>Sending\<close>

definition client_transport_send :: "client_environment \<Rightarrow> string \<Rightarrow> client \<Rightarrow> (bool \<times> client) option" where
  "client_transport_send e buffer w =
     (case (if tc_open (cl_connector w) then Some (c_send e (cl_sends w))
            else map_option fst (send_to_socket closed_socket (nat (send_try_count (cl_settings w))) buffer)) of
        None \<Rightarrow> None
      | Some r \<Rightarrow>
          (let w = cl_emit (Client_sent buffer r) (w\<lparr>cl_sends := cl_sends w + 1\<rparr>)
           in if r = SendLost then Some (False, on_connection_lost w) else Some (r = SendOk, w)))"

definition throttle_outgoing :: "client_environment \<Rightarrow> client \<Rightarrow> client" where
  "throttle_outgoing e w =
     (if throttle_limit (m_settings (cl_session w)) \<noteq> 0 then
        (let w = cl_tick (on_session (\<lambda>s. s\<lparr>m_throttler := throttler_update (cl_now e w) (m_throttler s)\<rparr>) w)
         in cl_tick (on_session (\<lambda>s. s\<lparr>m_throttler := throttler_wait (cl_now e w) (m_throttler s)\<rparr>) w))
      else w)"

definition client_serialise_outgoing :: "client_environment \<Rightarrow> string \<Rightarrow> bool \<Rightarrow> client \<Rightarrow> client" where
  "client_serialise_outgoing e buffer ok w =
     (if serialisation_enabled (cl_session w) then
        cl_tick (on_session (\<lambda>s. s\<lparr>m_outgoing_messages_serialiser :=
            serialiser_write (word_of_nat (cl_wall e w)) buffer ok (session_outgoing_seq_no s)
              (m_outgoing_messages_serialiser s)\<rparr>) w)
      else w)"

definition client_send_bytes :: "client_environment \<Rightarrow> bool \<Rightarrow> string \<Rightarrow> client \<Rightarrow> (bool \<times> client) option" where
  "client_send_bytes e increment_outgoing buffer w =
     do {
       (ok, w) \<leftarrow> client_transport_send e buffer (throttle_outgoing e w);
       let w = (if increment_outgoing \<and> ok then on_session (map_store increment_outgoing_seq_no) w else w);
       let w = client_serialise_outgoing e buffer ok w;
       let w = (if c_has_persist_plugin e then
                  cl_emit (Client_persist_outgoing (session_outgoing_seq_no (cl_session w)) buffer ok) w
                else w);
       Some (ok, cl_tick (on_session (\<lambda>s. s\<lparr>m_last_sent_message_timestamp_nanoseconds := cl_now e w\<rparr>) w))
     }"

definition client_encode :: "client_environment \<Rightarrow> u32 \<Rightarrow> client \<Rightarrow> (string \<times> client) option" where
  "client_encode e sequence_no w =
     (let s = cl_session w;
          (buffer, m) = encode (m_settings s) (session_incoming_seq_no s) (cl_wall e w) sequence_no
                          (m_outgoing_fix_message s)
      in if client_tx_encode_buffer_capacity (cl_settings w) < length buffer then None
         else Some (buffer, cl_tick (on_session (\<lambda>s. s\<lparr>m_outgoing_fix_message := m\<rparr>) w)))"

definition client_send_outgoing_message :: "client_environment \<Rightarrow> client \<Rightarrow> (bool \<times> client) option" where
  "client_send_outgoing_message e w =
     do {
       (buffer, w) \<leftarrow> client_encode e (session_outgoing_seq_no (cl_session w) + 1) w;
       client_send_bytes e True buffer w
     }"

definition client_build :: "(session \<Rightarrow> outgoing_message \<Rightarrow> session \<times> outgoing_message) \<Rightarrow> client \<Rightarrow> client" where
  "client_build f w =
     on_session (\<lambda>s. let (s', m) = f s (m_outgoing_fix_message s) in s'\<lparr>m_outgoing_fix_message := m\<rparr>) w"
subsection \<open>Messages to the server\<close>

definition build_logon_request :: "session \<Rightarrow> outgoing_message \<Rightarrow> session \<times> outgoing_message" where
  "build_logon_request s m =
     (let st = m_settings s;
          m = set_msg_type_char MSG_TYPE_LOGON m;
          m = set_tag_int BODY TAG_ENCRYPT_METHOD 0 m;
          m = set_tag_u32 BODY TAG_HEART_BT_INT (ucast (heartbeat_interval_in_nanoseconds st div 1000000000)) m;
          m = (if 0 < length (default_app_ver_id st) then
                 set_tag_text BODY TAG_DEFAULT_APPL_VER_ID (default_app_ver_id st) m else m);
          (s, m) = (if logon_reset_sequence_numbers st then
                      (map_store reset_numbers s, set_tag_char BODY TAG_RESET_SEQ_NUM_FLAG (CHR ''Y'') m)
                    else (s, m));
          m = (if logon_include_next_expected_seq_no st then
                 set_tag_u32 BODY TAG_NEXT_EXPECTED_SEQ_NUM (session_incoming_seq_no s + 1) m else m);
          m = (if 0 < length (logon_username st) then set_tag_text BODY TAG_USERNAME (logon_username st) m else m);
          m = (if 0 < length (logon_password st) then set_tag_text BODY TAG_PASSWORD (logon_password st) m else m);
          m = (if 0 < length (logon_message_new_password st) then
                 set_tag_text BODY TAG_NEW_PASSWORD (logon_message_new_password st) m else m)
      in (s, m))"

definition send_logon_request :: "client_environment \<Rightarrow> client \<Rightarrow> (bool \<times> client) option" where
  "send_logon_request e w = client_send_outgoing_message e (client_build build_logon_request w)"

definition send_logout_request :: "client_environment \<Rightarrow> client \<Rightarrow> (bool \<times> client) option" where
  "send_logout_request e w =
     client_send_outgoing_message e (client_build (\<lambda>s m. (s, build_logout_message '''' m)) w)"

definition send_client_heartbeat :: "client_environment \<Rightarrow> string option \<Rightarrow> client \<Rightarrow> (bool \<times> client) option" where
  "send_client_heartbeat e test_request_id w =
     client_send_outgoing_message e (client_build (\<lambda>s m. (s, build_heartbeat_message test_request_id m)) w)"

definition client_send_test_request :: "client_environment \<Rightarrow> client \<Rightarrow> (bool \<times> client) option" where
  "client_send_test_request e w = client_send_outgoing_message e (client_build build_test_request_message w)"

definition client_send_resend_request :: "client_environment \<Rightarrow> client \<Rightarrow> (bool \<times> client) option" where
  "client_send_resend_request e w =
     client_send_outgoing_message e (client_build (\<lambda>s m. (s, build_resend_request_message s ''0'' m)) w)"

definition client_send_sequence_reset_message :: "client_environment \<Rightarrow> u32 \<Rightarrow> client \<Rightarrow> (bool \<times> client) option" where
  "client_send_sequence_reset_message e desired_sequence_no w =
     do {
       (buffer, w) \<leftarrow> client_encode e desired_sequence_no
                        (client_build (build_sequence_reset_message desired_sequence_no) w);
       client_send_bytes e False buffer w
     }"

definition client_send_gap_fill_message :: "client_environment \<Rightarrow> client \<Rightarrow> (bool \<times> client) option" where
  "client_send_gap_fill_message e w =
     do {
       (buffer, w) \<leftarrow> client_encode e (m_incoming_resend_request_begin_no (cl_session w))
                        (client_build (\<lambda>s m. (s, build_gap_fill_message s m)) w);
       client_send_bytes e False buffer w
     }"

definition client_send_reject_message :: "client_environment \<Rightarrow> u32 \<Rightarrow> u32 \<Rightarrow> client \<Rightarrow> (bool \<times> client) option" where
  "client_send_reject_message e reject_reason_code error_tag w =
     client_send_outgoing_message e
       (client_build (\<lambda>s m. (s, build_session_level_reject_message s reject_reason_code
          (get_reject_reason_text reject_reason_code) error_tag m)) w)"

text \<open>The body of the replay loop for sequence number \<open>i\<close>; a message that cannot be read is loaded from a
  buffer of length zero. The loop has a second counter as in \<open>all_in_memory\<close>.\<close>

definition client_resend_message :: "client_environment \<Rightarrow> u32 \<Rightarrow> client \<Rightarrow> client option" where
  "client_resend_message e i w =
     (let s = cl_session w;
          stored = (case read_message (m_outgoing_messages_serialiser s) i
                           (client_tx_encode_buffer_capacity (cl_settings w)) of
                      None \<Rightarrow> [] | Some b \<Rightarrow> b)
      in do {
           m \<leftarrow> load_from_buffer stored (m_outgoing_fix_message s);
           let m = set_tag_bool HEADER TAG_POSS_DUP_FLAG True m;
           let m = (if include_t97_during_resends (m_settings s) then set_tag_bool HEADER TAG_POSS_RESEND True m else m);
           (buffer, w) \<leftarrow> client_encode e i (on_session (\<lambda>s. s\<lparr>m_outgoing_fix_message := m\<rparr>) w);
           (ok, w) \<leftarrow> client_send_bytes e False buffer w;
           Some w
         })"

function client_resend_loop :: "client_environment \<Rightarrow> nat \<Rightarrow> u32 \<Rightarrow> u32 \<Rightarrow> client \<Rightarrow> client option" where
  "client_resend_loop e k i end_seq_no w =
     (if 2 ^ 32 \<le> k then None
      else if end_seq_no < i then Some w
      else case client_resend_message e i w of
             None \<Rightarrow> None
           | Some w' \<Rightarrow> client_resend_loop e (k + 1) (i + 1) end_seq_no w')"
  by auto
termination
  by (relation "measure (\<lambda>(e, k, i, last, w). 2 ^ 32 - k)") auto

declare client_resend_loop.simps [simp del]

definition resend_messages_to_server :: "client_environment \<Rightarrow> u32 \<Rightarrow> u32 \<Rightarrow> client \<Rightarrow> client option" where
  "resend_messages_to_server e begin_seq_no end_seq_no w = client_resend_loop e 0 begin_seq_no end_seq_no w"

subsection \<open>Messages from the server\<close>

definition process_logon_reject :: "client \<Rightarrow> client" where
  "process_logon_reject w = cl_emit (Client_callback On_logon_reject) (on_session (set_state LOGON_REJECTED) w)"

definition process_session_level_reject :: "client \<Rightarrow> client" where
  "process_session_level_reject w =
     (if cl_state w = PENDING_LOGON then process_logon_reject w
      else cl_emit (Client_callback On_session_reject) w)"

definition process_application_level_reject :: "client \<Rightarrow> client" where
  "process_application_level_reject w =
     (if cl_state w = PENDING_LOGON then process_logon_reject w
      else cl_emit (Client_callback On_application_reject) w)"

definition process_logon_response :: "client \<Rightarrow> client" where
  "process_logon_response w = cl_emit (Client_callback On_logon_response) (on_session (set_state LOGGED_ON) w)"

definition process_logout_response :: "client \<Rightarrow> client" where
  "process_logout_response w =
     (if cl_state w = PENDING_LOGON then process_logon_reject w
      else cl_emit (Client_callback On_logout_response)
             (on_session (\<lambda>s. set_state LOGGED_OUT (s\<lparr>m_received_logout_response := True\<rparr>)) w))"

text \<open>Reading tag 34 or 35 of a message that lacks it, which only happens with validations switched off,
  throws or reads a view of an earlier buffer.\<close>

definition client_dispatch_message :: "client_environment \<Rightarrow> client \<Rightarrow> client option" where
  "client_dispatch_message e w =
     (let message = m_incoming_fix_message (cl_session w);
          t = tag_value message TAG_MSG_TYPE;
          app = (\<lambda>c. Some (cl_emit (Client_callback c) w))
      in if \<not> has_tag message TAG_MSG_TYPE then None
         else if length t = 1 then
           (let c = t ! 0
            in if c = MSG_TYPE_EXECUTION_REPORT then app On_execution_report
               else if c = MSG_TYPE_HEARTBEAT then app On_server_heartbeat
               else if c = MSG_TYPE_TEST_REQUEST then
                 Some (cl_emit (Client_callback On_server_test_request) (on_session (process_test_request_message message) w))
               else if c = MSG_TYPE_RESEND_REQUEST then
                 Some (cl_emit (Client_callback On_server_resend_request) (on_session (process_resend_request message) w))
               else if c = MSG_TYPE_ORDER_CANCEL_REJECT then app On_order_cancel_replace_reject
               else if c = MSG_TYPE_REJECT then Some (process_session_level_reject w)
               else if c = MSG_TYPE_BUSINESS_REJECT then Some (process_application_level_reject w)
               else if c = MSG_TYPE_LOGON then Some (process_logon_response w)
               else if c = MSG_TYPE_LOGOUT then Some (process_logout_response w)
               else if c = MSG_TYPE_SEQUENCE_RESET then
                 (case process_incoming_sequence_reset_message message (cl_session w) of
                    (s, ok) \<Rightarrow>
                      (let w = on_session (\<lambda>_. s) w
                       in if \<not> ok then
                            map_option snd (client_send_reject_message e FIX_ERROR_CODE_VALUE_INCORRECT_FOR_TAG TAG_NEW_SEQ_NO w)
                          else Some w))
               else app On_custom_message_type)
         else app On_custom_message_type)"

definition client_check_sequence_number :: "client \<Rightarrow> (bool \<times> client) option" where
  "client_check_sequence_number w =
     (let s = cl_session w;
          expected = session_incoming_seq_no s;
          message = m_incoming_fix_message s;
          received = tag_u32 message TAG_MSG_SEQ_NUM
      in if \<not> has_tag message TAG_MSG_SEQ_NUM then None
         else if expected < received \<and> \<not> is_a_hard_sequence_reset_message message then
           Some (False, on_session (queue_outgoing_resend_request expected received) w)
         else if received < expected \<and> \<not> is_a_hard_sequence_reset_message message then
           Some (False, terminate_session (on_session (map_store (set_incoming_seq_no (expected - 1))) w))
         else if m_state s = IN_RETRANSMISSION_INITIATED_BY_SELF \<and> received = m_outgoing_resend_request_end_no s then
           Some (True, on_session (set_state LOGGED_ON) w)
         else Some (True, w))"

definition client_accept_message :: "client_environment \<Rightarrow> string \<Rightarrow> client \<Rightarrow> client option" where
  "client_accept_message e buffer w =
     do {
       let w = on_session (map_store increment_incoming_seq_no) w;
       let w = (if c_has_persist_plugin e then
                  cl_emit (Client_persist_incoming (session_incoming_seq_no (cl_session w)) buffer) w
                else w);
       (go_on, w) \<leftarrow> client_check_sequence_number w;
       if go_on then client_dispatch_message e w else Some w
     }"

definition client_note_received :: "client_environment \<Rightarrow> string \<Rightarrow> client \<Rightarrow> client" where
  "client_note_received e buffer w =
     (let w = cl_tick (on_session (\<lambda>s. s\<lparr>m_last_received_message_timestamp_nanoseconds := cl_now e w\<rparr>) w);
          w = (if serialisation_enabled (cl_session w) then
                 cl_tick (on_session (\<lambda>s. s\<lparr>m_incoming_messages_serialiser :=
                   serialiser_write (word_of_nat (cl_wall e w)) buffer True 0 (m_incoming_messages_serialiser s)\<rparr>) w)
               else w)
      in if m_expecting_response_for_outgoing_test_request (cl_session w) then
           on_session (\<lambda>s. s\<lparr>m_expecting_response_for_outgoing_test_request := False\<rparr>) w
         else w)"

definition client_process_incoming_fix_message :: "client_environment \<Rightarrow> string \<Rightarrow> u32 \<Rightarrow> client \<Rightarrow> client option" where
  "client_process_incoming_fix_message e buffer parser_reject_code w =
     (let w = client_note_received e buffer w
      in if \<not> validations_enabled (m_settings (cl_session w)) then client_accept_message e buffer w
         else
           (case validate_fix_message (cl_wall e w) (m_incoming_fix_message (cl_session w)) buffer
                   parser_reject_code (-1) (cl_session w) of
              (s, valid, reject_message_code) \<Rightarrow>
                (let w = cl_tick (on_session (\<lambda>_. s) w)
                 in if valid then client_accept_message e buffer w
                    else if reject_message_code \<noteq> -1 then
                      map_option snd (client_send_reject_message e reject_message_code (m_last_error_tag s) w)
                    else Some w)))"
subsection \<open>The receive buffer\<close>

definition client_keep_incomplete :: "string \<Rightarrow> client \<Rightarrow> client option" where
  "client_keep_incomplete buffer w =
     on_connector (tc_set_incomplete_buffer (rx_buffer_capacity (cl_settings w)) buffer) w"

definition client_rx_parsed :: "client_environment \<Rightarrow> string \<Rightarrow> nat \<Rightarrow> nat \<Rightarrow> nat \<Rightarrow> u32 \<Rightarrow> client \<Rightarrow>
    (nat option \<times> client) option" where
  "client_rx_parsed e buffer final_tag10_delimiter_index start tag_10_delimiter_index parser_reject_code w =
     (let message = take (tag_10_delimiter_index + 1 - start) (drop start buffer);
          next = tag_10_delimiter_index + 1
      in do {
           w \<leftarrow> client_process_incoming_fix_message e message parser_reject_code w;
           if cl_state w = DISCONNECTED then Some (None, w)
           else if next = length buffer then
             map_option (Pair None) (on_connector (\<lambda>c. Some (tc_reset_incomplete_buffer c)) w)
           else if final_tag10_delimiter_index < next then
             map_option (Pair None) (client_keep_incomplete (drop next buffer) w)
           else Some (Some next, w)
         })"

definition client_rx_message :: "client_environment \<Rightarrow> string \<Rightarrow> nat \<Rightarrow> nat \<Rightarrow> client \<Rightarrow> (nat option \<times> client) option" where
  "client_rx_message e buffer final_tag10_delimiter_index buffer_read_index w =
     (case find_begin_string_position (drop buffer_read_index buffer) of
        None \<Rightarrow> Some (None, w)
      | Some offset \<Rightarrow>
          (let start = buffer_read_index + offset
           in case parse_message (c_group_specs e) buffer start (m_incoming_fix_message (cl_session w)) of
                Parse_undefined \<Rightarrow> None
              | Incomplete ps \<Rightarrow>
                  map_option (Pair None) (client_keep_incomplete (drop start buffer)
                    (on_session (\<lambda>s. s\<lparr>m_incoming_fix_message := ps_message ps\<rparr>) w))
              | Parsed ps tag_10_delimiter_index \<Rightarrow>
                  client_rx_parsed e buffer final_tag10_delimiter_index start tag_10_delimiter_index
                    (ps_reject_code ps) (on_session (\<lambda>s. s\<lparr>m_incoming_fix_message := ps_message ps\<rparr>) w)))"

lemma client_rx_message_next:
  assumes "client_rx_message e buffer final idx w = Some (Some i, w')" "idx < length buffer"
  shows "idx < i \<and> i < length buffer"
proof -
  obtain offset where f: "find_begin_string_position (drop idx buffer) = Some offset"
    using assms(1) by (auto simp: client_rx_message_def split: option.splits)
  have st: "idx + offset < length buffer" using find_begin_Some [OF f] by auto
  obtain ps j w0 where pm: "parse_message (c_group_specs e) buffer (idx + offset) (m_incoming_fix_message (cl_session w)) = Parsed ps j"
    and rp: "client_rx_parsed e buffer final (idx + offset) j (ps_reject_code ps) w0 = Some (Some i, w')"
    using assms(1) f by (auto simp: client_rx_message_def Let_def split: option.splits parse_result.splits)
  have "idx + offset \<le> j \<and> j < length buffer"
    by (rule parse_loop_index [OF pm [unfolded parse_message_def] st])
  moreover have "i = j + 1 \<and> i \<noteq> length buffer"
    using rp by (auto simp: client_rx_parsed_def bind_eq_Some_conv Let_def split: if_splits)
  ultimately show ?thesis by simp
qed

function client_rx_loop :: "client_environment \<Rightarrow> string \<Rightarrow> nat \<Rightarrow> nat \<Rightarrow> client \<Rightarrow> client option" where
  "client_rx_loop e buffer final_tag10_delimiter_index buffer_read_index w =
     (if length buffer \<le> buffer_read_index then None
      else case client_rx_message e buffer final_tag10_delimiter_index buffer_read_index w of
             None \<Rightarrow> None
           | Some (None, w') \<Rightarrow> Some w'
           | Some (Some next, w') \<Rightarrow> client_rx_loop e buffer final_tag10_delimiter_index next w')"
  by auto
termination
  by (relation "measure (\<lambda>(e, buffer, final, i, w). length buffer - i)") (auto dest!: client_rx_message_next)

declare client_rx_loop.simps [simp del]

definition CLIENT_MINIMUM_REQUIRED_INITIAL_BUFFER_FOR_PARSING :: nat where
  "CLIENT_MINIMUM_REQUIRED_INITIAL_BUFFER_FOR_PARSING = 4"

definition client_process_rx_buffer :: "client_environment \<Rightarrow> string \<Rightarrow> client \<Rightarrow> client option" where
  "client_process_rx_buffer e buffer w =
     (if length buffer < CLIENT_MINIMUM_REQUIRED_INITIAL_BUFFER_FOR_PARSING then client_keep_incomplete buffer w
      else case find_delimiter_from_end buffer of
             None \<Rightarrow> client_keep_incomplete buffer w
           | Some current_index \<Rightarrow>
               (case find_tag10_start_from_end buffer current_index of
                  (_, None) \<Rightarrow> client_keep_incomplete buffer w
                | (_, Some final_tag10_delimiter_index) \<Rightarrow>
                    client_rx_loop e buffer final_tag10_delimiter_index 0 w))"

definition client_receive_done :: "bool \<Rightarrow> client \<Rightarrow> client" where
  "client_receive_done lost w =
     (if tc_last_receive_result (cl_connector w) \<le> 0 \<and> lost then on_connection_lost w else w)"

definition client_on_data_ready :: "client_environment \<Rightarrow> int \<Rightarrow> string \<Rightarrow> bool \<Rightarrow> client \<Rightarrow> client option" where
  "client_on_data_ready e result data lost w =
     do {
       w \<leftarrow> on_connector (\<lambda>c. Some (tc_receive result data c)) w;
       w \<leftarrow> (if 0 < result \<and> result \<le> int (rx_buffer_capacity (cl_settings w)) then
               (case tc_get_rx_buffer (rx_buffer_capacity (cl_settings w)) (cl_connector w) of
                  None \<Rightarrow> None
                | Some buffer \<Rightarrow> client_process_rx_buffer e buffer w)
             else Some w);
       Some (client_receive_done lost w)
     }"

text \<open>One round of \<open>select\<close>: a closed socket is not in its set of descriptors.\<close>

definition process_incoming_messages :: "client_environment \<Rightarrow> client \<Rightarrow> client option" where
  "process_incoming_messages e w =
     (let w' = w\<lparr>cl_polls := cl_polls w + 1\<rparr>
      in if \<not> tc_open (cl_connector w) then Some w'
         else case c_poll e (cl_polls w) of
                Poll_timeout \<Rightarrow> Some w'
              | Poll_error \<Rightarrow> Some w'
              | Poll_data result data lost \<Rightarrow> client_on_data_ready e result data lost w')"

subsection \<open>Shutdown\<close>

text \<open>The wait for the Logout response; \<open>timeout\<close> is in the unit of the steady clock. Every round takes one
  reading of that clock.\<close>

partial_function (option) wait_for_logout :: "client_environment \<Rightarrow> int \<Rightarrow> int \<Rightarrow> client \<Rightarrow> client option" where
  "wait_for_logout e start timeout w =
     do {
       w \<leftarrow> process_incoming_messages e w;
       if m_received_logout_response (cl_session w) then Some w
       else if cl_state w = DISCONNECTED then Some w
       else if timeout \<le> c_steady e (cl_clock_reads w) - start then Some (cl_tick w)
       else wait_for_logout e start timeout (cl_tick w)
     }"

definition logout_timeout :: "client \<Rightarrow> int" where
  "logout_timeout w = logout_timeout_seconds (m_settings (cl_session w)) * 1000 * 1000000"

definition do_shutdown :: "client_environment \<Rightarrow> bool \<Rightarrow> client \<Rightarrow> client option" where
  "do_shutdown e graceful_shutdown w =
     (let call_time_state = cl_state w;
          w = on_connection_lost w
      in do {
           w \<leftarrow> (if graceful_shutdown \<and> call_time_state = LOGGED_ON then
                   do {
                     (ok, w) \<leftarrow> send_logout_request e (on_session (\<lambda>s. s\<lparr>m_received_logout_response := False\<rparr>) w);
                     let w = on_session (set_state PENDING_LOGOUT) w;
                     wait_for_logout e (c_steady e (cl_clock_reads w)) (logout_timeout w) (cl_tick w)
                   }
                 else Some w);
           Some (on_session (set_state DISCONNECTED) (close_socket w))
         })"

lemma do_shutdown_forced: "do_shutdown e False w = Some (terminate_session w)"
  by (simp add: do_shutdown_def terminate_session_def)

subsection \<open>Connecting\<close>

definition client_connect_to :: "client_environment \<Rightarrow> string \<Rightarrow> int \<Rightarrow> client \<Rightarrow> bool \<times> client" where
  "client_connect_to e target_address port w =
     (case tc_connect (c_connect e (cl_connects w)) (rx_buffer_capacity (cl_settings w)) target_address port (cl_connector w) of
        (ok, c) \<Rightarrow> (ok, w\<lparr>cl_connector := c, cl_connects := cl_connects w + 1\<rparr>))"

definition client_connect_transport :: "client_environment \<Rightarrow> client \<Rightarrow> bool \<times> client" where
  "client_connect_transport e w =
     (let st = cl_settings w;
          (success, w) = client_connect_to e (primary_address st) (primary_port st) w;
          w = w\<lparr>m_connected_to_primary := success\<rparr>
      in if \<not> success \<and> 0 < length (secondary_address st) \<and> 0 < secondary_port st then
           (let (success, w) = client_connect_to e (secondary_address st) (secondary_port st) w
            in (success, w\<lparr>m_connected_to_secondary := success\<rparr>))
         else (success, w))"

definition client_connect :: "client_environment \<Rightarrow> client \<Rightarrow> (bool \<times> client) option" where
  "client_connect e w =
     (if cl_state w = DISABLED then Some (False, w)
      else if \<not> is_now_valid_session_datetime (cl_wall e w) (cl_session w) then Some (False, cl_tick w)
      else
        (let (success, w) = client_connect_transport e
               (on_session (\<lambda>s. reset_flags (set_state PENDING_CONNECTION s)) (cl_tick w))
         in if success then
              (let w = cl_tick (on_session (\<lambda>s. s\<lparr>m_last_received_message_timestamp_nanoseconds := cl_now e w\<rparr>) w);
                   w = on_session (set_state PENDING_LOGON) w;
                   w = cl_tick (w\<lparr>m_last_logon_attempt_timestamp := cl_now e w\<rparr>)
               in send_logon_request e (cl_emit (Client_callback On_connection) w))
            else Some (False, on_session (set_state DISCONNECTED) w)))"

subsection \<open>Administrative commands\<close>

definition client_disable_session :: "client_environment \<Rightarrow> client \<Rightarrow> client option" where
  "client_disable_session e w =
     do {
       w \<leftarrow> (if is_state_live (cl_state w) then do_shutdown e True w else Some w);
       Some (on_session (set_state DISABLED) w)
     }"

definition client_enable_session :: "client_environment \<Rightarrow> client \<Rightarrow> client option" where
  "client_enable_session e w =
     (if cl_state w = DISABLED then
        (let s = set_state DISCONNECTED (cl_session w)
         in if refresh_resend_cache_during_promotion (cl_settings w) then
              (case serialiser_initialise (c_outgoing_folder e) (max_serialised_file_size (m_settings s))
                      (replay_messages_on_incoming_resend_request (m_settings s))
                      (replay_message_cache_initial_size (m_settings s)) (m_outgoing_messages_serialiser s) of
                 None \<Rightarrow> None
               | Some (ser, ok) \<Rightarrow> Some (on_session (\<lambda>_. s\<lparr>m_outgoing_messages_serialiser := ser\<rparr>) w))
            else Some (on_session (\<lambda>_. s) w))
      else Some w)"

definition client_process_admin_command :: "client_environment \<Rightarrow> modifying_admin_command \<Rightarrow> client \<Rightarrow> client option" where
  "client_process_admin_command e c w =
     (case cmd_type c of
        SET_INCOMING_SEQUENCE_NUMBER \<Rightarrow> Some (on_session (map_store (set_incoming_seq_no (cmd_arg c))) w)
      | SET_OUTGOING_SEQUENCE_NUMBER \<Rightarrow> Some (on_session (map_store (set_outgoing_seq_no (cmd_arg c))) w)
      | SEND_SEQUENCE_RESET \<Rightarrow>
          (if cl_state w = LOGGED_ON then map_option snd (client_send_sequence_reset_message e (cmd_arg c) w) else Some w)
      | DISABLE_SESSION \<Rightarrow> client_disable_session e w
      | ENABLE_SESSION \<Rightarrow> if cl_is_ha_primary w then client_enable_session e w else Some w
      | SET_IS_HA_PRIMARY_INSTANCE \<Rightarrow>
          (let w = w\<lparr>cl_is_ha_primary := (cmd_arg c = 1)\<rparr>
           in if cmd_arg c = 1 then client_enable_session e w else client_disable_session e w))"

definition client_process_admin_commands :: "client_environment \<Rightarrow> client \<Rightarrow> client option" where
  "client_process_admin_commands e w =
     (case m_admin_commands (cl_session w) of
        [] \<Rightarrow> Some w
      | c # cs \<Rightarrow> client_process_admin_command e c (on_session (\<lambda>s. s\<lparr>m_admin_commands := cs\<rparr>) w))"

definition client_push_admin_command :: "ModifyingAdminCommandType \<Rightarrow> u32 \<Rightarrow> client \<Rightarrow> client" where
  "client_push_admin_command t arg w =
     on_session (\<lambda>s. s\<lparr>m_admin_commands := m_admin_commands s @ [\<lparr>cmd_type = t, cmd_arg = arg\<rparr>]\<rparr>) w"
subsection \<open>The timers of \<open>process\<close>\<close>

definition process_outgoing_logon_request :: "u64 \<Rightarrow> client \<Rightarrow> client" where
  "process_outgoing_logon_request current_timestamp_nanoseconds w =
     (let delta_nanoseconds = current_timestamp_nanoseconds - m_last_logon_attempt_timestamp w
      in if word_of_int (logon_timeout_seconds (m_settings (cl_session w))) * 1000000000 \<le> delta_nanoseconds then
           on_session (set_state DISCONNECTED) w
         else w)"

definition client_process_outgoing_resend_request_if_necessary ::
    "client_environment \<Rightarrow> u64 \<Rightarrow> client \<Rightarrow> client option" where
  "client_process_outgoing_resend_request_if_necessary e current_timestamp_nanoseconds w =
     (let s = cl_session w
      in if m_state s = IN_RETRANSMISSION_INITIATED_BY_SELF then
           (let delta_nanoseconds = current_timestamp_nanoseconds - m_outgoing_resend_request_timestamp_nanoseconds s;
                required_delta_nanoseconds =
                  word_of_int (outgoing_resend_request_expire_in_secs (m_settings s)) * 1000000000
            in if required_delta_nanoseconds \<le> delta_nanoseconds then Some (terminate_session w) else Some w)
         else if m_needs_to_send_resend_request s then
           do {
             (ok, w) \<leftarrow> client_send_resend_request e w;
             Some (on_session (\<lambda>s. (set_state IN_RETRANSMISSION_INITIATED_BY_SELF s)
               \<lparr>m_outgoing_resend_request_timestamp_nanoseconds := current_timestamp_nanoseconds,
                m_needs_to_send_resend_request := False\<rparr>) w)
           }
         else Some w)"

definition client_process_outgoing_test_request_if_necessary ::
    "client_environment \<Rightarrow> u64 \<Rightarrow> client \<Rightarrow> client option" where
  "client_process_outgoing_test_request_if_necessary e current_timestamp_nanoseconds w =
     (let s = cl_session w
      in if \<not> m_expecting_response_for_outgoing_test_request s then
           (let delta_nanoseconds = current_timestamp_nanoseconds - m_last_received_message_timestamp_nanoseconds s
            in if outgoing_test_request_interval_in_nanoseconds (m_settings s) \<le> delta_nanoseconds then
                 do {
                   (ok, w) \<leftarrow> client_send_test_request e w;
                   Some (on_session (\<lambda>s. s
                     \<lparr>m_outgoing_test_request_timestamp_nanoseconds := current_timestamp_nanoseconds,
                      m_expecting_response_for_outgoing_test_request := True\<rparr>) w)
                 }
               else Some w)
         else
           (let delta_nanoseconds = current_timestamp_nanoseconds - m_outgoing_test_request_timestamp_nanoseconds s
            in if heartbeat_interval_in_nanoseconds (m_settings s) * 2 \<le> delta_nanoseconds then
                 Some (terminate_session (on_session (\<lambda>s. s\<lparr>m_expecting_response_for_outgoing_test_request := False\<rparr>) w))
               else Some w))"

definition client_respond_to_resend_request_if_necessary :: "client_environment \<Rightarrow> client \<Rightarrow> client option" where
  "client_respond_to_resend_request_if_necessary e w =
     (let s = cl_session w
      in if m_needs_responding_to_incoming_resend_request s then
           do {
             replay \<leftarrow> will_replay s;
             w \<leftarrow> (if replay then
                     resend_messages_to_server e (m_incoming_resend_request_begin_no s) (session_outgoing_seq_no s) w
                   else map_option snd (client_send_gap_fill_message e w));
             Some (on_session (\<lambda>s. set_state LOGGED_ON (s\<lparr>m_needs_responding_to_incoming_resend_request := False\<rparr>)) w)
           }
         else Some w)"

definition client_respond_to_test_request_if_necessary :: "client_environment \<Rightarrow> client \<Rightarrow> client option" where
  "client_respond_to_test_request_if_necessary e w =
     (let s = cl_session w
      in if m_needs_responding_to_incoming_test_request s then
           do {
             w \<leftarrow> (if 0 < length (m_incoming_test_request_id s) then
                     map_option (\<lambda>(_, w). on_session (\<lambda>s. s\<lparr>m_incoming_test_request_id := ''''\<rparr>) w)
                       (send_client_heartbeat e (Some (m_incoming_test_request_id s)) w)
                   else map_option snd (send_client_heartbeat e None w));
             Some (on_session (\<lambda>s. s\<lparr>m_needs_responding_to_incoming_test_request := False\<rparr>) w)
           }
         else Some w)"

definition send_client_heartbeat_if_necessary :: "client_environment \<Rightarrow> u64 \<Rightarrow> client \<Rightarrow> client option" where
  "send_client_heartbeat_if_necessary e current_timestamp_nanoseconds w =
     (let s = cl_session w;
          delta_nanoseconds = current_timestamp_nanoseconds - m_last_sent_message_timestamp_nanoseconds s
      in if heartbeat_interval_in_nanoseconds (m_settings s) * 9 div 10 \<le> delta_nanoseconds then
           map_option snd (send_client_heartbeat e None w)
         else Some w)"

definition client_process_schedule_validator :: "client_environment \<Rightarrow> client \<Rightarrow> client option" where
  "client_process_schedule_validator e w =
     (if \<not> is_now_valid_session_datetime (cl_wall e w) (cl_session w) then do_shutdown e True (cl_tick w)
      else Some (cl_tick w))"

definition client_process_live :: "client_environment \<Rightarrow> client \<Rightarrow> client option" where
  "client_process_live e w =
     do {
       w \<leftarrow> client_process_outgoing_resend_request_if_necessary e (cl_now e w) (cl_tick w);
       w \<leftarrow> client_process_outgoing_test_request_if_necessary e (cl_now e w) (cl_tick w);
       w \<leftarrow> client_respond_to_resend_request_if_necessary e w;
       w \<leftarrow> client_respond_to_test_request_if_necessary e w;
       w \<leftarrow> send_client_heartbeat_if_necessary e (cl_now e w) (cl_tick w);
       client_process_schedule_validator e w
     }"

text \<open>The state that decides about the timers is read before the messages and commands are processed.\<close>

definition client_process :: "client_environment \<Rightarrow> client \<Rightarrow> client option" where
  "client_process e w =
     (let session_state = cl_state w
      in do {
           w \<leftarrow> (if DISCONNECTED < session_state then process_incoming_messages e w else Some w);
           w \<leftarrow> client_process_admin_commands e w;
           if is_state_live session_state then client_process_live e w
           else if session_state = PENDING_LOGON then Some (process_outgoing_logon_request (cl_now e w) (cl_tick w))
           else Some w
         })"

subsection \<open>Creation\<close>

definition client_create ::
    "client_environment \<Rightarrow> session_environment \<Rightarrow> fix_client_settings \<Rightarrow> string \<Rightarrow> session_settings \<Rightarrow> client option" where
  "client_create e env settings session_name st =
     (if validate_client_settings settings \<noteq> None then None
      else
        (let st = st\<lparr>is_server := False, tx_encode_buffer_capacity := client_tx_encode_buffer_capacity settings\<rparr>
         in case session_initialise env session_name st (new_session env) of
              None \<Rightarrow> None
            | Some s \<Rightarrow>
                (let w = \<lparr>cl_session = s, cl_settings = settings,
                          cl_is_ha_primary = starts_as_primary_instance settings, m_last_logon_attempt_timestamp = 0,
                          m_connected_to_primary = False, m_connected_to_secondary = False,
                          cl_connector = new_tcp_connector, cl_clock_reads = 0, cl_sends = 0, cl_polls = 0,
                          cl_connects = 0, cl_trace = []\<rparr>
                 in if \<not> starts_as_primary_instance settings then client_disable_session e w else Some w)))"

subsection \<open>The client as a step relation\<close>

text \<open>What the thread of the client, its application and the management thread do: a message of the application
  is built by any function that changes only the outgoing message, and the bytes of a \<open>recv\<close> are as many
  as its result says.\<close>

definition polls_wf :: "client_environment \<Rightarrow> bool" where
  "polls_wf e \<longleftrightarrow> (\<forall>k. case c_poll e k of Poll_data result data lost \<Rightarrow> int (length data) = max 0 result | _ \<Rightarrow> True)"

inductive client_step :: "client_environment \<Rightarrow> client \<Rightarrow> client \<Rightarrow> bool" for e :: client_environment where
  turn: "client_process e w = Some w' \<Longrightarrow> client_step e w w'"
| connect: "client_connect e w = Some (ok, w') \<Longrightarrow> client_step e w w'"
| send: "client_send_outgoing_message e (client_build (\<lambda>s m. (s, f m)) w) = Some (ok, w') \<Longrightarrow> client_step e w w'"
| command: "client_step e w (client_push_admin_command t arg w)"
| shutdown: "do_shutdown e graceful_shutdown w = Some w' \<Longrightarrow> client_step e w w'"

end
