(* ===== verification/Client_Invariant.thy ===== *)
theory Client_Invariant
  imports Fix_Client Parser_Invariant
begin

text \<open>
  What every operation of the client respects: the session stays well-formed, sending and handling a
  message leave the connector alone, and whoever closes it leaves no bytes in it.
\<close>

definition client_wf :: "client \<Rightarrow> bool" where
  "client_wf w \<longleftrightarrow> session_wf (cl_session w) \<and>
     (tc_open (cl_connector w) \<or> tc_incomplete_buffer (cl_connector w) = [] \<and> tc_last_receive_result (cl_connector w) = 0)"

text \<open>An operation that leaves the connector alone.\<close>

definition steady :: "client \<Rightarrow> client \<Rightarrow> bool" where
  "steady w w' \<longleftrightarrow> session_wf (cl_session w') \<and> cl_connector w' = cl_connector w \<and> cl_settings w' = cl_settings w"

lemma steady_start: "session_wf (cl_session w) \<Longrightarrow> steady w w"
  by (simp add: steady_def)

lemma steady_session: "steady a w \<Longrightarrow> (session_wf (cl_session w) \<Longrightarrow> session_wf (f (cl_session w))) \<Longrightarrow> steady a (on_session f w)"
  by (simp add: steady_def on_session_def)

lemma steady_emit: "steady a w \<Longrightarrow> steady a (cl_emit ev w)"
  by (simp add: steady_def cl_emit_def)

lemma steady_tick: "steady a w \<Longrightarrow> steady a (cl_tick w)"
  by (simp add: steady_def cl_tick_def)

lemma steady_if: "(b \<Longrightarrow> steady a w) \<Longrightarrow> (\<not> b \<Longrightarrow> steady a w') \<Longrightarrow> steady a (if b then w else w')"
  by simp

lemma steady_count: "steady a w \<Longrightarrow> steady a (w\<lparr>cl_sends := k\<rparr>)"
  by (simp add: steady_def)

lemma steady_lost: "steady a w \<Longrightarrow> steady a (on_connection_lost w)"
  by (simp add: steady_def on_connection_lost_def cl_emit_def on_session_def session_wf_def set_state_def)

lemmas steadies = steady_session steady_emit steady_tick steady_if steady_count steady_lost

lemmas outcomes = post_pair post_rules

lemma throttle_outgoing_steady: "steady a w \<Longrightarrow> steady a (throttle_outgoing e w)"
  unfolding throttle_outgoing_def Let_def
  by (intro steadies) (auto simp: session_wf_def throttler_wait_wf update_window)

lemma client_transport_send_steady:
  assumes "steady a w" "\<And>ok w'. steady a w' \<Longrightarrow> Q (ok, w')"
  shows "post (client_transport_send e b w) Q"
  unfolding client_transport_send_def Let_def
  by (intro outcomes assms steadies)

lemma client_send_bytes_steady:
  assumes "steady a w" "\<And>ok w'. steady a w' \<Longrightarrow> Q (ok, w')"
  shows "post (client_send_bytes e inc b w) Q"
  unfolding client_send_bytes_def client_serialise_outgoing_def Let_def
  by (intro outcomes client_transport_send_steady [where a = a] throttle_outgoing_steady assms steadies)
    (simp_all add: session_wf_def map_store_def)
lemma client_encode_steady:
  assumes "steady a w" "\<And>b w'. steady a w' \<Longrightarrow> Q (b, w')"
  shows "post (client_encode e k w) Q"
  unfolding client_encode_def Let_def
  by (intro outcomes assms steadies) (simp_all add: session_wf_def)

lemma client_send_outgoing_message_steady:
  assumes "steady a w" "\<And>ok w'. steady a w' \<Longrightarrow> Q (ok, w')"
  shows "post (client_send_outgoing_message e w) Q"
  unfolding client_send_outgoing_message_def
  by (intro outcomes client_encode_steady [OF assms(1)] client_send_bytes_steady [where a = a] assms(2))

lemma client_build_steady:
  assumes "steady a w" "\<And>s m s' m'. f s m = (s', m') \<Longrightarrow> session_wf s \<Longrightarrow> session_wf s'"
  shows "steady a (client_build f w)"
  unfolding client_build_def
proof (rule steady_session [OF assms(1)])
  assume wf: "session_wf (cl_session w)"
  obtain s' m' where f: "f (cl_session w) (m_outgoing_fix_message (cl_session w)) = (s', m')" by force
  from assms(2) [OF f wf] show "session_wf (let (s', m) = f (cl_session w) (m_outgoing_fix_message (cl_session w))
      in s'\<lparr>m_outgoing_fix_message := m\<rparr>)" by (simp add: f session_wf_def)
qed

lemma client_build_message_steady: "steady a w \<Longrightarrow> steady a (client_build (\<lambda>s m. (s, f s m)) w)"
  by (rule client_build_steady) simp_all

lemmas client_sending = client_send_outgoing_message_steady client_send_bytes_steady client_encode_steady
  client_build_message_steady steadies

lemma send_logon_request_steady:
  assumes "steady a w" "\<And>ok w'. steady a w' \<Longrightarrow> Q (ok, w')"
  shows "post (send_logon_request e w) Q"
  unfolding send_logon_request_def
  by (intro client_send_outgoing_message_steady [OF client_build_steady [OF assms(1)]] assms(2))
    (auto simp: build_logon_request_def Let_def session_wf_def map_store_def split: if_splits)

lemma send_logout_request_steady:
  assumes "steady a w" "\<And>ok w'. steady a w' \<Longrightarrow> Q (ok, w')"
  shows "post (send_logout_request e w) Q"
  unfolding send_logout_request_def by (intro client_sending [where a = a] assms)

lemma send_client_heartbeat_steady:
  assumes "steady a w" "\<And>ok w'. steady a w' \<Longrightarrow> Q (ok, w')"
  shows "post (send_client_heartbeat e t w) Q"
  unfolding send_client_heartbeat_def by (intro client_sending [where a = a] assms)

lemma client_send_test_request_steady:
  assumes "steady a w" "\<And>ok w'. steady a w' \<Longrightarrow> Q (ok, w')"
  shows "post (client_send_test_request e w) Q"
  unfolding client_send_test_request_def
  by (intro client_send_outgoing_message_steady [OF client_build_steady [OF assms(1)]] assms(2))
    (auto simp: build_test_request_message_def Let_def session_wf_def)

lemma client_send_resend_request_steady:
  assumes "steady a w" "\<And>ok w'. steady a w' \<Longrightarrow> Q (ok, w')"
  shows "post (client_send_resend_request e w) Q"
  unfolding client_send_resend_request_def by (intro client_sending [where a = a] assms)

lemma client_send_sequence_reset_message_steady:
  assumes "steady a w" "\<And>ok w'. steady a w' \<Longrightarrow> Q (ok, w')"
  shows "post (client_send_sequence_reset_message e k w) Q"
  unfolding client_send_sequence_reset_message_def
  by (intro outcomes client_encode_steady [OF client_build_steady [OF assms(1)]] client_send_bytes_steady [where a = a] assms(2))
    (auto simp: build_sequence_reset_message_def Let_def session_wf_def map_store_def)

lemma client_send_gap_fill_message_steady:
  assumes "steady a w" "\<And>ok w'. steady a w' \<Longrightarrow> Q (ok, w')"
  shows "post (client_send_gap_fill_message e w) Q"
  unfolding client_send_gap_fill_message_def by (intro outcomes client_sending [where a = a] assms)

lemma client_send_reject_message_steady:
  assumes "steady a w" "\<And>ok w'. steady a w' \<Longrightarrow> Q (ok, w')"
  shows "post (client_send_reject_message e c t w) Q"
  unfolding client_send_reject_message_def by (intro client_sending [where a = a] assms)

lemma client_resend_message_steady:
  assumes "steady a w" "\<And>w'. steady a w' \<Longrightarrow> Q w'"
  shows "post (client_resend_message e i w) Q"
  unfolding client_resend_message_def Let_def
  by (rule post_bind, rule postI, intro outcomes client_sending [where a = a] assms) (simp_all add: session_wf_def)

lemma client_resend_loop_steady:
  assumes "steady a w" "\<And>w'. steady a w' \<Longrightarrow> Q w'"
  shows "post (client_resend_loop e k i l w) Q"
  using assms
proof (induction e k i l w rule: client_resend_loop.induct)
  case (1 e k i l w)
  show ?case
  proof (cases "2 ^ 32 \<le> k \<or> l < i")
    case True
    with 1(2,3) show ?thesis by (subst client_resend_loop.simps) (auto intro: post_rules)
  next
    case False
    have "post (client_resend_message e i w) (\<lambda>w'. post (client_resend_loop e (k + 1) (i + 1) l w') Q)"
    proof (rule postI)
      fix w' assume w': "client_resend_message e i w = Some w'"
      have "steady a w'"
        by (rule postD [OF client_resend_message_steady [OF 1(2)] w'])
      with 1(1) [OF _ _ w'] False 1(3) show "post (client_resend_loop e (k + 1) (i + 1) l w') Q" by auto
    qed
    with False show ?thesis by (subst client_resend_loop.simps) (auto simp: post_def split: option.splits)
  qed
qed

subsection \<open>Received messages\<close>

text \<open>Handling a message leaves the connector alone or terminates the session.\<close>

definition settled :: "client \<Rightarrow> client \<Rightarrow> bool" where
  "settled w w' \<longleftrightarrow> session_wf (cl_session w') \<and> cl_settings w' = cl_settings w \<and>
     (cl_connector w' = cl_connector w \<or> cl_connector w' = tc_close (cl_connector w) \<and> cl_state w' = DISCONNECTED)"

lemma steady_settled: "steady a w \<Longrightarrow> settled a w"
  by (simp add: steady_def settled_def)

lemma terminate_settled: "steady a w \<Longrightarrow> settled a (terminate_session w)"
  by (simp add: settled_def steady_def terminate_session_def on_connection_lost_def close_socket_def cl_emit_def
      on_session_def session_wf_def set_state_def)

lemma process_reject_steady: "steady a w \<Longrightarrow> steady a (process_logon_reject w)"
  unfolding process_logon_reject_def by (intro steadies) (simp_all add: session_wf_def set_state_def)

lemma client_dispatch_message_steady:
  assumes "steady a w" "\<And>w'. steady a w' \<Longrightarrow> Q w'"
  shows "post (client_dispatch_message e w) Q"
  unfolding client_dispatch_message_def process_session_level_reject_def process_application_level_reject_def
    process_logon_response_def process_logout_response_def Let_def
  by (intro outcomes assms steadies process_reject_steady client_send_reject_message_steady [where a = a];
      (erule sequence_reset_wf)?; assumption?)
    (simp_all add: session_wf_def set_state_def process_test_request_message_def process_resend_request_def Let_def)
lemma client_check_sequence_number_settled:
  assumes "steady a w" "\<And>w'. steady a w' \<Longrightarrow> Q (True, w')" "\<And>w'. settled a w' \<Longrightarrow> Q (False, w')"
  shows "post (client_check_sequence_number w) Q"
  unfolding client_check_sequence_number_def Let_def
  by (intro outcomes assms(2,3) steady_settled terminate_settled steadies assms(1))
    (simp_all add: session_wf_def set_state_def map_store_def queue_outgoing_resend_request_def)

lemma client_accept_message_settled:
  assumes "steady a w" "\<And>w'. settled a w' \<Longrightarrow> Q w'"
  shows "post (client_accept_message e b w) Q"
proof -
  have stop: "steady a v \<Longrightarrow> Q v" for v by (rule assms(2), rule steady_settled)
  have go: "post (client_check_sequence_number v \<bind>
      (\<lambda>(go_on, w). if go_on then client_dispatch_message e w else Some w)) Q" if "steady a v" for v
    by (rule post_bind, rule client_check_sequence_number_settled [OF that])
      (simp_all add: client_dispatch_message_steady [where a = a] stop post_Some assms(2))
  show ?thesis
    unfolding client_accept_message_def Let_def
    by (intro go steadies assms(1)) (simp_all add: session_wf_def map_store_def)
qed

lemma client_note_received_steady: "steady a w \<Longrightarrow> steady a (client_note_received e b w)"
  unfolding client_note_received_def Let_def by (intro steadies; (assumption | simp add: session_wf_def)?)
lemma client_process_incoming_settled:
  assumes "steady a w" "\<And>w'. settled a w' \<Longrightarrow> Q w'"
  shows "post (client_process_incoming_fix_message e b c w) Q"
proof -
  have n: "steady a (client_note_received e b w)" by (rule client_note_received_steady [OF assms(1)])
  have stop: "steady a v \<Longrightarrow> Q v" for v by (rule assms(2), rule steady_settled)
  have accept: "steady a v \<Longrightarrow> post (client_accept_message e b v) Q" for v
    by (rule client_accept_message_settled) (assumption, rule assms(2))
  have reject: "steady a v \<Longrightarrow> post (map_option snd (client_send_reject_message e k t v)) Q" for v k t
    by (rule post_map, rule client_send_reject_message_steady, assumption) (simp add: stop)
  show ?thesis
    unfolding client_process_incoming_fix_message_def Let_def
    by (intro post_if post_case_prod accept reject post_Some stop steadies n) (auto dest: validated_wf)
qed

subsection \<open>The receive buffer\<close>

lemma tc_close_clean [simp]: "tc_incomplete_buffer (tc_close c) = []" "tc_last_receive_result (tc_close c) = 0"
    "\<not> tc_open (tc_close c)"
  by (simp_all add: tc_close_def)

text \<open>What handling received bytes may do to the client.\<close>

definition progressed :: "client \<Rightarrow> client \<Rightarrow> bool" where
  "progressed w w' \<longleftrightarrow> client_wf w' \<and> cl_settings w' = cl_settings w"

lemma settled_progressed: "settled a w \<Longrightarrow> client_wf a \<Longrightarrow> progressed a w"
  by (auto simp: settled_def progressed_def client_wf_def)

lemma on_connector_progressed:
  assumes "settled a w" "tc_open (cl_connector w)" "on_connector f w = Some w'"
    and "\<And>c c'. f c = Some c' \<Longrightarrow> tc_open c' = tc_open c"
  shows "progressed a w'"
  using assms by (auto simp: on_connector_def settled_def progressed_def client_wf_def)

lemma client_rx_parsed_progressed:
  assumes "steady a w" "client_wf a" "tc_open (cl_connector a)"
  shows "post (client_rx_parsed e b f i j c w) (\<lambda>(r, w'). progressed a w' \<and> (r \<noteq> None \<longrightarrow> steady a w'))"
proof -
  have keep: "progressed a w'" if "settled a v" "cl_state v \<noteq> DISCONNECTED"
    "client_keep_incomplete b v = Some w' \<or> on_connector (\<lambda>c. Some (tc_reset_incomplete_buffer c)) v = Some w'" for v w' b
    using that(3)
  proof
    have o: "tc_open (cl_connector v)" using that(1,2) assms(3) by (auto simp: settled_def)
    show "client_keep_incomplete b v = Some w' \<Longrightarrow> progressed a w'"
      unfolding client_keep_incomplete_def
      by (erule on_connector_progressed [OF that(1) o]) (auto simp: tc_set_incomplete_buffer_def split: if_splits)
    show "on_connector (\<lambda>c. Some (tc_reset_incomplete_buffer c)) v = Some w' \<Longrightarrow> progressed a w'"
      by (erule on_connector_progressed [OF that(1) o]) (auto simp: tc_reset_incomplete_buffer_def)
  qed
  have st: "steady a v" if "settled a v" "cl_state v \<noteq> DISCONNECTED" for v
    using that by (auto simp: settled_def steady_def)
  show ?thesis
    unfolding client_rx_parsed_def Let_def
    by (rule post_bind, rule client_process_incoming_settled [OF assms(1)], intro post_if post_Some post_map postI)
      (auto intro: keep st settled_progressed assms(2))
qed

lemma client_store_message_steady:
  "steady a w \<Longrightarrow> message_wf m \<Longrightarrow> steady a (on_session (\<lambda>s. s\<lparr>m_incoming_fix_message := m\<rparr>) w)"
  by (intro steadies) (auto simp: session_wf_def)

lemma client_rx_message_progressed:
  assumes "steady a w" "client_wf a" "tc_open (cl_connector a)"
  shows "post (client_rx_message e b f i w) (\<lambda>(r, w'). progressed a w' \<and> (r \<noteq> None \<longrightarrow> steady a w'))"
proof -
  have "message_wf (m_incoming_fix_message (cl_session w))" using assms(1) by (simp add: steady_def session_wf_def)
  note wf = parse_wf [OF this]
  have parsed: "steady a (on_session (\<lambda>s. s\<lparr>m_incoming_fix_message := ps_message ps\<rparr>) w)"
    if "parse_message specs b k (m_incoming_fix_message (cl_session w)) = Parsed ps j" for specs k ps j
    using wf [of specs b k] that by (intro client_store_message_steady assms(1)) simp
  have partial: "steady a (on_session (\<lambda>s. s\<lparr>m_incoming_fix_message := ps_message ps\<rparr>) w)"
    if "parse_message specs b k (m_incoming_fix_message (cl_session w)) = Incomplete ps" for specs k ps
    using wf [of specs b k] that by (intro client_store_message_steady assms(1)) simp
  have keep: "progressed a w'" if "client_keep_incomplete b v = Some w'" "steady a v" for v w' b
    by (rule on_connector_progressed [OF steady_settled [OF that(2)] _ that(1) [unfolded client_keep_incomplete_def]])
      (use that(2) assms(3) in \<open>auto simp: steady_def tc_set_incomplete_buffer_def split: if_splits\<close>)
  show ?thesis
    unfolding client_rx_message_def Let_def
    by (intro post_case_option post_case_parse post_Some post_None post_map postI)
      (auto simp: post_def dest: keep [OF _ partial] postD [OF client_rx_parsed_progressed [OF parsed assms(2,3)]]
        intro: settled_progressed [OF steady_settled [OF assms(1)] assms(2)])
qed
lemma client_rx_loop_progressed:
  "steady a w \<Longrightarrow> client_wf a \<Longrightarrow> tc_open (cl_connector a) \<Longrightarrow> post (client_rx_loop e b f i w) (progressed a)"
proof (induction e b f i w rule: client_rx_loop.induct)
  case (1 e b f i w)
  show ?case
  proof (cases "i < length b")
    case True
    have "post (client_rx_loop e b f k v) (progressed a)"
      if "client_rx_message e b f i w = Some (Some k, v)" "steady a v" for k v
      using 1(1) [of "(Some k, v)" "Some k" v k] True that 1(3,4) by simp
    with client_rx_message_progressed [OF 1(2-4), of e b f i] True show ?thesis
      by (subst client_rx_loop.simps) (auto simp: post_def split: option.splits)
  next
    case False
    then show ?thesis by (subst client_rx_loop.simps) (simp add: post_None)
  qed
qed

lemma client_process_rx_buffer_progressed:
  assumes "client_wf w" "tc_open (cl_connector w)"
  shows "post (client_process_rx_buffer e b w) (progressed w)"
proof -
  have s: "steady w w" using assms(1) by (intro steady_start) (simp add: client_wf_def)
  have "post (client_keep_incomplete b w) (progressed w)"
    unfolding client_keep_incomplete_def
    by (rule postI, erule on_connector_progressed [OF steady_settled [OF s] assms(2)])
      (auto simp: tc_set_incomplete_buffer_def split: if_splits)
  then show ?thesis
    unfolding client_process_rx_buffer_def
    by (intro post_if post_case_option post_case_prod)
      (auto split: option.splits intro: client_rx_loop_progressed [OF s assms])
qed

lemma client_on_data_ready_progressed:
  assumes "client_wf w" "tc_open (cl_connector w)"
  shows "post (client_on_data_ready e r d l w) (progressed w)"
proof -
  have done_: "progressed w v \<Longrightarrow> progressed w (client_receive_done l v)" for v
    by (simp add: client_receive_done_def on_connection_lost_def cl_emit_def on_session_def progressed_def client_wf_def
        session_wf_def set_state_def)
  have v: "client_wf v \<and> tc_open (cl_connector v) \<and> cl_settings v = cl_settings w"
    if "on_connector (\<lambda>c. Some (tc_receive r d c)) w = Some v" for v
    using that assms by (auto simp: on_connector_def tc_receive_def client_wf_def)
  have "progressed w u" if "progressed v u" "cl_settings v = cl_settings w" for v u
    using that by (simp add: progressed_def)
  then show ?thesis
    unfolding client_on_data_ready_def
    by (intro post_bind postI)
      (auto simp: progressed_def post_def dest!: v split: option.splits if_splits
        dest: postD [OF client_process_rx_buffer_progressed] intro!: done_ [unfolded progressed_def])
qed

lemma process_incoming_messages_progressed:
  assumes "client_wf w"
  shows "post (process_incoming_messages e w) (progressed w)"
proof -
  have w: "client_wf (w\<lparr>cl_polls := k\<rparr>)" "progressed w (w\<lparr>cl_polls := k\<rparr>)" for k
    using assms by (simp_all add: client_wf_def progressed_def)
  have "post (client_on_data_ready e r d l (w\<lparr>cl_polls := k\<rparr>)) (progressed w)" if "tc_open (cl_connector w)" for r d l k
    by (rule post_mono [OF client_on_data_ready_progressed [OF w(1)]]) (use that in \<open>simp_all add: progressed_def\<close>)
  then show ?thesis
    unfolding process_incoming_messages_def Let_def
    by (auto simp: post_Some w(2) split: poll_result.splits)
qed

subsection \<open>Shutdown, timers and commands\<close>

lemma steady_progressed: "client_wf a \<Longrightarrow> steady a w \<Longrightarrow> progressed a w"
  by (auto simp: progressed_def steady_def client_wf_def)

lemma progressed_trans: "progressed a w \<Longrightarrow> progressed w v \<Longrightarrow> progressed a v"
  by (simp add: progressed_def)

lemma progressed_wf: "progressed a w \<Longrightarrow> client_wf w"
  by (simp add: progressed_def)

lemma progressed_refl: "client_wf w \<Longrightarrow> progressed w w"
  by (simp add: progressed_def)

lemma progressed_steady: "progressed a w \<Longrightarrow> steady w v \<Longrightarrow> progressed a v"
  by (rule progressed_trans, assumption, rule steady_progressed, erule progressed_wf)

lemma progressed_start: "progressed a w \<Longrightarrow> steady w w"
  by (rule steady_start) (simp add: progressed_def client_wf_def)

lemma progressed_tick: "progressed a w \<Longrightarrow> progressed a (cl_tick w)"
  by (simp add: progressed_def client_wf_def cl_tick_def)

lemma progressed_session: "progressed a w \<Longrightarrow> (session_wf (cl_session w) \<Longrightarrow> session_wf (f (cl_session w))) \<Longrightarrow>
    progressed a (on_session f w)"
  by (simp add: progressed_def client_wf_def on_session_def)

lemma wait_for_logout_progressed:
  assumes "wait_for_logout e start timeout w = Some w'" "client_wf w"
  shows "progressed w w'"
proof -
  have "client_wf w \<longrightarrow> progressed w w'"
    using _ assms(1)
  proof (rule wait_for_logout.raw_induct [where P = "\<lambda>e start timeout w w'. client_wf w \<longrightarrow> progressed w w'"])
    fix wait e start timeout w w'
    assume IH: "\<And>e start timeout w w'. wait e start timeout w = Some w' \<Longrightarrow> client_wf w \<longrightarrow> progressed w w'"
      and body: "process_incoming_messages e w \<bind> (\<lambda>w.
         if m_received_logout_response (cl_session w) then Some w
         else if cl_state w = DISCONNECTED then Some w
         else if timeout \<le> c_steady e (cl_clock_reads w) - start then Some (cl_tick w)
         else wait e start timeout (cl_tick w)) = Some w'"
    show "client_wf w \<longrightarrow> progressed w w'"
    proof
      assume wf: "client_wf w"
      obtain v where v: "process_incoming_messages e w = Some v"
        and rest: "(if m_received_logout_response (cl_session v) then Some v
           else if cl_state v = DISCONNECTED then Some v
           else if timeout \<le> c_steady e (cl_clock_reads v) - start then Some (cl_tick v)
           else wait e start timeout (cl_tick v)) = Some w'"
        using body by (auto simp: bind_eq_Some_conv)
      have p: "progressed w v" by (rule postD [OF process_incoming_messages_progressed [OF wf] v])
      then have t: "progressed w (cl_tick v)" by (rule progressed_tick)
      have "wait e start timeout (cl_tick v) = Some w' \<Longrightarrow> progressed w w'"
        using IH progressed_wf [OF t] progressed_trans [OF t] by blast
      then show "progressed w w'" using rest p t by (auto split: if_splits)
    qed
  qed
  with assms(2) show ?thesis by simp
qed

text \<open>Every shutdown ends with a closed socket, no bytes kept and the session disconnected.\<close>

definition shut_down :: "client \<Rightarrow> bool" where
  "shut_down w \<longleftrightarrow> cl_state w = DISCONNECTED \<and> \<not> tc_open (cl_connector w) \<and>
     tc_incomplete_buffer (cl_connector w) = [] \<and> tc_last_receive_result (cl_connector w) = 0"
lemma shut_down_close: "shut_down (on_session (set_state DISCONNECTED) (close_socket w))"
  by (simp add: shut_down_def on_session_def close_socket_def cl_emit_def)

lemma close_progressed: "progressed a w \<Longrightarrow> progressed a (on_session (set_state DISCONNECTED) (close_socket w))"
  by (simp add: progressed_def client_wf_def on_session_def close_socket_def cl_emit_def session_wf_def set_state_def)

lemma state_wf: "session_wf s \<Longrightarrow> session_wf (set_state st s)"
  by (simp add: session_wf_def set_state_def)

lemma lost_progressed:
  assumes "progressed a w"
  shows "progressed a (on_connection_lost w)"
  by (rule progressed_steady [OF assms steady_lost [OF progressed_start [OF assms]]])

lemma do_shutdown_progressed:
  assumes "progressed a w"
  shows "post (do_shutdown e graceful w) (\<lambda>w'. progressed a w' \<and> shut_down w')"
proof -
  have lost: "progressed a (on_connection_lost w)" by (rule lost_progressed [OF assms])
  let ?v = "on_session (\<lambda>s. s\<lparr>m_received_logout_response := False\<rparr>) (on_connection_lost w)"
  have v: "progressed a ?v" by (rule progressed_session [OF lost]) (simp add: session_wf_def)
  have wait: "post (wait_for_logout e start timeout u) (progressed a)" if "progressed a u" for start timeout u
    by (rule postI) (rule progressed_trans [OF that], erule wait_for_logout_progressed, rule progressed_wf [OF that])
  have "post (send_logout_request e ?v \<bind> (\<lambda>(ok, w). wait_for_logout e (c_steady e (cl_clock_reads (on_session (set_state PENDING_LOGOUT) w)))
      (logout_timeout (on_session (set_state PENDING_LOGOUT) w)) (cl_tick (on_session (set_state PENDING_LOGOUT) w)))) (progressed a)"
    by (rule post_bind, rule send_logout_request_steady [OF progressed_start [OF v]], simp only: prod.case)
      (intro wait progressed_tick progressed_session progressed_steady [OF v]; simp add: state_wf)
  moreover have "post r (progressed a) \<Longrightarrow>
    post (r \<bind> (\<lambda>w. Some (on_session (set_state DISCONNECTED) (close_socket w)))) (\<lambda>w'. progressed a w' \<and> shut_down w')" for r
    by (rule post_bind, erule post_mono, rule post_Some) (simp add: close_progressed shut_down_close)
  ultimately show ?thesis
    unfolding do_shutdown_def Let_def by (simp add: lost post_Some)
qed

text \<open>The timers of a turn keep the client well-formed.\<close>

lemma terminate_progressed: "progressed a w \<Longrightarrow> progressed a (terminate_session w)"
  unfolding terminate_session_def by (intro close_progressed lost_progressed)

lemma client_resend_request_timer_progressed:
  assumes "progressed a w" "\<And>w'. progressed a w' \<Longrightarrow> Q w'"
  shows "post (client_process_outgoing_resend_request_if_necessary e t w) Q"
  unfolding client_process_outgoing_resend_request_if_necessary_def Let_def
  by (intro outcomes assms terminate_progressed client_send_resend_request_steady [OF progressed_start [OF assms(1)]]
      progressed_session progressed_steady [OF assms(1)])
    (simp_all add: session_wf_def set_state_def)

lemma client_test_request_timer_progressed:
  assumes "progressed a w" "\<And>w'. progressed a w' \<Longrightarrow> Q w'"
  shows "post (client_process_outgoing_test_request_if_necessary e t w) Q"
  unfolding client_process_outgoing_test_request_if_necessary_def Let_def
  by (intro outcomes assms(2) terminate_progressed client_send_test_request_steady [OF progressed_start [OF assms(1)]]
      progressed_session; (erule progressed_steady [OF assms(1)] | rule assms(1))?)
    (simp_all add: session_wf_def)

lemma client_answer_resend_request_progressed:
  assumes "progressed a w" "\<And>w'. progressed a w' \<Longrightarrow> Q w'"
  shows "post (client_respond_to_resend_request_if_necessary e w) Q"
  unfolding client_respond_to_resend_request_if_necessary_def resend_messages_to_server_def Let_def
  by (rule post_if, rule post_bind, rule postI)
    ((intro outcomes assms(2) client_resend_loop_steady [OF progressed_start [OF assms(1)]]
      client_send_gap_fill_message_steady [OF progressed_start [OF assms(1)]] progressed_session;
      (simp, erule progressed_steady [OF assms(1)])?; simp add: session_wf_def set_state_def), intro outcomes assms)

lemma client_answer_test_request_progressed:
  assumes "progressed a w" "\<And>w'. progressed a w' \<Longrightarrow> Q w'"
  shows "post (client_respond_to_test_request_if_necessary e w) Q"
  unfolding client_respond_to_test_request_if_necessary_def Let_def
  by (intro outcomes assms send_client_heartbeat_steady [OF progressed_start [OF assms(1)]])
    (auto intro!: assms(2) progressed_steady [OF assms(1)] steady_session simp: session_wf_def)

lemma client_heartbeat_timer_progressed:
  assumes "progressed a w" "\<And>w'. progressed a w' \<Longrightarrow> Q w'"
  shows "post (send_client_heartbeat_if_necessary e t w) Q"
  unfolding send_client_heartbeat_if_necessary_def Let_def
  by (intro outcomes assms send_client_heartbeat_steady [OF progressed_start [OF assms(1)]])
    (auto intro!: assms(2) progressed_steady [OF assms(1)])
lemma client_schedule_progressed:
  assumes "progressed a w" "\<And>w'. progressed a w' \<Longrightarrow> Q w'"
  shows "post (client_process_schedule_validator e w) Q"
proof -
  have "post (do_shutdown e g (cl_tick w)) Q" for g
    by (rule post_mono [OF do_shutdown_progressed [OF progressed_tick [OF assms(1)]]]) (simp add: assms(2))
  then show ?thesis
    unfolding client_process_schedule_validator_def by (intro outcomes assms(2) progressed_tick assms(1))
qed

lemma client_process_live_progressed:
  assumes "progressed a w" "\<And>w'. progressed a w' \<Longrightarrow> Q w'"
  shows "post (client_process_live e w) Q"
  unfolding client_process_live_def
  by (intro outcomes assms client_resend_request_timer_progressed [where a = a] client_test_request_timer_progressed [where a = a]
      client_answer_resend_request_progressed [where a = a] client_answer_test_request_progressed [where a = a]
      client_heartbeat_timer_progressed [where a = a] client_schedule_progressed [where a = a] progressed_tick)

lemma client_disable_session_progressed:
  assumes "progressed a w"
  shows "post (client_disable_session e w) (progressed a)"
proof -
  have "post (do_shutdown e True w) (\<lambda>w. progressed a (on_session (set_state DISABLED) w))"
    by (rule post_mono [OF do_shutdown_progressed [OF assms]]) (simp add: progressed_session state_wf)
  then have "post (do_shutdown e True w) (\<lambda>w. post (Some (on_session (set_state DISABLED) w)) (progressed a))"
    by (rule post_mono) (rule post_Some)
  then show ?thesis
    unfolding client_disable_session_def
    by (intro post_bind) (simp add: post_Some progressed_session [OF assms] state_wf)
qed

lemma client_enable_session_progressed:
  assumes "progressed a w"
  shows "post (client_enable_session e w) (progressed a)"
  unfolding client_enable_session_def Let_def
  by (intro post_rules assms progressed_session) (simp_all add: session_wf_def set_state_def)

lemma client_process_admin_commands_progressed:
  assumes "progressed a w"
  shows "post (client_process_admin_commands e w) (progressed a)"
proof -
  have one: "post (client_process_admin_command e c v) (progressed a)" if v: "progressed a v" for c v
  proof -
    have primary: "progressed a (v\<lparr>cl_is_ha_primary := b\<rparr>)" for b using v by (simp add: progressed_def client_wf_def)
    have reset: "post (map_option snd (client_send_sequence_reset_message e k v)) (progressed a)" for k
      by (rule post_map, rule client_send_sequence_reset_message_steady [OF progressed_start [OF v]])
        (simp add: progressed_steady [OF v])
    have store: "progressed a (on_session (map_store f) v)" for f
      by (rule progressed_session [OF v]) (simp add: session_wf_def map_store_def)
    show ?thesis
      unfolding client_process_admin_command_def Let_def
      by (cases "cmd_type c") (simp_all add: post_Some store reset v client_disable_session_progressed
          client_enable_session_progressed primary)
  qed
  have rest: "progressed a (on_session (\<lambda>s. s\<lparr>m_admin_commands := cs\<rparr>) w)" for cs
    by (rule progressed_session [OF assms]) (simp add: session_wf_def)
  show ?thesis
    unfolding client_process_admin_commands_def by (intro post_case_list post_Some one rest assms)
qed

lemma client_process_progressed:
  assumes "client_wf w"
  shows "post (client_process e w) (progressed w)"
proof -
  have start: "post (if DISCONNECTED < cl_state w then process_incoming_messages e w else Some w) (progressed w)"
    by (simp add: process_incoming_messages_progressed assms post_Some progressed_refl)
  have timer: "progressed a (process_outgoing_logon_request t v)" if "progressed a v" for a t v
    unfolding process_outgoing_logon_request_def Let_def by (simp add: that progressed_session state_wf)
  show ?thesis
    unfolding client_process_def Let_def
    by (rule post_bind, rule post_mono [OF start], rule post_bind, rule post_mono [OF client_process_admin_commands_progressed],
        assumption, intro post_if client_process_live_progressed [where a = w] post_Some timer progressed_tick)
qed

lemma client_connect_to_wf:
  assumes "client_wf w" "client_connect_to e ad p w = (ok, w')"
  shows "client_wf w'"
  using assms by (auto simp: client_connect_to_def tc_connect_def client_wf_def split: if_splits)

lemma client_connect_transport_wf:
  assumes "client_wf w" "client_connect_transport e w = (ok, w')"
  shows "client_wf w'"
proof -
  have flag: "client_wf (v\<lparr>m_connected_to_primary := b\<rparr>) = client_wf v"
    "client_wf (v\<lparr>m_connected_to_secondary := b\<rparr>) = client_wf v" for v b
    by (simp_all add: client_wf_def)
  obtain s v where v: "client_connect_to e (primary_address (cl_settings w)) (primary_port (cl_settings w)) w = (s, v)" by force
  have wv: "client_wf (v\<lparr>m_connected_to_primary := b\<rparr>)" for b using client_connect_to_wf [OF assms(1) v] by (simp add: flag)
  from assms(2) v show ?thesis
    by (auto simp: client_connect_transport_def Let_def flag client_connect_to_wf [OF assms(1) v]
        dest: client_connect_to_wf [OF wv] split: prod.splits if_splits)
qed

lemma client_connect_wf:
  assumes "client_wf w"
  shows "post (client_connect e w) (\<lambda>(ok, w'). client_wf w')"
proof -
  have keep: "client_wf (on_session f v)" if "client_wf v" "session_wf (cl_session v) \<Longrightarrow> session_wf (f (cl_session v))" for f v
    using that by (simp add: client_wf_def on_session_def)
  have tick: "client_wf (cl_tick v)" "client_wf (v\<lparr>m_last_logon_attempt_timestamp := t\<rparr>)"
    "client_wf (cl_emit ev v)" if "client_wf v" for v t ev
    using that by (simp_all add: client_wf_def cl_tick_def cl_emit_def)
  have logon: "post (send_logon_request e v) (\<lambda>(ok, w'). client_wf w')" if "client_wf v" for v
    by (rule send_logon_request_steady [OF steady_start]) (use that steady_progressed [OF that] in \<open>auto simp: client_wf_def progressed_def\<close>)
  show ?thesis
    unfolding client_connect_def Let_def
    by (intro post_if post_case_prod post_Some logon)
      (auto intro!: keep tick assms intro: client_connect_transport_wf [rotated] simp: session_wf_def reset_flags_def set_state_def)
qed

lemma client_create_wf:
  assumes "client_create e env settings n st = Some w"
  shows "client_wf w"
proof -
  let ?st = "st\<lparr>is_server := False, tx_encode_buffer_capacity := client_tx_encode_buffer_capacity settings\<rparr>"
  obtain s where s: "session_initialise env n ?st (new_session env) = Some s"
    using assms by (auto simp: client_create_def Let_def split: if_splits option.splits)
  define w0 where "w0 = \<lparr>cl_session = s, cl_settings = settings,
    cl_is_ha_primary = starts_as_primary_instance settings, m_last_logon_attempt_timestamp = 0,
    m_connected_to_primary = False, m_connected_to_secondary = False,
    cl_connector = new_tcp_connector, cl_clock_reads = 0, cl_sends = 0, cl_polls = 0,
    cl_connects = 0, cl_trace = []\<rparr>"
  have "client_wf w0"
    using session_initialise_wf(1) [OF s] by (simp add: w0_def client_wf_def new_tcp_connector_def)
  moreover have "w = w0 \<or> client_disable_session e w0 = Some w"
    using assms s by (auto simp: client_create_def Let_def w0_def split: if_splits)
  ultimately show ?thesis
    using postD [OF client_disable_session_progressed [OF progressed_refl]] progressed_wf by blast
qed

lemma client_step_wf: "client_step e w w' \<Longrightarrow> client_wf w \<Longrightarrow> client_wf w'"
proof (induction rule: client_step.induct)
  case (turn w w')
  from postD [OF client_process_progressed [OF turn(2)] turn(1)] show ?case by (rule progressed_wf)
next
  case (connect w ok w')
  from postD [OF client_connect_wf [OF connect(2)] connect(1)] show ?case by simp
next
  case (send f w ok w')
  have "steady w w'"
    by (rule postD [OF client_send_outgoing_message_steady [OF client_build_message_steady [OF steady_start]] send(1), of "\<lambda>(ok, v). steady w v", simplified])
      (use send(2) in \<open>simp_all add: client_wf_def\<close>)
  with send(2) show ?case by (metis steady_progressed progressed_wf)
next
  case (command w t arg)
  then show ?case by (simp add: client_push_admin_command_def client_wf_def on_session_def session_wf_def)
next
  case (shutdown g w w')
  from postD [OF do_shutdown_progressed [OF progressed_refl [OF shutdown(2)]] shutdown(1)] show ?case
    by (simp add: progressed_def)
qed

end
