(* ===== verification/Client_Properties.thy ===== *)
theory Client_Properties
  imports Client_Invariant
begin

text \<open>
  The properties of the client as a whole: its reachable states, how a shutdown ends, and what sending
  on a closed socket does to a turn that still believes the session to be live.
\<close>

subsection \<open>Sending on a closed socket\<close>

lemma closed_socket_loop:
  assumes "send_loop closed_socket 0 b k sent = Some r" "sent \<noteq> length b"
  shows False
proof -
  have never: "os = closed_socket \<longrightarrow> tries = 0 \<longrightarrow> sent \<noteq> length b \<longrightarrow> False"
    if "send_loop os tries b k sent = Some r" for os tries b k sent r
    using _ that
  proof (rule send_loop.raw_induct [where
        P = "\<lambda>os tries b k sent r. os = closed_socket \<longrightarrow> tries = 0 \<longrightarrow> sent \<noteq> length b \<longrightarrow> False"])
    fix loop os tries b k sent r
    assume IH: "\<And>os tries b k sent r. loop os tries b k sent = Some r \<Longrightarrow>
        os = closed_socket \<longrightarrow> tries = 0 \<longrightarrow> sent \<noteq> length b \<longrightarrow> False"
      and body: "(if 0 < tries \<and> k = tries then Some (SendFail, sent)
        else (let (result, lost) = os k (length b - sent);
                  sent = (if 0 < result \<and> result \<le> int (length b) then sent + nat result else sent)
              in if \<not> (0 < result \<and> result \<le> int (length b)) \<and> lost then Some (SendLost, sent)
                 else if sent = length b then Some (SendOk, sent) else loop os tries b (k + 1) sent)) = Some r"
    show "os = closed_socket \<longrightarrow> tries = 0 \<longrightarrow> sent \<noteq> length b \<longrightarrow> False"
    proof (intro impI)
      assume a: "os = closed_socket" "tries = 0" "sent \<noteq> length b"
      from body a(3) have "loop os tries b (k + 1) sent = Some r"
        unfolding a(1,2) by (simp add: closed_socket_def)
      with IH a show False by blast
    qed
  qed
  from never [OF assms(1)] assms(2) show False by simp
qed

lemma closed_socket_never_sends: "b \<noteq> [] \<Longrightarrow> send_to_socket closed_socket 0 b = None"
  using closed_socket_loop [of b 0 0] by (cases "send_to_socket closed_socket 0 b") (auto simp: send_to_socket_def)

lemma encode_nonempty: "fst (encode st i now k m) \<noteq> []"
  by (simp add: encode_def Let_def split: prod.splits)

text \<open>A client whose socket is closed while nothing was sent since, with the default setting for the tries.\<close>

definition stale :: "client \<Rightarrow> client \<Rightarrow> bool" where
  "stale a w \<longleftrightarrow> \<not> tc_open (cl_connector w) \<and> send_try_count (cl_settings w) = 0 \<and>
     m_settings (cl_session w) = m_settings (cl_session a) \<and> cl_clock_reads w = cl_clock_reads a \<and>
     m_last_sent_message_timestamp_nanoseconds (cl_session w) = m_last_sent_message_timestamp_nanoseconds (cl_session a)"

abbreviation cut_off :: "client \<Rightarrow> bool" where
  "cut_off w \<equiv> \<not> tc_open (cl_connector w) \<and> send_try_count (cl_settings w) = 0"

lemma send_bytes_cut_off: "cut_off w \<Longrightarrow> b \<noteq> [] \<Longrightarrow> client_send_bytes e inc b w = None"
  by (simp add: client_send_bytes_def client_transport_send_def throttle_outgoing_def on_session_def cl_tick_def
      closed_socket_never_sends)

lemma encode_then_send_cut_off:
  assumes "cut_off w"
  shows "client_encode e n w \<bind> (\<lambda>(b, w). client_send_bytes e inc b w \<bind> f) = None"
    "client_encode e n w \<bind> (\<lambda>(b, w). client_send_bytes e inc b w) = None"
proof -
  have sent: "client_encode e n w = Some (b, v) \<Longrightarrow> client_send_bytes e inc b v = None" for b v
    using encode_nonempty [of "m_settings (cl_session w)" "session_incoming_seq_no (cl_session w)" "cl_wall e w" n
        "m_outgoing_fix_message (cl_session w)"] assms
    by (intro send_bytes_cut_off)
      (auto simp: client_encode_def on_session_def cl_tick_def Let_def split: prod.splits if_splits)
  show "client_encode e n w \<bind> (\<lambda>(b, w). client_send_bytes e inc b w \<bind> f) = None"
    "client_encode e n w \<bind> (\<lambda>(b, w). client_send_bytes e inc b w) = None"
    by (cases "client_encode e n w"; auto simp: sent)+
qed

lemma build_cut_off: "cut_off (client_build f w) = cut_off w" "cut_off (on_session g w) = cut_off w"
  by (simp_all add: client_build_def on_session_def)

text \<open>No operation that sends ever returns.\<close>

lemma sends_cut_off:
  assumes "cut_off w"
  shows "client_send_outgoing_message e w = None"
    and "send_client_heartbeat e i w = None" and "client_send_test_request e w = None"
    and "client_send_resend_request e w = None" and "client_send_gap_fill_message e w = None"
  using assms
  by (simp_all add: client_send_outgoing_message_def send_client_heartbeat_def client_send_test_request_def
      client_send_resend_request_def client_send_gap_fill_message_def encode_then_send_cut_off build_cut_off)

lemma resend_cut_off: "cut_off w \<Longrightarrow> client_resend_message e i w = None"
  by (simp add: client_resend_message_def Let_def encode_then_send_cut_off build_cut_off split: bind_splits)

lemma resend_loop_cut_off: "cut_off w \<Longrightarrow> client_resend_loop e k i j w = (if 2 ^ 32 \<le> k \<or> i \<le> j then None else Some w)"
  by (subst client_resend_loop.simps) (simp add: resend_cut_off not_le)

subsection \<open>A turn on a closed socket\<close>

lemma stale_refl: "cut_off w \<Longrightarrow> stale w w"
  by (simp add: stale_def)

lemma stale_cut_off: "stale a w \<Longrightarrow> cut_off w"
  by (simp add: stale_def)

lemma stale_tick: "stale a w \<Longrightarrow> stale (cl_tick a) (cl_tick w)"
  by (simp add: stale_def cl_tick_def)

lemma stale_session:
  assumes "stale a w" "m_settings (f (cl_session w)) = m_settings (cl_session w)"
    and "m_last_sent_message_timestamp_nanoseconds (f (cl_session w)) = m_last_sent_message_timestamp_nanoseconds (cl_session w)"
  shows "stale a (on_session f w)"
  using assms by (simp add: stale_def on_session_def)

lemma stale_terminate: "stale a w \<Longrightarrow> stale a (terminate_session w)"
  by (simp add: stale_def terminate_session_def on_session_def close_socket_def on_connection_lost_def cl_emit_def
      tc_close_def set_state_def)

lemma stale_resend_request_timer:
  assumes "stale a w"
  shows "post (client_process_outgoing_resend_request_if_necessary e t w) (stale a)"
  unfolding client_process_outgoing_resend_request_if_necessary_def Let_def
  by (simp add: sends_cut_off stale_cut_off [OF assms] post_None post_Some stale_terminate assms)

lemma stale_test_request_timer:
  assumes "stale a w"
  shows "post (client_process_outgoing_test_request_if_necessary e t w) (stale a)"
  unfolding client_process_outgoing_test_request_if_necessary_def Let_def
  by (simp add: sends_cut_off stale_cut_off [OF assms] post_None post_Some stale_terminate stale_session assms)

lemma stale_answer_resend_request:
  assumes "stale a w"
  shows "post (client_respond_to_resend_request_if_necessary e w) (stale a)"
  unfolding client_respond_to_resend_request_if_necessary_def resend_messages_to_server_def Let_def
  by (intro post_rules assms)
    (simp_all add: sends_cut_off resend_loop_cut_off stale_cut_off [OF assms] post_None post_Some stale_session assms set_state_def
      post_def split: option.splits)

lemma stale_answer_test_request:
  assumes "stale a w"
  shows "post (client_respond_to_test_request_if_necessary e w) (stale a)"
  unfolding client_respond_to_test_request_if_necessary_def Let_def
  by (simp add: sends_cut_off stale_cut_off [OF assms] post_None post_Some assms)

lemma stale_heartbeat:
  assumes "stale a w"
    "heartbeat_interval_in_nanoseconds (m_settings (cl_session a)) * 9 div 10
       \<le> t - m_last_sent_message_timestamp_nanoseconds (cl_session a)"
  shows "send_client_heartbeat_if_necessary e t w = None"
  using assms by (simp add: send_client_heartbeat_if_necessary_def sends_cut_off stale_def)

text \<open>The timers of a turn never return on a closed socket once the heartbeat is due.\<close>

lemma live_turn_on_closed_socket:
  assumes "cut_off w"
    "heartbeat_interval_in_nanoseconds (m_settings (cl_session w)) * 9 div 10
       \<le> c_monotonic e (cl_clock_reads w + 2) - m_last_sent_message_timestamp_nanoseconds (cl_session w)"
  shows "client_process_live e w = None"
proof -
  let ?a = "cl_tick (cl_tick w)"
  have tick: "stale ?a (cl_tick v)" if "stale (cl_tick w) v" for v by (rule stale_tick [OF that])
  have "post (client_process_live e w) (\<lambda>_. False)"
    unfolding client_process_live_def
  proof (rule post_seq [OF stale_resend_request_timer [OF stale_tick [OF stale_refl [OF assms(1)]]]],
      rule post_seq [OF stale_test_request_timer [OF tick]], assumption,
      erule post_seq [OF stale_answer_resend_request], erule post_seq [OF stale_answer_test_request])
    fix v assume v: "stale ?a v"
    have "cl_now e v = c_monotonic e (cl_clock_reads w + 2)"
      using v by (simp add: stale_def cl_now_def cl_tick_def)
    with assms(2) have "send_client_heartbeat_if_necessary e (cl_now e v) (cl_tick v) = None"
      by (intro stale_heartbeat [OF stale_tick [OF v]]) (simp add: cl_tick_def)
    then show "post (send_client_heartbeat_if_necessary e (cl_now e v) (cl_tick v) \<bind>
        client_process_schedule_validator e) (\<lambda>_. False)"
      by (simp add: post_None)
  qed
  then show ?thesis by (cases "client_process_live e w") (auto simp: post_def)
qed

subsection \<open>Reachable clients\<close>

definition sample_client_environment :: client_environment where
  "sample_client_environment =
     \<lparr>c_monotonic = (\<lambda>k. 1000000000000 + word_of_nat k), c_steady = (\<lambda>k. int k * 1000000000), c_wall = (\<lambda>_. 0),
      c_send = (\<lambda>_. SendOk), c_poll = (\<lambda>_. Poll_timeout), c_connect = (\<lambda>_. Connect_ok),
      c_group_specs = no_group_specs, c_has_persist_plugin = False, c_outgoing_folder = None\<rparr>"

definition sample_client_settings :: fix_client_settings where
  "sample_client_settings = default_client_settings\<lparr>primary_address := ''10.0.0.1'', primary_port := 5001\<rparr>"

text \<open>A connected client in a given state of its session.\<close>

definition sample_client :: "SessionState \<Rightarrow> client" where
  "sample_client st =
     \<lparr>cl_session = (new_session sample_environment)\<lparr>m_state := st\<rparr>, cl_settings = sample_client_settings,
      cl_is_ha_primary = True, m_last_logon_attempt_timestamp = 0, m_connected_to_primary = True,
      m_connected_to_secondary = False, cl_connector = new_tcp_connector\<lparr>tc_open := True\<rparr>,
      cl_clock_reads = 0, cl_sends = 0, cl_polls = 0, cl_connects = 0, cl_trace = []\<rparr>"

text \<open>C18: In every state a client reaches from its creation by turns, connection attempts, messages of the
  application, administrative commands and shutdowns, the session is well-formed and a closed connector keeps
  no bytes of the old connection.\<close>

theorem reachable_client_consistent:
  assumes "client_create e env settings n st = Some w\<^sub>0" "(client_step e)\<^sup>*\<^sup>* w\<^sub>0 w"
  shows "session_wf (cl_session w) \<and>
    (tc_open (cl_connector w) \<or> tc_incomplete_buffer (cl_connector w) = [] \<and> tc_last_receive_result (cl_connector w) = 0)"
proof -
  from assms(2) have "client_wf w"
    by (induction rule: rtranclp_induct) (auto intro: client_create_wf [OF assms(1)] client_step_wf)
  then show ?thesis by (simp add: client_wf_def)
qed

subsection \<open>Ending a session\<close>

lemma wait_for_silent_peer:
  assumes "\<forall>k. c_poll e k = Poll_timeout \<or> c_poll e k = Poll_error" "\<forall>t. \<exists>k. \<forall>j \<ge> k. t \<le> c_steady e j"
  shows "\<exists>w'. wait_for_logout e start timeout w = Some w'"
proof -
  obtain k where k: "\<forall>j \<ge> k. start + timeout \<le> c_steady e j" using assms(2) by blast
  show ?thesis
  proof (induction "k - cl_clock_reads w" arbitrary: w rule: less_induct)
    case less
    have p: "process_incoming_messages e w = Some (w\<lparr>cl_polls := cl_polls w + 1\<rparr>)"
      using assms(1) [rule_format, of "cl_polls w"] by (auto simp: process_incoming_messages_def Let_def)
    show ?case
    proof (cases "k \<le> cl_clock_reads w")
      case True
      with k have "timeout \<le> c_steady e (cl_clock_reads w) - start" by force
      then show ?thesis by (subst wait_for_logout.simps) (simp add: p)
    next
      case False
      moreover from this have "k - cl_clock_reads (cl_tick (w\<lparr>cl_polls := cl_polls w + 1\<rparr>)) < k - cl_clock_reads w"
        by (simp add: cl_tick_def)
      note less [OF this]
      ultimately
      obtain v where "wait_for_logout e start timeout (cl_tick (w\<lparr>cl_polls := cl_polls w + 1\<rparr>)) = Some v"
        by (auto simp: cl_tick_def)
      then show ?thesis by (subst wait_for_logout.simps) (simp add: p)
    qed
  qed
qed

lemma do_shutdown_shut_down: "do_shutdown e g w = Some w' \<Longrightarrow> shut_down w'"
  by (auto simp: do_shutdown_def Let_def shut_down_close bind_eq_Some_conv split: if_splits)

lemma send_bytes_open:
  assumes "tc_open (cl_connector w)"
  shows "client_send_bytes e inc b w \<noteq> None"
proof -
  have "tc_open (cl_connector (throttle_outgoing e w))"
    using assms by (simp add: throttle_outgoing_def on_session_def cl_tick_def Let_def)
  then show ?thesis by (auto simp: client_send_bytes_def client_transport_send_def Let_def)
qed

lemma logout_sent:
  assumes "tc_open (cl_connector w)"
    "length (fst (encode (m_settings (cl_session w)) (session_incoming_seq_no (cl_session w)) (cl_wall e w)
       (session_outgoing_seq_no (cl_session w) + 1) (build_logout_message '''' (m_outgoing_fix_message (cl_session w)))))
     \<le> client_tx_encode_buffer_capacity (cl_settings w)"
  shows "\<exists>ok v. send_logout_request e w = Some (ok, v)"
proof -
  obtain b m where enc: "encode (m_settings (cl_session w)) (session_incoming_seq_no (cl_session w)) (cl_wall e w)
       (session_outgoing_seq_no (cl_session w) + 1) (build_logout_message '''' (m_outgoing_fix_message (cl_session w))) = (b, m)"
    by force
  define v where "v = cl_tick (on_session (\<lambda>s. s\<lparr>m_outgoing_fix_message := m\<rparr>)
    (client_build (\<lambda>s m. (s, build_logout_message '''' m)) w))"
  have "client_encode e (session_outgoing_seq_no (cl_session w) + 1)
      (client_build (\<lambda>s m. (s, build_logout_message '''' m)) w) = Some (b, v)"
    using enc assms(2) by (simp add: client_encode_def v_def client_build_def on_session_def cl_wall_def Let_def)
  moreover have "tc_open (cl_connector v)"
    using assms(1) by (simp add: v_def cl_tick_def on_session_def client_build_def)
  moreover have "session_outgoing_seq_no (cl_session (client_build (\<lambda>s m. (s, build_logout_message '''' m)) w)) =
      session_outgoing_seq_no (cl_session w)"
    by (simp add: client_build_def on_session_def)
  ultimately show ?thesis
    using send_bytes_open [of v e True b] by (auto simp: send_logout_request_def client_send_outgoing_message_def)
qed

text \<open>C19: A shutdown ends even when the peer never answers the Logout, once the clock passes the logout
  timeout; it leaves the session disconnected, the socket closed and no bytes of the old connection.\<close>

theorem shutdown_ends:
  assumes "\<forall>k. c_poll e k = Poll_timeout \<or> c_poll e k = Poll_error" "\<forall>t. \<exists>k. \<forall>j \<ge> k. t \<le> c_steady e j"
    and "tc_open (cl_connector w)"
    and "length (fst (encode (m_settings (cl_session w)) (session_incoming_seq_no (cl_session w)) (c_wall e (cl_clock_reads w))
       (session_outgoing_seq_no (cl_session w) + 1) (build_logout_message '''' (m_outgoing_fix_message (cl_session w)))))
       \<le> client_tx_encode_buffer_capacity (cl_settings w)"
  shows "\<exists>w'. do_shutdown e graceful_shutdown w = Some w' \<and> cl_state w' = DISCONNECTED \<and>
    \<not> tc_open (cl_connector w') \<and> tc_incomplete_buffer (cl_connector w') = []"
proof -
  let ?v = "on_session (\<lambda>s. s\<lparr>m_received_logout_response := False\<rparr>) (on_connection_lost w)"
  have v: "cl_connector ?v = cl_connector w" "cl_settings ?v = cl_settings w" "cl_clock_reads ?v = cl_clock_reads w"
    "m_settings (cl_session ?v) = m_settings (cl_session w)" "m_sequence_store (cl_session ?v) = m_sequence_store (cl_session w)"
    "m_outgoing_fix_message (cl_session ?v) = m_outgoing_fix_message (cl_session w)"
    by (simp_all add: on_session_def on_connection_lost_def cl_emit_def set_state_def)
  obtain ok u where u: "send_logout_request e ?v = Some (ok, u)"
    using logout_sent [of ?v e] assms(3,4) by (auto simp: v cl_wall_def)
  have "do_shutdown e graceful_shutdown w \<noteq> None"
    using wait_for_silent_peer [OF assms(1,2), of "c_steady e (cl_clock_reads (on_session (set_state PENDING_LOGOUT) u))"
        "logout_timeout (on_session (set_state PENDING_LOGOUT) u)" "cl_tick (on_session (set_state PENDING_LOGOUT) u)"]
    by (auto simp: do_shutdown_def u Let_def)
  then show ?thesis using do_shutdown_shut_down [of e graceful_shutdown w] by (auto simp: shut_down_def)
qed

text \<open>C28: A turn in which the session loses its connection (a command disables it, a message terminates it)
  although it was live at the beginning still runs the timers; once the heartbeat is due, with the default of
  unlimited tries, it sends on the closed socket and never returns.\<close>

theorem closed_socket_turn_never_returns:
  assumes "is_state_live (cl_state w)" "process_incoming_messages e w = Some u"
    and "client_process_admin_commands e u = Some v"
    and "\<not> tc_open (cl_connector v)" "send_try_count (cl_settings v) = 0"
    and "heartbeat_interval_in_nanoseconds (m_settings (cl_session v)) * 9 div 10
       \<le> c_monotonic e (cl_clock_reads v + 2) - m_last_sent_message_timestamp_nanoseconds (cl_session v)"
  shows "client_process e w = None"
proof -
  have "DISCONNECTED < cl_state w" using assms(1) by (cases "cl_state w") (simp_all add: less_SessionState_def)
  with assms(1-3) live_turn_on_closed_socket [OF _ assms(6)] assms(4,5) show ?thesis
    by (simp add: client_process_def)
qed
theorem closed_socket_turn_never_returns_witness:
  "client_process sample_client_environment
     (client_push_admin_command DISABLE_SESSION 0 (sample_client IN_RETRANSMISSION_INITIATED_BY_PEER)) = None"
proof (rule closed_socket_turn_never_returns)
  let ?w = "client_push_admin_command DISABLE_SESSION 0 (sample_client IN_RETRANSMISSION_INITIATED_BY_PEER)"
  let ?u = "?w\<lparr>cl_polls := 1\<rparr>"
  let ?v = "on_session (set_state DISABLED) (terminate_session (on_session (\<lambda>s. s\<lparr>m_admin_commands := []\<rparr>) ?u))"
  have w: "cl_state ?w = IN_RETRANSMISSION_INITIATED_BY_PEER" "tc_open (cl_connector ?w)" "cl_polls ?w = 0"
    "m_admin_commands (cl_session ?u) = [\<lparr>cmd_type = DISABLE_SESSION, cmd_arg = 0\<rparr>]"
    by (simp_all add: client_push_admin_command_def sample_client_def on_session_def new_session_def)
  show "is_state_live (cl_state ?w)" by (simp add: w)
  show "process_incoming_messages sample_client_environment ?w = Some ?u"
    by (simp add: process_incoming_messages_def w Let_def sample_client_environment_def)
  show "client_process_admin_commands sample_client_environment ?u = Some ?v"
    using w by (simp add: client_process_admin_commands_def client_process_admin_command_def client_disable_session_def
      do_shutdown_def terminate_session_def Let_def on_session_def)
  show "\<not> tc_open (cl_connector ?v)" "send_try_count (cl_settings ?v) = 0"
    by (simp_all add: terminate_session_def on_session_def close_socket_def on_connection_lost_def cl_emit_def tc_close_def
        sample_client_def sample_client_settings_def default_client_settings_def client_push_admin_command_def)
  show "heartbeat_interval_in_nanoseconds (m_settings (cl_session ?v)) * 9 div 10
    \<le> c_monotonic sample_client_environment (cl_clock_reads ?v + 2) - m_last_sent_message_timestamp_nanoseconds (cl_session ?v)"
    by (simp add: terminate_session_def on_session_def close_socket_def on_connection_lost_def cl_emit_def set_state_def
        sample_client_def client_push_admin_command_def new_session_def default_session_settings_def
        sample_client_environment_def)
qed

theorem shutdown_ends_witness:
  "\<exists>w w'. cl_state w = LOGGED_ON \<and> do_shutdown sample_client_environment True w = Some w' \<and> cl_state w' = DISCONNECTED \<and>
    \<not> tc_open (cl_connector w') \<and> tc_incomplete_buffer (cl_connector w') = []"
proof -
  let ?s = "cl_session (sample_client LOGGED_ON)"
  define w where "w = (sample_client LOGGED_ON)\<lparr>cl_settings := sample_client_settings\<lparr>client_tx_encode_buffer_capacity :=
    length (fst (encode (m_settings ?s) (session_incoming_seq_no ?s) 0 (session_outgoing_seq_no ?s + 1)
      (build_logout_message '''' (m_outgoing_fix_message ?s))))\<rparr>\<rparr>"
  have "\<exists>w'. do_shutdown sample_client_environment True w = Some w' \<and> cl_state w' = DISCONNECTED \<and>
    \<not> tc_open (cl_connector w') \<and> tc_incomplete_buffer (cl_connector w') = []"
  proof (rule shutdown_ends)
    show "\<forall>k. c_poll sample_client_environment k = Poll_timeout \<or> c_poll sample_client_environment k = Poll_error"
      by (simp add: sample_client_environment_def)
    show "\<forall>t. \<exists>k. \<forall>j \<ge> k. t \<le> c_steady sample_client_environment j"
    proof
      fix t :: int
      show "\<exists>k. \<forall>j \<ge> k. t \<le> c_steady sample_client_environment j"
        by (rule exI [of _ "nat t"]) (auto simp: sample_client_environment_def)
    qed
  qed (simp_all add: w_def sample_client_def sample_client_environment_def)
  moreover have "cl_state w = LOGGED_ON" by (simp add: w_def sample_client_def)
  ultimately show ?thesis by blast
qed

text \<open>A client is created with settings its checks accept.\<close>

lemma sample_creation:
  "\<exists>w. client_create sample_client_environment sample_environment sample_client_settings ''C1'' office_hours = Some w \<and>
    cl_state w = DISCONNECTED"
proof -
  let ?st = "office_hours\<lparr>is_server := False, tx_encode_buffer_capacity := client_tx_encode_buffer_capacity sample_client_settings\<rparr>"
  obtain im0 where im: "incoming_initialise new_incoming_message = Some im0"
    by (rule new_message_initialises)
  have v: "validate_settings False ?st = None"
    by (simp add: validate_settings_def office_hours_def default_session_settings_def sample_client_settings_def
      default_client_settings_def validate_general_def validate_headers_def validate_logon_def validate_requests_def
      validate_throttler_def validate_serialisation_def validate_schedule_def schar_def)
  have i: "\<exists>a b. initialise_serialisers sample_environment ?st = Some (a, b)"
    by (simp add: initialise_serialisers_def sample_environment_def office_hours_def
        default_session_settings_def serialiser_initialise_def Let_def open_file_def fresh_serialiser_def)
  have "additional_static_header_tags ?st = ''''" by (simp add: office_hours_def default_session_settings_def)
  then have "\<exists>s. session_initialise sample_environment ''C1'' ?st (new_session sample_environment) = Some s \<and> m_state s = DISCONNECTED"
    using im v i by (auto simp: session_initialise_def sample_environment_def)
  moreover have "validate_client_settings sample_client_settings = None"
    by (simp add: validate_client_settings_def sample_client_settings_def default_client_settings_def)
  moreover have "starts_as_primary_instance sample_client_settings"
    by (simp add: sample_client_settings_def default_client_settings_def)
  ultimately show ?thesis by (auto simp: client_create_def Let_def)
qed

theorem reachable_client_consistent_witness:
  "\<exists>w\<^sub>0 w. client_create sample_client_environment sample_environment sample_client_settings ''C1'' office_hours = Some w\<^sub>0 \<and>
    w = terminate_session (client_push_admin_command DISABLE_SESSION 0 w\<^sub>0) \<and> session_wf (cl_session w) \<and>
    (tc_open (cl_connector w) \<or> tc_incomplete_buffer (cl_connector w) = [] \<and> tc_last_receive_result (cl_connector w) = 0)"
proof -
  obtain w\<^sub>0 where w\<^sub>0: "client_create sample_client_environment sample_environment sample_client_settings ''C1'' office_hours = Some w\<^sub>0"
    using sample_creation by blast
  let ?c = "client_push_admin_command DISABLE_SESSION 0 w\<^sub>0"
  have "client_step sample_client_environment w\<^sub>0 ?c" by (rule client_step.command)
  moreover have "client_step sample_client_environment ?c (terminate_session ?c)"
    by (rule client_step.shutdown [where graceful_shutdown = False]) (rule do_shutdown_forced)
  ultimately have "(client_step sample_client_environment)\<^sup>*\<^sup>* w\<^sub>0 (terminate_session ?c)"
    by (meson rtranclp.rtrancl_into_rtrancl rtranclp.rtrancl_refl)
  from reachable_client_consistent [OF w\<^sub>0 this] w\<^sub>0 show ?thesis by blast
qed

subsection \<open>Connecting\<close>

text \<open>What a successful send leaves alone.\<close>

definition logged_as_sent :: "client \<Rightarrow> string \<Rightarrow> client \<Rightarrow> bool" where
  "logged_as_sent a b w \<longleftrightarrow> cl_connector w = cl_connector a \<and> m_connected_to_primary w = m_connected_to_primary a \<and>
     m_connected_to_secondary w = m_connected_to_secondary a \<and> cl_state w = cl_state a \<and>
     (\<exists>evs. cl_trace w = cl_trace a @ Client_sent b SendOk # evs)"

lemma send_bytes_sent:
  assumes "client_send_bytes e True b w = Some (True, w')" "tc_open (cl_connector w)"
  shows "logged_as_sent w b w' \<and> session_outgoing_seq_no (cl_session w') = session_outgoing_seq_no (cl_session w) + 1"
proof -
  let ?t = "throttle_outgoing e w"
  have t: "cl_connector ?t = cl_connector w" "m_connected_to_primary ?t = m_connected_to_primary w"
    "m_connected_to_secondary ?t = m_connected_to_secondary w" "cl_state ?t = cl_state w" "cl_trace ?t = cl_trace w"
    "m_sequence_store (cl_session ?t) = m_sequence_store (cl_session w)"
    by (simp_all add: throttle_outgoing_def on_session_def cl_tick_def Let_def)
  show ?thesis
    using assms
    by (auto simp: client_send_bytes_def client_transport_send_def Let_def t logged_as_sent_def client_serialise_outgoing_def
        cl_emit_def cl_tick_def on_session_def map_store_def increment_outgoing_seq_no_def on_connection_lost_def bind_eq_Some_conv
        split: if_splits)
qed

text \<open>What a Logon of the client says: its fields follow from the settings and the received number, and go behind whatever
  the outgoing message held before.\<close>

definition heartbeat_seconds :: "session_settings \<Rightarrow> u32" where
  "heartbeat_seconds st = ucast (heartbeat_interval_in_nanoseconds st div 1000000000)"

definition opt :: "bool \<Rightarrow> u32 \<Rightarrow> string \<Rightarrow> (u32 \<times> string) list" where
  "opt b t v = (if b then [(t, v)] else [])"

definition logon_request_fields :: "session_settings \<Rightarrow> u32 \<Rightarrow> (u32 \<times> string) list" where
  "logon_request_fields st received =
     (let c_string = takeWhile (\<lambda>c. c \<noteq> CHR 0x00)
      in [(TAG_ENCRYPT_METHOD, ''0''), (TAG_HEART_BT_INT, dec (unat (heartbeat_seconds st)))] @
         opt (default_app_ver_id st \<noteq> []) TAG_DEFAULT_APPL_VER_ID (c_string (default_app_ver_id st)) @
         opt (logon_reset_sequence_numbers st) TAG_RESET_SEQ_NUM_FLAG ''Y'' @
         opt (logon_include_next_expected_seq_no st) TAG_NEXT_EXPECTED_SEQ_NUM (dec (unat (received + 1))) @
         opt (logon_username st \<noteq> []) TAG_USERNAME (c_string (logon_username st)) @
         opt (logon_password st \<noteq> []) TAG_PASSWORD (c_string (logon_password st)) @
         opt (logon_message_new_password st \<noteq> []) TAG_NEW_PASSWORD (c_string (logon_message_new_password st)))"

definition is_logon_request :: "session_settings \<Rightarrow> u32 \<Rightarrow> outgoing_message \<Rightarrow> outgoing_message \<Rightarrow> bool" where
  "is_logon_request st received before m \<longleftrightarrow> m_msg_type m = ''A'' \<and> m_header m = m_header before \<and>
     m_body m = m_body before @ logon_request_fields st received \<and> m_trailer m = m_trailer before \<and>
     m_additional_static_header_tags m = m_additional_static_header_tags before \<and>
     m_fix_string_send_time m = m_fix_string_send_time before"

lemma int_text_zero: "int_text 0 = ''0''"
  by code_simp

lemma built_logon_request:
  assumes "build_logon_request s m = (s', m')"
  shows "s' = (if logon_reset_sequence_numbers (m_settings s) then map_store reset_numbers s else s)"
    "is_logon_request (m_settings s) (session_incoming_seq_no s') m m'"
proof -
  show s': "s' = (if logon_reset_sequence_numbers (m_settings s) then map_store reset_numbers s else s)"
    using assms by (simp add: build_logon_request_def Let_def split: if_splits prod.splits)
  show "is_logon_request (m_settings s) (session_incoming_seq_no s') m m'"
    using assms
    by (auto simp: build_logon_request_def Let_def set_msg_type_char_def set_tag_int_def set_tag_u32_def set_tag_text_def
        set_tag_char_def is_logon_request_def logon_request_fields_def opt_def int_text_zero heartbeat_seconds_def
        MSG_TYPE_LOGON_def split: if_splits prod.splits)
qed

text \<open>The numbers a Logon starts from.\<close>

definition first_numbers :: "session \<Rightarrow> u32 \<times> u32" where
  "first_numbers s = (if logon_reset_sequence_numbers (m_settings s) then (0, 0)
     else (session_incoming_seq_no s, session_outgoing_seq_no s))"

lemma logon_sent:
  assumes "send_logon_request e w = Some (True, w')" "tc_open (cl_connector w)"
  shows "\<exists>m. is_logon_request (m_settings (cl_session w)) (fst (first_numbers (cl_session w))) (m_outgoing_fix_message (cl_session w)) m \<and>
    logged_as_sent w (fst (encode (m_settings (cl_session w)) (fst (first_numbers (cl_session w))) (cl_wall e w)
      (snd (first_numbers (cl_session w)) + 1) m)) w' \<and>
    session_outgoing_seq_no (cl_session w') = snd (first_numbers (cl_session w)) + 1"
proof -
  let ?b = "client_build build_logon_request w"
  obtain s' m where build: "build_logon_request (cl_session w) (m_outgoing_fix_message (cl_session w)) = (s', m)" by force
  note built = built_logon_request [OF build]
  have numbers: "session_incoming_seq_no s' = fst (first_numbers (cl_session w))"
    "session_outgoing_seq_no s' = snd (first_numbers (cl_session w))" "m_settings s' = m_settings (cl_session w)"
    "m_state s' = m_state (cl_session w)"
    by (simp_all add: built(1) first_numbers_def map_store_def reset_numbers_def)
  have b: "cl_connector ?b = cl_connector w" "m_connected_to_primary ?b = m_connected_to_primary w"
    "m_connected_to_secondary ?b = m_connected_to_secondary w" "cl_state ?b = cl_state w" "cl_trace ?b = cl_trace w"
    "cl_session ?b = s'\<lparr>m_outgoing_fix_message := m\<rparr>" "cl_wall e ?b = cl_wall e w"
    by (simp_all add: client_build_def on_session_def build cl_wall_def built(1) map_store_def)
  obtain buffer v where v: "client_encode e (session_outgoing_seq_no (cl_session ?b) + 1) ?b = Some (buffer, v)"
    "client_send_bytes e True buffer v = Some (True, w')"
    using assms(1) by (auto simp: send_logon_request_def client_send_outgoing_message_def bind_eq_Some_conv)
  have v1: "cl_connector v = cl_connector ?b" "m_connected_to_primary v = m_connected_to_primary ?b"
    "m_connected_to_secondary v = m_connected_to_secondary ?b" "cl_state v = cl_state ?b" "cl_trace v = cl_trace ?b"
    "m_sequence_store (cl_session v) = m_sequence_store (cl_session ?b)"
    "buffer = fst (encode (m_settings (cl_session ?b)) (session_incoming_seq_no (cl_session ?b)) (cl_wall e ?b)
      (session_outgoing_seq_no (cl_session ?b) + 1) (m_outgoing_fix_message (cl_session ?b)))"
    using v(1) by (auto simp: client_encode_def Let_def on_session_def cl_tick_def split: prod.splits if_splits)
  have "tc_open (cl_connector v)" using assms(2) by (simp add: v1 b)
  from send_bytes_sent [OF v(2) this] show ?thesis
    using built(2) numbers by (intro exI [of _ m]) (simp add: logged_as_sent_def v1 b)
qed

text \<open>The transport is connected to the primary or the secondary address, with an empty connector.\<close>

lemma connect_to_ok:
  "client_connect_to e ad p w = (True, w') \<Longrightarrow> w' = w\<lparr>cl_connector := new_tcp_connector\<lparr>tc_open := True\<rparr>, cl_connects := cl_connects w + 1\<rparr>"
  by (auto simp: client_connect_to_def tc_connect_def tc_close_def new_tcp_connector_def split: if_splits)

lemma connect_to_rest:
  "client_connect_to e ad p w = (ok, w') \<Longrightarrow> cl_session w' = cl_session w \<and> cl_trace w' = cl_trace w \<and>
    cl_clock_reads w' = cl_clock_reads w"
  by (auto simp: client_connect_to_def split: prod.splits)

lemma connect_transport_ok:
  assumes "client_connect_transport e w = (True, w')"
  shows "cl_connector w' = new_tcp_connector\<lparr>tc_open := True\<rparr> \<and> cl_session w' = cl_session w \<and> cl_trace w' = cl_trace w \<and>
    cl_clock_reads w' = cl_clock_reads w \<and> (m_connected_to_primary w' \<or> m_connected_to_secondary w')"
proof -
  obtain s v where v: "client_connect_to e (primary_address (cl_settings w)) (primary_port (cl_settings w)) w = (s, v)" by force
  from assms v connect_to_rest [OF v] show ?thesis
    by (auto simp: client_connect_transport_def Let_def dest!: connect_to_ok split: if_splits prod.splits)
qed

text \<open>C20: A connection attempt succeeds only for a session that is enabled and in its schedule; then the client
  waits for the Logon response over an open, empty connector, its application was told of the connection before
  the Logon went out, and the bytes sent are those of a Logon (MsgType A) with the fields its settings ask for. It took
  the next outgoing sequence number, or number 1 when sequence numbers are to be reset.\<close>

theorem connected_client_sent_logon:
  assumes "client_connect e w = Some (True, w')" "s = cl_session w" "(received, sent) = first_numbers s"
  shows "cl_state w \<noteq> DISABLED \<and> is_now_valid_session_datetime (c_wall e (cl_clock_reads w)) s \<and>
    cl_state w' = PENDING_LOGON \<and> cl_connector w' = new_tcp_connector\<lparr>tc_open := True\<rparr> \<and>
    (m_connected_to_primary w' \<or> m_connected_to_secondary w') \<and> session_outgoing_seq_no (cl_session w') = sent + 1 \<and>
    (\<exists>m evs. is_logon_request (m_settings s) received (m_outgoing_fix_message s) m \<and>
      cl_trace w' = cl_trace w @ [Client_callback On_connection,
        Client_sent (fst (encode (m_settings s) received (c_wall e (cl_clock_reads w + 3)) (sent + 1) m)) SendOk] @ evs)"
proof -
  let ?v = "on_session (\<lambda>s. reset_flags (set_state PENDING_CONNECTION s)) (cl_tick w)"
  obtain u where guard: "cl_state w \<noteq> DISABLED" "is_now_valid_session_datetime (c_wall e (cl_clock_reads w)) (cl_session w)"
    and u: "client_connect_transport e ?v = (True, u)"
    and logon: "send_logon_request e (cl_emit (Client_callback On_connection)
      (cl_tick ((on_session (set_state PENDING_LOGON) (cl_tick (on_session (\<lambda>s. s\<lparr>m_last_received_message_timestamp_nanoseconds := cl_now e u\<rparr>) u)))
        \<lparr>m_last_logon_attempt_timestamp := cl_now e (on_session (set_state PENDING_LOGON)
          (cl_tick (on_session (\<lambda>s. s\<lparr>m_last_received_message_timestamp_nanoseconds := cl_now e u\<rparr>) u)))\<rparr>))) = Some (True, w')"
    (is "send_logon_request e ?l = _")
    using assms(1) by (auto simp: client_connect_def Let_def cl_wall_def split: if_splits prod.splits)
  from connect_transport_ok [OF u]
  have l: "cl_connector ?l = new_tcp_connector\<lparr>tc_open := True\<rparr>" "cl_state ?l = PENDING_LOGON"
    "m_settings (cl_session ?l) = m_settings s" "first_numbers (cl_session ?l) = (received, sent)"
    "m_outgoing_fix_message (cl_session ?l) = m_outgoing_fix_message s" "cl_wall e ?l = c_wall e (cl_clock_reads w + 3)"
    "cl_trace ?l = cl_trace w @ [Client_callback On_connection]" "m_connected_to_primary ?l \<or> m_connected_to_secondary ?l"
    by (simp_all add: cl_emit_def cl_tick_def on_session_def set_state_def reset_flags_def first_numbers_def cl_wall_def assms(2,3) numeral_3_eq_3)
  have "tc_open (cl_connector ?l)" by (simp only: l(1)) (simp add: new_tcp_connector_def)
  from logon_sent [OF logon this] obtain m where m: "is_logon_request (m_settings s) received (m_outgoing_fix_message s) m"
    "logged_as_sent ?l (fst (encode (m_settings s) received (c_wall e (cl_clock_reads w + 3)) (sent + 1) m)) w'"
    "session_outgoing_seq_no (cl_session w') = sent + 1"
    unfolding l by auto
  then obtain evs where "cl_trace w' = cl_trace w @ [Client_callback On_connection,
      Client_sent (fst (encode (m_settings s) received (c_wall e (cl_clock_reads w + 3)) (sent + 1) m)) SendOk] @ evs"
    unfolding logged_as_sent_def l by auto
  moreover have "cl_state w' = PENDING_LOGON" "cl_connector w' = new_tcp_connector\<lparr>tc_open := True\<rparr>"
    "m_connected_to_primary w' \<or> m_connected_to_secondary w'"
    using m(2) l(8) unfolding logged_as_sent_def l(1,2) by simp_all
  ultimately show ?thesis using m guard assms(2) by blast
qed

lemma logon_request_sent:
  assumes "tc_open (cl_connector w)" "\<And>k. c_send e k = SendOk"
    "client_encode e (session_outgoing_seq_no (cl_session (client_build build_logon_request w)) + 1)
       (client_build build_logon_request w) \<noteq> None"
  shows "\<exists>w'. send_logon_request e w = Some (True, w')"
proof -
  let ?b = "client_build build_logon_request w"
  obtain b v where v: "client_encode e (session_outgoing_seq_no (cl_session ?b) + 1) ?b = Some (b, v)"
    using assms(3) by auto
  then have "tc_open (cl_connector v)"
    using assms(1) by (auto simp: client_encode_def client_build_def Let_def on_session_def cl_tick_def split: prod.splits if_splits)
  then have "tc_open (cl_connector (throttle_outgoing e v))"
    by (simp add: throttle_outgoing_def on_session_def cl_tick_def Let_def)
  with v show ?thesis
    by (simp add: send_logon_request_def client_send_outgoing_message_def client_send_bytes_def client_transport_send_def
        assms(2) Let_def)
qed

theorem connected_client_sent_logon_witness:
  "\<exists>w w'. client_connect sample_client_environment w = Some (True, w') \<and> cl_state w' = PENDING_LOGON \<and>
    session_outgoing_seq_no (cl_session w') = 1 \<and>
    (\<exists>m b. m_msg_type m = ''A'' \<and> m_body m = [(TAG_ENCRYPT_METHOD, ''0''), (TAG_HEART_BT_INT, ''30'')] \<and>
      b = fst (encode default_session_settings 0 0 1 m) \<and>
      take 2 (cl_trace w') = [Client_callback On_connection, Client_sent b SendOk])"
proof -
  let ?e = sample_client_environment
  define s where "s = (cl_session (sample_client PENDING_LOGON))
    \<lparr>m_last_received_message_timestamp_nanoseconds := c_monotonic ?e 1\<rparr>"
  obtain s' m where b: "build_logon_request s (m_outgoing_fix_message s) = (s', m)" by force
  define n where "n = length (fst (encode (m_settings s') (session_incoming_seq_no s') 0 (session_outgoing_seq_no s' + 1) m))"
  define w where "w = (sample_client DISCONNECTED)\<lparr>cl_settings := sample_client_settings\<lparr>client_tx_encode_buffer_capacity := n\<rparr>\<rparr>"
  define l where "l = w\<lparr>cl_session := s, cl_connector := new_tcp_connector\<lparr>tc_open := True\<rparr>, cl_connects := 1, cl_clock_reads := Suc (Suc (Suc 0)),
    m_last_logon_attempt_timestamp := c_monotonic ?e 2, cl_trace := [Client_callback On_connection]\<rparr>"
  have c: "client_connect ?e w = send_logon_request ?e l"
    by (simp add: client_connect_def Let_def w_def l_def s_def sample_client_def client_connect_transport_def client_connect_to_def
        tc_connect_def sample_client_environment_def sample_client_settings_def default_client_settings_def on_session_def
        cl_tick_def cl_emit_def cl_now_def cl_wall_def tc_close_def new_tcp_connector_def new_session_def reset_flags_def
        set_state_def is_now_valid_session_datetime_def is_now_valid_datetime_def new_schedule_validator_def)
  have "\<exists>w'. send_logon_request ?e l = Some (True, w')"
  proof (rule logon_request_sent)
    show "tc_open (cl_connector l)" by (simp add: l_def)
    show "c_send ?e k = SendOk" for k by (simp add: sample_client_environment_def)
    show "client_encode ?e (session_outgoing_seq_no (cl_session (client_build build_logon_request l)) + 1)
       (client_build build_logon_request l) \<noteq> None"
      using b by (simp add: client_encode_def client_build_def on_session_def l_def w_def n_def cl_wall_def
          sample_client_environment_def Let_def split: prod.splits)
  qed
  then obtain w' where w': "client_connect ?e w = Some (True, w')" using c by auto
  have w: "m_settings (cl_session w) = default_session_settings" "cl_trace w = []" "first_numbers (cl_session w) = (0, 0)"
    "m_body (m_outgoing_fix_message (cl_session w)) = []"
    by (simp_all add: w_def sample_client_def new_session_def first_numbers_def new_outgoing_message_def)
  have "dec 30 = ''30''" by code_simp
  then have fields: "logon_request_fields default_session_settings 0 = [(TAG_ENCRYPT_METHOD, ''0''), (TAG_HEART_BT_INT, ''30'')]"
    by (simp add: logon_request_fields_def opt_def heartbeat_seconds_def default_session_settings_def)
  have "c_wall ?e k = 0" for k by (simp add: sample_client_environment_def)
  with connected_client_sent_logon [OF w' refl w(3) [symmetric]] w'
  show ?thesis by (fastforce simp: w fields is_logon_request_def)
qed

end
