(* ===== verification/Spsc_Queue.thy ===== *)
theory Spsc_Queue
  imports Llfix_Prelude
begin

text \<open>
  \<open>core/utilities/spsc_bounded_queue.h\<close>: the bounded lock-free queue with one producer and one consumer
  through which a session receives its administrative commands.

  \<^item> \<open>try_push\<close> and \<open>try_pop\<close> are cut where they touch what the two threads share: the check (at most one load
    of the other thread's index, into the private copy of it), the access to the slot, and the store of the own
    index. The stores release and the loads acquire, so the interleavings of these pieces are what the two
    threads can observe.
  \<^item> \<open>spsc_step\<close> interleaves them; its labels are the results the calls return.
  \<^item> The specification is a FIFO list of at most \<open>m_capacity\<close> elements, \<open>fifo_step\<close>.

  The memory of the slots is allocated elsewhere and starts with arbitrary contents.
\<close>

subsection \<open>The queue\<close>

record 'a spsc =
  m_slots :: "'a list"
  m_write_index :: u64
  m_cached_write_index :: u64
  m_read_index :: u64
  m_cached_read_index :: u64

definition m_capacity :: "'a spsc \<Rightarrow> nat" where
  "m_capacity q = length (m_slots q)"

lemma m_capacity_simps [simp]:
  "m_capacity (q\<lparr>m_cached_read_index := i\<rparr>) = m_capacity q" "m_capacity (q\<lparr>m_cached_write_index := i\<rparr>) = m_capacity q"
  "m_capacity (q\<lparr>m_write_index := i\<rparr>) = m_capacity q" "m_capacity (q\<lparr>m_read_index := i\<rparr>) = m_capacity q"
  "m_capacity (q\<lparr>m_slots := xs[k := x]\<rparr>) = length xs"
  by (simp_all add: m_capacity_def)

definition spsc_create :: "'a list \<Rightarrow> 'a spsc" where
  "spsc_create memory = \<lparr>m_slots = memory, m_write_index = 0, m_cached_write_index = 0, m_read_index = 0,
     m_cached_read_index = 0\<rparr>"

definition modulo_capacity :: "u64 \<Rightarrow> 'a spsc \<Rightarrow> nat" where
  "modulo_capacity input q = unat input - (unat input div m_capacity q) * m_capacity q"

definition push_check :: "'a spsc \<Rightarrow> bool \<times> 'a spsc" where
  "push_check q =
     (let q = (if word_of_nat (m_capacity q) \<le> m_write_index q - m_cached_read_index q
               then q\<lparr>m_cached_read_index := m_read_index q\<rparr> else q)
      in (m_write_index q \<noteq> m_cached_read_index q + word_of_nat (m_capacity q), q))"

definition push_store :: "'a \<Rightarrow> 'a spsc \<Rightarrow> 'a spsc" where
  "push_store val q = q\<lparr>m_slots := (m_slots q)[modulo_capacity (m_write_index q) q := val]\<rparr>"

definition push_publish :: "'a spsc \<Rightarrow> 'a spsc" where
  "push_publish q = q\<lparr>m_write_index := m_write_index q + 1\<rparr>"

definition try_push :: "'a \<Rightarrow> 'a spsc \<Rightarrow> bool \<times> 'a spsc" where
  "try_push val q =
     (case push_check q of
        (False, q) \<Rightarrow> (False, q)
      | (True, q) \<Rightarrow> (True, push_publish (push_store val q)))"

text \<open>\<open>push\<close> tries until the queue has room: alone, on a full queue, it never ends.\<close>

partial_function (option) spsc_push :: "'a \<Rightarrow> 'a spsc \<Rightarrow> 'a spsc option" where
  "spsc_push val q = (case try_push val q of (ok, q) \<Rightarrow> if ok then Some q else spsc_push val q)"

definition pop_check :: "'a spsc \<Rightarrow> bool \<times> 'a spsc" where
  "pop_check q =
     (let q = (if m_read_index q = m_cached_write_index q then q\<lparr>m_cached_write_index := m_write_index q\<rparr> else q)
      in (m_read_index q \<noteq> m_cached_write_index q, q))"

definition pop_load :: "'a spsc \<Rightarrow> 'a" where
  "pop_load q = m_slots q ! modulo_capacity (m_read_index q) q"

definition pop_release :: "'a spsc \<Rightarrow> 'a spsc" where
  "pop_release q = q\<lparr>m_read_index := m_read_index q + 1\<rparr>"

definition try_pop :: "'a spsc \<Rightarrow> 'a option \<times> 'a spsc" where
  "try_pop q =
     (case pop_check q of
        (False, q) \<Rightarrow> (None, q)
      | (True, q) \<Rightarrow> (Some (pop_load q), pop_release q))"

definition spsc_size :: "'a spsc \<Rightarrow> nat" where
  "spsc_size q = unat (m_write_index q - m_read_index q)"

subsection \<open>Producer and consumer interleaved\<close>

datatype 'a producer = Producing | Storing 'a | Publishing 'a

datatype 'a consumer = Consuming | Loading | Releasing 'a

datatype 'a queue_label = Pushed 'a | Push_refused | Popped 'a | Pop_refused

type_synonym 'a spsc_system = "'a spsc \<times> 'a producer \<times> 'a consumer"

inductive spsc_step :: "'a spsc_system \<Rightarrow> 'a queue_label option \<Rightarrow> 'a spsc_system \<Rightarrow> bool" where
  full: "push_check q = (False, q') \<Longrightarrow> spsc_step (q, Producing, c) (Some Push_refused) (q', Producing, c)"
| room: "push_check q = (True, q') \<Longrightarrow> spsc_step (q, Producing, c) None (q', Storing v, c)"
| store: "spsc_step (q, Storing v, c) None (push_store v q, Publishing v, c)"
| publish: "spsc_step (q, Publishing v, c) (Some (Pushed v)) (push_publish q, Producing, c)"
| empty: "pop_check q = (False, q') \<Longrightarrow> spsc_step (q, p, Consuming) (Some Pop_refused) (q', p, Consuming)"
| available: "pop_check q = (True, q') \<Longrightarrow> spsc_step (q, p, Consuming) None (q', p, Loading)"
| load: "spsc_step (q, p, Loading) None (q, p, Releasing (pop_load q))"
| release: "spsc_step (q, p, Releasing v) (Some (Popped v)) (pop_release q, p, Consuming)"

text \<open>A run with the labels it shows.\<close>

inductive visible_run :: "('s \<Rightarrow> 'l option \<Rightarrow> 's \<Rightarrow> bool) \<Rightarrow> 's \<Rightarrow> 'l list \<Rightarrow> 's \<Rightarrow> bool" for step where
  here: "visible_run step s [] s"
| silent: "visible_run step s ls s' \<Longrightarrow> step s' None s'' \<Longrightarrow> visible_run step s ls s''"
| shown: "visible_run step s ls s' \<Longrightarrow> step s' (Some l) s'' \<Longrightarrow> visible_run step s (ls @ [l]) s''"

subsection \<open>The specification\<close>

fun fifo_step :: "nat \<Rightarrow> 'a queue_label \<Rightarrow> 'a list \<Rightarrow> 'a list option" where
  "fifo_step capacity (Pushed v) xs = (if length xs < capacity then Some (xs @ [v]) else None)"
| "fifo_step capacity Push_refused xs = (if length xs = capacity then Some xs else None)"
| "fifo_step capacity (Popped v) xs = (case xs of [] \<Rightarrow> None | x # xs \<Rightarrow> if x = v then Some xs else None)"
| "fifo_step capacity Pop_refused xs = (if xs = [] then Some xs else None)"

primrec spec_run :: "('l \<Rightarrow> 'a \<Rightarrow> 'a option) \<Rightarrow> 'l list \<Rightarrow> 'a \<Rightarrow> 'a option" where
  "spec_run step [] a = Some a"
| "spec_run step (l # ls) a = Option.bind (step l a) (spec_run step ls)"

lemma spec_run_append: "spec_run step (ls @ ls') a = Option.bind (spec_run step ls a) (spec_run step ls')"
proof (induction ls arbitrary: a)
  case (Cons l ls)
  then show ?case by (cases "step l a") simp_all
qed simp

text \<open>The interface between an implementation and its specification: silent steps are invisible in the
  abstract state, labelled ones are steps of the specification.\<close>

locale implements =
  fixes step :: "'s \<Rightarrow> 'l option \<Rightarrow> 's \<Rightarrow> bool" and spec :: "'l \<Rightarrow> 'a \<Rightarrow> 'a option"
    and inv :: "'s \<Rightarrow> bool" and abst :: "'s \<Rightarrow> 'a"
  assumes keeps: "inv s \<Longrightarrow> step s label s' \<Longrightarrow> inv s'"
    and stutters: "inv s \<Longrightarrow> step s None s' \<Longrightarrow> abst s' = abst s"
    and simulates: "inv s \<Longrightarrow> step s (Some l) s' \<Longrightarrow> spec l (abst s) = Some (abst s')"
begin

lemma run_keeps: "visible_run step s ls s' \<Longrightarrow> inv s \<Longrightarrow> inv s'"
  by (induction rule: visible_run.induct) (auto intro: keeps)

lemma run_simulates: "visible_run step s ls s' \<Longrightarrow> inv s \<Longrightarrow> spec_run spec ls (abst s) = Some (abst s')"
proof (induction rule: visible_run.induct)
  case (silent s ls s' s'')
  then show ?case using stutters [OF run_keeps] by simp
next
  case (shown s ls s' l s'')
  then show ?case using simulates [OF run_keeps] by (simp add: spec_run_append)
qed simp

end

subsection \<open>The contents and the invariant\<close>

definition spsc_contents :: "'a spsc_system \<Rightarrow> 'a list" where
  "spsc_contents s = (case s of (q, p, c) \<Rightarrow>
     map (\<lambda>i. m_slots q ! ((unat (m_read_index q) + i) mod m_capacity q)) [0..<spsc_size q])"

definition spsc_wf :: "nat \<Rightarrow> 'a spsc_system \<Rightarrow> bool" where
  "spsc_wf capacity s = (case s of (q, p, c) \<Rightarrow>
     m_capacity q = capacity \<and> 0 < capacity \<and> capacity < 2 ^ 64 \<and> capacity dvd 2 ^ 64 \<and>
     spsc_size q \<le> unat (m_write_index q - m_cached_read_index q) \<and>
     unat (m_write_index q - m_cached_read_index q) \<le> capacity \<and>
     unat (m_cached_write_index q - m_read_index q) \<le> spsc_size q \<and>
     (case p of Producing \<Rightarrow> True
      | Storing v \<Rightarrow> unat (m_write_index q - m_cached_read_index q) < capacity
      | Publishing v \<Rightarrow> unat (m_write_index q - m_cached_read_index q) < capacity \<and>
          m_slots q ! modulo_capacity (m_write_index q) q = v) \<and>
     (case c of Consuming \<Rightarrow> True
      | Loading \<Rightarrow> m_read_index q \<noteq> m_cached_write_index q
      | Releasing v \<Rightarrow> m_read_index q \<noteq> m_cached_write_index q \<and> pop_load q = v))"

lemma minus_succ: "b \<noteq> a \<Longrightarrow> unat (b - (a + 1)) = unat (b - a) - 1" for a b :: u64
  using unat_minus_one [of "b - a"] by (simp add: algebra_simps)

lemma succ_minus:
  fixes a b :: u64
  assumes "unat (b - a) < n" "n < 2 ^ 64"
  shows "unat (b + 1 - a) = unat (b - a) + 1"
proof -
  have "unat (b + 1 - a) = unat ((b - a) + 1)" by (simp add: algebra_simps)
  also have "\<dots> = (unat (b - a) + 1) mod 2 ^ 64" by (simp only: unat_word_ariths) simp
  also have "\<dots> = unat (b - a) + 1" using assms by (intro mod_less) linarith
  finally show ?thesis .
qed

lemma modulo_capacity_eq: "modulo_capacity i q = unat i mod m_capacity q"
  by (simp add: modulo_capacity_def minus_div_mult_eq_mod)

lemma index_after:
  fixes r d :: u64
  assumes "capacity dvd 2 ^ 64"
  shows "unat (r + d) mod capacity = (unat r + unat d) mod capacity"
  by (simp only: unat_word_ariths) (use assms in \<open>simp add: mod_mod_cancel\<close>)

lemma push_check_cases:
  assumes "push_check q = (ok, q')" "unat (m_write_index q - m_cached_read_index q) \<le> m_capacity q"
    "spsc_size q \<le> unat (m_write_index q - m_cached_read_index q)" "m_capacity q < 2 ^ 64"
  obtains (full) "\<not> ok" "q' = q\<lparr>m_cached_read_index := m_read_index q\<rparr>" "spsc_size q = m_capacity q"
  | (stale) "ok" "q' = q" "unat (m_write_index q - m_cached_read_index q) < m_capacity q"
  | (synced) "ok" "q' = q\<lparr>m_cached_read_index := m_read_index q\<rparr>" "spsc_size q < m_capacity q"
proof -
  have n: "unat (word_of_nat (m_capacity q) :: u64) = m_capacity q"
    using assms(4) by (simp add: unat_of_nat)
  have eq: "a = b + word_of_nat (m_capacity q) \<longleftrightarrow> unat (a - b) = m_capacity q" for a b :: u64
    by (metis add.commute diff_add_cancel n add_diff_cancel_left' unsigned_word_eqI)
  have same: "unat (a - b) = unat (a - c) \<Longrightarrow> b = c" for a b c :: u64
    by (drule unsigned_word_eqI) simp
  show ?thesis
    using assms that same unfolding push_check_def Let_def
    by (auto simp: word_le_nat_alt n eq spsc_size_def le_less split: if_splits)
qed

text \<open>The shared state after each piece of a call.\<close>

lemmas spsc_pieces = push_check_def push_store_def push_publish_def pop_check_def pop_load_def pop_release_def

lemma slot_of_write:
  assumes "spsc_wf capacity (q, p, c)"
  shows "modulo_capacity (m_write_index q) q = (unat (m_read_index q) + spsc_size q) mod capacity"
  using assms index_after [of capacity "m_read_index q" "m_write_index q - m_read_index q"]
  by (simp add: spsc_wf_def modulo_capacity_eq spsc_size_def)

lemma store_spares:
  assumes "spsc_wf capacity (q, p, c)" "spsc_size q < capacity" "i < spsc_size q"
  shows "m_slots (push_store v q) ! ((unat (m_read_index q) + i) mod capacity) =
    m_slots q ! ((unat (m_read_index q) + i) mod capacity)"
proof -
  have "(unat (m_read_index q) + spsc_size q) mod capacity \<noteq> (unat (m_read_index q) + i) mod capacity"
    using assms(2,3) mod_eq_dvd_iff_nat [of "unat (m_read_index q) + i" "unat (m_read_index q) + spsc_size q" capacity]
    by (auto dest!: dvd_imp_le)
  then show ?thesis by (simp add: push_store_def slot_of_write [OF assms(1)])
qed

lemma contents_store:
  assumes "spsc_wf capacity (q, p, c)" "spsc_size q < capacity"
  shows "spsc_contents (push_store v q, p', c') = spsc_contents (q, p, c)"
  using assms store_spares [OF assms]
  by (auto simp: spsc_contents_def spsc_size_def spsc_wf_def) (auto simp: push_store_def m_capacity_def)

lemma store_spares_head:
  assumes "spsc_wf capacity (q, p, c)" "spsc_size q < capacity" "spsc_size q \<noteq> 0"
  shows "pop_load (push_store v q) = pop_load q"
  using assms store_spares [OF assms(1,2), of 0]
  by (simp add: pop_load_def modulo_capacity_eq spsc_wf_def) (simp add: push_store_def m_capacity_def)

lemma load_is_head:
  assumes "spsc_wf capacity (q, p, c)" "spsc_size q \<noteq> 0"
  shows "spsc_contents (q, p', c') = pop_load q # spsc_contents (pop_release q, p'', c'')"
proof -
  have d: "m_read_index q \<noteq> m_write_index q" using assms(2) by (auto simp: spsc_size_def)
  have cap: "m_capacity q = capacity" "capacity dvd 2 ^ 64" using assms(1) by (simp_all add: spsc_wf_def)
  have s: "spsc_size (pop_release q) = spsc_size q - 1"
    using minus_succ [of "m_write_index q" "m_read_index q"] d by (auto simp: spsc_size_def pop_release_def)
  have r: "(unat (m_read_index q + 1) + i) mod capacity = (unat (m_read_index q) + Suc i) mod capacity" for i
  proof -
    have "(unat (m_read_index q + 1) + i) mod capacity = (unat (m_read_index q + 1) mod capacity + i) mod capacity"
      by (simp only: mod_add_left_eq)
    also have "unat (m_read_index q + 1) mod capacity = (unat (m_read_index q) + 1) mod capacity"
      using index_after [OF cap(2), of "m_read_index q" 1] by simp
    finally show ?thesis by (simp add: mod_simps)
  qed
  show ?thesis
    using assms(2) s r
    by (simp add: spsc_contents_def cap pop_load_def modulo_capacity_eq pop_release_def upt_conv_Cons
        del: upt_Suc) (auto intro!: nth_equalityI)
qed

subsection \<open>The interleaving implements the bounded FIFO\<close>

lemma producer_room:
  assumes "spsc_wf capacity (q, p, c)" "p \<noteq> Producing"
  shows "spsc_size q < capacity"
  using assms by (auto simp: spsc_wf_def split: producer.splits)

lemma consumer_nonempty:
  assumes "spsc_wf capacity (q, p, c)" "c \<noteq> Consuming"
  shows "spsc_size q \<noteq> 0" "m_read_index q \<noteq> m_write_index q"
    "unat (m_cached_write_index q - m_read_index q) \<noteq> 0"
  using assms by (auto simp: spsc_wf_def spsc_size_def unat_eq_0 split: consumer.splits)

lemma release_sizes:
  assumes "spsc_wf capacity (q, p, c)" "c \<noteq> Consuming"
  shows "spsc_size (pop_release q) = spsc_size q - 1"
    "unat (m_cached_write_index q - (m_read_index q + 1)) = unat (m_cached_write_index q - m_read_index q) - 1"
  using consumer_nonempty [OF assms] minus_succ [of _ "m_read_index q"]
  by (auto simp: spsc_size_def pop_release_def unat_eq_0)

lemma publish_sizes:
  assumes "spsc_wf capacity (q, Publishing v, c)"
  shows "spsc_size (push_publish q) = spsc_size q + 1"
    "unat (m_write_index q + 1 - m_cached_read_index q) = unat (m_write_index q - m_cached_read_index q) + 1"
  using assms succ_minus [of "m_write_index q" _ capacity]
  by (auto simp: spsc_wf_def spsc_size_def push_publish_def dest: le_less_trans)

lemma spsc_wf_step:
  assumes "spsc_wf capacity s" "spsc_step s l s'"
  shows "spsc_wf capacity s'"
  using assms(2,1)
proof cases
  case (full q q' c)
  with assms(1) show ?thesis
    by (auto simp: spsc_wf_def spsc_size_def pop_load_def modulo_capacity_def elim!: push_check_cases split: consumer.splits)
next
  case (room q q' c v)
  with assms(1) show ?thesis
    by (auto simp: spsc_wf_def spsc_size_def pop_load_def modulo_capacity_def elim!: push_check_cases split: consumer.splits)
next
  case (store q v c)
  then have r: "spsc_size q < capacity" using producer_room assms(1) by blast
  have w: "m_write_index (push_store v q) = m_write_index q" "m_read_index (push_store v q) = m_read_index q"
    "m_cached_write_index (push_store v q) = m_cached_write_index q"
    "m_cached_read_index (push_store v q) = m_cached_read_index q" "m_capacity (push_store v q) = m_capacity q"
    "spsc_size (push_store v q) = spsc_size q"
    by (simp_all add: push_store_def m_capacity_def spsc_size_def)
  have "m_slots (push_store v q) ! modulo_capacity (m_write_index q) q = v"
    using assms(1) by (auto simp: store push_store_def modulo_capacity_eq spsc_wf_def m_capacity_def)
  moreover have "pop_load (push_store v q) = pop_load q" if "c \<noteq> Consuming"
    by (rule store_spares_head [OF assms(1) [unfolded store(1)] r])
      (rule consumer_nonempty(1) [OF assms(1) [unfolded store(1)] that])
  ultimately show ?thesis
    using assms(1) by (auto simp: store spsc_wf_def w modulo_capacity_def split: consumer.splits)
next
  case (publish q v c)
  with assms(1) publish_sizes [of capacity q v c] show ?thesis
    by (auto simp: spsc_wf_def push_publish_def spsc_size_def pop_load_def modulo_capacity_def split: consumer.splits)
next
  case (empty q q' p)
  with assms(1) show ?thesis
    by (auto simp: spsc_wf_def spsc_size_def pop_check_def modulo_capacity_def Let_def split: producer.splits if_splits)
next
  case (available q q' p)
  with assms(1) show ?thesis
    by (auto simp: spsc_wf_def spsc_size_def pop_check_def modulo_capacity_def Let_def split: producer.splits if_splits)
next
  case (load q p)
  with assms(1) show ?thesis by (auto simp: spsc_wf_def)
next
  case (release q p v)
  with assms(1) release_sizes [of capacity q p "Releasing v"] consumer_nonempty [of capacity q p "Releasing v"] show ?thesis
    by (auto simp: spsc_wf_def pop_release_def modulo_capacity_def split: producer.splits)
qed

lemma contents_of_state:
  "m_slots q' = m_slots q \<Longrightarrow> m_read_index q' = m_read_index q \<Longrightarrow> m_write_index q' = m_write_index q \<Longrightarrow>
   spsc_contents (q', p', c') = spsc_contents (q, p, c)"
  by (simp add: spsc_contents_def spsc_size_def m_capacity_def)

lemma length_contents: "length (spsc_contents (q, p, c)) = spsc_size q"
  by (simp add: spsc_contents_def)

lemma contents_publish:
  assumes "spsc_wf capacity (q, Publishing v, c)"
  shows "spsc_contents (push_publish q, p', c') = spsc_contents (q, p, c) @ [v]"
proof -
  have "m_slots q ! ((unat (m_read_index q) + spsc_size q) mod capacity) = v" "m_capacity q = capacity"
    using assms slot_of_write [OF assms] by (simp_all add: spsc_wf_def)
  with publish_sizes(1) [OF assms] show ?thesis
    by (simp add: spsc_contents_def) (simp add: push_publish_def)
qed

lemma spsc_stutters:
  assumes "spsc_wf capacity s" "spsc_step s None s'"
  shows "spsc_contents s' = spsc_contents s"
  using assms(2)
proof cases
  case (store q v c)
  with contents_store [of capacity q "Storing v" c] producer_room [of capacity q "Storing v" c] assms(1) show ?thesis by simp
qed (auto simp: push_check_def pop_check_def Let_def intro!: contents_of_state split: if_splits)

lemma spsc_simulates:
  assumes "spsc_wf capacity s" "spsc_step s (Some l) s'"
  shows "fifo_step capacity l (spsc_contents s) = Some (spsc_contents s')"
  using assms(2)
proof cases
  case (full q q' c)
  from full(4) assms(1) have q': "q' = q\<lparr>m_cached_read_index := m_read_index q\<rparr>" and s: "spsc_size q = capacity"
    unfolding full(1) by (auto simp: spsc_wf_def elim!: push_check_cases)
  have "spsc_contents s' = spsc_contents s" unfolding full(1,3) q' by (rule contents_of_state) simp_all
  with full s show ?thesis by (simp add: length_contents)
next
  case (publish q v c)
  with assms(1) producer_room [of capacity q "Publishing v" c] contents_publish [of capacity q v c Producing c]
  show ?thesis by (simp add: length_contents)
next
  case (empty q q' p)
  then have q': "m_read_index q = m_write_index q" "spsc_contents s' = spsc_contents s"
    by (auto simp: pop_check_def Let_def intro!: contents_of_state split: if_splits)
  then have "spsc_contents s = []" using empty by (simp add: spsc_contents_def spsc_size_def)
  with empty q' show ?thesis by simp
next
  case (release q p v)
  with assms(1) load_is_head [of capacity q p "Releasing v"] consumer_nonempty(1) [of capacity q p "Releasing v"]
  have "spsc_contents s = pop_load q # spsc_contents s'" by simp
  moreover have "pop_load q = v" using assms(1) release by (simp add: spsc_wf_def)
  ultimately show ?thesis using release by simp
qed

interpretation spsc: implements spsc_step "fifo_step capacity" "spsc_wf capacity" spsc_contents for capacity :: nat
  by unfold_locales (auto intro: spsc_wf_step spsc_stutters spsc_simulates)

text \<open>C15: Whatever the interleaving of the producer's and the consumer's accesses, the queue is a FIFO of its
  capacity: the values are popped in the order they were pushed, each once, a push is refused only when the
  queue is full and a pop only when it is empty. The capacity divides \<open>2^64\<close> so that the slots stay aligned when
  the indices wrap around (the queue of the administrative commands has 128).\<close>

theorem spsc_queue_is_a_bounded_fifo:
  assumes "length memory dvd 2 ^ 64" "length memory < 2 ^ 64" "memory \<noteq> []"
    and "visible_run spsc_step (spsc_create memory, Producing, Consuming) labels s"
  shows "spec_run (fifo_step (length memory)) labels [] = Some (spsc_contents s)"
proof -
  have "spsc_wf (length memory) (spsc_create memory, Producing, Consuming)"
    using assms(1-3) by (simp add: spsc_wf_def spsc_create_def m_capacity_def spsc_size_def)
  from spsc.run_simulates [OF assms(4) this] show ?thesis
    by (simp add: spsc_create_def spsc_contents_def spsc_size_def)
qed

theorem spsc_queue_is_a_bounded_fifo_witness:
  "\<exists>s. visible_run spsc_step (spsc_create [0, 0 :: nat], Producing, Consuming) [Pushed 7, Popped 7, Pop_refused] s \<and>
    spec_run (fifo_step 2) [Pushed 7, Popped 7, Pop_refused] [] = Some (spsc_contents s)"
proof -
  let ?q0 = "spsc_create [0, 0 :: nat]"
  let ?q1 = "push_publish (push_store 7 ?q0)"
  let ?q2 = "?q1\<lparr>m_cached_write_index := 1\<rparr>"
  let ?q3 = "pop_release ?q2"
  have c: "push_check ?q0 = (True, ?q0)" "pop_check ?q1 = (True, ?q2)" "pop_load ?q2 = 7" "pop_check ?q3 = (False, ?q3)"
    by (simp_all add: push_check_def pop_check_def pop_load_def spsc_create_def push_publish_def push_store_def pop_release_def
        modulo_capacity_def m_capacity_def)
  let ?run = "visible_run spsc_step (?q0, Producing, Consuming)"
  have "?run [] (?q0, Storing 7, Consuming)"
    by (rule visible_run.silent, rule visible_run.here, rule spsc_step.room [OF c(1)])
  then have "?run [] (push_store 7 ?q0, Publishing 7, Consuming)"
    by (rule visible_run.silent) (rule spsc_step.store)
  from visible_run.shown [where step = spsc_step, OF this spsc_step.publish] have "?run [Pushed 7] (?q1, Producing, Consuming)" by simp
  then have "?run [Pushed 7] (?q2, Producing, Loading)"
    by (rule visible_run.silent) (rule spsc_step.available [OF c(2)])
  then have "?run [Pushed 7] (?q2, Producing, Releasing 7)"
    using visible_run.silent [where step = spsc_step, OF _ spsc_step.load] c(3) by metis
  from visible_run.shown [where step = spsc_step, OF visible_run.shown [where step = spsc_step, OF this spsc_step.release] spsc_step.empty [OF c(4)]]
  have r: "?run [Pushed 7, Popped 7, Pop_refused] (?q3, Producing, Consuming)" by simp
  have l: "length [0, 0 :: nat] = 2" by simp
  have "spec_run (fifo_step (length [0, 0 :: nat])) [Pushed 7, Popped 7, Pop_refused] [] =
      Some (spsc_contents (?q3, Producing, Consuming))"
    by (rule spsc_queue_is_a_bounded_fifo [OF _ _ _ r], unfold l) simp_all
  then show ?thesis using r by (intro exI [of _ "(?q3, Producing, Consuming)"]) (simp add: numeral_2_eq_2)
qed

end
