(* ===== verification/Fixed_Point.thy ===== *)
theory Fixed_Point
  imports Converters
begin

text \<open>
  \<open>electronic_trading/common/fixed_point.h\<close>: unsigned fixed-point numbers, a 64-bit raw value and the number
  of its decimal points. The assertions of the class are not compiled into a release build; \<^term>\<open>None\<close> is a
  write past a temporary buffer or a read past the table of powers of ten.
\<close>

record fixed_point =
  m_raw_value :: u64
  m_decimal_points :: u32

definition MAX_DIGITS :: nat where
  "MAX_DIGITS = 64"

definition MAX_ALLOWED_DECIMAL_POINTS :: nat where
  "MAX_ALLOWED_DECIMAL_POINTS = 9"

definition FIXED_POINT_POWERS_OF_TEN :: "u64 list" where
  "FIXED_POINT_POWERS_OF_TEN =
     [1, 10, 100, 1000, 10000, 100000, 1000000, 10000000, 100000000, 1000000000]"

definition set_decimal_points :: "u32 \<Rightarrow> fixed_point \<Rightarrow> fixed_point" where
  "set_decimal_points n p = p\<lparr>m_decimal_points := n\<rparr>"

definition set_raw_value :: "u64 \<Rightarrow> fixed_point \<Rightarrow> fixed_point" where
  "set_raw_value raw_value p = p\<lparr>m_raw_value := raw_value\<rparr>"

definition power_of_ten :: "nat \<Rightarrow> u64 option" where
  "power_of_ten i = (if i < length FIXED_POINT_POWERS_OF_TEN then Some (FIXED_POINT_POWERS_OF_TEN ! i) else None)"

text \<open>The loop over the characters: the digits so far, the length of the fractal part, and whether the loop is
  in it.\<close>

fun scan_fixed :: "string \<Rightarrow> string \<Rightarrow> nat \<Rightarrow> bool \<Rightarrow> (string \<times> nat) option" where
  "scan_fixed [] temp_buffer length_fractal_part in_fractal_part = Some (temp_buffer, length_fractal_part)"
| "scan_fixed (c # cs) temp_buffer length_fractal_part in_fractal_part =
     (if c \<noteq> CHR ''.'' then
        (if MAX_DIGITS \<le> length temp_buffer then None
         else scan_fixed cs (temp_buffer @ [c])
                (if in_fractal_part then length_fractal_part + 1 else length_fractal_part) in_fractal_part)
      else scan_fixed cs temp_buffer length_fractal_part True)"

definition set_from_chars :: "string \<Rightarrow> fixed_point \<Rightarrow> fixed_point option" where
  "set_from_chars buffer p =
     (case scan_fixed buffer [] 0 False of
        None \<Rightarrow> None
      | Some (temp_buffer, length_fractal_part) \<Rightarrow>
          (case (power_of_ten (unat (m_decimal_points p)), power_of_ten length_fractal_part) of
             (Some scale, Some divisor) \<Rightarrow>
               Some (p\<lparr>m_raw_value := chars_to_unsigned_int temp_buffer * (scale div divisor)\<rparr>)
           | _ \<Rightarrow> None))"

text \<open>A copy loop into a buffer, from position \<open>i\<close>.\<close>

fun write_at :: "nat \<Rightarrow> string \<Rightarrow> string \<Rightarrow> string option" where
  "write_at i [] buffer = Some buffer"
| "write_at i (c # cs) buffer =
     (case put buffer (int i) c of None \<Rightarrow> None | Some buffer \<Rightarrow> write_at (i + 1) cs buffer)"

definition to_chars :: "fixed_point \<Rightarrow> string \<Rightarrow> (nat \<times> string) option" where
  "to_chars p buffer =
     (case uint64_to_chars (m_raw_value p) (replicate MAX_DIGITS (CHR 0x00)) of
        None \<Rightarrow> None
      | Some (len, temp_buffer) \<Rightarrow>
          (let decimal_points = unat (m_decimal_points p)
           in if decimal_points < len then
                (let integer_part_length = len - decimal_points
                 in map_option (Pair (len + 1))
                      (Option.bind (write_at 0 (take integer_part_length temp_buffer) buffer) (\<lambda>buffer.
                       Option.bind (put buffer (int integer_part_length) (CHR ''.'')) (\<lambda>buffer.
                       write_at (integer_part_length + 1)
                         (take decimal_points (drop integer_part_length temp_buffer)) buffer))))
              else
                map_option (Pair (2 + decimal_points))
                  (Option.bind (put buffer 0 (CHR ''0'')) (\<lambda>buffer.
                   Option.bind (put buffer 1 (CHR ''.'')) (\<lambda>buffer.
                   Option.bind (write_at (2 + decimal_points - len) (take len temp_buffer) buffer) (\<lambda>buffer.
                   write_at 2 (replicate (decimal_points - len) (CHR ''0'')) buffer))))))"

definition fixed_point_to_string :: "fixed_point \<Rightarrow> string option" where
  "fixed_point_to_string p =
     Option.bind (to_chars p (replicate MAX_DIGITS (CHR 0x00))) (\<lambda>(len, temp_buffer).
     map_option (takeWhile (\<lambda>c. c \<noteq> CHR 0x00)) (put temp_buffer (int len) (CHR 0x00)))"

definition fixed_point_eq :: "fixed_point \<Rightarrow> fixed_point \<Rightarrow> bool" where
  "fixed_point_eq p other \<longleftrightarrow> m_raw_value p = m_raw_value other"

definition fixed_point_ne :: "fixed_point \<Rightarrow> fixed_point \<Rightarrow> bool" where
  "fixed_point_ne p other \<longleftrightarrow> m_raw_value p \<noteq> m_raw_value other"

definition fixed_point_greater :: "fixed_point \<Rightarrow> fixed_point \<Rightarrow> bool" where
  "fixed_point_greater p other \<longleftrightarrow> m_raw_value p > m_raw_value other"

definition fixed_point_greater_eq :: "fixed_point \<Rightarrow> fixed_point \<Rightarrow> bool" where
  "fixed_point_greater_eq p other \<longleftrightarrow> m_raw_value p \<ge> m_raw_value other"

definition fixed_point_less :: "fixed_point \<Rightarrow> fixed_point \<Rightarrow> bool" where
  "fixed_point_less p other \<longleftrightarrow> m_raw_value p < m_raw_value other"

definition fixed_point_less_eq :: "fixed_point \<Rightarrow> fixed_point \<Rightarrow> bool" where
  "fixed_point_less_eq p other \<longleftrightarrow> m_raw_value p \<le> m_raw_value other"

subsection \<open>Reading\<close>

lemma scan_fixed_digits:
  assumes "CHR ''.'' \<notin> set s" "length t + length s \<le> MAX_DIGITS"
  shows "scan_fixed (s @ rest) t n fractal = scan_fixed rest (t @ s) (if fractal then n + length s else n) fractal"
  using assms by (induction s arbitrary: t n) auto

lemma digits_no_point: "list_all is_digit s \<Longrightarrow> CHR ''.'' \<notin> set s"
  by (auto simp: list_all_iff is_digit_def)

lemma power_of_ten_eq: "i \<le> 9 \<Longrightarrow> power_of_ten i = Some (word_of_nat (10 ^ i))"
proof -
  assume "i \<le> 9"
  then have "i = 0 \<or> i = 1 \<or> i = 2 \<or> i = 3 \<or> i = 4 \<or> i = 5 \<or> i = 6 \<or> i = 7 \<or> i = 8 \<or> i = 9" by presburger
  then show ?thesis by (elim disjE) (simp_all add: power_of_ten_def FIXED_POINT_POWERS_OF_TEN_def)
qed

lemma scale_eq:
  assumes "j \<le> i" "i \<le> 9"
  shows "(word_of_nat (10 ^ i) :: u64) div word_of_nat (10 ^ j) = word_of_nat (10 ^ (i - j))"
proof -
  have small: "(10 :: nat) ^ k < 2 ^ 64" if "k \<le> 9" for k
    using power_increasing [OF that, of "10 :: nat"] by simp
  have n: "unat (word_of_nat (10 ^ k) :: u64) = 10 ^ k" if "k \<le> 9" for k
    using small [OF that] by (simp only: unat_of_nat) simp
  have "unat ((word_of_nat (10 ^ i) :: u64) div word_of_nat (10 ^ j)) = 10 ^ i div 10 ^ j"
    using assms by (simp only: unat_div n)
  also have "\<dots> = 10 ^ (i - j)" using assms(1) by (simp add: power_diff)
  finally have "unat ((word_of_nat (10 ^ i) :: u64) div word_of_nat (10 ^ j)) = unat (word_of_nat (10 ^ (i - j)) :: u64)"
    using assms(2) by (simp only: n [of "i - j"]) 
  then show ?thesis by (rule unsigned_word_eqI)
qed

text \<open>Digits with a point among them.\<close>

lemma set_from_chars_digits:
  assumes "list_all is_digit a" "list_all is_digit b" "length a + length b \<le> MAX_DIGITS"
    "length b \<le> unat (m_decimal_points p)" "unat (m_decimal_points p) \<le> 9"
  shows "set_from_chars (a @ CHR ''.'' # b) p =
    Some (p\<lparr>m_raw_value := word_of_nat (dval (a @ b) * 10 ^ (unat (m_decimal_points p) - length b))\<rparr>)"
proof -
  have "scan_fixed (a @ CHR ''.'' # b @ []) [] 0 False = Some (a @ b, length b)"
    using assms(1-3) scan_fixed_digits [of b a "[]" 0 True] by (simp add: scan_fixed_digits digits_no_point)
  moreover have "(chars_to_unsigned_int (a @ b) :: u64) = word_of_nat (dval (a @ b))"
    using assms(1,2) by (intro chars_to_unsigned_int_digits) simp
  ultimately show ?thesis
    using assms(4,5) scale_eq [OF assms(4,5)] by (simp add: set_from_chars_def power_of_ten_eq del: of_nat_power)
qed

subsection \<open>Writing\<close>

lemma write_at_eq:
  assumes "i + length s \<le> length buffer"
  shows "write_at i s buffer = Some (take i buffer @ s @ drop (i + length s) buffer)"
  using assms
proof (induction s arbitrary: i buffer)
  case (Cons c s)
  then have "take (Suc i) (buffer[i := c]) = take i buffer @ [c]"
    by (simp add: take_Suc_conv_app_nth)
  with Cons show ?case by simp
qed simp

text \<open>The decimal text of a value, with at least \<open>n\<close> digits.\<close>

definition padded :: "nat \<Rightarrow> nat \<Rightarrow> string" where
  "padded n v = replicate (n - length (dec v)) (CHR ''0'') @ dec v"

lemma dval_zeros: "dval (replicate n (CHR ''0'') @ s) = dval s"
proof (induction s rule: rev_induct)
  case Nil
  then show ?case by (induction n) (simp_all add: dval_def)
next
  case (snoc c s)
  then show ?case by (simp add: dval_snoc [of "replicate n (CHR ''0'') @ s", simplified])
qed

lemma padded_digits: "list_all is_digit (padded n v)"
  using list_all_dec [of v] by (auto simp: padded_def list_all_iff is_digit_def)

lemma length_padded: "n \<le> length (padded n v)"
  by (simp add: padded_def)

text \<open>The text \<open>to_chars\<close> writes: at least one digit, the point, and exactly the decimal points.\<close>

definition fixed_text :: "fixed_point \<Rightarrow> string" where
  "fixed_text p =
     (let s = padded (unat (m_decimal_points p) + 1) (unat (m_raw_value p)); k = length s - unat (m_decimal_points p)
      in take k s @ CHR ''.'' # drop k s)"

lemma write_at_append: "write_at i (s @ t) b = Option.bind (write_at i s b) (write_at (i + length s) t)"
  by (induction s arbitrary: i b) (simp_all split: option.splits)

lemma put_write_at: "put b (int i) c = write_at i [c] b"
  by (simp split: option.splits)

lemma to_chars_eq:
  assumes "unat (m_decimal_points p) \<le> 9" "23 \<le> length buffer"
  shows "to_chars p buffer = Some (length (fixed_text p), fixed_text p @ drop (length (fixed_text p)) buffer)"
proof -
  let ?d = "unat (m_decimal_points p)" and ?s = "dec (unat (m_raw_value p))"
  have l: "length ?s \<le> 20" by (rule dec_unat_length64)
  have w: "uint64_to_chars (m_raw_value p) (replicate MAX_DIGITS (CHR 0x00)) =
      Some (length ?s, ?s @ drop (length ?s) (replicate MAX_DIGITS (CHR 0x00)))"
    using l by (intro uint64_to_chars_eq) (simp add: MAX_DIGITS_def)
  show ?thesis
  proof (cases "?d < length ?s")
    case True
    let ?k = "length ?s - ?d"
    have ft: "fixed_text p = take ?k ?s @ [CHR ''.''] @ drop ?k ?s"
      using True by (simp add: fixed_text_def padded_def Let_def)
    have "to_chars p buffer = map_option (Pair (length ?s + 1)) (write_at 0 (fixed_text p) buffer)"
      using True unfolding ft write_at_append
      by (simp add: to_chars_def w put_write_at Let_def del: write_at.simps)
    moreover have "length (fixed_text p) = length ?s + 1" using True by (simp add: ft)
    ultimately show ?thesis using l assms(2) by (simp add: write_at_eq)
  next
    case False
    let ?z = "replicate (?d - length ?s) (CHR ''0'')"
    have ft: "fixed_text p = ''0.'' @ ?z @ ?s"
      using False by (simp add: fixed_text_def padded_def Suc_diff_le Let_def)
    let ?b = "CHR ''0'' # CHR ''.'' # drop 2 buffer"
    have b: "put (buffer[0 := CHR ''0'']) 1 (CHR ''.'') = Some ?b" "put buffer 0 (CHR ''0'') = Some (buffer[0 := CHR ''0''])"
      using assms(2) by (cases buffer; cases "tl buffer"; simp add: put_def)+
    have "to_chars p buffer = map_option (Pair (2 + ?d))
        (Option.bind (write_at (2 + ?d - length ?s) ?s ?b) (write_at 2 ?z))"
      using False by (simp add: to_chars_def w b Let_def)
    also have "write_at (2 + ?d - length ?s) ?s ?b = Some (''0.'' @ take (?d - length ?s) (drop 2 buffer) @ ?s @ drop (2 + ?d) buffer)"
      using False l assms by (subst write_at_eq) (simp_all add: Suc_diff_le)
    also have "Option.bind \<dots> (write_at 2 ?z) = Some (''0.'' @ ?z @ ?s @ drop (2 + ?d) buffer)"
      using False l assms by (simp add: write_at_eq)
    finally show ?thesis using False by (simp add: ft)
  qed
qed

lemma fixed_text_length: "unat (m_decimal_points p) \<le> 9 \<Longrightarrow> length (fixed_text p) \<le> 21"
  using dec_unat_length64 [of "m_raw_value p"] by (auto simp: fixed_text_def padded_def Let_def)

lemma fixed_text_no_nul: "CHR 0x00 \<notin> set (fixed_text p)"
proof -
  have "CHR 0x00 \<notin> set (padded n v)" for n v
    using padded_digits [of n v] by (auto simp: list_all_iff is_digit_def)
  then show ?thesis by (auto simp: fixed_text_def Let_def dest: in_set_takeD in_set_dropD)
qed

lemma fixed_point_to_string_eq:
  assumes "unat (m_decimal_points p) \<le> 9"
  shows "fixed_point_to_string p = Some (fixed_text p)"
proof -
  let ?b = "replicate MAX_DIGITS (CHR 0x00)" and ?n = "length (fixed_text p)"
  have n: "?n \<le> 21" by (rule fixed_text_length [OF assms])
  then have c: "to_chars p ?b = Some (?n, fixed_text p @ drop ?n ?b)"
    using assms by (intro to_chars_eq) (simp_all add: MAX_DIGITS_def)
  have "put (fixed_text p @ drop ?n ?b) (int ?n) (CHR 0x00) = Some (fixed_text p @ (drop ?n ?b)[0 := CHR 0x00])"
    using n by (simp add: MAX_DIGITS_def list_update_append)
  moreover have "takeWhile (\<lambda>c. c \<noteq> CHR 0x00) (fixed_text p @ (drop ?n ?b)[0 := CHR 0x00]) = fixed_text p"
    using n fixed_text_no_nul [of p] by (subst takeWhile_append2) (auto simp: MAX_DIGITS_def nth_list_update_eq hd_conv_nth
        takeWhile_eq_Nil_iff)
  ultimately show ?thesis by (simp add: fixed_point_to_string_def c)
qed

lemma padded_value: "dval (padded n v) = v"
  by (simp add: padded_def dval_zeros)

subsection \<open>Properties\<close>

text \<open>With one to nine decimal points every value is printed with exactly that many digits behind the point and
  at least one before it, and reading the text gives the value back; reading any decimal text whose fraction
  fits gives its value scaled to the decimal points, modulo \<open>2^64\<close>.\<close>

theorem fixed_point_roundtrip:
  assumes "unat (m_decimal_points p) \<le> 9" "list_all is_digit whole" "list_all is_digit fraction"
    "length whole + length fraction \<le> 64" "length fraction \<le> unat (m_decimal_points p)"
  shows "fixed_point_to_string p = Some (fixed_text p) \<and>
    length (takeWhile (\<lambda>c. c \<noteq> CHR ''.'') (fixed_text p)) + unat (m_decimal_points p) + 1 = length (fixed_text p) \<and>
    set_from_chars (fixed_text p) (set_raw_value v p) = Some p \<and>
    set_from_chars (whole @ CHR ''.'' # fraction) p =
      Some (set_raw_value (word_of_nat (dval (whole @ fraction) * 10 ^ (unat (m_decimal_points p) - length fraction))) p)"
proof -
  let ?d = "unat (m_decimal_points p)"
  let ?s = "padded (?d + 1) (unat (m_raw_value p))"
  let ?k = "length ?s - ?d"
  have s: "length ?s \<le> MAX_DIGITS" "?d < length ?s"
    using dec_unat_length64 [of "m_raw_value p"] assms(1) by (auto simp: padded_def MAX_DIGITS_def)
  have parts: "list_all is_digit (take ?k ?s)" "list_all is_digit (drop ?k ?s)"
    using padded_digits [of "?d + 1" "unat (m_raw_value p)"] by (auto simp: list_all_iff dest: in_set_takeD in_set_dropD)
  have "set_from_chars (take ?k ?s @ CHR ''.'' # drop ?k ?s) (set_raw_value v p) =
      Some (set_raw_value v p\<lparr>m_raw_value := word_of_nat (dval (take ?k ?s @ drop ?k ?s) * 10 ^ (?d - length (drop ?k ?s)))\<rparr>)"
    using set_from_chars_digits [OF parts, of "set_raw_value v p"] s assms(1)
    by (simp add: set_raw_value_def del: append_take_drop_id)
  then have "set_from_chars (fixed_text p) (set_raw_value v p) = Some p"
    using s(2) by (simp add: fixed_text_def Let_def padded_value set_raw_value_def)
  moreover have "takeWhile (\<lambda>c. c \<noteq> CHR ''.'') (fixed_text p) = take ?k ?s"
    using digits_no_point [OF parts(1)] by (simp add: fixed_text_def Let_def) (subst takeWhile_append2; auto)
  ultimately show ?thesis
    using fixed_point_to_string_eq [OF assms(1)] set_from_chars_digits [of whole fraction p] assms s(2)
    by (simp add: fixed_text_def Let_def set_raw_value_def MAX_DIGITS_def)
qed

theorem fixed_point_roundtrip_witness:
  "\<exists>p. p = \<lparr>m_raw_value = 1032, m_decimal_points = 2\<rparr> \<and> fixed_text p = ''10.32'' \<and>
    set_from_chars ''10.32'' (set_raw_value 0 p) = Some p \<and>
    set_from_chars ''12.5'' p = Some (set_raw_value 1250 p)"
proof -
  let ?p = "\<lparr>m_raw_value = 1032, m_decimal_points = 2\<rparr>"
  have t: "fixed_text ?p = ''10.32''"
  proof -
    have "dec 1032 = ''1032''" by (simp add: dec_big dec_small digit_char_def) code_simp
    then show ?thesis by (simp add: fixed_text_def padded_def)
  qed
  have v: "list_all is_digit ''12''" "list_all is_digit ''5''" "dval (''12'' @ ''5'') = 125" by code_simp+
  from fixed_point_roundtrip [of ?p "''12''" "''5''" 0] t v show ?thesis by simp
qed

end
