(* ===== verification/Configuration.thy ===== *)
theory Configuration
  imports Fix_Session
begin

text \<open>
  \<open>core/utilities/configuration.h\<close>: configuration files with groups of \<open>name=value\<close> lines. The groups are a
  map from names to their attributes in the order they were inserted. The hash tables of the code leave two
  choices open: which of several attributes of the same name \<open>find\<close> returns, and in which order groups and
  attributes are visited. The first is a parameter \<open>pick\<close>, used on the values that are there; the order of the
  visits is an argument of what depends on it.

  The content of a file is an input; \<^term>\<open>None\<close> is a file that cannot be opened.
\<close>

type_synonym configuration = "string \<rightharpoonup> (string \<times> string) list"

abbreviation NEWLINE :: char where "NEWLINE \<equiv> CHR 0x0A"

definition ROOT_GROUP_NAME :: string where
  "ROOT_GROUP_NAME = ''root''"

text \<open>The characters up to the first NUL, what \<open>data()\<close> passes to a \<open>std::string\<close>.\<close>

definition c_str :: "string \<Rightarrow> string" where
  "c_str s = takeWhile (\<lambda>c. c \<noteq> CHR 0x00) s"

definition trim_left_in_place :: "string \<Rightarrow> string" where
  "trim_left_in_place s = dropWhile is_blank s"

definition trim_right_in_place :: "string \<Rightarrow> string" where
  "trim_right_in_place s = rev (dropWhile is_blank (rev s))"

definition trim_in_place :: "string \<Rightarrow> string" where
  "trim_in_place s = trim_right_in_place (trim_left_in_place s)"

definition split_by_first_separator :: "string \<Rightarrow> char \<Rightarrow> string list" where
  "split_by_first_separator input separator =
     (if input = [] then []
      else if separator \<in> set input then
        [takeWhile (\<lambda>c. c \<noteq> separator) input, tl (dropWhile (\<lambda>c. c \<noteq> separator) input)]
      else [c_str input])"

lemma rest_shorter: "s \<noteq> [] \<Longrightarrow> length (tl (dropWhile P s)) < length s"
proof -
  assume "s \<noteq> []"
  then have "0 < length s" by simp
  moreover have "length (tl (dropWhile P s)) = length (dropWhile P s) - 1" by (rule length_tl)
  ultimately show ?thesis using length_dropWhile_le [of P s] by linarith
qed

text \<open>The lines \<open>std::getline\<close> reads.\<close>

function file_lines :: "string \<Rightarrow> string list" where
  "file_lines s =
     (if s = [] then []
      else takeWhile (\<lambda>c. c \<noteq> NEWLINE) s # file_lines (tl (dropWhile (\<lambda>c. c \<noteq> NEWLINE) s)))"
  by auto
termination
  by (relation "measure length") (rule wf_measure, simp only: in_measure rest_shorter not_False_eq_True)

declare file_lines.simps [simp del]

definition add_group :: "string \<Rightarrow> configuration \<Rightarrow> configuration" where
  "add_group group_name c = c(c_str group_name \<mapsto> [])"

definition does_group_exist :: "string \<Rightarrow> configuration \<Rightarrow> bool" where
  "does_group_exist group_name c \<longleftrightarrow> c (c_str group_name) \<noteq> None"

definition group_of :: "string \<Rightarrow> configuration \<Rightarrow> (string \<times> string) list" where
  "group_of group_name c = (case c (c_str group_name) of None \<Rightarrow> [] | Some attributes \<Rightarrow> attributes)"

definition add_attribute :: "string \<Rightarrow> string \<Rightarrow> string \<Rightarrow> configuration \<Rightarrow> configuration" where
  "add_attribute attribute val group_name c =
     (let c = (if \<not> does_group_exist group_name c then add_group group_name c else c)
      in c(c_str group_name \<mapsto> group_of group_name c @ [(attribute, val)]))"

definition does_attribute_exist :: "string \<Rightarrow> string \<Rightarrow> configuration \<Rightarrow> bool" where
  "does_attribute_exist attribute group_name c \<longleftrightarrow>
     does_group_exist group_name c \<and> c_str attribute \<in> fst ` set (group_of group_name c)"

fun load_lines :: "nat \<Rightarrow> string \<Rightarrow> configuration \<Rightarrow> string list \<Rightarrow> string + configuration" where
  "load_lines line_number current_group_name c [] = Inr c"
| "load_lines line_number current_group_name c (l # ls) =
     (let line_number = line_number + 1;
          line = trim_in_place l
      in if line = [] then load_lines line_number current_group_name c ls
         else if hd line = CHR ''#'' then load_lines line_number current_group_name c ls
         else if length line < 3 then Inl (''Line is too short , line number : '' @ dec line_number)
         else if CHR ''['' \<in> set line \<and> CHR '']'' \<in> set line then
           (let current_group_name = take (length line - 2) (tl line)
            in if c current_group_name \<noteq> None then
                 Inl (''A group with name '' @ current_group_name @ '' already exists'')
               else load_lines line_number current_group_name c ls)
         else if CHR ''='' \<notin> set line then
           Inl (''Line doesn`t contain equals sign , line number : '' @ dec line_number)
         else
           (case split_by_first_separator line (CHR ''='') of
              [attribute, val] \<Rightarrow> load_lines line_number current_group_name (add_attribute attribute val current_group_name c) ls
            | _ \<Rightarrow> load_lines line_number current_group_name c ls))"

definition load_from_file :: "string \<Rightarrow> string option \<Rightarrow> string + configuration" where
  "load_from_file file_name content =
     (case content of
        None \<Rightarrow> Inl (''File ('' @ file_name @ '') can`t be opened'')
      | Some content \<Rightarrow> load_lines 0 ROOT_GROUP_NAME (add_group ROOT_GROUP_NAME Map.empty) (file_lines content))"

subsection \<open>Reading values\<close>

definition get_string_value :: "(string list \<Rightarrow> string) \<Rightarrow> string \<Rightarrow> string \<Rightarrow> string \<Rightarrow> configuration \<Rightarrow> string" where
  "get_string_value pick attribute default_val_if_absent group_name c =
     (if \<not> does_attribute_exist attribute group_name c then default_val_if_absent
      else pick (map snd (filter (\<lambda>(a, v). a = c_str attribute) (group_of group_name c))))"

definition lower_char :: "char \<Rightarrow> char" where
  "lower_char c = (if 65 \<le> (of_char c :: nat) \<and> (of_char c :: nat) \<le> 90 then char_of ((of_char c :: nat) + 32) else c)"

definition to_lower :: "string \<Rightarrow> string" where
  "to_lower s = map lower_char s"

definition get_bool_value :: "(string list \<Rightarrow> string) \<Rightarrow> string \<Rightarrow> bool \<Rightarrow> string \<Rightarrow> configuration \<Rightarrow> bool" where
  "get_bool_value pick attribute default_val_if_absent group_name c =
     (if \<not> does_attribute_exist attribute group_name c then default_val_if_absent
      else to_lower (get_string_value pick attribute (if default_val_if_absent then ''true'' else ''false'') group_name c) = ''true'')"

definition get_int_value :: "(string list \<Rightarrow> string) \<Rightarrow> string \<Rightarrow> int \<Rightarrow> string \<Rightarrow> configuration \<Rightarrow> int" where
  "get_int_value pick attribute default_val_if_absent group_name c =
     (if \<not> does_attribute_exist attribute group_name c then default_val_if_absent
      else case stoi (get_string_value pick attribute (sdec default_val_if_absent) group_name c) of
             None \<Rightarrow> default_val_if_absent
           | Some i \<Rightarrow> i)"

text \<open>The error, or nothing; the first attribute that is not expected depends on the order of the visit.\<close>

definition validate_loaded_configs :: "(string list \<Rightarrow> string) \<Rightarrow> string list \<Rightarrow> string \<Rightarrow> configuration \<Rightarrow> string option" where
  "validate_loaded_configs pick expected_configs group_name c =
     (case filter (\<lambda>a. a \<notin> set expected_configs) (map fst (group_of group_name c)) of
        [] \<Rightarrow> None
      | unexpected \<Rightarrow> Some (''Found unrecognised config -> '' @ pick unexpected))"

text \<open>What \<open>save_to_file\<close> writes when it visits the groups in this order.\<close>

definition save_attribute :: "string \<times> string \<Rightarrow> string" where
  "save_attribute av = fst av @ ''='' @ snd av @ [NEWLINE]"

definition save_group :: "string \<times> (string \<times> string) list \<Rightarrow> string" where
  "save_group g =
     (if fst g \<noteq> ROOT_GROUP_NAME then ''['' @ fst g @ '']'' @ [NEWLINE] else []) @ concat (map save_attribute (snd g))"

definition save_to_file :: "(string \<times> (string \<times> string) list) list \<Rightarrow> string" where
  "save_to_file groups = concat (map save_group groups)"

subsection \<open>Properties\<close>

text \<open>A group that a file can hold: the attribute names are not empty and have no equals sign, the lines have no
  brackets, line breaks or NUL, no blanks at their ends and do not begin like a comment.\<close>

definition clean_text :: "string \<Rightarrow> bool" where
  "clean_text s \<longleftrightarrow> CHR ''['' \<notin> set s \<and> CHR '']'' \<notin> set s \<and> NEWLINE \<notin> set s \<and> CHR 0x00 \<notin> set s"

definition clean_attribute :: "string \<times> string \<Rightarrow> bool" where
  "clean_attribute av \<longleftrightarrow> clean_text (fst av) \<and> clean_text (snd av) \<and> fst av \<noteq> [] \<and>
     CHR ''='' \<notin> set (fst av) \<and> \<not> is_blank (hd (fst av)) \<and> hd (fst av) \<noteq> CHR ''#'' \<and>
     (if snd av = [] then 2 \<le> length (fst av) else \<not> is_blank (List.last (snd av)))"

definition clean_group :: "string \<times> (string \<times> string) list \<Rightarrow> bool" where
  "clean_group g \<longleftrightarrow> clean_text (fst g) \<and> fst g \<noteq> [] \<and> snd g \<noteq> [] \<and> list_all clean_attribute (snd g)"

lemma until_simps:
  "x \<notin> set s \<Longrightarrow> takeWhile (\<lambda>c. c \<noteq> x) (s @ x # t) = s" "x \<notin> set s \<Longrightarrow> dropWhile (\<lambda>c. c \<noteq> x) (s @ x # t) = x # t"
  by (induction s) auto

lemma file_lines_Nil [simp]: "file_lines [] = []"
  by (subst file_lines.simps) simp

lemma file_lines_line: "NEWLINE \<notin> set s \<Longrightarrow> file_lines (s @ NEWLINE # t) = s # file_lines t"
  by (subst file_lines.simps) (simp add: until_simps)

lemma trim_clean:
  assumes "s \<noteq> []" "\<not> is_blank (hd s)" "\<not> is_blank (List.last s)"
  shows "trim_in_place s = s"
proof -
  have "dropWhile is_blank s = s" using assms by (cases s) auto
  moreover have "dropWhile is_blank (rev s) = rev s" using assms by (cases "rev s") (auto simp: last_rev [symmetric] hd_rev)
  ultimately show ?thesis by (simp add: trim_in_place_def trim_left_in_place_def trim_right_in_place_def)
qed

lemma c_str_clean: "CHR 0x00 \<notin> set s \<Longrightarrow> c_str s = s"
  by (auto simp: c_str_def takeWhile_eq_all_conv)

lemma load_attribute:
  assumes "clean_attribute av"
  shows "load_lines n g c ((fst av @ ''='' @ snd av) # ls) = load_lines (n + 1) g (add_attribute (fst av) (snd av) g c) ls"
proof -
  obtain a v where av: "av = (a, v)" by force
  let ?l = "a @ ''='' @ v"
  have c: "a \<noteq> []" "CHR ''='' \<notin> set a" "\<not> is_blank (hd a)" "hd a \<noteq> CHR ''#''" "\<not> is_blank (List.last ?l)"
    "CHR ''['' \<notin> set ?l" "3 \<le> length ?l"
    using assms by (cases a; cases v; force simp: av clean_attribute_def clean_text_def is_blank_def split: if_splits)+
  have "trim_in_place ?l = ?l" using c by (intro trim_clean) auto
  moreover have "\<not> length ?l < 3" using c by simp
  moreover have "split_by_first_separator ?l (CHR ''='') = [a, v]"
    using c(2) by (simp add: split_by_first_separator_def until_simps)
  moreover have "?l \<noteq> []" "hd ?l \<noteq> CHR ''#''" "CHR ''='' \<in> set ?l" using c by auto
  ultimately show ?thesis using c(6) by (simp add: av Let_def)
qed

definition appended :: "string \<Rightarrow> (string \<times> string) list \<Rightarrow> configuration \<Rightarrow> configuration" where
  "appended g avs c = c(g \<mapsto> (case c g of None \<Rightarrow> [] | Some xs \<Rightarrow> xs) @ avs)"

lemma appended_appended: "appended g bs (appended g as c) = appended g (as @ bs) c"
  by (simp add: appended_def)

lemma add_clean: "CHR 0x00 \<notin> set g \<Longrightarrow> add_attribute a v g c = appended g [(a, v)] c"
  by (auto simp: appended_def add_attribute_def does_group_exist_def add_group_def group_of_def c_str_clean Let_def split: option.splits)

lemma load_attributes:
  assumes "list_all clean_attribute avs" "CHR 0x00 \<notin> set g" "avs \<noteq> []"
  shows "load_lines n g c (file_lines (concat (map save_attribute avs) @ t)) =
    load_lines (n + length avs) g (appended g avs c) (file_lines t)"
  using assms
proof (induction avs arbitrary: n c)
  case (Cons av avs)
  have line: "NEWLINE \<notin> set (fst av @ ''='' @ snd av)"
    using Cons.prems(1) by (auto simp: clean_attribute_def clean_text_def)
  let ?c = "appended g [av] c"
  have "load_lines n g c (file_lines (concat (map save_attribute (av # avs)) @ t)) =
      load_lines (n + 1) g ?c (file_lines (concat (map save_attribute avs) @ t))"
    using file_lines_line [OF line, of "concat (map save_attribute avs) @ t"] load_attribute [of av n g c] Cons.prems(1,2)
    by (simp add: save_attribute_def add_clean)
  then show ?case
    using Cons by (cases "avs = []") (simp_all add: appended_appended)
qed simp

lemma load_group:
  assumes "clean_group gr" "fst gr \<noteq> ROOT_GROUP_NAME" "c (fst gr) = None"
  shows "load_lines n g c (file_lines (save_group gr @ t)) =
    load_lines (n + 1 + length (snd gr)) (fst gr) (c(fst gr \<mapsto> snd gr)) (file_lines t)"
proof -
  let ?l = "''['' @ fst gr @ '']''"
  have name: "clean_text (fst gr)" "fst gr \<noteq> []" "snd gr \<noteq> []" "list_all clean_attribute (snd gr)"
    using assms(1) by (auto simp: clean_group_def)
  then have line: "NEWLINE \<notin> set ?l" and z: "CHR 0x00 \<notin> set (fst gr)" by (auto simp: clean_text_def)
  have "trim_in_place ?l = ?l" by (intro trim_clean) (auto simp: is_blank_def)
  moreover have "\<not> length ?l < 3" using name(2) by (cases "fst gr") auto
  ultimately have "load_lines n g c (?l # ls) = load_lines (n + 1) (fst gr) c ls" for ls
    using assms(3) by (simp add: Let_def)
  then show ?thesis
    using assms(2,3) file_lines_line [OF line, of "concat (map save_attribute (snd gr)) @ t"] load_attributes [OF name(4) z name(3)]
    by (simp add: save_group_def appended_def)
qed

text \<open>Several groups, followed by more text that still belongs to the last of them.\<close>

lemma load_groups_then:
  assumes "list_all clean_group groups" "distinct (map fst groups)" "ROOT_GROUP_NAME \<notin> fst ` set groups"
    "\<And>m. m \<in> fst ` set groups \<Longrightarrow> c m = None"
  shows "\<exists>n'. load_lines n g c (file_lines (save_to_file groups @ t)) =
    load_lines n' (if groups = [] then g else fst (last groups)) (c ++ map_of groups) (file_lines t)"
  using assms
proof (induction groups arbitrary: n g c)
  case Nil
  then show ?case by (auto simp: save_to_file_def)
next
  case (Cons gr groups)
  have "load_lines n g c (file_lines (save_to_file (gr # groups) @ t)) =
      load_lines (n + 1 + length (snd gr)) (fst gr) (c(fst gr \<mapsto> snd gr)) (file_lines (save_to_file groups @ t))"
    using load_group [of gr c n g "save_to_file groups @ t"] Cons.prems by (auto simp: save_to_file_def)
  moreover have "\<exists>n'. load_lines (n + 1 + length (snd gr)) (fst gr) (c(fst gr \<mapsto> snd gr)) (file_lines (save_to_file groups @ t)) =
      load_lines n' (if groups = [] then fst gr else fst (last groups)) (c(fst gr \<mapsto> snd gr) ++ map_of groups) (file_lines t)"
    using Cons.prems by (intro Cons.IH) (auto simp: image_iff)
  then obtain n' where "load_lines (n + 1 + length (snd gr)) (fst gr) (c(fst gr \<mapsto> snd gr)) (file_lines (save_to_file groups @ t)) =
      load_lines n' (if groups = [] then fst gr else fst (last groups)) (c(fst gr \<mapsto> snd gr) ++ map_of groups) (file_lines t)" ..
  moreover have "c(fst gr \<mapsto> snd gr) ++ map_of groups = c ++ map_of (gr # groups)"
    using Cons.prems(2) map_add_upd_left [of "fst gr" "map_of groups" c "snd gr"]
    by (cases gr) (simp add: dom_map_of_conv_image_fst)
  ultimately show ?case by (intro exI [of _ n']) (simp only: last.simps list.distinct if_False if_distrib [of fst] split: if_split)
qed

lemma load_groups:
  assumes "list_all clean_group groups" "distinct (map fst groups)" "ROOT_GROUP_NAME \<notin> fst ` set groups"
    "\<And>m. m \<in> fst ` set groups \<Longrightarrow> c m = None"
  shows "load_lines n g c (file_lines (save_to_file groups)) = Inr (c ++ map_of groups)"
  using load_groups_then [OF assms, where n = n and g = g and t = "[]"] by auto

lemma root_after_group:
  assumes "list_all clean_group (before @ (name, attributes) # after)" "distinct (map fst (before @ (name, attributes) # after))"
    and "ROOT_GROUP_NAME \<notin> fst ` set (before @ (name, attributes) # after)" "list_all clean_attribute root" "root \<noteq> []"
  shows "load_from_file file (Some (save_to_file (before @ (name, attributes) # (ROOT_GROUP_NAME, root) # after))) =
    Inr (map_of ((ROOT_GROUP_NAME, []) # before @ (name, attributes @ root) # after))"
proof -
  let ?first = "before @ [(name, attributes)]" and ?root = "concat (map save_attribute root)"
  let ?c = "[ROOT_GROUP_NAME \<mapsto> []] ++ map_of ?first"
  have z: "CHR 0x00 \<notin> set name" using assms(1) by (simp add: clean_group_def clean_text_def)
  have names: "name \<notin> fst ` set before" "name \<notin> fst ` set after" "ROOT_GROUP_NAME \<notin> fst ` set before"
    "ROOT_GROUP_NAME \<notin> fst ` set after" "ROOT_GROUP_NAME \<noteq> name" "fst ` set before \<inter> fst ` set after = {}"
    using assms(2,3) by (simp_all add: image_Un)
  have split: "save_to_file (before @ (name, attributes) # (ROOT_GROUP_NAME, root) # after) = save_to_file ?first @ ?root @ save_to_file after"
    by (simp add: save_to_file_def save_group_def [of "(ROOT_GROUP_NAME, root)"])
  have "\<exists>n'. load_lines 0 ROOT_GROUP_NAME [ROOT_GROUP_NAME \<mapsto> []] (file_lines (save_to_file ?first @ ?root @ save_to_file after)) =
      load_lines n' name ?c (file_lines (?root @ save_to_file after))"
  proof -
    have "\<And>m. m \<in> fst ` set ?first \<Longrightarrow> [ROOT_GROUP_NAME \<mapsto> []] m = None" using assms(3) by auto
    then have "\<exists>n'. load_lines 0 ROOT_GROUP_NAME [ROOT_GROUP_NAME \<mapsto> []] (file_lines (save_to_file ?first @ ?root @ save_to_file after)) =
      load_lines n' (if ?first = [] then ROOT_GROUP_NAME else fst (last ?first)) ?c (file_lines (?root @ save_to_file after))"
      using assms(1-3) by (intro load_groups_then) auto
    then show ?thesis by simp
  qed
  then obtain n' where "load_from_file file (Some (save_to_file (before @ (name, attributes) # (ROOT_GROUP_NAME, root) # after))) =
      load_lines n' name ?c (file_lines (?root @ save_to_file after))"
    unfolding split by (auto simp: load_from_file_def ROOT_GROUP_NAME_def add_group_def c_str_def)
  also have "\<dots> = load_lines (n' + length root) name (appended name root ?c) (file_lines (save_to_file after))"
    by (rule load_attributes [OF assms(4) z assms(5)])
  also have "appended name root ?c = ?c(name \<mapsto> attributes @ root)"
  proof -
    have "map_of before name = None" using assms(2) by (simp add: map_of_eq_None_iff)
    then show ?thesis by (simp add: appended_def map_add_def)
  qed
  also have "load_lines (n' + length root) name (?c(name \<mapsto> attributes @ root)) (file_lines (save_to_file after)) =
      Inr (?c(name \<mapsto> attributes @ root) ++ map_of after)"
  proof (rule load_groups)
    fix m assume m: "m \<in> fst ` set after"
    with names have "map_of before m = None" "m \<noteq> name" "m \<noteq> ROOT_GROUP_NAME"
      unfolding map_of_eq_None_iff by blast+
    then show "(?c(name \<mapsto> attributes @ root)) m = None" by (simp add: map_add_def)
  qed (use assms(1-3) in auto)
  also have "?c(name \<mapsto> attributes @ root) ++ map_of after = map_of ((ROOT_GROUP_NAME, []) # before @ (name, attributes @ root) # after)"
  proof (rule ext)
    fix x
    have none: "map_of before x = None" "map_of after x = None" if "x = ROOT_GROUP_NAME \<or> x = name"
      using that names(1-4) unfolding map_of_eq_None_iff by (elim disjE; simp)+
    have once: "map_of before x = None" if "map_of after x = Some y" for y
    proof -
      have "x \<in> fst ` set after" by (rule ccontr) (use that in \<open>simp add: map_of_eq_None_iff [symmetric]\<close>)
      with names(6) show ?thesis unfolding map_of_eq_None_iff by blast
    qed
    from names(5) show "(?c(name \<mapsto> attributes @ root) ++ map_of after) x =
        map_of ((ROOT_GROUP_NAME, []) # before @ (name, attributes @ root) # after) x"
      using none once by (auto simp: map_add_def split: option.splits)
  qed
  finally show ?thesis .
qed

text \<open>C34: What \<open>save_to_file\<close> writes when it visits the root group first is loaded back as the same groups with the same
  attributes in the same order. Wherever else the root group is visited, its attributes are loaded as attributes of
  the group written just before it, behind the group's own; the root group is then empty, and all other
  groups are loaded back as they were.\<close>

theorem configuration_roundtrip:
  assumes "list_all clean_group groups" "distinct (map fst groups)" "ROOT_GROUP_NAME \<notin> fst ` set groups"
    and "list_all clean_attribute root" "root \<noteq> []" "groups = before @ (name, attributes) # after"
  shows "load_from_file file (Some (save_to_file ((ROOT_GROUP_NAME, root) # groups))) =
      Inr (map_of ((ROOT_GROUP_NAME, root) # groups)) \<and>
    load_from_file file (Some (save_to_file (before @ (name, attributes) # (ROOT_GROUP_NAME, root) # after))) =
      Inr (map_of ((ROOT_GROUP_NAME, []) # before @ (name, attributes @ root) # after))"
proof -
  have r: "CHR 0x00 \<notin> set ROOT_GROUP_NAME" "add_group ROOT_GROUP_NAME Map.empty = [ROOT_GROUP_NAME \<mapsto> []]"
    by (simp_all add: ROOT_GROUP_NAME_def add_group_def c_str_def)
  have "load_from_file file (Some (save_to_file ((ROOT_GROUP_NAME, root) # groups))) =
      load_lines (length root) ROOT_GROUP_NAME [ROOT_GROUP_NAME \<mapsto> root] (file_lines (save_to_file groups))"
    using load_attributes [OF assms(4) r(1) assms(5), of 0 "[ROOT_GROUP_NAME \<mapsto> []]" "save_to_file groups"]
    by (simp add: load_from_file_def r save_to_file_def save_group_def appended_def)
  also have "\<dots> = Inr ([ROOT_GROUP_NAME \<mapsto> root] ++ map_of groups)"
    using assms(1-3) by (intro load_groups) (auto simp: image_iff)
  also have "[ROOT_GROUP_NAME \<mapsto> root] ++ map_of groups = map_of ((ROOT_GROUP_NAME, root) # groups)"
    using assms(3) map_add_upd_left [of ROOT_GROUP_NAME "map_of groups" Map.empty root]
    by (simp add: dom_map_of_conv_image_fst)
  finally have "load_from_file file (Some (save_to_file ((ROOT_GROUP_NAME, root) # groups))) =
      Inr (map_of ((ROOT_GROUP_NAME, root) # groups))" .
  moreover have "load_from_file file (Some (save_to_file (before @ (name, attributes) # (ROOT_GROUP_NAME, root) # after))) =
      Inr (map_of ((ROOT_GROUP_NAME, []) # before @ (name, attributes @ root) # after))"
    using assms by (intro root_after_group) auto
  ultimately show ?thesis by blast
qed

theorem configuration_roundtrip_witness:
  "load_from_file ''a.cfg'' (Some (save_to_file [(''root'', [(''x'', ''1'')]), (''A'', [(''z'', ''3'')]), (''B'', [(''y'', ''2'')])])) =
      Inr (map_of [(''root'', [(''x'', ''1'')]), (''A'', [(''z'', ''3'')]), (''B'', [(''y'', ''2'')])]) \<and>
    load_from_file ''a.cfg'' (Some (save_to_file [(''A'', [(''z'', ''3'')]), (''B'', [(''y'', ''2'')]), (''root'', [(''x'', ''1'')])])) =
      Inr (map_of [(''root'', []), (''A'', [(''z'', ''3'')]), (''B'', [(''y'', ''2''), (''x'', ''1'')])])"
proof -
  let ?groups = "[(''A'', [(''z'', ''3'')]), (''B'', [(''y'', ''2'')])]"
  have "list_all clean_group ?groups" "distinct (map fst ?groups)" "ROOT_GROUP_NAME \<notin> fst ` set ?groups"
    "list_all clean_attribute [(''x'', ''1'')]"
    by (simp_all add: clean_group_def clean_attribute_def clean_text_def is_blank_def ROOT_GROUP_NAME_def)
  from configuration_roundtrip [OF this, of "[(''A'', [(''z'', ''3'')])]" "''B''" "[(''y'', ''2'')]" "[]" "''a.cfg''"]
  show ?thesis by (simp add: ROOT_GROUP_NAME_def)
qed

end
