(* ===== verification/Settings_Text.thy ===== *)
theory Settings_Text
  imports Configuration
begin

text \<open>
  What the settings of the engine, the server, the client and the sessions share: the text that their
  \<open>to_string\<close> functions stream, and the reading back of such a text as a group of a configuration file.
\<close>

text \<open>An \<open>int\<close> stored into a \<open>size_t\<close> or an \<open>uint64_t\<close>.\<close>

definition to_size :: "int \<Rightarrow> nat" where
  "to_size i = nat (i mod 2 ^ 64)"

definition bool_text :: "bool \<Rightarrow> string" where
  "bool_text b = (if b then ''true'' else ''false'')"

definition setting :: "string \<Rightarrow> string \<Rightarrow> string \<Rightarrow> string" where
  "setting delimiter name val = name @ ''='' @ val @ delimiter"

definition inject_category :: "string \<Rightarrow> string \<Rightarrow> string" where
  "inject_category delimiter category_name =
     (if delimiter = '','' then ''-'' @ category_name @ ''='' @ delimiter else '''')"

subsection \<open>Reading back\<close>

text \<open>An \<open>int\<close>, and a \<open>size_t\<close> that an \<open>int\<close> can hold.\<close>

definition is_int :: "int \<Rightarrow> bool" where
  "is_int i \<longleftrightarrow> -2147483648 \<le> i \<and> i \<le> 2147483647"

definition small_size :: "nat \<Rightarrow> bool" where
  "small_size n \<longleftrightarrow> n \<le> 2147483647"

text \<open>A value that survives a line of a configuration file.\<close>

definition clean_value :: "string \<Rightarrow> bool" where
  "clean_value s \<longleftrightarrow> clean_text s \<and> (s \<noteq> [] \<longrightarrow> \<not> is_blank (List.last s))"

text \<open>\<open>find\<close> returns one of the values that are there.\<close>

definition picks :: "(string list \<Rightarrow> string) \<Rightarrow> bool" where
  "picks pick \<longleftrightarrow> (\<forall>vs. vs \<noteq> [] \<longrightarrow> pick vs \<in> set vs)"

lemma picks_one: "picks pick \<Longrightarrow> pick [v] = v"
  unfolding picks_def by (metis list.set_cases list.set_intros(1) not_Cons_self2 set_ConsD empty_iff list.set(1))

lemma is_digit_not_blank: "is_digit c \<Longrightarrow> \<not> is_blank c \<and> c \<noteq> CHR ''-'' \<and> c \<noteq> CHR ''+'' \<and> c \<noteq> CHR ''['' \<and> c \<noteq> CHR '']'' \<and>
    c \<noteq> NEWLINE \<and> c \<noteq> CHR 0x00"
  by (auto simp: is_digit_def is_blank_def)

lemma stoi_dec: "stoi (dec n) = (if is_int (int n) then Some (int n) else None)"
proof -
  obtain c cs where d: "dec n = c # cs" by (cases "dec n") auto
  have "is_digit c" using dec_digits [of c n] d by simp
  then have c: "\<not> is_blank c" "c \<noteq> CHR ''-''" "c \<noteq> CHR ''+''" by (simp_all add: is_digit_not_blank)
  have all: "takeWhile is_digit (dec n) = dec n" by (auto simp: takeWhile_eq_all_conv dest: dec_digits)
  have "dropWhile is_blank (dec n) = dec n" using d c by simp
  then show ?thesis using all c d by (simp add: stoi_def Let_def is_int_def dval_dec [of n, unfolded d])
qed

lemma stoi_negative:
  assumes "is_int (- int n)"
  shows "stoi (CHR ''-'' # dec n) = Some (- int n)"
proof -
  have all: "takeWhile is_digit (dec n) = dec n" by (auto simp: takeWhile_eq_all_conv dest: dec_digits)
  show ?thesis using assms by (simp add: stoi_def Let_def is_int_def is_blank_def all del: takeWhile_eq_all_conv)
qed

lemma stoi_sdec: "is_int i \<Longrightarrow> stoi (sdec i) = Some i"
  using stoi_dec [of "nat i"] stoi_negative [of "nat (- i)"] by (auto simp: sdec_def)

lemma stoi_small: "small_size n \<Longrightarrow> stoi (sdec (int n)) = Some (int n)"
  by (rule stoi_sdec) (simp add: small_size_def is_int_def)

lemma sdec_dec: "dec n = sdec (int n)"
  by (simp add: sdec_def)

lemma to_size_int: "small_size n \<Longrightarrow> to_size (int n) = n"
  by (simp add: to_size_def small_size_def nat_mod_distrib)

text \<open>A group that was read back.\<close>

definition holds :: "configuration \<Rightarrow> string \<Rightarrow> (string \<times> string) list \<Rightarrow> bool" where
  "holds c g avs \<longleftrightarrow> c (c_str g) = Some avs \<and> distinct (map fst avs)"

lemma filter_one: "distinct (map fst avs) \<Longrightarrow> (a, v) \<in> set avs \<Longrightarrow> filter (\<lambda>(b, w). b = a) avs = [(a, v)]"
proof (induction avs)
  case (Cons x avs)
  then show ?case by (cases x) (force simp: filter_empty_conv image_iff)
qed simp

lemma holds_exists: "holds c g avs \<Longrightarrow> does_attribute_exist a g c \<longleftrightarrow> map_of avs (c_str a) \<noteq> None"
  by (auto simp: holds_def does_attribute_exist_def does_group_exist_def group_of_def map_of_eq_None_iff)

lemma holds_string:
  assumes "holds c g avs" "picks pick"
  shows "get_string_value pick a d g c = (case map_of avs (c_str a) of None \<Rightarrow> d | Some v \<Rightarrow> v)"
proof (cases "map_of avs (c_str a)")
  case (Some v)
  then have "(c_str a, v) \<in> set avs" by (rule map_of_SomeD)
  then show ?thesis using assms filter_one [of avs "c_str a" v] Some
    by (simp add: get_string_value_def holds_exists [OF assms(1)] group_of_def holds_def picks_one)
qed (simp add: get_string_value_def holds_exists [OF assms(1)])

lemma holds_bool:
  assumes "holds c g avs" "picks pick"
  shows "get_bool_value pick a d g c = (case map_of avs (c_str a) of None \<Rightarrow> d | Some v \<Rightarrow> to_lower v = ''true'')"
  using assms by (simp add: get_bool_value_def holds_exists holds_string split: option.splits)

lemma holds_int:
  assumes "holds c g avs" "picks pick"
  shows "get_int_value pick a d g c =
    (case map_of avs (c_str a) of None \<Rightarrow> d | Some v \<Rightarrow> (case stoi v of None \<Rightarrow> d | Some i \<Rightarrow> i))"
  using assms by (simp add: get_int_value_def holds_exists holds_string split: option.splits)

lemmas holds_get = holds_string holds_bool holds_int

lemma to_lower_bool_text [simp]: "to_lower (bool_text b) = bool_text b" "bool_text b = ''true'' \<longleftrightarrow> b"
  by (simp_all add: bool_text_def to_lower_def lower_char_def)

lemma holds_valid:
  assumes "holds c g avs" "set (map fst avs) \<subseteq> set expected"
  shows "validate_loaded_configs pick expected g c = None"
proof -
  have "filter (\<lambda>a. a \<notin> set expected) (map fst (group_of g c)) = []"
    using assms by (auto simp: holds_def group_of_def filter_empty_conv)
  then show ?thesis by (simp add: validate_loaded_configs_def)
qed

text \<open>The values a settings record prints.\<close>

lemma bool_text_clean: "clean_value (bool_text b)"
  by (simp add: bool_text_def clean_value_def clean_text_def is_blank_def)

lemma clean_dec: "clean_value (dec n)"
proof -
  have "is_digit (List.last (dec n))" by (rule dec_digits [of _ n]) simp
  then show ?thesis
    using dec_digits [of _ n] is_digit_not_blank by (auto simp: clean_value_def clean_text_def)
qed

lemma clean_sdec: "clean_value (sdec i)"
  using clean_dec [of "nat i"] clean_dec [of "nat (- i)"]
  by (auto simp: sdec_def clean_value_def clean_text_def)

lemmas printed_clean = bool_text_clean clean_dec clean_sdec

definition clean_name :: "string \<Rightarrow> bool" where
  "clean_name a \<longleftrightarrow> clean_text a \<and> 2 \<le> length a \<and> CHR ''='' \<notin> set a \<and> \<not> is_blank (hd a) \<and> hd a \<noteq> CHR ''#''"

lemma clean_printed: "clean_name a \<Longrightarrow> clean_value v \<Longrightarrow> clean_attribute (a, v)"
  by (cases a) (auto simp: clean_attribute_def clean_name_def clean_value_def)

definition settings_file :: "string \<Rightarrow> string \<Rightarrow> string" where
  "settings_file g body = ''['' @ g @ '']'' @ [NEWLINE] @ body"

lemma settings_file_loads:
  assumes "clean_text g" "g \<noteq> []" "g \<noteq> ROOT_GROUP_NAME" "avs \<noteq> []" "list_all clean_attribute avs" "distinct (map fst avs)"
  shows "\<exists>c. load_from_file file (Some (settings_file g (concat (map save_attribute avs)))) = Inr c \<and>
    does_group_exist g c \<and> holds c g avs"
proof -
  have r: "add_group ROOT_GROUP_NAME Map.empty = [ROOT_GROUP_NAME \<mapsto> []]"
    by (simp add: ROOT_GROUP_NAME_def add_group_def c_str_def)
  have g: "clean_group (g, avs)" using assms by (simp add: clean_group_def)
  have "c_str g = g" using assms(1) by (simp add: clean_text_def c_str_clean)
  moreover have "load_from_file file (Some (settings_file g (concat (map save_attribute avs)))) =
      Inr [ROOT_GROUP_NAME \<mapsto> [], g \<mapsto> avs]"
    using load_group [OF g, of "[ROOT_GROUP_NAME \<mapsto> []]" 0 ROOT_GROUP_NAME "[]"] assms(3)
    by (simp add: load_from_file_def r settings_file_def save_group_def)
  ultimately show ?thesis using assms(6) by (simp add: holds_def does_group_exist_def)
qed

lemma settings_lines [simp]:
  "inject_category [NEWLINE] n = []" "setting [NEWLINE] a v = save_attribute (a, v)"
  by (simp_all add: inject_category_def setting_def save_attribute_def)

end
