(* ===== verification/Server_Settings.thy ===== *)
theory Server_Settings
  imports Settings_Text
begin

text \<open>
  \<open>fix_server_settings.h\<close>, the fields of the build without OpenSSL: their defaults, loading from a configuration
  file, validation and printing. A failed load or validation is its error message.
\<close>

record fix_server_settings =
  cpu_core_id :: int
  worker_thread_count :: int
  send_try_count :: int
  starts_as_primary_instance :: bool
  refresh_resend_cache_during_promotion :: bool
  nic_address :: string
  nic_name :: string
  nic_ringbuffer_tx_size :: int
  nic_ringbuffer_rx_size :: int
  socket_rx_size :: int
  socket_tx_size :: int
  rx_buffer_capacity :: nat
  server_tx_encode_buffer_capacity :: nat
  disable_nagle :: bool
  quick_ack :: bool
  receive_size :: int
  async_io_timeout_nanoseconds :: int
  spin_count :: int
  busy_poll_microseconds :: int
  max_poll_events :: nat
  accept_port :: int
  accept_timeout_seconds :: int
  pending_connection_queue_size :: int

definition DEFAULT_POLL_TIMEOUT_NANOSECONDS :: int where
  "DEFAULT_POLL_TIMEOUT_NANOSECONDS = 1000000"

definition default_server_settings :: fix_server_settings where
  "default_server_settings =
     \<lparr>cpu_core_id = -1, worker_thread_count = 0, send_try_count = 0, starts_as_primary_instance = True,
      refresh_resend_cache_during_promotion = True, nic_address = '''', nic_name = '''',
      nic_ringbuffer_tx_size = 2048, nic_ringbuffer_rx_size = 4096, socket_rx_size = 212992,
      socket_tx_size = 212992, rx_buffer_capacity = 212992, server_tx_encode_buffer_capacity = 212992,
      disable_nagle = True, quick_ack = False, receive_size = 8192,
      async_io_timeout_nanoseconds = DEFAULT_POLL_TIMEOUT_NANOSECONDS, spin_count = 1,
      busy_poll_microseconds = 0, max_poll_events = 64, accept_port = 0, accept_timeout_seconds = 5,
      pending_connection_queue_size = 32\<rparr>"

definition server_setting_names :: "string list" where
  "server_setting_names =
     [''cpu_core_id'', ''worker_thread_count'', ''send_try_count'', ''starts_as_primary_instance'',
      ''refresh_resend_cache_during_promotion'', ''nic_address'', ''nic_name'', ''nic_ringbuffer_tx_size'',
      ''nic_ringbuffer_rx_size'', ''socket_rx_size'', ''socket_tx_size'', ''rx_buffer_capacity'',
      ''tx_encode_buffer_capacity'', ''disable_nagle'', ''quick_ack'', ''receive_size'',
      ''async_io_timeout_nanoseconds'', ''spin_count'', ''busy_poll_microseconds'', ''max_poll_events'',
      ''accept_port'', ''accept_timeout_seconds'', ''pending_connection_queue_size'', ''use_ssl'',
      ''ssl_version'', ''ssl_cipher_suite'', ''ssl_certificate_pem_file'', ''ssl_private_key_pem_file'',
      ''ssl_private_key_password'', ''ssl_ca_pem_file'', ''ssl_crl_path'', ''ssl_verify_peer'']"

definition load_server_settings ::
    "(string list \<Rightarrow> string) \<Rightarrow> string \<Rightarrow> string option \<Rightarrow> string \<Rightarrow> string + fix_server_settings" where
  "load_server_settings pick config_file_path content g =
     (case load_from_file config_file_path content of
        Inl error \<Rightarrow> Inl error
      | Inr c \<Rightarrow>
          if \<not> does_group_exist g c then Inl (g @ '' does not exist'')
          else (case validate_loaded_configs pick server_setting_names g c of
            Some error \<Rightarrow> Inl error
          | None \<Rightarrow> Inr
             \<lparr>cpu_core_id = get_int_value pick ''cpu_core_id'' (-1) g c,
              worker_thread_count = get_int_value pick ''worker_thread_count'' 0 g c,
              send_try_count = get_int_value pick ''send_try_count'' 0 g c,
              starts_as_primary_instance = get_bool_value pick ''starts_as_primary_instance'' True g c,
              refresh_resend_cache_during_promotion =
                get_bool_value pick ''refresh_resend_cache_during_promotion'' True g c,
              nic_address = get_string_value pick ''nic_address'' '''' g c,
              nic_name = get_string_value pick ''nic_name'' '''' g c,
              nic_ringbuffer_tx_size = get_int_value pick ''nic_ringbuffer_tx_size'' 2048 g c,
              nic_ringbuffer_rx_size = get_int_value pick ''nic_ringbuffer_rx_size'' 4096 g c,
              socket_rx_size = get_int_value pick ''socket_rx_size'' 212992 g c,
              socket_tx_size = get_int_value pick ''socket_tx_size'' 212992 g c,
              rx_buffer_capacity = to_size (get_int_value pick ''rx_buffer_capacity'' 212992 g c),
              server_tx_encode_buffer_capacity = to_size (get_int_value pick ''tx_encode_buffer_capacity'' 212992 g c),
              disable_nagle = get_bool_value pick ''disable_nagle'' True g c,
              quick_ack = get_bool_value pick ''quick_ack'' False g c,
              receive_size = get_int_value pick ''receive_size'' 8192 g c,
              async_io_timeout_nanoseconds =
                get_int_value pick ''async_io_timeout_nanoseconds'' DEFAULT_POLL_TIMEOUT_NANOSECONDS g c,
              spin_count = get_int_value pick ''spin_count'' 1 g c,
              busy_poll_microseconds = get_int_value pick ''busy_poll_microseconds'' 0 g c,
              max_poll_events = to_size (get_int_value pick ''max_poll_events'' 64 g c),
              accept_port = get_int_value pick ''accept_port'' 0 g c,
              accept_timeout_seconds = get_int_value pick ''accept_timeout_seconds'' 5 g c,
              pending_connection_queue_size = get_int_value pick ''pending_connection_queue_size'' 32 g c\<rparr>))"

definition validate_server_settings :: "fix_server_settings \<Rightarrow> string option" where
  "validate_server_settings st =
     (if send_try_count st < 0 then Some ''send_try_count can't be negative.''
      else if nic_ringbuffer_rx_size st = 0 then Some ''nic_ringbuffer_rx_size should be greater than zero''
      else if nic_ringbuffer_tx_size st = 0 then Some ''nic_ringbuffer_tx_size should be greater than zero''
      else if socket_rx_size st = 0 then Some ''socket_rx_size should be greater than zero''
      else if socket_tx_size st = 0 then Some ''socket_tx_size should be greater than zero''
      else if rx_buffer_capacity st = 0 then Some ''rx_buffer_capacity should be greater than zero''
      else if server_tx_encode_buffer_capacity st = 0 then Some ''tx_encode_buffer_capacity should be greater than zero''
      else if receive_size st \<le> 0 then Some ''receive_size should be positive''
      else if int (rx_buffer_capacity st) < receive_size st then Some ''receive_size can't be greater than rx_buffer_capacity''
      else if spin_count st \<le> 0 then Some ''spin_count should be greater than zero''
      else if max_poll_events st = 0 then Some ''max_poll_events should be greater than zero''
      else if worker_thread_count st < 0 then Some ''worker_thread_count can't be negative''
      else if accept_port st \<le> 0 then Some ''accept_port should be greater than zero''
      else if accept_timeout_seconds st \<le> 0 then Some ''accept_timeout_seconds should be greater than zero''
      else if pending_connection_queue_size st \<le> 0 then Some ''pending_connection_queue_size should be greater than zero''
      else None)"

definition server_settings_to_string :: "string \<Rightarrow> fix_server_settings \<Rightarrow> string" where
  "server_settings_to_string delimiter st =
     inject_category delimiter ''THREADS'' @
     setting delimiter ''cpu_core_id'' (sdec (cpu_core_id st)) @
     setting delimiter ''worker_thread_count'' (sdec (worker_thread_count st)) @
     inject_category delimiter ''HIGH AVAILABILITY'' @
     setting delimiter ''starts_as_primary_instance'' (bool_text (starts_as_primary_instance st)) @
     setting delimiter ''refresh_resend_cache_during_promotion'' (bool_text (refresh_resend_cache_during_promotion st)) @
     inject_category delimiter ''ACCEPTANCE'' @
     setting delimiter ''accept_port'' (sdec (accept_port st)) @
     setting delimiter ''accept_timeout_seconds'' (sdec (accept_timeout_seconds st)) @
     setting delimiter ''pending_connection_queue_size'' (sdec (pending_connection_queue_size st)) @
     inject_category delimiter ''NIC'' @
     setting delimiter ''nic_address'' (nic_address st) @
     setting delimiter ''nic_name'' (nic_name st) @
     setting delimiter ''nic_ringbuffer_tx_size'' (sdec (nic_ringbuffer_tx_size st)) @
     setting delimiter ''nic_ringbuffer_rx_size'' (sdec (nic_ringbuffer_rx_size st)) @
     inject_category delimiter ''SENDS'' @
     setting delimiter ''send_try_count'' (sdec (send_try_count st)) @
     inject_category delimiter ''SOCKETS'' @
     setting delimiter ''socket_rx_size'' (sdec (socket_rx_size st)) @
     setting delimiter ''socket_tx_size'' (sdec (socket_tx_size st)) @
     inject_category delimiter ''USERSPACE BUFFERS'' @
     setting delimiter ''rx_buffer_capacity'' (dec (rx_buffer_capacity st)) @
     setting delimiter ''tx_encode_buffer_capacity'' (dec (server_tx_encode_buffer_capacity st)) @
     inject_category delimiter ''TCP STACK'' @
     setting delimiter ''disable_nagle'' (bool_text (disable_nagle st)) @
     setting delimiter ''quick_ack'' (bool_text (quick_ack st)) @
     inject_category delimiter ''POLLING'' @
     setting delimiter ''receive_size'' (sdec (receive_size st)) @
     setting delimiter ''async_io_timeout_nanoseconds'' (sdec (async_io_timeout_nanoseconds st)) @
     setting delimiter ''spin_count'' (sdec (spin_count st)) @
     setting delimiter ''busy_poll_microseconds'' (sdec (busy_poll_microseconds st)) @
     setting delimiter ''max_poll_events'' (dec (max_poll_events st))"

subsection \<open>Properties\<close>

text \<open>Settings a configuration file can express.\<close>

definition expressible_server_settings :: "fix_server_settings \<Rightarrow> bool" where
  "expressible_server_settings st \<longleftrightarrow>
     list_all is_int [cpu_core_id st, worker_thread_count st, send_try_count st, nic_ringbuffer_tx_size st,
       nic_ringbuffer_rx_size st, socket_rx_size st, socket_tx_size st, receive_size st, async_io_timeout_nanoseconds st,
       spin_count st, busy_poll_microseconds st, accept_port st, accept_timeout_seconds st,
       pending_connection_queue_size st] \<and>
     list_all small_size [rx_buffer_capacity st, server_tx_encode_buffer_capacity st, max_poll_events st] \<and>
     list_all clean_value [nic_address st, nic_name st]"

definition server_attributes :: "fix_server_settings \<Rightarrow> (string \<times> string) list" where
  "server_attributes st =
     [(''cpu_core_id'', sdec (cpu_core_id st)),
      (''worker_thread_count'', sdec (worker_thread_count st)),
      (''starts_as_primary_instance'', bool_text (starts_as_primary_instance st)),
      (''refresh_resend_cache_during_promotion'', bool_text (refresh_resend_cache_during_promotion st)),
      (''accept_port'', sdec (accept_port st)),
      (''accept_timeout_seconds'', sdec (accept_timeout_seconds st)),
      (''pending_connection_queue_size'', sdec (pending_connection_queue_size st)),
      (''nic_address'', nic_address st),
      (''nic_name'', nic_name st),
      (''nic_ringbuffer_tx_size'', sdec (nic_ringbuffer_tx_size st)),
      (''nic_ringbuffer_rx_size'', sdec (nic_ringbuffer_rx_size st)),
      (''send_try_count'', sdec (send_try_count st)),
      (''socket_rx_size'', sdec (socket_rx_size st)),
      (''socket_tx_size'', sdec (socket_tx_size st)),
      (''rx_buffer_capacity'', sdec (int (rx_buffer_capacity st))),
      (''tx_encode_buffer_capacity'', sdec (int (server_tx_encode_buffer_capacity st))),
      (''disable_nagle'', bool_text (disable_nagle st)),
      (''quick_ack'', bool_text (quick_ack st)),
      (''receive_size'', sdec (receive_size st)),
      (''async_io_timeout_nanoseconds'', sdec (async_io_timeout_nanoseconds st)),
      (''spin_count'', sdec (spin_count st)),
      (''busy_poll_microseconds'', sdec (busy_poll_microseconds st)),
      (''max_poll_events'', sdec (int (max_poll_events st)))]"

lemma server_names:
  "distinct (map fst (server_attributes st))" "list_all clean_name (map fst (server_attributes st))"
  "set (map fst (server_attributes st)) \<subseteq> set server_setting_names"
  by (simp_all add: server_attributes_def server_setting_names_def clean_name_def clean_text_def is_blank_def)

lemma server_attributes_printed:
  "concat (map save_attribute (server_attributes st)) = server_settings_to_string [NEWLINE] st"
  by (simp add: server_attributes_def server_settings_to_string_def sdec_dec)

lemma server_attributes_clean:
  assumes "expressible_server_settings st"
  shows "list_all clean_attribute (server_attributes st)"
proof -
  have "list_all (clean_value \<circ> snd) (server_attributes st)"
    using assms by (simp add: server_attributes_def expressible_server_settings_def printed_clean)
  with server_names(2) [of st] show ?thesis
    by (force simp: list_all_iff intro: clean_printed)
qed

text \<open>Settings of a server printed by \<open>to_string\<close> under the name of a group are loaded back unchanged, whatever
  attribute a hash table returns first.\<close>

theorem server_settings_roundtrip:
  assumes "picks pick" "clean_text g" "g \<noteq> []" "g \<noteq> ROOT_GROUP_NAME" "expressible_server_settings st"
  shows "load_server_settings pick file (Some (settings_file g (server_settings_to_string [NEWLINE] st))) g = Inr st"
proof -
  have ne: "server_attributes st \<noteq> []" by (simp add: server_attributes_def)
  obtain c where c: "load_from_file file (Some (settings_file g (server_settings_to_string [NEWLINE] st))) = Inr c"
    "does_group_exist g c" "holds c g (server_attributes st)"
    using settings_file_loads [OF assms(2-4) ne server_attributes_clean [OF assms(5)] server_names(1)]
    unfolding server_attributes_printed by blast
  note valid = holds_valid [OF c(3) server_names(3), of pick]
  note get = holds_get [OF c(3) assms(1)]
  show ?thesis
    using assms(5) unfolding load_server_settings_def c(1) sum.case
    by (simp add: c(2) valid get server_attributes_def c_str_def stoi_sdec stoi_small expressible_server_settings_def to_size_int)
qed

theorem server_settings_roundtrip_witness:
  "load_server_settings hd ''a.cfg'' (Some (settings_file ''SRV'' (server_settings_to_string [NEWLINE]
      (default_server_settings\<lparr>accept_port := 5001\<rparr>)))) ''SRV'' = Inr (default_server_settings\<lparr>accept_port := 5001\<rparr>)"
proof -
  have "expressible_server_settings (default_server_settings\<lparr>accept_port := 5001\<rparr>)"
    by (simp add: expressible_server_settings_def default_server_settings_def DEFAULT_POLL_TIMEOUT_NANOSECONDS_def
        is_int_def small_size_def clean_value_def clean_text_def)
  moreover have "picks hd" "clean_text ''SRV''" "''SRV'' \<noteq> []" "''SRV'' \<noteq> ROOT_GROUP_NAME"
    by (simp_all add: picks_def clean_text_def ROOT_GROUP_NAME_def)
  ultimately show ?thesis by (intro server_settings_roundtrip)
qed

text \<open>A negative size in the file becomes a huge buffer capacity that \<open>validate\<close> accepts.\<close>

theorem negative_capacity_is_accepted:
  "\<exists>st. load_server_settings hd ''a.cfg''
      (Some (settings_file ''SRV'' (concat (map save_attribute [(''rx_buffer_capacity'', ''-1''), (''accept_port'', ''5001'')])))) ''SRV'' =
      Inr st \<and> rx_buffer_capacity st = 2 ^ 64 - 1 \<and> validate_server_settings st = None"
proof -
  let ?avs = "[(''rx_buffer_capacity'', ''-1''), (''accept_port'', ''5001'')]"
  have p: "picks hd" by (simp add: picks_def)
  have a: "list_all clean_attribute ?avs" "distinct (map fst ?avs)" "clean_text ''SRV''" "''SRV'' \<noteq> ROOT_GROUP_NAME"
    by (simp_all add: clean_attribute_def clean_text_def is_blank_def ROOT_GROUP_NAME_def)
  obtain c where c: "load_from_file ''a.cfg'' (Some (settings_file ''SRV'' (concat (map save_attribute ?avs)))) = Inr c"
    "does_group_exist ''SRV'' c" "holds c ''SRV'' ?avs"
    using settings_file_loads [OF a(3) _ a(4) _ a(1,2), of "''a.cfg''"] by blast
  have v: "validate_loaded_configs hd server_setting_names ''SRV'' c = None"
    by (rule holds_valid [OF c(3)]) (simp add: server_setting_names_def)
  have d: "sdec (-1) = ''-1''" "sdec 5001 = ''5001''"
    by ((simp add: sdec_def dec_big dec_small digit_char_def, code_simp)+)
  have s: "stoi ''-1'' = Some (-1)" "stoi ''5001'' = Some 5001"
    using stoi_sdec [of "-1"] stoi_sdec [of 5001] unfolding d by (simp_all add: is_int_def)
  have m: "to_size (-1) = 2 ^ 64 - 1" "to_size 212992 = 212992" "to_size 64 = 64" by (simp_all add: to_size_def)
  show ?thesis
    unfolding load_server_settings_def c(1) sum.case
    by (simp add: c(2) v holds_get [OF c(3) p] c_str_def s m validate_server_settings_def)
qed

end
