(* ===== verification/Client_Settings.thy ===== *)
theory Client_Settings
  imports Settings_Text Fix_Client
begin

text \<open>
  The loading and printing of the settings of \<open>fix_client_settings.h\<close> and \<open>fix_session_settings.h\<close>, for the build
  without OpenSSL, TCPDirect and dictionaries.
\<close>

subsection \<open>Settings of a client\<close>

definition client_setting_names :: "string list" where
  "client_setting_names =
     [''cpu_core_id'', ''send_try_count'', ''connect_timeout_seconds'', ''starts_as_primary_instance'',
      ''refresh_resend_cache_during_promotion'', ''nic_address'', ''nic_name'', ''nic_ringbuffer_tx_size'',
      ''nic_ringbuffer_rx_size'', ''socket_rx_size'', ''socket_tx_size'', ''rx_buffer_capacity'',
      ''tx_encode_buffer_capacity'', ''disable_nagle'', ''quick_ack'', ''receive_size'',
      ''async_io_timeout_nanoseconds'', ''spin_count'', ''busy_poll_microseconds'', ''primary_address'',
      ''primary_port'', ''secondary_address'', ''secondary_port'', ''use_ssl'', ''ssl_version'',
      ''ssl_cipher_suite'', ''ssl_certificate_pem_file'', ''ssl_private_key_pem_file'',
      ''ssl_private_key_password'', ''ssl_ca_pem_file'', ''ssl_verify_peer'']"

definition load_client_settings ::
    "(string list \<Rightarrow> string) \<Rightarrow> string \<Rightarrow> string option \<Rightarrow> string \<Rightarrow> string + fix_client_settings" where
  "load_client_settings pick config_file_path content g =
     (case load_from_file config_file_path content of
        Inl error \<Rightarrow> Inl error
      | Inr c \<Rightarrow>
          if \<not> does_group_exist g c then Inl (g @ '' does not exist'')
          else (case validate_loaded_configs pick client_setting_names g c of
            Some error \<Rightarrow> Inl error
          | None \<Rightarrow> Inr
             \<lparr>cpu_core_id = get_int_value pick ''cpu_core_id'' (-1) g c,
              send_try_count = get_int_value pick ''send_try_count'' 0 g c,
              starts_as_primary_instance = get_bool_value pick ''starts_as_primary_instance'' True g c,
              refresh_resend_cache_during_promotion =
                get_bool_value pick ''refresh_resend_cache_during_promotion'' True g c,
              nic_address = get_string_value pick ''nic_address'' '''' g c,
              nic_name = get_string_value pick ''nic_name'' '''' g c,
              nic_ringbuffer_tx_size = get_int_value pick ''nic_ringbuffer_tx_size'' 2048 g c,
              nic_ringbuffer_rx_size = get_int_value pick ''nic_ringbuffer_rx_size'' 4096 g c,
              socket_rx_size = get_int_value pick ''socket_rx_size'' 212992 g c,
              socket_tx_size = get_int_value pick ''socket_tx_size'' 212992 g c,
              rx_buffer_capacity = to_size (get_int_value pick ''rx_buffer_capacity'' 212992 g c),
              client_tx_encode_buffer_capacity = to_size (get_int_value pick ''tx_encode_buffer_capacity'' 212992 g c),
              disable_nagle = get_bool_value pick ''disable_nagle'' True g c,
              quick_ack = get_bool_value pick ''quick_ack'' False g c,
              receive_size = get_int_value pick ''receive_size'' 4096 g c,
              async_io_timeout_nanoseconds = get_int_value pick ''async_io_timeout_nanoseconds'' 1000 g c,
              spin_count = get_int_value pick ''spin_count'' 1 g c,
              busy_poll_microseconds = get_int_value pick ''busy_poll_microseconds'' 0 g c,
              primary_address = get_string_value pick ''primary_address'' '''' g c,
              primary_port = get_int_value pick ''primary_port'' 0 g c,
              secondary_address = get_string_value pick ''secondary_address'' '''' g c,
              secondary_port = get_int_value pick ''secondary_port'' 0 g c,
              connect_timeout_seconds = get_int_value pick ''connect_timeout_seconds'' 3 g c\<rparr>))"

definition client_settings_to_string :: "string \<Rightarrow> fix_client_settings \<Rightarrow> string" where
  "client_settings_to_string delimiter st =
     inject_category delimiter ''CPU'' @
     setting delimiter ''cpu_core_id'' (sdec (cpu_core_id st)) @
     inject_category delimiter ''HIGH AVAILABILITY'' @
     setting delimiter ''starts_as_primary_instance'' (bool_text (starts_as_primary_instance st)) @
     setting delimiter ''refresh_resend_cache_during_promotion'' (bool_text (refresh_resend_cache_during_promotion st)) @
     inject_category delimiter ''ENDPOINTS'' @
     setting delimiter ''primary_address'' (primary_address st) @
     setting delimiter ''primary_port'' (sdec (primary_port st)) @
     setting delimiter ''secondary_address'' (secondary_address st) @
     setting delimiter ''secondary_port'' (sdec (secondary_port st)) @
     inject_category delimiter ''NIC'' @
     setting delimiter ''nic_address'' (nic_address st) @
     setting delimiter ''nic_name'' (nic_name st) @
     setting delimiter ''nic_ringbuffer_tx_size'' (sdec (nic_ringbuffer_tx_size st)) @
     setting delimiter ''nic_ringbuffer_rx_size'' (sdec (nic_ringbuffer_rx_size st)) @
     inject_category delimiter ''SENDS'' @
     setting delimiter ''send_try_count'' (sdec (send_try_count st)) @
     inject_category delimiter ''SOCKETS'' @
     setting delimiter ''socket_rx_size'' (sdec (socket_rx_size st)) @
     setting delimiter ''socket_tx_size'' (sdec (socket_tx_size st)) @
     inject_category delimiter ''USERSPACE BUFFERS'' @
     setting delimiter ''rx_buffer_capacity'' (dec (rx_buffer_capacity st)) @
     setting delimiter ''tx_encode_buffer_capacity'' (dec (client_tx_encode_buffer_capacity st)) @
     inject_category delimiter ''TCP STACK'' @
     setting delimiter ''disable_nagle'' (bool_text (disable_nagle st)) @
     setting delimiter ''quick_ack'' (bool_text (quick_ack st)) @
     inject_category delimiter ''POLLING'' @
     setting delimiter ''receive_size'' (sdec (receive_size st)) @
     setting delimiter ''async_io_timeout_nanoseconds'' (sdec (async_io_timeout_nanoseconds st)) @
     setting delimiter ''spin_count'' (sdec (spin_count st)) @
     setting delimiter ''busy_poll_microseconds'' (sdec (busy_poll_microseconds st))"

definition expressible_client_settings :: "fix_client_settings \<Rightarrow> bool" where
  "expressible_client_settings st \<longleftrightarrow>
     list_all is_int [cpu_core_id st, send_try_count st, nic_ringbuffer_tx_size st, nic_ringbuffer_rx_size st,
       socket_rx_size st, socket_tx_size st, receive_size st, async_io_timeout_nanoseconds st, spin_count st,
       busy_poll_microseconds st, primary_port st, secondary_port st] \<and>
     list_all small_size [rx_buffer_capacity st, client_tx_encode_buffer_capacity st] \<and>
     list_all clean_value [nic_address st, nic_name st, primary_address st, secondary_address st]"

definition client_attributes :: "fix_client_settings \<Rightarrow> (string \<times> string) list" where
  "client_attributes st =
     [(''cpu_core_id'', sdec (cpu_core_id st)),
      (''starts_as_primary_instance'', bool_text (starts_as_primary_instance st)),
      (''refresh_resend_cache_during_promotion'', bool_text (refresh_resend_cache_during_promotion st)),
      (''primary_address'', primary_address st),
      (''primary_port'', sdec (primary_port st)),
      (''secondary_address'', secondary_address st),
      (''secondary_port'', sdec (secondary_port st)),
      (''nic_address'', nic_address st),
      (''nic_name'', nic_name st),
      (''nic_ringbuffer_tx_size'', sdec (nic_ringbuffer_tx_size st)),
      (''nic_ringbuffer_rx_size'', sdec (nic_ringbuffer_rx_size st)),
      (''send_try_count'', sdec (send_try_count st)),
      (''socket_rx_size'', sdec (socket_rx_size st)),
      (''socket_tx_size'', sdec (socket_tx_size st)),
      (''rx_buffer_capacity'', sdec (int (rx_buffer_capacity st))),
      (''tx_encode_buffer_capacity'', sdec (int (client_tx_encode_buffer_capacity st))),
      (''disable_nagle'', bool_text (disable_nagle st)),
      (''quick_ack'', bool_text (quick_ack st)),
      (''receive_size'', sdec (receive_size st)),
      (''async_io_timeout_nanoseconds'', sdec (async_io_timeout_nanoseconds st)),
      (''spin_count'', sdec (spin_count st)),
      (''busy_poll_microseconds'', sdec (busy_poll_microseconds st))]"

lemma client_names:
  "distinct (map fst (client_attributes st))" "list_all clean_name (map fst (client_attributes st))"
  "set (map fst (client_attributes st)) \<subseteq> set client_setting_names"
  by (simp_all add: client_attributes_def client_setting_names_def clean_name_def clean_text_def is_blank_def)

lemma client_attributes_clean:
  assumes "expressible_client_settings st"
  shows "list_all clean_attribute (client_attributes st)"
proof -
  have "list_all (clean_value \<circ> snd) (client_attributes st)"
    using assms by (simp add: client_attributes_def expressible_client_settings_def printed_clean)
  with client_names(2) [of st] show ?thesis by (force simp: list_all_iff intro: clean_printed)
qed

text \<open>The connect timeout is not printed, so it falls back to its default.\<close>

theorem client_settings_roundtrip:
  assumes "picks pick" "clean_text g" "g \<noteq> []" "g \<noteq> ROOT_GROUP_NAME" "expressible_client_settings st"
  shows "load_client_settings pick file (Some (settings_file g (client_settings_to_string [NEWLINE] st))) g =
    Inr (st\<lparr>connect_timeout_seconds := 3\<rparr>)"
proof -
  have printed: "concat (map save_attribute (client_attributes st)) = client_settings_to_string [NEWLINE] st"
    by (simp add: client_attributes_def client_settings_to_string_def sdec_dec)
  have ne: "client_attributes st \<noteq> []" by (simp add: client_attributes_def)
  obtain c where c: "load_from_file file (Some (settings_file g (client_settings_to_string [NEWLINE] st))) = Inr c"
    "does_group_exist g c" "holds c g (client_attributes st)"
    using settings_file_loads [OF assms(2-4) ne client_attributes_clean [OF assms(5)] client_names(1)]
    unfolding printed by blast
  note valid = holds_valid [OF c(3) client_names(3), of pick]
  note get = holds_get [OF c(3) assms(1)]
  show ?thesis
    using assms(5) unfolding load_client_settings_def c(1) sum.case
    by (simp add: c(2) valid get client_attributes_def c_str_def stoi_sdec stoi_small expressible_client_settings_def to_size_int)
qed

end
