(* ===== verification/Session_Loading.thy ===== *)
theory Session_Loading
  imports Settings_Text
begin

text \<open>
  The loading and printing of the settings of \<open>fix_session_settings.h\<close>, for the build without dictionaries, and
  the path functions of \<open>filesystem_utilities.h\<close> it uses. The working directory of the process is an
  argument, an absolute path.
\<close>

subsection \<open>Paths\<close>

definition normalise_path :: "string \<Rightarrow> string" where
  "normalise_path input = map (\<lambda>c. if c = CHR 0x5C then CHR ''/'' else c) input"

text \<open>\<open>lexically_normal\<close> of an absolute path: the parts between slashes, of which the empty ones and the dots are
  dropped and the double dots take the part before them away; a path that ended in one of these is the
  name of a directory and ends in a slash. \<open>names\<close> is the path so far, its last part first.\<close>

fun normal_parts :: "string list \<Rightarrow> bool \<Rightarrow> string list \<Rightarrow> string list \<times> bool" where
  "normal_parts names directory [] = (rev names, directory)"
| "normal_parts names directory (part # parts) =
     (if part = '''' \<or> part = ''.'' then normal_parts names True parts
      else if part = ''..'' then normal_parts (tl names) True parts
      else normal_parts (part # names) False parts)"

fun parts_of :: "string \<Rightarrow> string list" where
  "parts_of [] = [[]]"
| "parts_of (c # cs) = (if c = CHR ''/'' then [] # parts_of cs else (c # hd (parts_of cs)) # tl (parts_of cs))"

definition joined :: "string list \<Rightarrow> string" where
  "joined names = concat (map (\<lambda>n. CHR ''/'' # n) names)"

definition lexically_normal :: "string \<Rightarrow> string" where
  "lexically_normal p =
     (case normal_parts [] True (parts_of p) of
        (names, directory) \<Rightarrow>
          if names = [] then ''/'' else joined names @ (if directory then ''/'' else ''''))"

definition convert_relative_path_to_absolute_path :: "string \<Rightarrow> string \<Rightarrow> string" where
  "convert_relative_path_to_absolute_path cwd input =
     (if input = '''' then ''''
      else lexically_normal (if hd input = CHR ''/'' then input else cwd @ ''/'' @ input))"

subsection \<open>Loading\<close>

definition set_heartbeat_interval_in_nanoseconds :: "int \<Rightarrow> session_settings \<Rightarrow> session_settings" where
  "set_heartbeat_interval_in_nanoseconds heartbeat_interval_seconds st =
     st\<lparr>heartbeat_interval_in_nanoseconds := word_of_int heartbeat_interval_seconds * 1000000000\<rparr>"

definition session_setting_names :: "string list" where
  "session_setting_names =
     [''heartbeat_interval_seconds'', ''timestamp_subseconds_precision'', ''enable_simd_avx2'', ''begin_string'',
      ''sender_comp_id'', ''target_comp_id'', ''additional_static_header_tags'',
      ''include_last_processed_seqnum_in_header'', ''default_app_ver_id'', ''logon_username'', ''logon_password'',
      ''logon_message_new_password'', ''logon_reset_sequence_numbers'', ''logon_timeout_seconds'',
      ''logout_timeout_seconds'', ''logon_include_next_expected_seq_no'', ''validations_enabled'',
      ''validate_repeating_groups'', ''max_allowed_message_age_seconds'',
      ''replay_messages_on_incoming_resend_request'', ''replay_message_cache_initial_size'', ''max_resend_range'',
      ''include_t97_during_resends'', ''outgoing_resend_request_expire_in_secs'',
      ''outgoing_test_request_interval_multiplier'', ''throttle_window_in_milliseconds'', ''throttle_limit'',
      ''throttle_action'', ''throttler_reject_message'', ''sequence_store_file_path'',
      ''incoming_message_serialisation_path'', ''outgoing_message_serialisation_path'',
      ''max_serialised_file_size'', ''schedule_week_days'', ''start_hour_utc'', ''start_minute_utc'',
      ''end_hour_utc'', ''end_minute_utc'', ''application_dictionary_path'', ''transport_dictionary_path'',
      ''dictionary_validations_enabled'']"

text \<open>The fields that the file does not hold keep their values.\<close>

definition load_session_settings ::
    "(string list \<Rightarrow> string) \<Rightarrow> string \<Rightarrow> string \<Rightarrow> string option \<Rightarrow> string \<Rightarrow> session_settings \<Rightarrow> string + session_settings" where
  "load_session_settings pick cwd config_file_path content g st =
     (case load_from_file config_file_path content of
        Inl error \<Rightarrow> Inl error
      | Inr c \<Rightarrow>
          if \<not> does_group_exist g c then Inl (g @ '' does not exist'')
          else (case validate_loaded_configs pick session_setting_names g c of
            Some error \<Rightarrow> Inl error
          | None \<Rightarrow>
             (let text_of = (\<lambda>a d. get_string_value pick a d g c);
                  int_of = (\<lambda>a d. get_int_value pick a d g c);
                  bool_of = (\<lambda>a d. get_bool_value pick a d g c);
                  path_of = (\<lambda>a d. normalise_path (convert_relative_path_to_absolute_path cwd (text_of a d)));
                  st = set_heartbeat_interval_in_nanoseconds (int_of ''heartbeat_interval_seconds'' 30) st;
                  precision = text_of ''timestamp_subseconds_precision'' ''NANO'';
                  action = text_of ''throttle_action'' ''WAIT''
              in Inr (initialise_derived_settings (st
               \<lparr>str_timestamp_subseconds_precision := precision,
                timestamp_subseconds_precision := string_to_subsecond_precision precision,
                enable_simd_avx2 := bool_of ''enable_simd_avx2'' False,
                begin_string := text_of ''begin_string'' '''',
                sender_comp_id := text_of ''sender_comp_id'' '''',
                target_comp_id := text_of ''target_comp_id'' '''',
                additional_static_header_tags := text_of ''additional_static_header_tags'' '''',
                include_last_processed_seqnum_in_header := bool_of ''include_last_processed_seqnum_in_header'' False,
                default_app_ver_id := text_of ''default_app_ver_id'' '''',
                logon_username := text_of ''logon_username'' '''',
                logon_password := text_of ''logon_password'' '''',
                logon_message_new_password := text_of ''logon_message_new_password'' '''',
                logon_reset_sequence_numbers := bool_of ''logon_reset_sequence_numbers'' False,
                logon_include_next_expected_seq_no := bool_of ''logon_include_next_expected_seq_no'' False,
                logon_timeout_seconds := int_of ''logon_timeout_seconds'' 5,
                logout_timeout_seconds := int_of ''logout_timeout_seconds'' 5,
                validations_enabled := bool_of ''validations_enabled'' True,
                validate_repeating_groups := bool_of ''validate_repeating_groups'' False,
                max_allowed_message_age_seconds := to_size (int_of ''max_allowed_message_age_seconds'' 0),
                replay_messages_on_incoming_resend_request := bool_of ''replay_messages_on_incoming_resend_request'' False,
                replay_message_cache_initial_size := to_size (int_of ''replay_message_cache_initial_size'' 10240),
                max_resend_range := to_size (int_of ''max_resend_range'' 10000),
                include_t97_during_resends := bool_of ''include_t97_during_resends'' False,
                outgoing_resend_request_expire_in_secs := int_of ''outgoing_resend_request_expire_in_secs'' 30,
                outgoing_test_request_interval_multiplier := int_of ''outgoing_test_request_interval_multiplier'' 2,
                throttle_window_in_milliseconds := word_of_int (int_of ''throttle_window_in_milliseconds'' 1000),
                throttle_limit := to_size (int_of ''throttle_limit'' 0),
                str_throttle_action := action,
                throttle_action := string_to_incoming_throttler_action action,
                throttler_reject_message := text_of ''throttler_reject_message'' ''Message rate limit exceeded'',
                sequence_store_file_path := path_of ''sequence_store_file_path'' ''sequence.store'',
                incoming_message_serialisation_path := path_of ''incoming_message_serialisation_path'' ''messages_incoming'',
                outgoing_message_serialisation_path := path_of ''outgoing_message_serialisation_path'' ''messages_outgoing'',
                max_serialised_file_size := to_size (int_of ''max_serialised_file_size'' 67108864),
                schedule_week_days := text_of ''schedule_week_days'' '''',
                start_hour_utc := int_of ''start_hour_utc'' (-1),
                start_minute_utc := int_of ''start_minute_utc'' (-1),
                end_hour_utc := int_of ''end_hour_utc'' (-1),
                end_minute_utc := int_of ''end_minute_utc'' (-1)\<rparr>)))))"

subsection \<open>Printing\<close>

definition session_settings_to_string :: "string \<Rightarrow> session_settings \<Rightarrow> string" where
  "session_settings_to_string delimiter st =
     inject_category delimiter ''HEADERS'' @
     setting delimiter ''begin_string'' (begin_string st) @
     setting delimiter ''sender_comp_id'' (sender_comp_id st) @
     setting delimiter ''target_comp_id'' (target_comp_id st) @
     setting delimiter ''additional_static_header_tags'' (additional_static_header_tags st) @
     setting delimiter ''include_last_processed_seqnum_in_header'' (bool_text (include_last_processed_seqnum_in_header st)) @
     inject_category delimiter ''LOGONS'' @
     setting delimiter ''default_app_ver_id'' (default_app_ver_id st) @
     setting delimiter ''logout_timeout_seconds'' (sdec (logout_timeout_seconds st)) @
     (if \<not> is_server st then
        setting delimiter ''logon_timeout_seconds'' (sdec (logon_timeout_seconds st)) @
        setting delimiter ''logon_username'' (logon_username st) @
        setting delimiter ''logon_password'' (logon_password st) @
        setting delimiter ''logon_message_new_password'' (logon_message_new_password st) @
        setting delimiter ''logon_reset_sequence_numbers'' (bool_text (logon_reset_sequence_numbers st)) @
        setting delimiter ''logon_include_next_expected_seq_no'' (bool_text (logon_include_next_expected_seq_no st))
      else '''') @
     inject_category delimiter ''GENERAL'' @
     (if \<not> is_server st then
        setting delimiter ''heartbeat_interval_seconds'' (dec (unat (heartbeat_interval_in_nanoseconds st) div 1000000000))
      else '''') @
     setting delimiter ''timestamp_subseconds_precision'' (str_timestamp_subseconds_precision st) @
     setting delimiter ''enable_simd_avx2'' (bool_text (enable_simd_avx2 st)) @
     inject_category delimiter ''INCOMING RESEND REQUESTS'' @
     setting delimiter ''replay_messages_on_incoming_resend_request'' (bool_text (replay_messages_on_incoming_resend_request st)) @
     setting delimiter ''replay_message_cache_initial_size'' (dec (replay_message_cache_initial_size st)) @
     setting delimiter ''max_resend_range'' (dec (max_resend_range st)) @
     setting delimiter ''include_t97_during_resends'' (bool_text (include_t97_during_resends st)) @
     inject_category delimiter ''OUTGOING RESEND REQUESTS'' @
     setting delimiter ''outgoing_resend_request_expire_in_secs'' (sdec (outgoing_resend_request_expire_in_secs st)) @
     inject_category delimiter ''OUTGOING TEST REQUESTS'' @
     setting delimiter ''outgoing_test_request_interval_multiplier'' (sdec (outgoing_test_request_interval_multiplier st)) @
     (if \<not> is_server st then
        setting delimiter ''outgoing_test_request_interval_in_nanoseconds''
          (dec (unat (outgoing_test_request_interval_in_nanoseconds st)))
      else '''') @
     inject_category delimiter ''THROTTLER'' @
     setting delimiter ''throttle_window_in_milliseconds'' (dec (unat (throttle_window_in_milliseconds st))) @
     setting delimiter ''throttle_limit'' (dec (throttle_limit st)) @
     (if is_server st then
        setting delimiter ''throttle_action'' (str_throttle_action st) @
        setting delimiter ''throttler_reject_message'' (throttler_reject_message st)
      else '''') @
     inject_category delimiter ''VALIDATIONS'' @
     setting delimiter ''validations_enabled'' (bool_text (validations_enabled st)) @
     setting delimiter ''validate_repeating_groups'' (bool_text (validate_repeating_groups st)) @
     setting delimiter ''max_allowed_message_age_seconds'' (dec (max_allowed_message_age_seconds st)) @
     inject_category delimiter ''SERIALISATION'' @
     setting delimiter ''sequence_store_file_path'' (sequence_store_file_path st) @
     setting delimiter ''incoming_message_serialisation_path'' (incoming_message_serialisation_path st) @
     setting delimiter ''outgoing_message_serialisation_path'' (outgoing_message_serialisation_path st) @
     setting delimiter ''max_serialised_file_size'' (dec (max_serialised_file_size st)) @
     inject_category delimiter ''SCHEDULE'' @
     setting delimiter ''schedule_week_days'' (schedule_week_days st) @
     setting delimiter ''start_hour_utc'' (sdec (start_hour_utc st)) @
     setting delimiter ''start_minute_utc'' (sdec (start_minute_utc st)) @
     setting delimiter ''end_hour_utc'' (sdec (end_hour_utc st)) @
     setting delimiter ''end_minute_utc'' (sdec (end_minute_utc st))"
subsection \<open>Paths are normalised once\<close>

definition plain_part :: "string \<Rightarrow> bool" where
  "plain_part n \<longleftrightarrow> n \<noteq> '''' \<and> n \<noteq> ''.'' \<and> n \<noteq> ''..'' \<and> CHR ''/'' \<notin> set n \<and> CHR 0x5C \<notin> set n"

lemma parts_of_part:
  "CHR ''/'' \<notin> set n \<Longrightarrow> parts_of (n @ CHR ''/'' # s) = n # parts_of s"
  "CHR ''/'' \<notin> set n \<Longrightarrow> parts_of n = [n]"
  by (induction n) auto

lemma parts_of_plain:
  "\<forall>n \<in> set (parts_of s). CHR ''/'' \<notin> set n \<and> (CHR 0x5C \<notin> set s \<longrightarrow> CHR 0x5C \<notin> set n)"
proof (induction s)
  case (Cons c s)
  then have "parts_of s \<noteq> []" by (cases s) auto
  then show ?case using Cons by (cases "parts_of s") auto
qed simp

lemma normal_parts_plain:
  assumes "\<forall>n \<in> set parts. CHR ''/'' \<notin> set n \<and> CHR 0x5C \<notin> set n" "\<forall>n \<in> set names. plain_part n"
  shows "\<forall>n \<in> set (fst (normal_parts names directory parts)). plain_part n"
  using assms
proof (induction names directory parts rule: normal_parts.induct)
  case (2 names directory part parts)
  consider (skip) "part = [] \<or> part = ''.''" | (up) "part = ''..''" | (name) "part \<noteq> []" "part \<noteq> ''.''" "part \<noteq> ''..''"
    by blast
  then show ?case
  proof cases
    case skip
    with 2(1) 2(4,5) show ?thesis by simp
  next
    case up
    have "\<forall>n \<in> set (tl names). plain_part n" using 2(5) by (cases names) simp_all
    with up 2(2) 2(4) show ?thesis by simp
  next
    case name
    have "\<forall>n \<in> set (part # names). plain_part n" using name 2(4,5) by (simp add: plain_part_def)
    with name 2(3) 2(4) show ?thesis by simp
  qed
qed simp

lemma joined_simps [simp]:
  "joined [] = []" "joined (n # names) = CHR ''/'' # n @ joined names" "joined names = [] \<longleftrightarrow> names = []"
  "c \<in> set (joined names) \<longleftrightarrow> names \<noteq> [] \<and> c = CHR ''/'' \<or> (\<exists>n \<in> set names. c \<in> set n)"
  by (auto simp: joined_def)

lemma normal_parts_id:
  assumes "\<forall>n \<in> set parts. plain_part n"
  shows "normal_parts names directory (parts @ rest) = normal_parts (rev parts @ names) (directory \<and> parts = []) rest"
  using assms by (induction parts arbitrary: names directory) (auto simp: plain_part_def)

lemma parts_of_joined:
  assumes "\<forall>n \<in> set names. plain_part n"
  shows "parts_of (joined names) = '''' # names"
    "parts_of (joined names @ ''/'') = '''' # names @ ['''']"
proof -
  have one: "parts_of (n @ joined names) = n # names"
    if "CHR ''/'' \<notin> set n" "\<forall>n \<in> set names. plain_part n" for n names
    using that
  proof (induction names arbitrary: n)
    case Nil
    then show ?case by (simp add: parts_of_part)
  next
    case (Cons m names)
    then show ?case by (simp add: parts_of_part plain_part_def)
  qed
  from one [of "''''" names] show "parts_of (joined names) = '''' # names"
    using assms by simp
  have two: "parts_of (n @ joined names @ ''/'') = n # names @ ['''']"
    if "CHR ''/'' \<notin> set n" "\<forall>n \<in> set names. plain_part n" for n names
    using that
  proof (induction names arbitrary: n)
    case Nil
    then show ?case by (simp add: parts_of_part)
  next
    case (Cons m names)
    then show ?case by (simp add: parts_of_part plain_part_def)
  qed
  from two [of "''''" names] show "parts_of (joined names @ ''/'') = '''' # names @ ['''']"
    using assms by simp
qed

lemma lexically_normal_shape:
  assumes "CHR 0x5C \<notin> set p"
  shows "\<exists>names. (\<forall>n \<in> set names. plain_part n) \<and> (lexically_normal p = joined names @ ''/'' \<or>
    (names \<noteq> [] \<and> lexically_normal p = joined names))"
proof -
  obtain names directory where n: "normal_parts [] True (parts_of p) = (names, directory)" by force
  have "\<forall>n \<in> set names. plain_part n"
    using normal_parts_plain [of "parts_of p" "[]" True] parts_of_plain [of p] assms n by simp
  then show ?thesis
    by (intro exI [of _ names]) (simp add: lexically_normal_def n)
qed

lemma lexically_normal_joined:
  assumes "\<forall>n \<in> set names. plain_part n"
  shows "lexically_normal (joined names @ ''/'') = joined names @ ''/''"
    "names \<noteq> [] \<Longrightarrow> lexically_normal (joined names) = joined names"
  using normal_parts_id [OF assms, of "[]" True "['''']"] normal_parts_id [OF assms, of "[]" True "[]"]
  by (simp_all add: lexically_normal_def parts_of_joined [OF assms])

text \<open>A path in the form that loading gives it.\<close>

definition loaded_path :: "string \<Rightarrow> string \<Rightarrow> bool" where
  "loaded_path cwd p \<longleftrightarrow> normalise_path (convert_relative_path_to_absolute_path cwd p) = p"

lemma loading_a_path:
  assumes "CHR 0x5C \<notin> set p" "CHR 0x5C \<notin> set cwd"
  shows "loaded_path cwd (normalise_path (convert_relative_path_to_absolute_path cwd p))"
proof (cases "p = ''''")
  case False
  define q where "q = (if hd p = CHR ''/'' then p else cwd @ ''/'' @ p)"
  have q: "CHR 0x5C \<notin> set q" using assms by (simp add: q_def)
  from lexically_normal_shape [OF this] obtain names where n: "\<forall>n \<in> set names. plain_part n"
    "lexically_normal q = joined names @ ''/'' \<or> (names \<noteq> [] \<and> lexically_normal q = joined names)" by blast
  define r where "r = lexically_normal q"
  have id: "lexically_normal r = r" using n lexically_normal_joined [OF n(1)] by (auto simp: r_def)
  have r: "r = joined names @ ''/'' \<or> (names \<noteq> [] \<and> r = joined names)" using n(2) by (simp add: r_def)
  have j: "hd (joined names @ t) = CHR ''/''" if "names \<noteq> [] \<or> t = ''/''" for t
    using that by (cases names) simp_all
  from r have h: "r \<noteq> [] \<and> hd r = CHR ''/''"
  proof (elim disjE conjE)
    assume "r = joined names @ ''/''"
    with j [of "''/''"] show ?thesis by simp
  next
    assume "names \<noteq> []" "r = joined names"
    with j [of "[]"] show ?thesis by simp
  qed
  have "CHR 0x5C \<notin> set (joined names)" using n(1) by (auto simp: plain_part_def)
  with r have "CHR 0x5C \<notin> set r" by (elim disjE conjE) simp_all
  then have "normalise_path r = r" unfolding normalise_path_def by (intro map_idI) auto
  moreover have "convert_relative_path_to_absolute_path cwd p = r"
    using False by (simp add: convert_relative_path_to_absolute_path_def q_def r_def)
  moreover have "convert_relative_path_to_absolute_path cwd r = r"
    using h id by (simp add: convert_relative_path_to_absolute_path_def)
  ultimately show ?thesis by (simp add: loaded_path_def)
qed (simp add: loaded_path_def convert_relative_path_to_absolute_path_def normalise_path_def)
subsection \<open>Reading printed settings back\<close>

definition session_attributes :: "session_settings \<Rightarrow> (string \<times> string) list" where
  "session_attributes st =
     [(''begin_string'', begin_string st),
      (''sender_comp_id'', sender_comp_id st),
      (''target_comp_id'', target_comp_id st),
      (''additional_static_header_tags'', additional_static_header_tags st),
      (''include_last_processed_seqnum_in_header'', bool_text (include_last_processed_seqnum_in_header st)),
      (''default_app_ver_id'', default_app_ver_id st),
      (''logout_timeout_seconds'', sdec (logout_timeout_seconds st))] @
     (if \<not> is_server st then [(''logon_timeout_seconds'', sdec (logon_timeout_seconds st)),
      (''logon_username'', logon_username st),
      (''logon_password'', logon_password st),
      (''logon_message_new_password'', logon_message_new_password st),
      (''logon_reset_sequence_numbers'', bool_text (logon_reset_sequence_numbers st)),
      (''logon_include_next_expected_seq_no'', bool_text (logon_include_next_expected_seq_no st))] else []) @
     (if \<not> is_server st then [(''heartbeat_interval_seconds'', sdec (int (unat (heartbeat_interval_in_nanoseconds st) div 1000000000)))] else []) @
     [(''timestamp_subseconds_precision'', str_timestamp_subseconds_precision st),
      (''enable_simd_avx2'', bool_text (enable_simd_avx2 st)),
      (''replay_messages_on_incoming_resend_request'', bool_text (replay_messages_on_incoming_resend_request st)),
      (''replay_message_cache_initial_size'', sdec (int (replay_message_cache_initial_size st))),
      (''max_resend_range'', sdec (int (max_resend_range st))),
      (''include_t97_during_resends'', bool_text (include_t97_during_resends st)),
      (''outgoing_resend_request_expire_in_secs'', sdec (outgoing_resend_request_expire_in_secs st)),
      (''outgoing_test_request_interval_multiplier'', sdec (outgoing_test_request_interval_multiplier st))] @
     (if \<not> is_server st then [(''outgoing_test_request_interval_in_nanoseconds'', sdec (int (unat (outgoing_test_request_interval_in_nanoseconds st))))] else []) @
     [(''throttle_window_in_milliseconds'', sdec (int (unat (throttle_window_in_milliseconds st)))),
      (''throttle_limit'', sdec (int (throttle_limit st)))] @
     (if is_server st then [(''throttle_action'', str_throttle_action st),
      (''throttler_reject_message'', throttler_reject_message st)] else []) @
     [(''validations_enabled'', bool_text (validations_enabled st)),
      (''validate_repeating_groups'', bool_text (validate_repeating_groups st)),
      (''max_allowed_message_age_seconds'', sdec (int (max_allowed_message_age_seconds st))),
      (''sequence_store_file_path'', sequence_store_file_path st),
      (''incoming_message_serialisation_path'', incoming_message_serialisation_path st),
      (''outgoing_message_serialisation_path'', outgoing_message_serialisation_path st),
      (''max_serialised_file_size'', sdec (int (max_serialised_file_size st))),
      (''schedule_week_days'', schedule_week_days st),
      (''start_hour_utc'', sdec (start_hour_utc st)),
      (''start_minute_utc'', sdec (start_minute_utc st)),
      (''end_hour_utc'', sdec (end_hour_utc st)),
      (''end_minute_utc'', sdec (end_minute_utc st))]"

text \<open>Settings that a configuration file can express and that are derived from its text.\<close>

definition expressible_session_settings :: "string \<Rightarrow> session_settings \<Rightarrow> bool" where
  "expressible_session_settings cwd st \<longleftrightarrow>
     list_all is_int [logon_timeout_seconds st, logout_timeout_seconds st, outgoing_resend_request_expire_in_secs st,
       outgoing_test_request_interval_multiplier st, start_hour_utc st, start_minute_utc st, end_hour_utc st,
       end_minute_utc st] \<and>
     list_all small_size [replay_message_cache_initial_size st, max_resend_range st, throttle_limit st,
       unat (throttle_window_in_milliseconds st), max_allowed_message_age_seconds st, max_serialised_file_size st] \<and>
     list_all clean_value [begin_string st, sender_comp_id st, target_comp_id st, additional_static_header_tags st,
       default_app_ver_id st, logon_username st, logon_password st, logon_message_new_password st,
       str_timestamp_subseconds_precision st, str_throttle_action st, throttler_reject_message st,
       sequence_store_file_path st, incoming_message_serialisation_path st, outgoing_message_serialisation_path st,
       schedule_week_days st] \<and>
     list_all (loaded_path cwd) [sequence_store_file_path st, incoming_message_serialisation_path st,
       outgoing_message_serialisation_path st] \<and>
     timestamp_subseconds_precision st = string_to_subsecond_precision (str_timestamp_subseconds_precision st) \<and>
     throttle_action st = string_to_incoming_throttler_action (str_throttle_action st)"

lemma session_names:
  "distinct (map fst (session_attributes st))" "list_all clean_name (map fst (session_attributes st))"
  "is_server st \<Longrightarrow> set (map fst (session_attributes st)) \<subseteq> set session_setting_names"
  "\<not> is_server st \<Longrightarrow> filter (\<lambda>a. a \<notin> set session_setting_names) (map fst (session_attributes st)) =
    [''outgoing_test_request_interval_in_nanoseconds'']"
proof -
  show "distinct (map fst (session_attributes st))"
    by (cases "is_server st") (simp_all add: session_attributes_def)
  show "list_all clean_name (map fst (session_attributes st))"
    by (cases "is_server st") (simp_all add: session_attributes_def clean_name_def clean_text_def is_blank_def)
qed (simp_all add: session_attributes_def session_setting_names_def)

lemma session_attributes_clean:
  assumes "expressible_session_settings cwd st"
  shows "list_all clean_attribute (session_attributes st)"
proof -
  have "list_all (clean_value \<circ> snd) (session_attributes st)"
    using assms by (simp add: session_attributes_def expressible_session_settings_def printed_clean)
  with session_names(2) [of st] show ?thesis by (force simp: list_all_iff intro: clean_printed)
qed

text \<open>C33: The printed settings of a session of a server are loaded back unchanged, apart from the fields that only a
  client uses, which fall back to their defaults and the fields derived from them; the printed settings of a session of
  a client are refused, because \<open>to_string\<close> prints the derived test request interval, which the loader does
  not know.\<close>

theorem session_settings_roundtrip:
  assumes "picks pick" "clean_text g" "g \<noteq> []" "g \<noteq> ROOT_GROUP_NAME" "expressible_session_settings cwd st"
  shows "load_session_settings pick cwd file (Some (settings_file g (session_settings_to_string [NEWLINE] st))) g st =
    (if is_server st then
       Inr (initialise_derived_settings (st\<lparr>heartbeat_interval_in_nanoseconds := 30000000000, logon_username := [],
         logon_password := [], logon_message_new_password := [], logon_reset_sequence_numbers := False,
         logon_include_next_expected_seq_no := False, logon_timeout_seconds := 5\<rparr>))
     else Inl ''Found unrecognised config -> outgoing_test_request_interval_in_nanoseconds'')"
proof -
  have printed: "concat (map save_attribute (session_attributes st)) = session_settings_to_string [NEWLINE] st"
    by (simp add: session_attributes_def session_settings_to_string_def sdec_dec)
  have ne: "session_attributes st \<noteq> []" by (simp add: session_attributes_def)
  obtain c where c: "load_from_file file (Some (settings_file g (session_settings_to_string [NEWLINE] st))) = Inr c"
    "does_group_exist g c" "holds c g (session_attributes st)"
    using settings_file_loads [OF assms(2-4) ne session_attributes_clean [OF assms(5)] session_names(1)]
    unfolding printed by blast
  show ?thesis
  proof (cases "is_server st")
    case True
    note valid = holds_valid [OF c(3) session_names(3) [OF True], of pick]
    note get = holds_get [OF c(3) assms(1)]
    note ex = assms(5) [unfolded expressible_session_settings_def]
    have derived: "string_to_subsecond_precision (str_timestamp_subseconds_precision st) = timestamp_subseconds_precision st"
      "string_to_incoming_throttler_action (str_throttle_action st) = throttle_action st"
      "stoi (sdec (uint (throttle_window_in_milliseconds st))) = Some (uint (throttle_window_in_milliseconds st))"
      using ex stoi_small [of "unat (throttle_window_in_milliseconds st)"] by simp_all
    have known: "list_all is_int [logout_timeout_seconds st, outgoing_resend_request_expire_in_secs st,
        outgoing_test_request_interval_multiplier st, start_hour_utc st, start_minute_utc st, end_hour_utc st, end_minute_utc st]"
      "list_all small_size [replay_message_cache_initial_size st, max_resend_range st, throttle_limit st,
        max_allowed_message_age_seconds st, max_serialised_file_size st]"
      "list_all (loaded_path cwd) [sequence_store_file_path st, incoming_message_serialisation_path st,
        outgoing_message_serialisation_path st]"
      using ex by simp_all
    from True known show ?thesis
      unfolding load_session_settings_def c(1) sum.case
      by (simp add: c(2) valid get session_attributes_def c_str_def stoi_sdec stoi_small derived
          to_size_int loaded_path_def Let_def set_heartbeat_interval_in_nanoseconds_def)
  next
    case False
    have "group_of g c = session_attributes st" using c(3) by (simp add: holds_def group_of_def)
    then have "validate_loaded_configs pick session_setting_names g c =
        Some ''Found unrecognised config -> outgoing_test_request_interval_in_nanoseconds''"
      using session_names(4) [OF False] assms(1) by (simp add: validate_loaded_configs_def picks_one)
    with False show ?thesis by (simp add: load_session_settings_def c)
  qed
qed

theorem session_settings_roundtrip_witness:
  "load_session_settings hd ''/fix'' ''a.cfg''
      (Some (settings_file ''S1'' (session_settings_to_string [NEWLINE] (default_session_settings
        \<lparr>begin_string := ''FIX.4.4'', sequence_store_file_path := ''/s'', incoming_message_serialisation_path := ''/i'',
         outgoing_message_serialisation_path := ''/o''\<rparr>)))) ''S1'' (default_session_settings
        \<lparr>begin_string := ''FIX.4.4'', sequence_store_file_path := ''/s'', incoming_message_serialisation_path := ''/i'',
         outgoing_message_serialisation_path := ''/o''\<rparr>) =
     Inr (initialise_derived_settings (default_session_settings
        \<lparr>begin_string := ''FIX.4.4'', sequence_store_file_path := ''/s'', incoming_message_serialisation_path := ''/i'',
         outgoing_message_serialisation_path := ''/o''\<rparr>))"
proof -
  define st where "st = default_session_settings
    \<lparr>begin_string := ''FIX.4.4'', sequence_store_file_path := ''/s'', incoming_message_serialisation_path := ''/i'',
     outgoing_message_serialisation_path := ''/o''\<rparr>"
  have "expressible_session_settings ''/fix'' st"
    by (simp add: st_def expressible_session_settings_def default_session_settings_def is_int_def small_size_def
        clean_value_def clean_text_def is_blank_def loaded_path_def convert_relative_path_to_absolute_path_def
        lexically_normal_def normalise_path_def joined_def string_to_subsecond_precision_def
        string_to_incoming_throttler_action_def)
  moreover have "picks hd" "clean_text ''S1''" "''S1'' \<noteq> ROOT_GROUP_NAME"
    by (simp_all add: picks_def clean_text_def ROOT_GROUP_NAME_def)
  ultimately have "load_session_settings hd ''/fix'' ''a.cfg''
      (Some (settings_file ''S1'' (session_settings_to_string [NEWLINE] st))) ''S1'' st =
    (if is_server st then
       Inr (initialise_derived_settings (st\<lparr>heartbeat_interval_in_nanoseconds := 30000000000, logon_username := [],
         logon_password := [], logon_message_new_password := [], logon_reset_sequence_numbers := False,
         logon_include_next_expected_seq_no := False, logon_timeout_seconds := 5\<rparr>))
     else Inl ''Found unrecognised config -> outgoing_test_request_interval_in_nanoseconds'')"
    by (intro session_settings_roundtrip) simp_all
  moreover have "is_server st" by (simp add: st_def default_session_settings_def)
  moreover have "st\<lparr>heartbeat_interval_in_nanoseconds := 30000000000, logon_username := [],
      logon_password := [], logon_message_new_password := [], logon_reset_sequence_numbers := False,
      logon_include_next_expected_seq_no := False, logon_timeout_seconds := 5\<rparr> = st"
    by (simp add: st_def default_session_settings_def)
  ultimately show ?thesis by (simp only: st_def if_True)
qed

end
