(* ===== verification/Engine_Settings.thy ===== *)
theory Engine_Settings
  imports Settings_Text
begin

text \<open>
  \<open>engine_settings.h\<close> and \<open>management_server/management_server_settings.h\<close>: the two records, their loading from
  the same group of a configuration file, validation and printing; and the log levels of \<open>logger.h\<close>.
\<close>

record engine_settings =
  numa_bind_node :: int
  numa_aware_allocations :: bool
  lock_pages :: bool
  log_level :: string
  log_file :: string
  logger_async :: bool
  logger_buffer_capacity :: nat
  ignore_sighup :: bool

definition default_engine_settings :: engine_settings where
  "default_engine_settings =
     \<lparr>numa_bind_node = -1, numa_aware_allocations = False, lock_pages = False, log_level = ''INFO'',
      log_file = ''log.txt'', logger_async = False, logger_buffer_capacity = 65536, ignore_sighup = False\<rparr>"

definition engine_setting_names :: "string list" where
  "engine_setting_names =
     [''numa_bind_node'', ''numa_aware_allocations'', ''lock_pages'', ''log_level'', ''log_file'', ''logger_async'',
      ''logger_buffer_capacity'', ''ignore_sighup'', ''management_server_port'', ''management_server_nic_ip'',
      ''management_server_cpu_core_id'']"

definition load_engine_settings ::
    "(string list \<Rightarrow> string) \<Rightarrow> string \<Rightarrow> string option \<Rightarrow> string \<Rightarrow> string + engine_settings" where
  "load_engine_settings pick config_file_path content g =
     (case load_from_file config_file_path content of
        Inl error \<Rightarrow> Inl error
      | Inr c \<Rightarrow>
          if \<not> does_group_exist g c then Inl (g @ '' does not exist'')
          else (case validate_loaded_configs pick engine_setting_names g c of
            Some error \<Rightarrow> Inl error
          | None \<Rightarrow> Inr
             \<lparr>numa_bind_node = get_int_value pick ''numa_bind_node'' (-1) g c,
              numa_aware_allocations = get_bool_value pick ''numa_aware_allocations'' False g c,
              lock_pages = get_bool_value pick ''lock_pages'' False g c,
              log_level = get_string_value pick ''log_level'' ''INFO'' g c,
              log_file = get_string_value pick ''log_file'' ''log.txt'' g c,
              logger_async = get_bool_value pick ''logger_async'' False g c,
              logger_buffer_capacity = to_size (get_int_value pick ''logger_buffer_capacity'' 65536 g c),
              ignore_sighup = get_bool_value pick ''ignore_sighup'' False g c\<rparr>))"

definition validate_engine_settings :: "engine_settings \<Rightarrow> string option" where
  "validate_engine_settings st =
     (if log_level st = '''' then Some ''log_level length should be greater than zero''
      else if log_level st \<noteq> ''INFO'' \<and> log_level st \<noteq> ''DEBUG'' \<and> log_level st \<noteq> ''ERROR'' \<and>
              log_level st \<noteq> ''WARNING'' \<and> log_level st \<noteq> ''FATAL'' then
        Some ''log_level should be one of : INFO,DEBUG,ERROR,WARNING,FATAL''
      else if log_file st = '''' then Some ''log_file length should be greater than zero''
      else if logger_buffer_capacity st < 1024 then Some ''logger_buffer_capacity is too low''
      else None)"

definition engine_settings_to_string :: "string \<Rightarrow> engine_settings \<Rightarrow> string" where
  "engine_settings_to_string delimiter st =
     setting delimiter ''numa_bind_node'' (sdec (numa_bind_node st)) @
     setting delimiter ''numa_aware_allocations'' (bool_text (numa_aware_allocations st)) @
     setting delimiter ''lock_pages'' (bool_text (lock_pages st)) @
     setting delimiter ''log_level'' (log_level st) @
     setting delimiter ''log_file'' (log_file st) @
     setting delimiter ''logger_async'' (bool_text (logger_async st)) @
     setting delimiter ''logger_buffer_capacity'' (dec (logger_buffer_capacity st)) @
     setting delimiter ''ignore_sighup'' (bool_text (ignore_sighup st))"

subsection \<open>Settings of the management server\<close>

record management_server_settings =
  management_server_nic_ip :: string
  management_server_port :: int
  management_server_cpu_core_id :: int

definition default_management_server_settings :: management_server_settings where
  "default_management_server_settings =
     \<lparr>management_server_nic_ip = '''', management_server_port = 0, management_server_cpu_core_id = -1\<rparr>"

text \<open>A failed load only says so: its error is dropped.\<close>

definition load_management_server_settings ::
    "(string list \<Rightarrow> string) \<Rightarrow> string \<Rightarrow> string option \<Rightarrow> string \<Rightarrow> management_server_settings option" where
  "load_management_server_settings pick config_file_path content g =
     (case load_from_file config_file_path content of
        Inl error \<Rightarrow> None
      | Inr c \<Rightarrow>
          if \<not> does_group_exist g c then None
          else Some
            \<lparr>management_server_nic_ip = get_string_value pick ''management_server_nic_ip'' '''' g c,
             management_server_port = get_int_value pick ''management_server_port'' 42 g c,
             management_server_cpu_core_id = get_int_value pick ''management_server_cpu_core_id'' (-1) g c\<rparr>)"

definition specified_by_user :: "string \<Rightarrow> string option \<Rightarrow> string \<Rightarrow> bool" where
  "specified_by_user config_file_path content g =
     (case load_from_file config_file_path content of
        Inl error \<Rightarrow> False
      | Inr c \<Rightarrow> does_attribute_exist ''management_server_port'' g c)"

definition validate_management_server_settings :: "management_server_settings \<Rightarrow> string option" where
  "validate_management_server_settings st =
     (if management_server_nic_ip st = '''' then Some ''management_server_nic_ip length should be greater than zero''
      else if management_server_port st \<le> 0 then Some ''management_server_port length should be greater than zero''
      else None)"

definition management_server_settings_to_string :: "string \<Rightarrow> management_server_settings \<Rightarrow> string" where
  "management_server_settings_to_string delimiter st =
     setting delimiter ''management_server_port'' (sdec (management_server_port st)) @
     setting delimiter ''management_server_nic_ip'' (management_server_nic_ip st) @
     setting delimiter ''management_server_cpu_core_id'' (sdec (management_server_cpu_core_id st))"

subsection \<open>Log levels\<close>

datatype LogLevel = LEVEL_FATAL | LEVEL_ERROR | LEVEL_WARNING | LEVEL_INFO | LEVEL_DEBUG

definition convert_string_to_log_level :: "string \<Rightarrow> LogLevel" where
  "convert_string_to_log_level str =
     (if str = ''ERROR'' then LEVEL_ERROR
      else if str = ''INFO'' then LEVEL_INFO
      else if str = ''WARNING'' then LEVEL_WARNING
      else if str = ''FATAL'' then LEVEL_FATAL
      else LEVEL_DEBUG)"

fun log_level_text :: "LogLevel \<Rightarrow> string" where
  "log_level_text LEVEL_FATAL = ''FATAL''"
| "log_level_text LEVEL_ERROR = ''ERROR''"
| "log_level_text LEVEL_WARNING = ''WARNING''"
| "log_level_text LEVEL_INFO = ''INFO''"
| "log_level_text LEVEL_DEBUG = ''DEBUG''"

lemma log_level_roundtrip: "convert_string_to_log_level (log_level_text l) = l"
  by (cases l) (simp_all add: convert_string_to_log_level_def)

subsection \<open>Start-up\<close>

text \<open>
  What \<open>Engine::on_start\<close> makes of a file: the code and the message the process exits with, or the settings the
  logger and the management server are started with. An empty file name leaves the defaults. The exits for
  what the host refuses (the logger's file, memory binding, privileges, thread local storage) are not modelled.
\<close>

datatype engine_start = Already_started | Exits int string | Starts engine_settings "management_server_settings option"

definition on_start :: "(string list \<Rightarrow> string) \<Rightarrow> bool \<Rightarrow> string \<Rightarrow> string option \<Rightarrow> string \<Rightarrow> engine_start" where
  "on_start pick initialised config_file_path content g =
     (if initialised then Already_started
      else case (if config_file_path \<noteq> '''' then load_engine_settings pick config_file_path content g
            else Inr default_engine_settings) of
        Inl error \<Rightarrow> Exits (-2) error
      | Inr st \<Rightarrow>
          (case validate_engine_settings st of
             Some error \<Rightarrow> Exits (-3) error
           | None \<Rightarrow> Starts st
               (if specified_by_user config_file_path content g then
                  (case load_management_server_settings pick config_file_path content g of
                     None \<Rightarrow> None
                   | Some m \<Rightarrow> if validate_management_server_settings m = None then Some m else None)
                else None)))"

subsection \<open>Properties\<close>

definition expressible_engine_settings :: "engine_settings \<Rightarrow> management_server_settings \<Rightarrow> bool" where
  "expressible_engine_settings st m \<longleftrightarrow>
     list_all is_int [numa_bind_node st, management_server_port m, management_server_cpu_core_id m] \<and>
     small_size (logger_buffer_capacity st) \<and>
     list_all clean_value [log_level st, log_file st, management_server_nic_ip m]"

definition engine_attributes :: "engine_settings \<Rightarrow> management_server_settings \<Rightarrow> (string \<times> string) list" where
  "engine_attributes st m =
     [(''numa_bind_node'', sdec (numa_bind_node st)),
      (''numa_aware_allocations'', bool_text (numa_aware_allocations st)),
      (''lock_pages'', bool_text (lock_pages st)),
      (''log_level'', log_level st),
      (''log_file'', log_file st),
      (''logger_async'', bool_text (logger_async st)),
      (''logger_buffer_capacity'', sdec (int (logger_buffer_capacity st))),
      (''ignore_sighup'', bool_text (ignore_sighup st)),
      (''management_server_port'', sdec (management_server_port m)),
      (''management_server_nic_ip'', management_server_nic_ip m),
      (''management_server_cpu_core_id'', sdec (management_server_cpu_core_id m))]"

lemma engine_names:
  "distinct (map fst (engine_attributes st m))" "list_all clean_name (map fst (engine_attributes st m))"
  "set (map fst (engine_attributes st m)) \<subseteq> set engine_setting_names"
  by (simp_all add: engine_attributes_def engine_setting_names_def clean_name_def clean_text_def is_blank_def)

lemma engine_attributes_clean:
  assumes "expressible_engine_settings st m"
  shows "list_all clean_attribute (engine_attributes st m)"
proof -
  have "list_all (clean_value \<circ> snd) (engine_attributes st m)"
    using assms by (simp add: engine_attributes_def expressible_engine_settings_def printed_clean)
  with engine_names(2) [of st m] show ?thesis by (force simp: list_all_iff intro: clean_printed)
qed

text \<open>Valid engine and management settings printed into one group are what the engine starts with.\<close>

theorem engine_starts_with_printed_settings:
  assumes "picks pick" "clean_text g" "g \<noteq> []" "g \<noteq> ROOT_GROUP_NAME" "expressible_engine_settings st m"
    and "validate_engine_settings st = None" "f \<noteq> ''''"
  shows "on_start pick False f
      (Some (settings_file g (engine_settings_to_string [NEWLINE] st @ management_server_settings_to_string [NEWLINE] m))) g =
    Starts st (if validate_management_server_settings m = None then Some m else None)"
proof -
  have printed: "concat (map save_attribute (engine_attributes st m)) =
      engine_settings_to_string [NEWLINE] st @ management_server_settings_to_string [NEWLINE] m"
    by (simp add: engine_attributes_def engine_settings_to_string_def management_server_settings_to_string_def sdec_dec)
  have ne: "engine_attributes st m \<noteq> []" by (simp add: engine_attributes_def)
  let ?content = "settings_file g (engine_settings_to_string [NEWLINE] st @ management_server_settings_to_string [NEWLINE] m)"
  obtain c where c: "load_from_file f (Some ?content) = Inr c" "does_group_exist g c" "holds c g (engine_attributes st m)"
    using settings_file_loads [OF assms(2-4) ne engine_attributes_clean [OF assms(5)] engine_names(1)]
    unfolding printed by blast
  note valid = holds_valid [OF c(3) engine_names(3), of pick]
  note get = holds_get [OF c(3) assms(1)] holds_exists [OF c(3)]
  note eval = c valid get engine_attributes_def c_str_def stoi_sdec stoi_small to_size_int
  have known: "is_int (numa_bind_node st)" "is_int (management_server_port m)" "is_int (management_server_cpu_core_id m)"
    "small_size (logger_buffer_capacity st)" using assms(5) by (simp_all add: expressible_engine_settings_def)
  have "load_engine_settings pick f (Some ?content) g = Inr st"
    using known unfolding load_engine_settings_def by (simp add: eval)
  moreover have "load_management_server_settings pick f (Some ?content) g = Some m"
    using known unfolding load_management_server_settings_def by (simp add: eval)
  moreover have "specified_by_user f (Some ?content) g"
    unfolding specified_by_user_def by (simp add: eval)
  ultimately show ?thesis using assms(6,7) by (simp add: on_start_def)
qed

theorem engine_starts_with_printed_settings_witness:
  "on_start hd False ''a.cfg'' (Some (settings_file ''ENGINE'' (engine_settings_to_string [NEWLINE] default_engine_settings @
      management_server_settings_to_string [NEWLINE] \<lparr>management_server_nic_ip = ''1.2.3.4'', management_server_port = 70,
        management_server_cpu_core_id = -1\<rparr>))) ''ENGINE'' =
    Starts default_engine_settings (Some \<lparr>management_server_nic_ip = ''1.2.3.4'', management_server_port = 70,
        management_server_cpu_core_id = -1\<rparr>)"
proof -
  let ?m = "\<lparr>management_server_nic_ip = ''1.2.3.4'', management_server_port = 70, management_server_cpu_core_id = -1\<rparr>"
  have "expressible_engine_settings default_engine_settings ?m" "validate_engine_settings default_engine_settings = None"
    "validate_management_server_settings ?m = None"
    by (simp_all add: expressible_engine_settings_def default_engine_settings_def is_int_def small_size_def
        clean_value_def clean_text_def is_blank_def validate_engine_settings_def validate_management_server_settings_def)
  moreover have "picks hd" "clean_text ''ENGINE''" "''ENGINE'' \<noteq> ROOT_GROUP_NAME"
    by (simp_all add: picks_def clean_text_def ROOT_GROUP_NAME_def)
  ultimately show ?thesis
    using engine_starts_with_printed_settings [of hd "''ENGINE''" default_engine_settings ?m "''a.cfg''"] by simp
qed

end
