(* ===== verification/Managed_Instances.thy ===== *)
theory Managed_Instances
  imports Server_Settings Client_Settings Session_Loading Server_Consistency
begin

text \<open>
  \<open>managed_instance.h\<close>: the interface under which the management server sees a FIX server or a FIX client. The
  locale \<open>administered\<close> states what the commands rely on: an instance has named sessions, and a pushed
  administrative command is appended to the queue of its session, or of every session for the name
  \<open>*\<close>, and changes nothing else. It is interpreted on the server, on the client, and on the instances
  that are one or the other.
\<close>

definition convert_session_state_to_string :: "SessionState \<Rightarrow> string" where
  "convert_session_state_to_string state =
     (case state of
        LOGGED_ON \<Rightarrow> ''Logged on''
      | DISCONNECTED \<Rightarrow> ''Disconnected''
      | PENDING_CONNECTION \<Rightarrow> ''Pending connection''
      | PENDING_LOGON \<Rightarrow> ''Pending logon''
      | LOGGED_OUT \<Rightarrow> ''Logged out''
      | LOGON_REJECTED \<Rightarrow> ''Logon rejected''
      | PENDING_LOGOUT \<Rightarrow> ''Pending logout''
      | IN_RETRANSMISSION_INITIATED_BY_SELF \<Rightarrow> ''In retransmission initiated by self''
      | IN_RETRANSMISSION_INITIATED_BY_PEER \<Rightarrow> ''In retransmission initiated by peer''
      | DISABLED \<Rightarrow> ''Disabled''
      | STATE_NONE \<Rightarrow> ''None'')"

definition admin_command :: "ModifyingAdminCommandType \<Rightarrow> u32 \<Rightarrow> modifying_admin_command" where
  "admin_command t arg = \<lparr>cmd_type = t, cmd_arg = arg\<rparr>"

definition queue_command :: "ModifyingAdminCommandType \<Rightarrow> u32 \<Rightarrow> session \<Rightarrow> session" where
  "queue_command t arg s = s\<lparr>m_admin_commands := m_admin_commands s @ [admin_command t arg]\<rparr>"

subsection \<open>The interface\<close>

locale administered =
  fixes names :: "'i \<Rightarrow> string list"
    and find :: "string \<Rightarrow> 'i \<Rightarrow> session option"
    and push :: "string \<Rightarrow> ModifyingAdminCommandType \<Rightarrow> u32 \<Rightarrow> 'i \<Rightarrow> 'i"
    and ok :: "'i \<Rightarrow> bool"
  assumes names_push: "names (push n t arg i) = names i"
    and ok_push: "ok i \<Longrightarrow> n \<in> set (names i) \<or> n = ''*'' \<Longrightarrow> ok (push n t arg i)"
    and find_names: "n \<in> set (names i) \<Longrightarrow> find n i \<noteq> None"
    and push_one: "n \<noteq> ''*'' \<Longrightarrow> n \<in> set (names i) \<Longrightarrow> find n (push n t arg i) = map_option (queue_command t arg) (find n i)"
    and push_other: "n \<noteq> ''*'' \<Longrightarrow> n \<in> set (names i) \<Longrightarrow> m \<in> set (names i) \<Longrightarrow> m \<noteq> n \<Longrightarrow>
      find m (push n t arg i) = find m i"
    and push_all: "ok i \<Longrightarrow> m \<in> set (names i) \<Longrightarrow>
      find m (push ''*'' t arg i) = map_option (queue_command t arg) (find m i)"
begin

lemma push_session:
  assumes "ok i" "n \<in> set (names i) \<or> n = ''*''" "m \<in> set (names i)"
  shows "find m (push n t arg i) = (if n = m \<or> n = ''*'' then map_option (queue_command t arg) (find m i) else find m i)"
  using assms push_one [of n i t arg] push_other [of n i m t arg] push_all [of i m t arg] by auto

text \<open>Commands pushed to one session wait in the order they were pushed.\<close>

lemma pushes_in_order:
  assumes "ok i" "n \<in> set (names i)" "n \<noteq> ''*''"
  shows "find n (fold (\<lambda>(t, arg). push n t arg) cs i) =
      map_option (\<lambda>s. s\<lparr>m_admin_commands := m_admin_commands s @ map (\<lambda>(t, arg). admin_command t arg) cs\<rparr>) (find n i)"
  using assms
proof (induction cs arbitrary: i)
  case Nil
  then show ?case by (cases "find n i") auto
next
  case (Cons c cs)
  obtain t arg where c: "c = (t, arg)" by force
  have "ok (push n t arg i)" "n \<in> set (names (push n t arg i))"
    using Cons.prems(1,2) ok_push [of i n t arg] names_push [of n t arg i] by simp_all
  from Cons.IH [OF this Cons.prems(3)] show ?case
    using Cons.prems push_one [of n i t arg] find_names [of n i] by (auto simp: c queue_command_def)
qed

lemma push_keeps:
  assumes "ok i" "n \<in> set (names i) \<or> n = ''*''" "m \<in> set (names i)" "find m i = Some s"
  shows "\<exists>s'. find m (push n t arg i) = Some s' \<and> s'\<lparr>m_admin_commands := m_admin_commands s\<rparr> = s \<and>
    (\<exists>cs. m_admin_commands s' = m_admin_commands s @ cs)"
  using push_session [OF assms(1-3), of t arg] assms(4) by (auto simp: queue_command_def)

end

subsection \<open>A server\<close>

definition server_session :: "string \<Rightarrow> server \<Rightarrow> session option" where
  "server_session n w = (if \<not> has_session w n then None else Some (m_sessions w n))"

lemma push_fold:
  assumes "distinct ns"
  shows "m_sessions (fold (\<lambda>n. push_admin_command_internal n t arg) ns w) m =
      (if m \<in> set ns then queue_command t arg (m_sessions w m) else m_sessions w m)"
    "srv_session_names (fold (\<lambda>n. push_admin_command_internal n t arg) ns w) = srv_session_names w"
  using assms
  by (induction ns arbitrary: w)
    (auto simp: push_admin_command_internal_def upd_session_def queue_command_def admin_command_def)

lemma push_admin_command_sessions:
  assumes "distinct (srv_session_names w)"
  shows "m_sessions (push_admin_command n t arg w) m =
      (if n = m \<and> n \<noteq> ''*'' \<or> n = ''*'' \<and> m \<in> set (srv_session_names w) then queue_command t arg (m_sessions w m)
       else m_sessions w m)"
  using push_fold(1) [OF assms]
  by (auto simp: push_admin_command_def push_admin_command_internal_def upd_session_def queue_command_def admin_command_def)

lemma push_admin_command_names: "srv_session_names (push_admin_command n t arg w) = srv_session_names w"
proof -
  have "srv_session_names (fold (\<lambda>n. push_admin_command_internal n t arg) ns w) = srv_session_names w" for ns
    by (induction ns arbitrary: w) (simp_all add: push_admin_command_internal_def upd_session_def)
  then show ?thesis by (simp add: push_admin_command_def push_admin_command_internal_def upd_session_def)
qed

interpretation srv: administered srv_session_names server_session push_admin_command "\<lambda>w. distinct (srv_session_names w)"
proof
  fix n t arg w
  show "srv_session_names (push_admin_command n t arg w) = srv_session_names w" by (rule push_admin_command_names)
  then show "distinct (srv_session_names w) \<Longrightarrow> distinct (srv_session_names (push_admin_command n t arg w))" by simp
  show "n \<in> set (srv_session_names w) \<Longrightarrow> server_session n w \<noteq> None" by (simp add: server_session_def has_session_def)
  fix m
  show "n \<noteq> ''*'' \<Longrightarrow> n \<in> set (srv_session_names w) \<Longrightarrow>
      server_session n (push_admin_command n t arg w) = map_option (queue_command t arg) (server_session n w)"
    by (simp add: server_session_def has_session_def push_admin_command_names push_admin_command_def
        push_admin_command_internal_def upd_session_def queue_command_def admin_command_def)
  show "n \<noteq> ''*'' \<Longrightarrow> n \<in> set (srv_session_names w) \<Longrightarrow> m \<in> set (srv_session_names w) \<Longrightarrow> m \<noteq> n \<Longrightarrow>
      server_session m (push_admin_command n t arg w) = server_session m w"
    by (simp add: server_session_def has_session_def push_admin_command_names push_admin_command_def
        push_admin_command_internal_def upd_session_def)
  show "distinct (srv_session_names w) \<Longrightarrow> m \<in> set (srv_session_names w) \<Longrightarrow>
      server_session m (push_admin_command ''*'' t arg w) = map_option (queue_command t arg) (server_session m w)"
    by (simp add: server_session_def has_session_def push_admin_command_names push_admin_command_sessions)
qed

subsection \<open>A client\<close>

text \<open>A client has one session, which it gives and to which it pushes whatever the name is.\<close>

record named_client =
  nc_session_name :: string
  nc_client :: client

definition client_session_names :: "named_client \<Rightarrow> string list" where
  "client_session_names i = [nc_session_name i]"

definition client_session :: "string \<Rightarrow> named_client \<Rightarrow> session option" where
  "client_session n i = Some (cl_session (nc_client i))"

definition push_client_command :: "string \<Rightarrow> ModifyingAdminCommandType \<Rightarrow> u32 \<Rightarrow> named_client \<Rightarrow> named_client" where
  "push_client_command n t arg i = i\<lparr>nc_client := client_push_admin_command t arg (nc_client i)\<rparr>"

interpretation clt: administered client_session_names client_session push_client_command "\<lambda>_. True"
  by unfold_locales (simp_all add: client_session_names_def client_session_def push_client_command_def
      client_push_admin_command_def on_session_def queue_command_def admin_command_def)

subsection \<open>Instances\<close>

datatype engine_instance = Server_instance fix_server_settings server | Client_instance named_client

fun get_session_names :: "engine_instance \<Rightarrow> string list" where
  "get_session_names (Server_instance st w) = srv_session_names w"
| "get_session_names (Client_instance i) = client_session_names i"

fun instance_session :: "string \<Rightarrow> engine_instance \<Rightarrow> session option" where
  "instance_session n (Server_instance st w) = server_session n w"
| "instance_session n (Client_instance i) = client_session n i"

fun push_instance_command :: "string \<Rightarrow> ModifyingAdminCommandType \<Rightarrow> u32 \<Rightarrow> engine_instance \<Rightarrow> engine_instance" where
  "push_instance_command n t arg (Server_instance st w) = Server_instance st (push_admin_command n t arg w)"
| "push_instance_command n t arg (Client_instance i) = Client_instance (push_client_command n t arg i)"

fun is_instance_ha_primary :: "engine_instance \<Rightarrow> bool" where
  "is_instance_ha_primary (Server_instance st w) = m_is_ha_primary w"
| "is_instance_ha_primary (Client_instance i) = cl_is_ha_primary (nc_client i)"

fun get_settings_as_string :: "string \<Rightarrow> engine_instance \<Rightarrow> string" where
  "get_settings_as_string delimiter (Server_instance st w) = server_settings_to_string delimiter st"
| "get_settings_as_string delimiter (Client_instance i) = client_settings_to_string delimiter (cl_settings (nc_client i))"

fun instance_ok :: "engine_instance \<Rightarrow> bool" where
  "instance_ok (Server_instance st w) = distinct (srv_session_names w)"
| "instance_ok (Client_instance i) = True"

interpretation inst: administered get_session_names instance_session push_instance_command instance_ok
proof
  fix n m t arg i
  show "get_session_names (push_instance_command n t arg i) = get_session_names i"
    by (cases i) (simp_all add: srv.names_push clt.names_push)
  show "instance_ok i \<Longrightarrow> n \<in> set (get_session_names i) \<or> n = ''*'' \<Longrightarrow> instance_ok (push_instance_command n t arg i)"
    by (cases i) (simp_all add: srv.names_push)
  show "n \<in> set (get_session_names i) \<Longrightarrow> instance_session n i \<noteq> None"
    by (cases i) (simp_all add: srv.find_names clt.find_names del: not_None_eq)
  show "n \<noteq> ''*'' \<Longrightarrow> n \<in> set (get_session_names i) \<Longrightarrow>
      instance_session n (push_instance_command n t arg i) = map_option (queue_command t arg) (instance_session n i)"
    by (cases i) (simp_all add: srv.push_one clt.push_one)
  show "n \<noteq> ''*'' \<Longrightarrow> n \<in> set (get_session_names i) \<Longrightarrow> m \<in> set (get_session_names i) \<Longrightarrow> m \<noteq> n \<Longrightarrow>
      instance_session m (push_instance_command n t arg i) = instance_session m i"
    by (cases i) (simp_all add: srv.push_other clt.push_other)
  show "instance_ok i \<Longrightarrow> m \<in> set (get_session_names i) \<Longrightarrow>
      instance_session m (push_instance_command ''*'' t arg i) = map_option (queue_command t arg) (instance_session m i)"
    by (cases i) (simp_all add: srv.push_all clt.push_all)
qed

end
