(* ===== verification/Management_Server.thy ===== *)
theory Management_Server
  imports Managed_Instances Engine_Settings
begin

text \<open>
  The management server (\<open>management_server/*.h\<close>): the commands and their table, the parsing of a command, what each
  command answers and does to the registered instances, and the reading of commands from the bytes of a
  connection. A command does what its \<open>process\<close> does; its answer is the empty text where the code sends none.

  \<^item> Instances are found by their names, servers first; the reference a registration keeps is the instance
    itself. The threads of the instances run between two commands, not within one.
  \<^item> The sequence store of a session is open, and the logger's level is part of the state.
  \<^item> The outcomes of \<open>send\<close> and the clock are inputs; \<open>mg_trace\<close> holds the answers given to the transport.
  \<^item> \<^term>\<open>None\<close> is undefined behaviour: a use of the null socket of a closed connection, or a write past
    the incomplete buffer.
\<close>

subsection \<open>Commands\<close>

datatype CommandId =
    HELP | GET_UPTIME
  | GET_ENGINE_VERSION | GET_ENGINE_LOG_PATH | GET_ENGINE_LOG_LEVEL | SET_ENGINE_LOG_LEVEL
  | GET_CLIENTS | GET_SERVERS | GET_INSTANCE_CONFIG
  | SET_IS_INSTANCE_PRIMARY | IS_INSTANCE_PRIMARY
  | GET_SESSIONS | GET_SESSION_STATE | GET_SESSION_CONFIG | GET_ALL_SESSION_STATES | CMD_ENABLE_SESSION | CMD_DISABLE_SESSION
  | GET_INCOMING_SEQUENCE_NUMBER | GET_OUTGOING_SEQUENCE_NUMBER | CMD_SET_INCOMING_SEQUENCE_NUMBER
  | CMD_SET_OUTGOING_SEQUENCE_NUMBER | CMD_SEND_SEQUENCE_RESET

definition command_table :: "(string \<times> CommandId) list" where
  "command_table =
     [(''help'', HELP), (''get_uptime'', GET_UPTIME),
      (''get_engine_version'', GET_ENGINE_VERSION), (''get_engine_log_path'', GET_ENGINE_LOG_PATH),
      (''get_engine_log_level'', GET_ENGINE_LOG_LEVEL), (''set_engine_log_level'', SET_ENGINE_LOG_LEVEL),
      (''get_clients'', GET_CLIENTS), (''get_servers'', GET_SERVERS),
      (''get_instance_config'', GET_INSTANCE_CONFIG),
      (''set_is_instance_primary'', SET_IS_INSTANCE_PRIMARY), (''is_instance_primary'', IS_INSTANCE_PRIMARY),
      (''get_sessions'', GET_SESSIONS), (''get_session_state'', GET_SESSION_STATE),
      (''get_session_config'', GET_SESSION_CONFIG), (''get_all_session_states'', GET_ALL_SESSION_STATES),
      (''enable_session'', CMD_ENABLE_SESSION), (''disable_session'', CMD_DISABLE_SESSION),
      (''get_incoming_sequence_number'', GET_INCOMING_SEQUENCE_NUMBER),
      (''get_outgoing_sequence_number'', GET_OUTGOING_SEQUENCE_NUMBER),
      (''set_incoming_sequence_number'', CMD_SET_INCOMING_SEQUENCE_NUMBER),
      (''set_outgoing_sequence_number'', CMD_SET_OUTGOING_SEQUENCE_NUMBER),
      (''send_sequence_reset'', CMD_SEND_SEQUENCE_RESET)]"

abbreviation COMMAND_DELIMITER :: char where "COMMAND_DELIMITER \<equiv> CHR ''|''"

definition create_command_from_single_token :: "string \<Rightarrow> CommandId option" where
  "create_command_from_single_token command_buffer =
     (if command_buffer = '''' then None else map_of command_table command_buffer)"

text \<open>The loop of \<open>create_command\<close>: the current token, the command once found, and its parameters so far.\<close>

fun create_command_loop ::
    "string \<Rightarrow> string \<Rightarrow> (CommandId \<times> string list) option \<Rightarrow> (CommandId \<times> string list) option" where
  "create_command_loop token [] None = map_option (\<lambda>c. (c, [])) (create_command_from_single_token token)"
| "create_command_loop token [] (Some (c, ps)) = Some (c, ps @ [token])"
| "create_command_loop token (ch # cs) found =
     (if ch = CHR '' '' then
        (case found of
           None \<Rightarrow>
             (case create_command_from_single_token token of
                None \<Rightarrow> None
              | Some c \<Rightarrow> create_command_loop [] cs (Some (c, [])))
         | Some (c, ps) \<Rightarrow> create_command_loop [] cs (Some (c, ps @ [token])))
      else create_command_loop (token @ [ch]) cs found)"

definition create_command :: "string \<Rightarrow> (CommandId \<times> string list) option" where
  "create_command command_buffer = create_command_loop [] command_buffer None"

subsection \<open>The instances\<close>

record managed_instance =
  mi_name :: string
  mi_instance :: engine_instance

record management_environment =
  g_monotonic :: "nat \<Rightarrow> u64"
  g_send :: "nat \<Rightarrow> send_result"

record management =
  mg_application_start_timestamp :: u64
  mg_engine_version :: string
  mg_log_file_path :: string
  mg_server_instances :: "managed_instance list"
  mg_client_instances :: "managed_instance list"
  mg_log_level :: LogLevel
  mg_successfully_created :: bool
  mg_no_connected_clients :: int
  mg_connectors :: connectors
  mg_clock_reads :: nat
  mg_sends :: nat
  mg_trace :: "(nat \<times> string \<times> send_result) list"

fun instance_named :: "string \<Rightarrow> managed_instance list \<Rightarrow> engine_instance option" where
  "instance_named instance_name [] = None"
| "instance_named instance_name (i # is) =
     (if mi_name i = instance_name then Some (mi_instance i) else instance_named instance_name is)"

definition get_instance :: "string \<Rightarrow> management \<Rightarrow> engine_instance option" where
  "get_instance instance_name w =
     (case instance_named instance_name (mg_server_instances w) of
        Some i \<Rightarrow> Some i
      | None \<Rightarrow> instance_named instance_name (mg_client_instances w))"

definition has_instance :: "string \<Rightarrow> management \<Rightarrow> bool" where
  "has_instance instance_name w \<longleftrightarrow> get_instance instance_name w \<noteq> None"

definition get_managed_session :: "string \<Rightarrow> string \<Rightarrow> management \<Rightarrow> session option" where
  "get_managed_session instance_name session_name w =
     (case get_instance instance_name w of None \<Rightarrow> None | Some i \<Rightarrow> instance_session session_name i)"

text \<open>A call through the pointer of the first instance with a name.\<close>

fun on_named :: "string \<Rightarrow> (engine_instance \<Rightarrow> engine_instance) \<Rightarrow> managed_instance list \<Rightarrow> managed_instance list" where
  "on_named instance_name f [] = []"
| "on_named instance_name f (i # is) =
     (if mi_name i = instance_name then i\<lparr>mi_instance := f (mi_instance i)\<rparr> # is else i # on_named instance_name f is)"

definition on_instance :: "string \<Rightarrow> (engine_instance \<Rightarrow> engine_instance) \<Rightarrow> management \<Rightarrow> management" where
  "on_instance instance_name f w =
     (case instance_named instance_name (mg_server_instances w) of
        Some _ \<Rightarrow> w\<lparr>mg_server_instances := on_named instance_name f (mg_server_instances w)\<rparr>
      | None \<Rightarrow> w\<lparr>mg_client_instances := on_named instance_name f (mg_client_instances w)\<rparr>)"

subsection \<open>Registration\<close>

definition register_client :: "managed_instance \<Rightarrow> management \<Rightarrow> bool \<times> management" where
  "register_client i w =
     (if \<not> mg_successfully_created w then (False, w)
      else if has_instance (mi_name i) w then (False, w)
      else (True, w\<lparr>mg_client_instances := mg_client_instances w @ [i]\<rparr>))"

definition register_server :: "managed_instance \<Rightarrow> management \<Rightarrow> bool \<times> management" where
  "register_server i w =
     (if \<not> mg_successfully_created w then (False, w)
      else if has_instance (mi_name i) w then (False, w)
      else (True, w\<lparr>mg_server_instances := mg_server_instances w @ [i]\<rparr>))"

subsection \<open>What the commands do\<close>

definition no_results :: "string \<Rightarrow> string" where
  "no_results ret = (if ret = '''' then ''No results'' else ret)"

definition pushed_response :: string where
  "pushed_response = ''Successfully pushed to the admin commands queue''"

text \<open>The commands that push to the queue of a session that exists.\<close>

definition push_to_session ::
    "string \<Rightarrow> string \<Rightarrow> ModifyingAdminCommandType \<Rightarrow> u32 \<Rightarrow> management \<Rightarrow> string \<times> management" where
  "push_to_session instance_name session_name t arg w =
     (case get_managed_session instance_name session_name w of
        None \<Rightarrow> (''No results'', w)
      | Some s \<Rightarrow> (pushed_response, on_instance instance_name (push_instance_command session_name t arg) w))"

text \<open>The sequence number parameter: no sign, and what \<open>std::stoi\<close> reads.\<close>

definition sequence_parameter :: "string \<Rightarrow> u32 option" where
  "sequence_parameter p = (if CHR ''-'' \<in> set p then None else map_option word_of_int (stoi p))"

definition push_sequence_command :: "ModifyingAdminCommandType \<Rightarrow> string list \<Rightarrow> management \<Rightarrow> string \<times> management" where
  "push_sequence_command t ps w =
     (if length ps < 3 then (''Missing parameter(s)'', w)
      else (case sequence_parameter (ps ! 2) of
              None \<Rightarrow> (''No results'', w)
            | Some new_seq_no \<Rightarrow> push_to_session (ps ! 0) (ps ! 1) t new_seq_no w))"

definition push_simple_command :: "ModifyingAdminCommandType \<Rightarrow> string list \<Rightarrow> management \<Rightarrow> string \<times> management" where
  "push_simple_command t ps w =
     (if length ps < 2 then (''Missing parameter(s)'', w) else push_to_session (ps ! 0) (ps ! 1) t 0 w)"

definition set_is_instance_primary :: "string list \<Rightarrow> management \<Rightarrow> string \<times> management" where
  "set_is_instance_primary ps w =
     (if length ps < 2 then (''Missing parameter(s)'', w)
      else (case stoi (ps ! 1) of
              None \<Rightarrow> ('''', w)
            | Some v \<Rightarrow>
                (let val = (word_of_int v :: u32)
                 in ('''', if get_instance (ps ! 0) w \<noteq> None \<and> val \<le> 1 then
                             on_instance (ps ! 0) (push_instance_command ''*'' SET_IS_HA_PRIMARY_INSTANCE val) w
                           else w))))"

text \<open>The commands that answer about one session or one instance.\<close>

definition about_session :: "(session \<Rightarrow> string) \<Rightarrow> string list \<Rightarrow> management \<Rightarrow> string" where
  "about_session f ps w =
     (if length ps < 2 then ''Missing parameter(s)''
      else (case get_managed_session (ps ! 0) (ps ! 1) w of None \<Rightarrow> ''No results'' | Some s \<Rightarrow> f s))"

definition about_instance :: "(engine_instance \<Rightarrow> string) \<Rightarrow> string list \<Rightarrow> management \<Rightarrow> string" where
  "about_instance f ps w =
     (if length ps < 1 then ''Missing parameter(s)''
      else (case get_instance (ps ! 0) w of None \<Rightarrow> ''No results'' | Some i \<Rightarrow> f i))"

definition session_names_text :: "string list \<Rightarrow> management \<Rightarrow> string" where
  "session_names_text ps w =
     (if length ps < 1 then ''Missing client or server name parameter''
      else no_results (case get_instance (ps ! 0) w of
                         None \<Rightarrow> ''''
                       | Some i \<Rightarrow> concat (map (\<lambda>item. item @ '','') (get_session_names i))))"

definition session_state_text :: "string \<Rightarrow> session \<Rightarrow> string" where
  "session_state_text session_name s =
     session_name @ '','' @ convert_session_state_to_string (m_state s) @ '','' @
     dec (unat (session_incoming_seq_no s)) @ '','' @ dec (unat (session_outgoing_seq_no s)) @ '',''"

definition all_session_states_text :: "string list \<Rightarrow> management \<Rightarrow> string" where
  "all_session_states_text ps w =
     (if length ps < 1 then ''Missing client or server name parameter''
      else no_results (case get_instance (ps ! 0) w of
                         None \<Rightarrow> ''''
                       | Some i \<Rightarrow> concat (map (\<lambda>n. case get_managed_session (ps ! 0) n w of
                                                   None \<Rightarrow> '''' | Some s \<Rightarrow> session_state_text n s) (get_session_names i))))"

definition instance_names_text :: "managed_instance list \<Rightarrow> string" where
  "instance_names_text is = no_results (concat (map (\<lambda>i. mi_name i @ '','') is))"
definition help_indent :: string where
  "help_indent = replicate 12 (CHR '' '')"

definition help_text :: string where
  "help_text =
     ''Available commands :'' @ [NEWLINE] @
     [NEWLINE] @
     help_indent @ ''help'' @ [NEWLINE] @
     help_indent @ ''get_uptime'' @ [NEWLINE] @
     [NEWLINE] @
     help_indent @ ''get_engine_version'' @ [NEWLINE] @
     help_indent @ ''get_engine_log_path'' @ [NEWLINE] @
     help_indent @ ''get_engine_log_level'' @ [NEWLINE] @
     help_indent @ ''set_engine_log_level <log_level_string>'' @ [NEWLINE] @
     [NEWLINE] @
     help_indent @ ''get_clients'' @ [NEWLINE] @
     help_indent @ ''get_servers'' @ [NEWLINE] @
     help_indent @ ''get_instance_config <client or server name>'' @ [NEWLINE] @
     [NEWLINE] @
     help_indent @ ''set_is_instance_primary <client or server name> <1 or 0>'' @ [NEWLINE] @
     help_indent @ ''is_instance_primary <client or server name>'' @ [NEWLINE] @
     [NEWLINE] @
     help_indent @ ''get_sessions <client or server name>'' @ [NEWLINE] @
     help_indent @ ''get_session_state <client or server name> <session_name>'' @ [NEWLINE] @
     help_indent @ ''get_session_config <client or server name> <session_name>'' @ [NEWLINE] @
     help_indent @ ''get_all_session_states <client or server name>'' @ [NEWLINE] @
     help_indent @ ''enable_session <client or server name> <session_name>'' @ [NEWLINE] @
     help_indent @ ''disable_session <client or server name> <session_name>'' @ [NEWLINE] @
     [NEWLINE] @
     help_indent @ ''get_incoming_sequence_number <client or server name> <session_name>'' @ [NEWLINE] @
     help_indent @ ''get_outgoing_sequence_number <client or server name> <session_name>'' @ [NEWLINE] @
     help_indent @ ''set_incoming_sequence_number <client or server name> <session_name> <sequence_no>'' @ [NEWLINE] @
     help_indent @ ''set_outgoing_sequence_number <client or server name> <session_name> <sequence_no>'' @ [NEWLINE] @
     help_indent @ ''send_sequence_reset <client or server name> <session_name> <sequence_no>'' @ [NEWLINE] @
     [NEWLINE] @
     help_indent"

definition uptime_text :: "management_environment \<Rightarrow> management \<Rightarrow> string" where
  "uptime_text e w =
     (let delta = g_monotonic e (mg_clock_reads w) - mg_application_start_timestamp w
      in dec (unat (delta div 1000000000)))"

definition process_command :: "management_environment \<Rightarrow> CommandId \<Rightarrow> string list \<Rightarrow> management \<Rightarrow> string \<times> management" where
  "process_command e c ps w =
     (case c of
        HELP \<Rightarrow> (help_text, w)
      | GET_UPTIME \<Rightarrow> (uptime_text e w, w\<lparr>mg_clock_reads := mg_clock_reads w + 1\<rparr>)
      | GET_ENGINE_VERSION \<Rightarrow> (mg_engine_version w, w)
      | GET_ENGINE_LOG_PATH \<Rightarrow> (mg_log_file_path w, w)
      | GET_ENGINE_LOG_LEVEL \<Rightarrow> (log_level_text (mg_log_level w), w)
      | SET_ENGINE_LOG_LEVEL \<Rightarrow>
          (if length ps < 1 then (''Missing parameter(s)'', w)
           else (''Successfully set the engine log level'', w\<lparr>mg_log_level := convert_string_to_log_level (ps ! 0)\<rparr>))
      | GET_CLIENTS \<Rightarrow> (instance_names_text (mg_client_instances w), w)
      | GET_SERVERS \<Rightarrow> (instance_names_text (mg_server_instances w), w)
      | GET_INSTANCE_CONFIG \<Rightarrow> (about_instance (get_settings_as_string '','') ps w, w)
      | SET_IS_INSTANCE_PRIMARY \<Rightarrow> set_is_instance_primary ps w
      | IS_INSTANCE_PRIMARY \<Rightarrow> (about_instance (\<lambda>i. if is_instance_ha_primary i then ''1'' else ''0'') ps w, w)
      | GET_SESSIONS \<Rightarrow> (session_names_text ps w, w)
      | GET_SESSION_STATE \<Rightarrow> (about_session (\<lambda>s. convert_session_state_to_string (m_state s)) ps w, w)
      | GET_SESSION_CONFIG \<Rightarrow> (about_session (\<lambda>s. session_settings_to_string '','' (m_settings s)) ps w, w)
      | GET_ALL_SESSION_STATES \<Rightarrow> (all_session_states_text ps w, w)
      | CMD_ENABLE_SESSION \<Rightarrow> push_simple_command ENABLE_SESSION ps w
      | CMD_DISABLE_SESSION \<Rightarrow> push_simple_command DISABLE_SESSION ps w
      | GET_INCOMING_SEQUENCE_NUMBER \<Rightarrow> (about_session (\<lambda>s. dec (unat (session_incoming_seq_no s))) ps w, w)
      | GET_OUTGOING_SEQUENCE_NUMBER \<Rightarrow> (about_session (\<lambda>s. dec (unat (session_outgoing_seq_no s))) ps w, w)
      | CMD_SET_INCOMING_SEQUENCE_NUMBER \<Rightarrow> push_sequence_command SET_INCOMING_SEQUENCE_NUMBER ps w
      | CMD_SET_OUTGOING_SEQUENCE_NUMBER \<Rightarrow> push_sequence_command SET_OUTGOING_SEQUENCE_NUMBER ps w
      | CMD_SEND_SEQUENCE_RESET \<Rightarrow> push_sequence_command SEND_SEQUENCE_RESET ps w)"

subsection \<open>Connections\<close>

definition MANAGEMENT_RX_BUFFER_CAPACITY :: nat where
  "MANAGEMENT_RX_BUFFER_CAPACITY = 655360"

definition mg_has_socket :: "management \<Rightarrow> nat \<Rightarrow> bool" where
  "mg_has_socket w p \<longleftrightarrow> p < length (m_connectors (mg_connectors w)) \<and> m_socket (m_connectors (mg_connectors w) ! p) \<noteq> None"

definition mg_on_client_connected :: "nat \<Rightarrow> management \<Rightarrow> management" where
  "mg_on_client_connected desc w =
     w\<lparr>mg_connectors := snd (add_connector desc (mg_connectors w)), mg_no_connected_clients := mg_no_connected_clients w + 1\<rparr>"

definition mg_on_client_disconnected :: "nat \<Rightarrow> management \<Rightarrow> management option" where
  "mg_on_client_disconnected p w =
     (case recycle_connector p (mg_connectors w) of
        None \<Rightarrow> None
      | Some t \<Rightarrow> Some (w\<lparr>mg_connectors := t, mg_no_connected_clients :=
          (if 0 < mg_no_connected_clients w then mg_no_connected_clients w - 1 else mg_no_connected_clients w)\<rparr>))"

definition mg_send :: "management_environment \<Rightarrow> nat \<Rightarrow> string \<Rightarrow> management \<Rightarrow> management option" where
  "mg_send e p buffer w =
     (if \<not> mg_has_socket w p then None
      else
        (let r = g_send e (mg_sends w);
             w = w\<lparr>mg_sends := mg_sends w + 1, mg_trace := mg_trace w @ [(p, buffer, r)]\<rparr>
         in if r = SendLost then mg_on_client_disconnected p w else Some w))"

definition on_command :: "management_environment \<Rightarrow> nat \<Rightarrow> string \<Rightarrow> management \<Rightarrow> management option" where
  "on_command e p buffer w =
     (case create_command buffer of
        None \<Rightarrow> mg_send e p (''Invalid command'' @ [COMMAND_DELIMITER]) w
      | Some (c, ps) \<Rightarrow>
          (case process_command e c ps w of
             (response, w) \<Rightarrow>
               if 0 < length response then mg_send e p (response @ [COMMAND_DELIMITER]) w else Some w))"

text \<open>The loop over the bytes: \<open>current\<close> is what follows the last delimiter.\<close>

fun command_loop :: "management_environment \<Rightarrow> nat \<Rightarrow> string \<Rightarrow> string \<Rightarrow> management \<Rightarrow> (string \<times> management) option" where
  "command_loop e p current [] w = Some (current, w)"
| "command_loop e p current (ch # cs) w =
     (if ch = COMMAND_DELIMITER then
        (case on_command e p current w of None \<Rightarrow> None | Some w \<Rightarrow> command_loop e p [] cs w)
      else command_loop e p (current @ [ch]) cs w)"

definition mg_map_connector :: "nat \<Rightarrow> (connector \<Rightarrow> connector option) \<Rightarrow> management \<Rightarrow> management option" where
  "mg_map_connector p f w =
     (let t = mg_connectors w
      in if p < length (m_connectors t) then
           map_option (\<lambda>c. w\<lparr>mg_connectors := t\<lparr>m_connectors := (m_connectors t)[p := c]\<rparr>\<rparr>) (f (m_connectors t ! p))
         else None)"

definition mg_process_rx_buffer :: "management_environment \<Rightarrow> nat \<Rightarrow> string \<Rightarrow> management \<Rightarrow> management option" where
  "mg_process_rx_buffer e p buffer w =
     (case command_loop e p [] buffer w of
        None \<Rightarrow> None
      | Some (current, w) \<Rightarrow>
          if current \<noteq> [] then mg_map_connector p (set_incomplete_buffer MANAGEMENT_RX_BUFFER_CAPACITY current) w
          else mg_map_connector p (\<lambda>c. Some (reset_incomplete_buffer c)) w)"

definition mg_receive_done :: "nat \<Rightarrow> bool \<Rightarrow> management \<Rightarrow> management option" where
  "mg_receive_done p lost w =
     (if p < length (m_connectors (mg_connectors w)) then
        (let c = m_connectors (mg_connectors w) ! p
         in if 0 < m_last_receive_result c then Some w
            else if m_last_receive_result c = 0 \<or> lost then mg_on_client_disconnected p w
            else Some w)
      else None)"

text \<open>One readable event: \<open>result\<close> is what \<open>recv\<close> returns and \<open>data\<close> the bytes it wrote.\<close>

definition mg_on_data_ready ::
    "management_environment \<Rightarrow> nat \<Rightarrow> int \<Rightarrow> string \<Rightarrow> bool \<Rightarrow> management \<Rightarrow> management option" where
  "mg_on_data_ready e p result data lost w =
     (case mg_map_connector p (\<lambda>c. Some (receive result data c)) w of
        None \<Rightarrow> None
      | Some w \<Rightarrow>
          (case (if 0 < result \<and> result \<le> int MANAGEMENT_RX_BUFFER_CAPACITY then
                   (case get_rx_buffer MANAGEMENT_RX_BUFFER_CAPACITY (m_connectors (mg_connectors w) ! p) of
                      None \<Rightarrow> None
                    | Some buffer \<Rightarrow> mg_process_rx_buffer e p buffer w)
                 else Some w) of
             None \<Rightarrow> None
           | Some w \<Rightarrow> mg_receive_done p lost w))"

text \<open>\<open>create\<close>: \<open>started\<close> is whether the reactor could listen.\<close>

definition management_create ::
    "management_server_settings \<Rightarrow> bool \<Rightarrow> u64 \<Rightarrow> string \<Rightarrow> string \<Rightarrow> management \<Rightarrow> bool \<times> management" where
  "management_create settings started start_timestamp version log_file_path w =
     (if validate_management_server_settings settings \<noteq> None then (False, w)
      else if \<not> started then (False, w)
      else (True, w\<lparr>mg_application_start_timestamp := start_timestamp, mg_engine_version := version,
                    mg_log_file_path := log_file_path, mg_successfully_created := True\<rparr>))"

end
