(* ===== verification/Management_Properties.thy ===== *)
theory Management_Properties
  imports Management_Server Server_Properties
begin

text \<open>
  Properties of the management server: the commands it executes do not depend on how the bytes arrive, commands
  only append to the queues of sessions, and a sequence number set by a command is the one the
  session has after its thread has run the command.
\<close>

subsection \<open>Deliveries\<close>

definition delivers :: "management_environment \<Rightarrow> bool" where
  "delivers e \<longleftrightarrow> (\<forall>k. g_send e k \<noteq> SendLost)"

definition mg_slot :: "management \<Rightarrow> nat \<Rightarrow> connector" where
  "mg_slot w p = m_connectors (mg_connectors w) ! p"

lemma instances_connectors [simp]:
  "get_instance n (w\<lparr>mg_connectors := t\<rparr>) = get_instance n w"
  "get_managed_session n m (w\<lparr>mg_connectors := t\<rparr>) = get_managed_session n m w"
  "on_instance n f (w\<lparr>mg_connectors := t\<rparr>) = (on_instance n f w)\<lparr>mg_connectors := t\<rparr>"
  "mg_connectors (on_instance n f w) = mg_connectors w"
  by (simp_all add: get_instance_def get_managed_session_def on_instance_def split: option.splits)

lemma push_connectors:
  "push_to_session n m u arg (w\<lparr>mg_connectors := t\<rparr>) =
    (fst (push_to_session n m u arg w), (snd (push_to_session n m u arg w))\<lparr>mg_connectors := t\<rparr>)"
  "mg_connectors (snd (push_to_session n m u arg w)) = mg_connectors w"
  by (simp_all add: push_to_session_def split: option.splits)

lemma pushes_connectors:
  "push_sequence_command u ps (w\<lparr>mg_connectors := t\<rparr>) =
    (fst (push_sequence_command u ps w), (snd (push_sequence_command u ps w))\<lparr>mg_connectors := t\<rparr>)"
  "mg_connectors (snd (push_sequence_command u ps w)) = mg_connectors w"
  "push_simple_command u ps (w\<lparr>mg_connectors := t\<rparr>) =
    (fst (push_simple_command u ps w), (snd (push_simple_command u ps w))\<lparr>mg_connectors := t\<rparr>)"
  "mg_connectors (snd (push_simple_command u ps w)) = mg_connectors w"
  "set_is_instance_primary ps (w\<lparr>mg_connectors := t\<rparr>) =
    (fst (set_is_instance_primary ps w), (snd (set_is_instance_primary ps w))\<lparr>mg_connectors := t\<rparr>)"
  "mg_connectors (snd (set_is_instance_primary ps w)) = mg_connectors w"
  by (simp_all add: push_sequence_command_def push_simple_command_def set_is_instance_primary_def push_connectors Let_def
      split: option.splits)

lemma answers_connectors:
  "about_session f ps (w\<lparr>mg_connectors := t\<rparr>) = about_session f ps w"
  "about_instance g ps (w\<lparr>mg_connectors := t\<rparr>) = about_instance g ps w"
  "session_names_text ps (w\<lparr>mg_connectors := t\<rparr>) = session_names_text ps w"
  "all_session_states_text ps (w\<lparr>mg_connectors := t\<rparr>) = all_session_states_text ps w"
  "uptime_text e (w\<lparr>mg_connectors := t\<rparr>) = uptime_text e w"
  by (simp_all add: about_session_def about_instance_def session_names_text_def all_session_states_text_def uptime_text_def
      split: option.split)

lemma process_command_connectors:
  "process_command e c ps (w\<lparr>mg_connectors := t\<rparr>) =
    (fst (process_command e c ps w), (snd (process_command e c ps w))\<lparr>mg_connectors := t\<rparr>)"
  "mg_connectors (snd (process_command e c ps w)) = mg_connectors w"
  by (cases c; simp add: process_command_def pushes_connectors answers_connectors)+

lemma on_command_delivered:
  assumes "delivers e" "mg_has_socket w p"
  obtains w' where "on_command e p buffer w = Some w'" "mg_connectors w' = mg_connectors w"
    "\<And>t. mg_has_socket (w\<lparr>mg_connectors := t\<rparr>) p \<Longrightarrow> on_command e p buffer (w\<lparr>mg_connectors := t\<rparr>) = Some (w'\<lparr>mg_connectors := t\<rparr>)"
proof (cases "create_command buffer")
  case None
  then show ?thesis using assms that by (simp add: on_command_def mg_send_def delivers_def Let_def)
next
  case (Some cps)
  obtain c ps where c: "create_command buffer = Some (c, ps)" using Some by (cases cps) auto
  let ?r = "fst (process_command e c ps w)" and ?v = "snd (process_command e c ps w)"
  have s: "mg_has_socket ?v p" using assms(2) by (simp add: mg_has_socket_def process_command_connectors(2))
  show ?thesis
  proof (cases "?r = []")
    case True
    then show ?thesis
      using that [of ?v] by (simp add: on_command_def c process_command_connectors case_prod_unfold)
  next
    case False
    let ?u = "?v\<lparr>mg_sends := mg_sends ?v + 1,
      mg_trace := mg_trace ?v @ [(p, ?r @ [COMMAND_DELIMITER], g_send e (mg_sends ?v))]\<rparr>"
    have "on_command e p buffer w = Some ?u"
      using False assms(1) s by (simp add: on_command_def c case_prod_unfold mg_send_def delivers_def Let_def)
    moreover have "on_command e p buffer (w\<lparr>mg_connectors := t\<rparr>) = Some (?u\<lparr>mg_connectors := t\<rparr>)"
      if "mg_has_socket (w\<lparr>mg_connectors := t\<rparr>) p" for t
      using that False assms(1)
      by (simp add: on_command_def c case_prod_unfold mg_send_def delivers_def Let_def process_command_connectors(1) mg_has_socket_def)
    ultimately show ?thesis using that [of ?u] by (simp add: process_command_connectors(2))
  qed
qed

text \<open>The length of the longest stretch without a delimiter, after \<open>n\<close> bytes without one.\<close>

fun longest_command :: "nat \<Rightarrow> string \<Rightarrow> nat" where
  "longest_command n [] = n"
| "longest_command n (ch # cs) = (if ch = COMMAND_DELIMITER then max n (longest_command 0 cs) else longest_command (n + 1) cs)"

lemma longest_command_ge: "n \<le> longest_command n bs"
  by (induction n bs rule: longest_command.induct) auto

text \<open>What the loop leaves behind, and that it neither reads nor writes the connectors.\<close>

definition loop_result :: "management_environment \<Rightarrow> nat \<Rightarrow> string \<Rightarrow> string \<Rightarrow> management \<Rightarrow> string \<Rightarrow> management \<Rightarrow> bool" where
  "loop_result e p current bs w rest w' \<longleftrightarrow>
     command_loop e p current bs w = Some (rest, w') \<and> mg_connectors w' = mg_connectors w \<and>
     (\<forall>t. mg_has_socket (w\<lparr>mg_connectors := t\<rparr>) p \<longrightarrow>
        command_loop e p current bs (w\<lparr>mg_connectors := t\<rparr>) = Some (rest, w'\<lparr>mg_connectors := t\<rparr>)) \<and>
     COMMAND_DELIMITER \<notin> set rest \<and>
     (\<forall>cs. longest_command (length rest) cs \<le> longest_command (length current) (bs @ cs))"

lemma command_loop_delivered:
  assumes "delivers e" "mg_has_socket w p" "COMMAND_DELIMITER \<notin> set current"
  shows "\<exists>rest w'. loop_result e p current bs w rest w'"
  using assms(2,3)
proof (induction bs arbitrary: current w)
  case Nil
  then show ?case by (auto simp: loop_result_def)
next
  case (Cons b bs)
  show ?case
  proof (cases "b = COMMAND_DELIMITER")
    case True
    obtain v where v: "on_command e p current w = Some v" "mg_connectors v = mg_connectors w"
      "\<And>t. mg_has_socket (w\<lparr>mg_connectors := t\<rparr>) p \<Longrightarrow> on_command e p current (w\<lparr>mg_connectors := t\<rparr>) = Some (v\<lparr>mg_connectors := t\<rparr>)"
      by (rule on_command_delivered [OF assms(1) Cons.prems(1), of current]) blast
    have s: "mg_has_socket v p" using Cons.prems(1) v(2) by (simp add: mg_has_socket_def)
    obtain rest w' where "loop_result e p [] bs v rest w'" using Cons.IH [OF s, of "[]"] by auto
    then have "loop_result e p current (b # bs) w rest w'"
      using True v by (simp add: loop_result_def mg_has_socket_def le_max_iff_disj)
    then show ?thesis by blast
  next
    case False
    have d: "COMMAND_DELIMITER \<notin> set (current @ [b])" using Cons.prems(2) False by simp
    obtain rest w' where "loop_result e p (current @ [b]) bs w rest w'" using Cons.IH [OF Cons.prems(1) d] by blast
    then have "loop_result e p current (b # bs) w rest w'" using False by (simp add: loop_result_def)
    then show ?thesis by blast
  qed
qed

lemma command_loop_append:
  "command_loop e p current (xs @ ys) w =
    (case command_loop e p current xs w of None \<Rightarrow> None | Some (rest, w) \<Rightarrow> command_loop e p rest ys w)"
  by (induction xs arbitrary: current w) (auto split: option.splits)

lemma command_loop_no_delimiter:
  "COMMAND_DELIMITER \<notin> set xs \<Longrightarrow> command_loop e p current xs w = Some (current @ xs, w)"
  by (induction xs arbitrary: current) auto
subsection \<open>Segmentation\<close>

text \<open>The events of a connection whose bytes arrive in these chunks.\<close>

fun feed :: "management_environment \<Rightarrow> nat \<Rightarrow> string list \<Rightarrow> management \<Rightarrow> management option" where
  "feed e p [] w = Some w"
| "feed e p (c # cs) w =
     (case mg_on_data_ready e p (int (length c)) c False w of None \<Rightarrow> None | Some w \<Rightarrow> feed e p cs w)"

definition fits_receive :: "string \<Rightarrow> bool" where
  "fits_receive c \<longleftrightarrow> c \<noteq> [] \<and> length c \<le> MANAGEMENT_RX_BUFFER_CAPACITY"

lemma data_ready_delivered:
  assumes "delivers e" "mg_has_socket w p" "COMMAND_DELIMITER \<notin> set (m_incomplete_buffer (mg_slot w p))"
    and "fits_receive c" "longest_command (length (m_incomplete_buffer (mg_slot w p))) (c @ cs) \<le> MANAGEMENT_RX_BUFFER_CAPACITY"
  obtains rest w' t where "loop_result e p (m_incomplete_buffer (mg_slot w p)) c w rest w'"
    "mg_on_data_ready e p (int (length c)) c False w = Some (w'\<lparr>mg_connectors := t\<rparr>)"
    "mg_has_socket (w\<lparr>mg_connectors := t\<rparr>) p" "m_incomplete_buffer (mg_slot (w\<lparr>mg_connectors := t\<rparr>) p) = rest"
proof -
  let ?inc = "m_incomplete_buffer (mg_slot w p)"
  define k where "k = receive (int (length c)) c (mg_slot w p)"
  define t1 where "t1 = (mg_connectors w)\<lparr>m_connectors := (m_connectors (mg_connectors w))[p := k]\<rparr>"
  have p: "p < length (m_connectors (mg_connectors w))" "m_socket (mg_slot w p) \<noteq> None"
    using assms(2) by (simp_all add: mg_has_socket_def mg_slot_def)
  have k: "m_socket k \<noteq> None" "m_incomplete_buffer k = ?inc" "m_rx_buffer k = c" "m_last_receive_result k = int (length c)"
    using p(2) by (simp_all add: k_def receive_def)
  have t1: "mg_has_socket (w\<lparr>mg_connectors := t1\<rparr>) p" "m_connectors t1 ! p = k" "p < length (m_connectors t1)"
    using p k(1) by (simp_all add: mg_has_socket_def t1_def)
  obtain rest w' where r: "loop_result e p ?inc c w rest w'"
    using command_loop_delivered [OF assms(1,2,3)] by blast
  have bound: "length ?inc \<le> MANAGEMENT_RX_BUFFER_CAPACITY" "length rest \<le> MANAGEMENT_RX_BUFFER_CAPACITY"
    using longest_command_ge [of "length ?inc" "c @ cs"] longest_command_ge [of "length rest" cs] r assms(5)
    unfolding loop_result_def by (meson le_trans)+
  have buffer: "get_rx_buffer MANAGEMENT_RX_BUFFER_CAPACITY k = Some (?inc @ c)"
    using bound(1) assms(4) by (simp add: get_rx_buffer_def k fits_receive_def)
  have loop: "command_loop e p [] (?inc @ c) (w\<lparr>mg_connectors := t1\<rparr>) = Some (rest, w'\<lparr>mg_connectors := t1\<rparr>)"
    using r t1(1) assms(3) by (simp add: command_loop_append command_loop_no_delimiter loop_result_def)
  define k2 where "k2 = k\<lparr>m_incomplete_buffer := rest\<rparr>"
  define t2 where "t2 = t1\<lparr>m_connectors := (m_connectors t1)[p := k2]\<rparr>"
  have "mg_process_rx_buffer e p (?inc @ c) (w\<lparr>mg_connectors := t1\<rparr>) = Some (w'\<lparr>mg_connectors := t2\<rparr>)"
    using bound(2) t1 by (simp add: mg_process_rx_buffer_def loop mg_map_connector_def Let_def set_incomplete_buffer_def
        reset_incomplete_buffer_def k2_def t2_def)
  moreover have "0 < int (length c)" "int (length c) \<le> int MANAGEMENT_RX_BUFFER_CAPACITY"
    using assms(4) by (simp_all add: fits_receive_def)
  moreover have "mg_map_connector p (\<lambda>c'. Some (receive (int (length c)) c c')) w = Some (w\<lparr>mg_connectors := t1\<rparr>)"
    using p(1) by (simp add: mg_map_connector_def Let_def t1_def k_def mg_slot_def)
  ultimately have "mg_on_data_ready e p (int (length c)) c False w = Some (w'\<lparr>mg_connectors := t2\<rparr>)"
    using t1 buffer k by (simp add: mg_on_data_ready_def mg_receive_done_def t2_def k2_def Let_def)
  moreover have "mg_has_socket (w\<lparr>mg_connectors := t2\<rparr>) p" "m_incomplete_buffer (mg_slot (w\<lparr>mg_connectors := t2\<rparr>) p) = rest"
    using t1(3) k(1) by (simp_all add: mg_has_socket_def mg_slot_def t2_def k2_def)
  ultimately show ?thesis using that r by blast
qed

lemma feed_delivered:
  assumes "delivers e" "mg_has_socket w p" "COMMAND_DELIMITER \<notin> set (m_incomplete_buffer (mg_slot w p))"
    and "list_all fits_receive chunks"
    and "longest_command (length (m_incomplete_buffer (mg_slot w p))) (concat chunks) \<le> MANAGEMENT_RX_BUFFER_CAPACITY"
  shows "\<exists>rest w' t. command_loop e p (m_incomplete_buffer (mg_slot w p)) (concat chunks) w = Some (rest, w') \<and>
    mg_connectors w' = mg_connectors w \<and> feed e p chunks w = Some (w'\<lparr>mg_connectors := t\<rparr>) \<and>
    m_incomplete_buffer (mg_slot (w'\<lparr>mg_connectors := t\<rparr>) p) = rest"
  using assms(2-)
proof (induction chunks arbitrary: w)
  case Nil
  then show ?case by (auto intro!: exI [of _ "mg_connectors w"])
next
  case (Cons c chunks)
  have c: "fits_receive c" using Cons.prems(3) by simp
  have l: "longest_command (length (m_incomplete_buffer (mg_slot w p))) (c @ concat chunks) \<le> MANAGEMENT_RX_BUFFER_CAPACITY"
    using Cons.prems(4) by simp
  obtain rest v t where v: "loop_result e p (m_incomplete_buffer (mg_slot w p)) c w rest v"
    "mg_on_data_ready e p (int (length c)) c False w = Some (v\<lparr>mg_connectors := t\<rparr>)"
    "mg_has_socket (w\<lparr>mg_connectors := t\<rparr>) p" "m_incomplete_buffer (mg_slot (w\<lparr>mg_connectors := t\<rparr>) p) = rest"
    by (rule data_ready_delivered [OF assms(1) Cons.prems(1,2) c l]) blast
  let ?v = "v\<lparr>mg_connectors := t\<rparr>"
  have inc: "m_incomplete_buffer (mg_slot ?v p) = rest" "mg_has_socket ?v p"
    using v(3,4) by (simp_all add: mg_slot_def mg_has_socket_def)
  have "longest_command (length rest) (concat chunks) \<le> MANAGEMENT_RX_BUFFER_CAPACITY"
    using v(1) l unfolding loop_result_def by (meson le_trans)
  then obtain rest' u s where u: "command_loop e p rest (concat chunks) ?v = Some (rest', u)" "mg_connectors u = mg_connectors ?v"
    "feed e p chunks ?v = Some (u\<lparr>mg_connectors := s\<rparr>)" "m_incomplete_buffer (mg_slot (u\<lparr>mg_connectors := s\<rparr>) p) = rest'"
    using Cons.IH [of ?v] inc v(1) Cons.prems(3) by (auto simp: loop_result_def)
  have sv: "mg_has_socket v p" using v(1) Cons.prems(1) by (simp add: loop_result_def mg_has_socket_def)
  have "COMMAND_DELIMITER \<notin> set rest" using v(1) by (simp add: loop_result_def)
  then obtain r2 u2 where u2: "loop_result e p rest (concat chunks) v r2 u2"
    using command_loop_delivered [OF assms(1) sv] by blast
  have "Some (rest', u) = Some (r2, u2\<lparr>mg_connectors := t\<rparr>)"
    using u2 inc(2) u(1) unfolding loop_result_def by metis
  then have e: "r2 = rest'" "u = u2\<lparr>mg_connectors := t\<rparr>" by simp_all
  have "command_loop e p (m_incomplete_buffer (mg_slot w p)) (concat (c # chunks)) w = Some (rest', u2)"
    using v(1) u2 e by (simp add: command_loop_append loop_result_def)
  moreover have "mg_connectors u2 = mg_connectors w" using v(1) u2 by (simp add: loop_result_def)
  moreover have "feed e p (c # chunks) w = Some (u2\<lparr>mg_connectors := s\<rparr>)" using v(2) u(3) e by simp
  moreover have "m_incomplete_buffer (mg_slot (u2\<lparr>mg_connectors := s\<rparr>) p) = rest'" using u(4) by (simp add: mg_slot_def)
  ultimately show ?case by blast
qed

text \<open>C22: The management server runs the commands in the bytes of a connection no matter how they are cut into receives:
  after any chunks its instances, answers and log level are those of running the commands of the whole
  stream, and the connector holds the unfinished command, as long as no command is longer than the receive
  capacity and no connection is lost while answering.\<close>

theorem commands_independent_of_segmentation:
  assumes "delivers e" "mg_has_socket w p" "m_incomplete_buffer (mg_slot w p) = []" "list_all fits_receive chunks"
    and "longest_command 0 (concat chunks) \<le> MANAGEMENT_RX_BUFFER_CAPACITY"
  shows "\<exists>rest w' v. command_loop e p [] (concat chunks) w = Some (rest, w') \<and> feed e p chunks w = Some v \<and>
    v\<lparr>mg_connectors := mg_connectors w\<rparr> = w' \<and> m_incomplete_buffer (mg_slot v p) = rest"
proof -
  obtain rest w' t where "command_loop e p [] (concat chunks) w = Some (rest, w')"
    "mg_connectors w' = mg_connectors w" "feed e p chunks w = Some (w'\<lparr>mg_connectors := t\<rparr>)"
    "m_incomplete_buffer (mg_slot (w'\<lparr>mg_connectors := t\<rparr>) p) = rest"
    using feed_delivered [OF assms(1,2) _ assms(4)] assms(3,5) by auto
  moreover have "(w'\<lparr>mg_connectors := t\<rparr>)\<lparr>mg_connectors := mg_connectors w\<rparr> = w'"
    using calculation(2) by simp
  ultimately show ?thesis by blast
qed
definition one_peer :: management where
  "one_peer = \<lparr>mg_application_start_timestamp = 0, mg_engine_version = ''1'', mg_log_file_path = ''/l'',
     mg_server_instances = [], mg_client_instances = [], mg_log_level = LEVEL_INFO, mg_successfully_created = True,
     mg_no_connected_clients = 1,
     mg_connectors = \<lparr>m_connectors = [\<lparr>m_connected = True, m_socket = Some 7, m_last_receive_result = 0, m_rx_buffer = [],
       m_incomplete_buffer = []\<rparr>], m_descriptor_index_table = [7 \<mapsto> 0]\<rparr>,
     mg_clock_reads = 0, mg_sends = 0, mg_trace = []\<rparr>"

lemma one_peer_simps:
  "mg_has_socket one_peer 0" "m_incomplete_buffer (mg_slot one_peer 0) = []"
  "get_instance n one_peer = None"
  by (simp_all add: one_peer_def mg_has_socket_def mg_slot_def get_instance_def)

theorem commands_independent_of_segmentation_witness:
  "\<exists>rest w' v. command_loop \<lparr>g_monotonic = \<lambda>_. 0, g_send = \<lambda>_. SendOk\<rparr> 0 [] ''help|get_up'' one_peer = Some (rest, w') \<and>
    feed \<lparr>g_monotonic = \<lambda>_. 0, g_send = \<lambda>_. SendOk\<rparr> 0 [''hel'', ''p|get'', ''_up''] one_peer = Some v \<and>
    v\<lparr>mg_connectors := mg_connectors one_peer\<rparr> = w' \<and> m_incomplete_buffer (mg_slot v 0) = rest"
proof -
  have "delivers \<lparr>g_monotonic = \<lambda>_. 0, g_send = \<lambda>_. SendOk\<rparr>" by (simp add: delivers_def)
  moreover have "list_all fits_receive [''hel'', ''p|get'', ''_up'']" by (simp add: fits_receive_def MANAGEMENT_RX_BUFFER_CAPACITY_def)
  moreover have "longest_command 0 (concat [''hel'', ''p|get'', ''_up'']) \<le> MANAGEMENT_RX_BUFFER_CAPACITY"
    by (simp add: MANAGEMENT_RX_BUFFER_CAPACITY_def)
  ultimately show ?thesis
    using commands_independent_of_segmentation [of "\<lparr>g_monotonic = \<lambda>_. 0, g_send = \<lambda>_. SendOk\<rparr>" one_peer 0 "[''hel'', ''p|get'', ''_up'']"]
      one_peer_simps by simp
qed

subsection \<open>Commands only append to queues\<close>

definition queued_after :: "session \<Rightarrow> session \<Rightarrow> bool" where
  "queued_after s s' \<longleftrightarrow> (\<exists>cs. s' = s\<lparr>m_admin_commands := m_admin_commands s @ cs\<rparr>)"

lemma queued_after_refl [intro, simp]: "queued_after s s"
  unfolding queued_after_def by (rule exI [of _ "[]"]) simp

lemma queued_after_trans: "queued_after s s' \<Longrightarrow> queued_after s' s'' \<Longrightarrow> queued_after s s''"
  by (auto simp: queued_after_def)

lemma queued_after_command [intro, simp]: "queued_after s (queue_command t arg s)"
  by (auto simp: queued_after_def queue_command_def)

text \<open>What the management server may do to an instance.\<close>

definition only_queued :: "engine_instance \<Rightarrow> engine_instance \<Rightarrow> bool" where
  "only_queued i i' \<longleftrightarrow> instance_ok i' \<and> get_session_names i' = get_session_names i \<and>
     is_instance_ha_primary i' = is_instance_ha_primary i \<and>
     (\<forall>m. rel_option queued_after (instance_session m i) (instance_session m i'))"

lemma only_queued_refl: "instance_ok i \<Longrightarrow> only_queued i i"
  by (simp add: only_queued_def option.rel_refl)

lemma push_only_queued:
  assumes "instance_ok i" "instance_session n i \<noteq> None \<or> n = ''*''"
  shows "only_queued i (push_instance_command n t arg i)"
proof (cases i)
  case (Server_instance st w)
  have "m_is_ha_primary (fold (\<lambda>n. push_admin_command_internal n t arg) ns w) = m_is_ha_primary w" for ns
    by (induction ns arbitrary: w) (simp_all add: push_admin_command_internal_def upd_session_def)
  then have "m_is_ha_primary (push_admin_command n t arg w) = m_is_ha_primary w"
    by (simp add: push_admin_command_def push_admin_command_internal_def upd_session_def)
  then show ?thesis
    using assms push_admin_command_sessions [of w n t arg]
    by (simp add: only_queued_def Server_instance server_session_def has_session_def push_admin_command_names)
next
  case (Client_instance c)
  then show ?thesis
    by (simp add: only_queued_def client_session_names_def client_session_def push_client_command_def
        client_push_admin_command_def on_session_def queued_after_def admin_command_def [symmetric]) blast
qed

text \<open>All instances of a list, by position.\<close>

definition all_queued :: "management \<Rightarrow> management \<Rightarrow> bool" where
  "all_queued w w' \<longleftrightarrow>
     (\<forall>n. rel_option only_queued (get_instance n w) (get_instance n w'))"

definition instances_ok :: "management \<Rightarrow> bool" where
  "instances_ok w \<longleftrightarrow> (\<forall>n i. get_instance n w = Some i \<longrightarrow> instance_ok i)"

lemma instance_named_on: "instance_named m (on_named n f is) =
    (if m = n then map_option f (instance_named m is) else instance_named m is)"
  by (induction "is") auto

lemma get_on_instance: "get_instance m (on_instance n f w) = (if m = n then map_option f (get_instance m w) else get_instance m w)"
  by (auto simp: get_instance_def on_instance_def instance_named_on split: option.splits)

lemma transp_queued_after: "transp (rel_option queued_after)"
  by (intro option.rel_transp transpI) (rule queued_after_trans)

lemma only_queued_trans:
  assumes "only_queued i i'" "only_queued i' i''"
  shows "only_queued i i''"
proof -
  have "rel_option queued_after (instance_session m i) (instance_session m i'')" for m
    using transpD [OF transp_queued_after, of "instance_session m i" "instance_session m i'" "instance_session m i''"] assms
    by (simp add: only_queued_def)
  then show ?thesis using assms by (simp add: only_queued_def)
qed

lemma transp_only_queued: "transp (rel_option only_queued)"
  by (intro option.rel_transp transpI) (rule only_queued_trans)

lemma all_queued_trans:
  assumes "all_queued w w'" "all_queued w' w''"
  shows "all_queued w w''"
proof -
  have "rel_option only_queued (get_instance n w) (get_instance n w'')" for n
    using transpD [OF transp_only_queued, of "get_instance n w" "get_instance n w'" "get_instance n w''"] assms
    by (simp add: all_queued_def)
  then show ?thesis by (simp add: all_queued_def)
qed

lemma all_queued_ok:
  assumes "all_queued w w'"
  shows "instances_ok w'"
  unfolding instances_ok_def
proof (intro allI impI)
  fix n i assume i: "get_instance n w' = Some i"
  have "rel_option only_queued (get_instance n w) (get_instance n w')" using assms by (simp add: all_queued_def)
  then obtain j where "only_queued j i" unfolding i by (cases "get_instance n w") auto
  then show "instance_ok i" by (simp add: only_queued_def)
qed

lemma all_queued_same:
  assumes "instances_ok w" "\<And>n. get_instance n w' = get_instance n w"
  shows "all_queued w w'"
  unfolding all_queued_def
proof
  fix n
  show "rel_option only_queued (get_instance n w) (get_instance n w')"
    using assms only_queued_refl by (cases "get_instance n w") (simp_all add: instances_ok_def)
qed

lemma all_queued_push:
  assumes "instances_ok w" "get_managed_session n m w \<noteq> None \<or> m = ''*''"
  shows "all_queued w (on_instance n (push_instance_command m t arg) w)"
  unfolding all_queued_def
proof
  fix k
  show "rel_option only_queued (get_instance k w) (get_instance k (on_instance n (push_instance_command m t arg) w))"
    using assms push_only_queued [of _ m t arg] only_queued_refl
    by (cases "get_instance k w") (auto simp: get_on_instance instances_ok_def get_managed_session_def)
qed
lemma get_instance_updates [simp]:
  "get_instance n (w\<lparr>mg_sends := k\<rparr>) = get_instance n w" "get_instance n (w\<lparr>mg_trace := tr\<rparr>) = get_instance n w"
  "get_instance n (w\<lparr>mg_no_connected_clients := j\<rparr>) = get_instance n w"
  "get_instance n (w\<lparr>mg_clock_reads := k\<rparr>) = get_instance n w" "get_instance n (w\<lparr>mg_log_level := l\<rparr>) = get_instance n w"
  by (simp_all add: get_instance_def split: option.split)

lemma push_to_session_queued: "instances_ok w \<Longrightarrow> all_queued w (snd (push_to_session n m t arg w))"
  by (auto simp: push_to_session_def intro: all_queued_same all_queued_push split: option.split)

lemma set_primary_queued: "instances_ok w \<Longrightarrow> all_queued w (snd (set_is_instance_primary ps w))"
  by (auto simp: set_is_instance_primary_def Let_def intro: all_queued_same all_queued_push split: option.split)

lemma process_command_queued:
  assumes "instances_ok w"
  shows "all_queued w (snd (process_command e c ps w))"
proof -
  have same: "all_queued w w" "\<And>k. all_queued w (w\<lparr>mg_clock_reads := k\<rparr>)" "\<And>l. all_queued w (w\<lparr>mg_log_level := l\<rparr>)"
    using assms by (auto intro: all_queued_same)
  have push: "all_queued w (snd (push_sequence_command t ps w))" "all_queued w (snd (push_simple_command t ps w))" for t
    using assms push_to_session_queued same(1)
    by (simp_all add: push_sequence_command_def push_simple_command_def split: option.split)
  show ?thesis
    by (cases c) (simp_all add: process_command_def same push set_primary_queued [OF assms])
qed

lemma mg_send_queued:
  assumes "mg_send e p buffer w = Some w'"
  shows "get_instance n w' = get_instance n w"
  using assms by (auto simp: mg_send_def mg_on_client_disconnected_def Let_def split: if_splits option.splits)

lemma on_command_queued:
  assumes "instances_ok w" "on_command e p buffer w = Some w'"
  shows "all_queued w w'"
proof (cases "create_command buffer")
  case None
  then show ?thesis using assms mg_send_queued by (auto simp: on_command_def intro: all_queued_same)
next
  case (Some cps)
  obtain c ps where c: "create_command buffer = Some (c, ps)" using Some by (cases cps) auto
  let ?v = "snd (process_command e c ps w)"
  have v: "all_queued w ?v" by (rule process_command_queued [OF assms(1)])
  have "get_instance n w' = get_instance n ?v" for n
    using assms(2) mg_send_queued by (auto simp: on_command_def c case_prod_unfold split: if_splits)
  then have "all_queued ?v w'" by (intro all_queued_same all_queued_ok [OF v])
  then show ?thesis by (rule all_queued_trans [OF v])
qed

lemma command_loop_queued:
  assumes "instances_ok w" "command_loop e p current bs w = Some (rest, w')"
  shows "all_queued w w'"
  using assms
proof (induction bs arbitrary: current w)
  case Nil
  then show ?case by (auto intro: all_queued_same)
next
  case (Cons b bs)
  show ?case
  proof (cases "b = COMMAND_DELIMITER")
    case True
    then obtain v where v: "on_command e p current w = Some v" "command_loop e p [] bs v = Some (rest, w')"
      using Cons.prems(2) by (auto split: option.splits)
    have q: "all_queued w v" by (rule on_command_queued [OF Cons.prems(1) v(1)])
    show ?thesis by (rule all_queued_trans [OF q Cons.IH [OF all_queued_ok [OF q] v(2)]])
  next
    case False
    then show ?thesis using Cons by simp
  qed
qed

lemma mg_map_connector_same: "mg_map_connector p f w = Some w' \<Longrightarrow> get_instance n w' = get_instance n w"
  by (auto simp: mg_map_connector_def Let_def split: if_splits)

lemma mg_process_queued:
  assumes "instances_ok w" "mg_process_rx_buffer e p buffer w = Some w'"
  shows "all_queued w w'"
proof -
  obtain rest v where v: "command_loop e p [] buffer w = Some (rest, v)"
    using assms(2) by (auto simp: mg_process_rx_buffer_def split: option.splits)
  have q: "all_queued w v" by (rule command_loop_queued [OF assms(1) v])
  have "get_instance n w' = get_instance n v" for n
    using assms(2) mg_map_connector_same by (auto simp: mg_process_rx_buffer_def v split: if_splits)
  then have "all_queued v w'" by (intro all_queued_same all_queued_ok [OF q])
  then show ?thesis by (rule all_queued_trans [OF q])
qed

text \<open>C23: Whatever bytes a management connection sends, every instance keeps its sessions, its role and the state of each
  session, apart from administrative commands appended to the queues: changes to sessions are left to the
  threads of the instances.\<close>

theorem management_only_queues:
  assumes "instances_ok w" "mg_on_data_ready e p result data lost w = Some w'"
  shows "rel_option only_queued (get_instance n w) (get_instance n w')"
proof -
  obtain v where v: "mg_map_connector p (\<lambda>c. Some (receive result data c)) w = Some v"
    using assms(2) by (auto simp: mg_on_data_ready_def split: option.splits)
  have v_same: "get_instance n v = get_instance n w" for n by (rule mg_map_connector_same [OF v])
  have v_ok: "instances_ok v" using assms(1) v_same by (simp add: instances_ok_def)
  obtain u where u: "all_queued v u" "mg_receive_done p lost u = Some w'"
  proof (cases "0 < result \<and> result \<le> int MANAGEMENT_RX_BUFFER_CAPACITY")
    case True
    then obtain buffer u where "mg_process_rx_buffer e p buffer v = Some u" "mg_receive_done p lost u = Some w'"
      using assms(2) by (auto simp: mg_on_data_ready_def v split: option.splits)
    then show ?thesis using that mg_process_queued [OF v_ok] by blast
  next
    case False
    then have "mg_receive_done p lost v = Some w'" using assms(2) by (auto simp: mg_on_data_ready_def v)
    then show ?thesis using that all_queued_same [OF v_ok, of v] by blast
  qed
  have "get_instance n w' = get_instance n u"
    using u(2) by (auto simp: mg_receive_done_def mg_on_client_disconnected_def Let_def split: if_splits option.splits)
  then show ?thesis using u(1) v_same by (simp add: all_queued_def)
qed

definition managed_pair :: management where
  "managed_pair = one_peer\<lparr>mg_server_instances :=
     [\<lparr>mi_name = ''I'', mi_instance = Server_instance default_server_settings (two_connections new_incoming_message)\<rparr>]\<rparr>"

lemma managed_pair_simps:
  "mg_has_socket managed_pair 0" "m_incomplete_buffer (mg_slot managed_pair 0) = []" "instances_ok managed_pair"
  "get_instance ''I'' managed_pair = Some (Server_instance default_server_settings (two_connections new_incoming_message))"
  by (simp_all add: managed_pair_def one_peer_def mg_has_socket_def mg_slot_def get_instance_def instances_ok_def
      two_connections_def)

theorem management_only_queues_witness:
  "\<exists>w'. mg_on_data_ready \<lparr>g_monotonic = \<lambda>_. 0, g_send = \<lambda>_. SendOk\<rparr> 0 19 ''enable_session I B|'' False managed_pair = Some w' \<and>
    rel_option only_queued (get_instance ''I'' managed_pair) (get_instance ''I'' w') \<and> get_instance ''I'' w' \<noteq> None"
proof -
  let ?e = "\<lparr>g_monotonic = \<lambda>_. 0, g_send = \<lambda>_. SendOk\<rparr>" and ?c = "''enable_session I B|''"
  have "delivers ?e" "fits_receive ?c" "longest_command 0 ?c \<le> MANAGEMENT_RX_BUFFER_CAPACITY"
    by (simp_all add: delivers_def fits_receive_def MANAGEMENT_RX_BUFFER_CAPACITY_def)
  then obtain w' where w': "mg_on_data_ready ?e 0 (int (length ?c)) ?c False managed_pair = Some w'"
    using data_ready_delivered [of ?e managed_pair 0 ?c "[]"] managed_pair_simps by auto
  have "rel_option only_queued (get_instance ''I'' managed_pair) (get_instance ''I'' w')"
    by (rule management_only_queues [OF managed_pair_simps(3) w'])
  moreover from this have "get_instance ''I'' w' \<noteq> None" by (auto simp: managed_pair_simps(4) elim: option.rel_cases)
  ultimately show ?thesis using w' by auto
qed

subsection \<open>Sequence numbers set by a command\<close>

definition token :: "string \<Rightarrow> bool" where
  "token s \<longleftrightarrow> CHR '' '' \<notin> set s"

lemma create_command_token:
  "token t \<Longrightarrow> create_command_loop cur (t @ cs) found = create_command_loop (cur @ t) cs found"
  by (induction t arbitrary: cur) (auto simp: token_def)

lemma create_command_three:
  assumes "token i" "token s" "token n" "token c" "create_command_from_single_token c = Some k"
  shows "create_command (c @ '' '' @ i @ '' '' @ s @ '' '' @ n) = Some (k, [i, s, n])"
  using assms create_command_token [OF assms(3), of "[]" "[]"] by (simp add: create_command_def create_command_token)

lemma no_commands_left: "m_admin_commands s = [] \<Longrightarrow> s\<lparr>m_admin_commands := [], m_sequence_store := q\<rparr> = s\<lparr>m_sequence_store := q\<rparr>"
  by (cases s) simp

lemma sequence_parameter_dec:
  assumes "unat (v :: u32) \<le> 2147483647"
  shows "sequence_parameter (dec (unat v)) = Some v"
proof -
  have "CHR ''-'' \<notin> set (dec (unat v))" using dec_digits is_digit_not_blank by blast
  moreover have "is_int (int (unat v))" using assms unfolding is_int_def by linarith
  then have "stoi (dec (unat v)) = Some (int (unat v))" by (simp add: stoi_dec)
  ultimately show ?thesis by (simp add: sequence_parameter_def)
qed

lemma token_dec: "token (dec n)"
  using dec_digits [of "CHR '' ''" n] by (auto simp: token_def is_digit_def)

text \<open>C24: The command \<open>set_incoming_sequence_number\<close> for a session of a server is acknowledged, and once the server's
  thread has run the queue of the session, whose last entry it is, the session expects the number after it
  and nothing else of any session has changed. Numbers above the largest \<open>int\<close> are refused.\<close>

theorem command_sets_incoming_sequence_number:
  assumes "delivers e" "mg_has_socket w p" "get_instance i w = Some (Server_instance st v)" "instance_ok (Server_instance st v)"
    and "n \<in> set (srv_session_names v)" "n \<noteq> ''*''" "token i" "token n" "m_admin_commands (m_sessions v n) = []"
  shows "\<exists>w'. on_command e p (''set_incoming_sequence_number '' @ i @ '' '' @ n @ '' '' @ dec (unat k)) w = Some w' \<and>
    (if unat k \<le> 2147483647 then
       mg_trace w' = mg_trace w @ [(p, pushed_response @ [COMMAND_DELIMITER], g_send e (mg_sends w))] \<and>
       (\<exists>v'. get_instance i w' = Some (Server_instance st v') \<and>
          process_admin_commands se n v' = Some (upd_session n (map_store (set_incoming_seq_no k)) v))
     else mg_trace w' = mg_trace w @ [(p, ''No results'' @ [COMMAND_DELIMITER], g_send e (mg_sends w))] \<and>
       get_instance i w' = get_instance i w)"
proof -
  have found: "get_managed_session i n w = Some (m_sessions v n)"
    using assms(3,5) by (simp add: get_managed_session_def server_session_def has_session_def)
  have parsed: "create_command (''set_incoming_sequence_number '' @ i @ '' '' @ n @ '' '' @ dec (unat k)) =
      Some (CMD_SET_INCOMING_SEQUENCE_NUMBER, [i, n, dec (unat k)])"
    using create_command_three [OF assms(7,8) token_dec, of "''set_incoming_sequence_number''" CMD_SET_INCOMING_SEQUENCE_NUMBER]
    by (simp add: token_def create_command_from_single_token_def command_table_def)
  have run: "on_command e p (''set_incoming_sequence_number '' @ i @ '' '' @ n @ '' '' @ dec (unat k)) w =
      (case process_command e CMD_SET_INCOMING_SEQUENCE_NUMBER [i, n, dec (unat k)] w of
         (response, w) \<Rightarrow> if 0 < length response then mg_send e p (response @ [COMMAND_DELIMITER]) w else Some w)"
    unfolding on_command_def parsed by simp
  show ?thesis
  proof (cases "unat k \<le> 2147483647")
    case True
    define u where "u = on_instance i (push_instance_command n SET_INCOMING_SEQUENCE_NUMBER k) w"
    have answered: "process_command e CMD_SET_INCOMING_SEQUENCE_NUMBER [i, n, dec (unat k)] w = (pushed_response, u)"
      by (simp add: process_command_def push_sequence_command_def sequence_parameter_dec [OF True] push_to_session_def found u_def)
    have same: "mg_has_socket u p" "mg_trace u = mg_trace w" "mg_sends u = mg_sends w"
      using assms(2) by (simp_all add: u_def mg_has_socket_def on_instance_def split: option.split)
    have q: "get_instance i u = Some (Server_instance st (push_admin_command n SET_INCOMING_SEQUENCE_NUMBER k v))"
      by (simp add: u_def get_on_instance assms(3))
    have "process_admin_commands se n (push_admin_command n SET_INCOMING_SEQUENCE_NUMBER k v) =
        Some (upd_session n (map_store (set_incoming_seq_no k)) v)"
      using assms(6,9) by (simp add: process_admin_commands_def push_admin_command_def push_admin_command_internal_def
          process_admin_command_def upd_session_def map_store_def no_commands_left)
    then show ?thesis
      using True assms(1) same q unfolding run
      by (simp add: answered mg_send_def delivers_def Let_def pushed_response_def)
  next
    case False
    then have "\<not> is_int (int (unat k))" unfolding is_int_def by linarith
    then have "stoi (dec (unat k)) = None" by (simp add: stoi_dec)
    then show ?thesis
      using False assms(1,2) unfolding run
      by (simp add: process_command_def push_sequence_command_def sequence_parameter_def
          mg_send_def delivers_def Let_def)
  qed
qed
theorem command_sets_incoming_sequence_number_witness:
  "\<exists>w'. on_command \<lparr>g_monotonic = \<lambda>_. 0, g_send = \<lambda>_. SendOk\<rparr> 0 ''set_incoming_sequence_number I A 8'' managed_pair = Some w' \<and>
    mg_trace w' = [(0, ''Successfully pushed to the admin commands queue|'', SendOk)] \<and>
    (\<exists>v. get_instance ''I'' w' = Some (Server_instance default_server_settings v) \<and>
      process_admin_commands sample_server_environment ''A'' v =
        Some (upd_session ''A'' (map_store (set_incoming_seq_no 8)) (two_connections new_incoming_message)))"
proof -
  let ?e = "\<lparr>g_monotonic = \<lambda>_. 0, g_send = \<lambda>_. SendOk\<rparr>"
  have "delivers ?e" "instance_ok (Server_instance default_server_settings (two_connections new_incoming_message))"
    "''A'' \<in> set (srv_session_names (two_connections new_incoming_message))" "token ''I''" "token ''A''"
    "m_admin_commands (m_sessions (two_connections new_incoming_message) ''A'') = []" "mg_trace managed_pair = []"
    by (simp_all add: delivers_def two_connections_def token_def new_session_def managed_pair_def one_peer_def)
  moreover have "dec (unat (8 :: u32)) = ''8''" by (simp add: dec_small digit_char_def) code_simp
  ultimately show ?thesis
    using command_sets_incoming_sequence_number [of ?e managed_pair 0 "''I''" default_server_settings
        "two_connections new_incoming_message" "''A''" 8 sample_server_environment] managed_pair_simps
    by (simp add: pushed_response_def)
qed

text \<open>A connection that is lost while one command is answered takes the process down at the next answer in the same
  buffer, because the loop goes on with the null socket of the recycled connector.\<close>

theorem answer_after_lost_connection:
  assumes "g_send e (mg_sends one_peer) = SendLost"
  shows "mg_on_data_ready e 0 10 ''help|help|'' False one_peer = None"
proof -
  have h: "create_command ''help'' = Some (HELP, [])"
    by (simp add: create_command_def create_command_from_single_token_def command_table_def)
  have n: "help_text \<noteq> []" by (simp add: help_text_def)
  define k where "k = receive 10 ''help|help|'' (mg_slot one_peer 0)"
  define w1 where "w1 = one_peer\<lparr>mg_connectors := (mg_connectors one_peer)\<lparr>m_connectors := [k]\<rparr>\<rparr>"
  have w1: "mg_has_socket w1 0" "m_connectors (mg_connectors w1) = [k]" "mg_sends w1 = mg_sends one_peer"
    by (simp_all add: w1_def mg_has_socket_def k_def receive_def mg_slot_def one_peer_def)
  obtain w2 where w2: "on_command e 0 ''help'' w1 = Some w2" "\<not> mg_has_socket w2 0"
    using w1 assms by (simp add: on_command_def h process_command_def n mg_send_def Let_def mg_on_client_disconnected_def
        recycle_connector_def connector_close_def mg_has_socket_def)
  have "on_command e 0 ''help'' w2 = None"
    using w2(2) by (simp add: on_command_def h process_command_def n mg_send_def)
  then have loop: "command_loop e 0 [] ''help|help|'' w1 = None" using w2(1) by simp
  have proc: "mg_process_rx_buffer e 0 ''help|help|'' w1 = None" unfolding mg_process_rx_buffer_def loop by simp
  have "mg_map_connector 0 (\<lambda>c. Some (receive 10 ''help|help|'' c)) one_peer = Some w1"
    by (simp add: mg_map_connector_def w1_def k_def mg_slot_def one_peer_def Let_def)
  moreover have "get_rx_buffer MANAGEMENT_RX_BUFFER_CAPACITY k = Some ''help|help|''"
    by (simp add: get_rx_buffer_def k_def receive_def mg_slot_def one_peer_def)
  ultimately show ?thesis
    by (simp add: mg_on_data_ready_def w1(2) proc MANAGEMENT_RX_BUFFER_CAPACITY_def)
qed

end
