(* ===== verification/Message_Delivery.thy ===== *)
theory Message_Delivery
  imports Server_Behaviour Wire_Exchange Client_Properties
begin

text \<open>
  How one encoded message passes through the receiver: the bytes of \<open>encode\<close> arrive in an empty connector, are
  found to be one whole message, and reach \<open>process_incoming_fix_message\<close> with the fields that were encoded. The
  same for the server and for the client.
\<close>

subsection \<open>The boundaries of an encoded message\<close>

lemma encoded_shape:
  obtains p c where "fst (encode st i now q m) = ''8='' @ p @ ''10='' @ dec3 c @ [SOH]" "c < 256"
proof -
  let ?t = "ensure_send_time (timestamp_subseconds_precision st) now m"
  let ?p = "begin_string st @ [SOH] @ ''9='' @ u32_text (word_of_nat (body_length st i ?t q m)) @ [SOH] @
    encode_after_length st i ?t q m"
  have "fst (encode st i now q m) = ''8='' @ ?p @ ''10='' @ dec3 (checksum_of (''8='' @ ?p)) @ [SOH]"
    unfolding encode_def Let_def encode_checksum_either by simp
  then show ?thesis using that checksum_of_less by blast
qed

lemma delimiter_at_end: "find_delimiter_from_end (x @ [SOH]) = Some (length x)"
  by (simp add: find_delimiter_from_end_def)

lemma begin_string_at_start: "find_begin_string_position (''8='' @ x) = Some 0"
proof -
  have "[0..<length (''8='' @ x) - 1] = 0 # [1..<length (''8='' @ x) - 1]" by (subst upt_rec) simp
  then show ?thesis unfolding find_begin_string_position_def by simp
qed

lemma tag10_at_end:
  assumes "c < 256"
  shows "find_tag10_start_from_end (p @ ''10='' @ dec3 c @ [SOH]) (length p + 6) = (length p, Some (length p + 6))"
proof -
  let ?b = "p @ ''10='' @ dec3 c @ [SOH]"
  obtain x y z where d: "dec3 c = [x, y, z]" by (simp add: dec3_def)
  have "is_digit x" "is_digit y" "is_digit z" using dec3_digits [OF assms] by (simp_all add: d)
  then have n: "x \<noteq> CHR ''=''" "y \<noteq> CHR ''=''" "z \<noteq> CHR ''=''" "x \<noteq> SOH" "y \<noteq> SOH" "z \<noteq> SOH"
    by (auto simp: is_digit_def)
  have at: "tag10_at ?b (Suc (Suc (Suc (Suc (length p))))) = False" "tag10_at ?b (Suc (Suc (Suc (length p)))) = False"
    "tag10_at ?b (Suc (Suc (length p))) = False" "tag10_at ?b (Suc (length p)) = False" "tag10_at ?b (length p) = True"
    using n by (simp_all add: tag10_at_def nth_append d)
  have "scan_tag10 ?b (Suc (Suc (Suc (Suc (length p))))) = (length p, True)"
    using at by (cases "length p") simp_all
  moreover have "min (length p + 6) (length ?b - 3) = Suc (Suc (Suc (Suc (length p))))"
    by (simp add: d(1))
  moreover have "List.find (\<lambda>t. ?b ! t = SOH) [length p + 2..<length ?b] = Some (length p + 6)"
    using n by (simp add: upt_conv_Cons nth_append d)
  ultimately show ?thesis by (simp add: find_tag10_start_from_end_def d(1))
qed

lemma encoded_boundaries:
  assumes "b = fst (encode st i now q m)"
  obtains k j where "length b = k + 1" "4 \<le> k" "find_delimiter_from_end b = Some k"
    "find_tag10_start_from_end b k = (j, Some k)" "find_begin_string_position b = Some 0"
proof -
  obtain x c where x: "b = ''8='' @ x @ ''10='' @ dec3 c @ [SOH]" "c < 256"
    unfolding assms by (rule encoded_shape)
  let ?p = "''8='' @ x"
  show ?thesis
  proof (rule that [of "length ?p + 6" "length ?p"])
    show "length b = length ?p + 6 + 1" "4 \<le> length ?p + 6" using x(1) by (simp_all add: dec3_def)
    show "find_delimiter_from_end b = Some (length ?p + 6)"
      using delimiter_at_end [of "?p @ ''10='' @ dec3 c"] x(1) by (simp add: dec3_def)
    show "find_tag10_start_from_end b (length ?p + 6) = (length ?p, Some (length ?p + 6))"
      using tag10_at_end [OF x(2), of ?p] x(1) by simp
    show "find_begin_string_position b = Some 0"
      unfolding x(1) by (rule begin_string_at_start)
  qed
qed

text \<open>A message that \<open>encode\<close> can send and the receiver can scan, and a scanned message with its fields.\<close>

definition transmissible :: "group_specs \<Rightarrow> session_settings \<Rightarrow> u32 \<Rightarrow> nat \<Rightarrow> u32 \<Rightarrow> outgoing_message \<Rightarrow> bool" where
  "transmissible specs st i now q m \<longleftrightarrow> sendable st i m \<and>
     (\<exists>mt. pack_message_type (m_msg_type m) = Some mt \<and> no_groups_for specs mt) \<and>
     length (encode_after_length st i (sent_at st now) q m) < 2 ^ 31"

definition carries :: "incoming_message \<Rightarrow> session_settings \<Rightarrow> u32 \<Rightarrow> nat \<Rightarrow> u32 \<Rightarrow> outgoing_message \<Rightarrow> bool" where
  "carries im st i now q m \<longleftrightarrow> message_wf im \<and>
     message_view im = (map_of (message_fields st i now q m))
       (TAG_CHECKSUM \<mapsto> dec3 (checksum_of (concat (map field (message_fields st i now q m)))))"

lemma scanned:
  assumes "transmissible specs st i now q m" "message_wf im"
  obtains ps where "parse_message specs (fst (encode st i now q m)) 0 im =
      Parsed ps (length (fst (encode st i now q m)) - 1)" "carries (ps_message ps) st i now q m" "ps_reject_code ps = -1"
proof -
  obtain mt where mt: "pack_message_type (m_msg_type m) = Some mt" "no_groups_for specs mt"
    using assms(1) by (auto simp: transmissible_def)
  have s: "sendable st i m" and len: "length (encode_after_length st i (sent_at st now) q m) < 2 ^ 31"
    using assms(1) by (simp_all add: transmissible_def)
  obtain ps where ps: "parse_message specs ([] @ fst (encode st i now q m) @ []) (length ([] :: string)) im =
      Parsed ps (length ([] :: string) + length (fst (encode st i now q m)) - 1)"
    "message_wf (ps_message ps)" "m_repeating_groups (ps_message ps) = []" "ps_reject_code ps = -1"
    "message_view (ps_message ps) = (map_of (message_fields st i now q m))
       (TAG_CHECKSUM \<mapsto> dec3 (checksum_of (concat (map field (message_fields st i now q m)))))"
    by (rule parse_encoded [OF s assms(2) mt len])
  then show ?thesis by (intro that [of ps]) (simp_all add: carries_def)
qed

lemma carries_view:
  assumes "carries im st i now q m" "t \<noteq> TAG_CHECKSUM"
  shows "message_view im t = map_of (message_fields st i now q m) t"
  using assms by (simp add: carries_def)

lemma carries_number:
  assumes "carries im st i now q m"
  shows "has_tag im TAG_MSG_SEQ_NUM" "tag_u32 im TAG_MSG_SEQ_NUM = q"
proof -
  have "message_view im TAG_MSG_SEQ_NUM = Some (dec (unat q))"
    using carries_view [OF assms, of TAG_MSG_SEQ_NUM] unfolding message_fields_lookup by (simp add: tag_defs)
  then show "has_tag im TAG_MSG_SEQ_NUM" "tag_u32 im TAG_MSG_SEQ_NUM = q"
    by (simp_all add: has_tag_view tag_u32_def tag_value_view chars_to_unsigned_int_dec)
qed

lemma carries_type:
  assumes "carries im st i now q m"
  shows "has_tag im TAG_MSG_TYPE" "tag_value im TAG_MSG_TYPE = m_msg_type m"
proof -
  have "message_view im TAG_MSG_TYPE = Some (m_msg_type m)"
    using carries_view [OF assms, of TAG_MSG_TYPE] unfolding message_fields_lookup by (simp add: tag_defs)
  then show "has_tag im TAG_MSG_TYPE" "tag_value im TAG_MSG_TYPE = m_msg_type m"
    by (simp_all add: has_tag_view tag_value_view)
qed

text \<open>The clocks of sender and receiver: readings have years of four digits, and a message is never too old.\<close>

definition clocks_agree :: "(nat \<Rightarrow> nat) \<Rightarrow> (nat \<Rightarrow> nat) \<Rightarrow> session_settings \<Rightarrow> bool" where
  "clocks_agree sending arrival st \<longleftrightarrow> max_allowed_message_age_seconds st < 2 ^ 31 \<and>
     (\<forall>k. sending k div 1000000000 < 253402300800) \<and>
     (max_allowed_message_age_seconds st = 0 \<or>
      (\<forall>k j. int (arrival j div 1000000000) - int (sending k div 1000000000) \<le> int (max_allowed_message_age_seconds st)))"

lemma carries_accepted:
  assumes "carries im st i (sending k) q m" "transmissible specs st i (sending k) q m" "mirrored st (m_settings s)"
    "clocks_agree sending arrival (m_settings s)"
  shows "validate_fix_message (arrival j) im (fst (encode st i (sending k) q m)) (-1) out s = (s, True, out)"
proof (rule validate_fix_message_accepted, rule encoded_acceptable)
  show "message_view im = (map_of (message_fields st i (sending k) q m))
      (TAG_CHECKSUM \<mapsto> dec3 (checksum_of (concat (map field (message_fields st i (sending k) q m)))))"
    using assms(1) by (simp add: carries_def)
qed (use assms in \<open>auto simp: transmissible_def clocks_agree_def\<close>)

subsection \<open>The server's receive buffer\<close>

text \<open>What happens to one whole message of session \<open>n\<close> that fills the buffer.\<close>

definition whole_message :: "server_environment \<Rightarrow> string \<Rightarrow> nat \<Rightarrow> string \<Rightarrow> server \<Rightarrow> server option" where
  "whole_message e n p b w =
     do {
       w \<leftarrow> process_incoming_fix_message e n p b (-1) w;
       if m_state (m_sessions w n) = DISCONNECTED then Some w
       else map_connector p (\<lambda>c. Some (reset_incomplete_buffer c)) w
     }"

lemma process_rx_buffer_whole:
  fixes b :: string
  assumes t: "transmissible (e_group_specs e) st i now q m" and b: "b = fst (encode st i now q m)"
    and im: "message_to_fill (get_session w p) w = Some im" "message_wf im"
  obtains ps where "carries (ps_message ps) st i now q m" "ps_reject_code ps = -1"
    "process_rx_buffer e p b w =
       (case session_for e p (get_session w p) ps (store_message (get_session w p) (ps_message ps) w) of
          None \<Rightarrow> None
        | Some (None, w) \<Rightarrow> Some w
        | Some (Some n, w) \<Rightarrow> whole_message e n p b w)"
proof -
  obtain ps where ps: "parse_message (e_group_specs e) b 0 im = Parsed ps (length b - 1)"
    "carries (ps_message ps) st i now q m" "ps_reject_code ps = -1"
    using scanned [OF t im(2)] unfolding b .
  obtain k j where len: "length b = k + 1" "4 \<le> k" and d: "find_delimiter_from_end b = Some k"
    and f: "find_tag10_start_from_end b k = (j, Some k)" and s: "find_begin_string_position b = Some 0"
    by (rule encoded_boundaries [OF b])
  have rp: "rx_parsed e p b k 0 n k (-1) v = map_option (Pair None) (whole_message e n p b v)" for n v
    unfolding rx_parsed_def whole_message_def Let_def using len
    by (auto simp: map_option_case split: option.split bind_splits if_splits)
  have rm: "rx_message e p b k 0 (get_session w p) w =
       (case session_for e p (get_session w p) ps (store_message (get_session w p) (ps_message ps) w) of
          None \<Rightarrow> None
        | Some (None, w) \<Rightarrow> Some (None, w)
        | Some (Some n, w) \<Rightarrow> map_option (Pair None) (whole_message e n p b w))"
    by (simp add: rx_message_def s im(1) ps len rp split: option.split)
  have "process_rx_buffer e p b w = rx_loop e p b k 0 (get_session w p) w"
    unfolding process_rx_buffer_def d option.case f prod.case MINIMUM_REQUIRED_INITIAL_BUFFER_FOR_PARSING_def
    using len by simp
  also have "\<dots> = (case session_for e p (get_session w p) ps (store_message (get_session w p) (ps_message ps) w) of
          None \<Rightarrow> None
        | Some (None, w) \<Rightarrow> Some w
        | Some (Some n, w) \<Rightarrow> whole_message e n p b w)"
    unfolding rx_loop.simps [of e p b k 0] rm using len
    by (auto simp: map_option_case split: option.split)
  finally show ?thesis using that ps by blast
qed

subsection \<open>The next message of a session\<close>

text \<open>What taking note of a message leaves alone.\<close>

lemma note_received_keeps [simp]:
  "m_settings (m_sessions (note_received e n b w) k) = m_settings (m_sessions w k)"
  "m_state (m_sessions (note_received e n b w) k) = m_state (m_sessions w k)"
  "m_sequence_store (m_sessions (note_received e n b w) k) = m_sequence_store (m_sessions w k)"
  "m_incoming_fix_message (m_sessions (note_received e n b w) k) = m_incoming_fix_message (m_sessions w k)"
  "m_outgoing_fix_message (m_sessions (note_received e n b w) k) = m_outgoing_fix_message (m_sessions w k)"
  "get_session (note_received e n b w) p = get_session w p" "get_peer_index (note_received e n b w) k = get_peer_index w k"
  "srv_connectors (note_received e n b w) = srv_connectors w" "srv_sends (note_received e n b w) = srv_sends w"
  "srv_trace (note_received e n b w) = srv_trace w"
  by (auto simp: note_received_def serialise_incoming_def Let_def upd_session_def tick_def get_session_def get_peer_index_def)

text \<open>The message with the next number is counted and handed to its handler; before that happens nothing but the
  number of the session has changed, and the persist plugin was told.\<close>

definition counted :: "server_environment \<Rightarrow> string \<Rightarrow> string \<Rightarrow> server \<Rightarrow> server \<Rightarrow> bool" where
  "counted e n b w v \<longleftrightarrow>
     m_settings (m_sessions v n) = m_settings (m_sessions w n) \<and> m_state (m_sessions v n) = m_state (m_sessions w n) \<and>
     m_sequence_store (m_sessions v n) = increment_incoming_seq_no (m_sequence_store (m_sessions w n)) \<and>
     m_incoming_fix_message (m_sessions v n) = m_incoming_fix_message (m_sessions w n) \<and>
     m_outgoing_fix_message (m_sessions v n) = m_outgoing_fix_message (m_sessions w n) \<and>
     (\<forall>p. get_session v p = get_session w p) \<and> (\<forall>k. get_peer_index v k = get_peer_index w k) \<and>
     srv_connectors v = srv_connectors w \<and> srv_sends v = srv_sends w \<and>
     srv_trace v = srv_trace w @ (if e_has_persist_plugin e then
       [Persist_incoming n (session_incoming_seq_no (m_sessions w n) + 1) b] else [])"

lemma accept_message_next:
  assumes "has_tag (m_incoming_fix_message (m_sessions w n)) TAG_MSG_SEQ_NUM"
    "tag_u32 (m_incoming_fix_message (m_sessions w n)) TAG_MSG_SEQ_NUM = session_incoming_seq_no (m_sessions w n) + 1"
    "throttle_limit (m_settings (m_sessions w n)) = 0" "m_state (m_sessions w n) \<noteq> IN_RETRANSMISSION_INITIATED_BY_SELF"
  obtains v where "accept_message e n p b w = dispatch_message e n p v" "counted e n b w v"
proof -
  define v where "v = (let w = upd_session n (map_store increment_incoming_seq_no) w
      in if e_has_persist_plugin e then emit (Persist_incoming n (session_incoming_seq_no (m_sessions w n)) b) w else w)"
  have c: "counted e n b w v"
    by (simp add: counted_def v_def Let_def upd_session_def emit_def map_store_def increment_incoming_seq_no_def get_session_def
        get_peer_index_def)
  then have "check_sequence_number e n p v = Some (Seq_continue, v)" "process_incoming_throttling e n v = Some (True, v)"
    using assms by (simp_all add: check_sequence_number_def process_incoming_throttling_def counted_def Let_def
        increment_incoming_seq_no_def)
  then have "accept_message e n p b w = dispatch_message e n p v"
    unfolding accept_message_def v_def Let_def by simp
  with c show ?thesis using that by blast
qed

lemma next_message_dispatched:
  assumes "carries (m_incoming_fix_message (m_sessions w n)) st i (sending k) q m" "transmissible specs st i (sending k) q m"
    and "mirrored st (m_settings (m_sessions w n))" "clocks_agree sending (e_wall e) (m_settings (m_sessions w n))"
    and "q = session_incoming_seq_no (m_sessions w n) + 1" "throttle_limit (m_settings (m_sessions w n)) = 0"
    and "m_state (m_sessions w n) \<noteq> IN_RETRANSMISSION_INITIATED_BY_SELF"
  obtains v where "process_incoming_fix_message e n p (fst (encode st i (sending k) q m)) (-1) w = dispatch_message e n p v"
    "counted e n (fst (encode st i (sending k) q m)) w v"
proof -
  let ?b = "fst (encode st i (sending k) q m)"
  let ?w = "note_received e n ?b w"
  define u where "u = (if validations_enabled (m_settings (m_sessions ?w n)) then tick (upd_session n (\<lambda>_. m_sessions ?w n) ?w) else ?w)"
  have ok: "validate_fix_message (now_wall e ?w) (m_incoming_fix_message (m_sessions ?w n)) ?b (-1) (-1) (m_sessions ?w n)
      = (m_sessions ?w n, True, -1)"
    unfolding now_wall_def by (rule carries_accepted [where specs = specs]) (use assms(1-4) in simp_all)
  have p: "process_incoming_fix_message e n p ?b (-1) w = accept_message e n p ?b u"
    unfolding process_incoming_fix_message_def Let_def ok prod.case u_def by simp
  have us: "m_sessions u n = m_sessions ?w n" "\<And>p. get_session u p = get_session ?w p" "\<And>k. get_peer_index u k = get_peer_index ?w k"
    "srv_connectors u = srv_connectors ?w" "srv_sends u = srv_sends ?w" "srv_trace u = srv_trace ?w"
    by (simp_all add: u_def upd_session_def tick_def get_session_def get_peer_index_def)
  have pre: "has_tag (m_incoming_fix_message (m_sessions u n)) TAG_MSG_SEQ_NUM"
    "tag_u32 (m_incoming_fix_message (m_sessions u n)) TAG_MSG_SEQ_NUM = session_incoming_seq_no (m_sessions u n) + 1"
    "throttle_limit (m_settings (m_sessions u n)) = 0" "m_state (m_sessions u n) \<noteq> IN_RETRANSMISSION_INITIATED_BY_SELF"
    unfolding us note_received_keeps using assms(5-7) carries_number [OF assms(1)] by simp_all
  obtain v where v: "accept_message e n p ?b u = dispatch_message e n p v" "counted e n ?b u v"
    by (rule accept_message_next [OF pre])
  have "counted e n ?b w v" using v(2) unfolding counted_def us note_received_keeps by blast
  with p v(1) show ?thesis using that by simp
qed

subsection \<open>From the socket to the handler\<close>

text \<open>The slot of an open connection that has no incomplete message, and the server once the bytes are read.\<close>

definition listening :: "server \<Rightarrow> nat \<Rightarrow> bool" where
  "listening w p \<longleftrightarrow> has_socket w p \<and> m_incomplete_buffer (m_connectors (srv_connectors w) ! p) = []"

definition with_received :: "nat \<Rightarrow> string \<Rightarrow> server \<Rightarrow> server" where
  "with_received p b w = w\<lparr>srv_connectors := (srv_connectors w)\<lparr>m_connectors := (m_connectors (srv_connectors w))
     [p := receive (int (length b)) b (m_connectors (srv_connectors w) ! p)]\<rparr>\<rparr>"

lemma with_received_keeps [simp]:
  "m_sessions (with_received p b w) = m_sessions w" "get_session (with_received p b w) = get_session w"
  "get_peer_index (with_received p b w) = get_peer_index w" "srv_trace (with_received p b w) = srv_trace w"
  "srv_sends (with_received p b w) = srv_sends w" "srv_session_names (with_received p b w) = srv_session_names w"
  "srv_unknown_message (with_received p b w) = srv_unknown_message w"
  "srv_clock_reads (with_received p b w) = srv_clock_reads w"
  by (auto simp: with_received_def get_session_def get_peer_index_def fun_eq_iff)

lemma with_received_socket: "has_socket (with_received p b w) p = has_socket w p"
  by (auto simp: with_received_def has_socket_def receive_def)

lemma on_data_ready_bytes:
  assumes "listening w p" "b \<noteq> []" "length b \<le> e_rx_buffer_capacity e"
  shows "on_data_ready e p (int (length b)) b lost w = process_rx_buffer e p b (with_received p b w) \<bind> receive_done p lost"
proof -
  have p: "p < length (m_connectors (srv_connectors w))" using assms(1) by (simp add: listening_def has_socket_def)
  have "map_connector p (\<lambda>c. Some (receive (int (length b)) b c)) w = Some (with_received p b w)"
    using p by (simp add: map_connector_def with_received_def Let_def)
  moreover have "get_rx_buffer (e_rx_buffer_capacity e) (m_connectors (srv_connectors (with_received p b w)) ! p) = Some b"
    using assms(1) p by (simp add: with_received_def get_rx_buffer_def receive_def listening_def)
  ultimately show ?thesis using assms(2,3) by (simp add: on_data_ready_def)
qed

text \<open>A message that leaves the connection as it is.\<close>

lemma whole_message_done:
  assumes "process_incoming_fix_message e n p b (-1) u = Some v" "m_state (m_sessions v n) \<noteq> DISCONNECTED"
    "srv_connectors v = srv_connectors (with_received p b w)" "has_socket w p" "b \<noteq> []"
  obtains w' where "whole_message e n p b u \<bind> receive_done p lost = Some w'" "listening w' p"
    "m_sessions w' = m_sessions v" "get_session w' = get_session v" "get_peer_index w' = get_peer_index v"
    "srv_trace w' = srv_trace v" "srv_sends w' = srv_sends v"
proof -
  have p: "p < length (m_connectors (srv_connectors w))" using assms(4) by (simp add: has_socket_def)
  define w' where "w' = v\<lparr>srv_connectors := (srv_connectors v)\<lparr>m_connectors := (m_connectors (srv_connectors v))
     [p := reset_incomplete_buffer (m_connectors (srv_connectors v) ! p)]\<rparr>\<rparr>"
  have m: "map_connector p (\<lambda>c. Some (reset_incomplete_buffer c)) v = Some w'"
    using p by (simp add: map_connector_def w'_def Let_def assms(3) with_received_def)
  have "receive_done p lost w' = Some w'"
    using p assms(5) by (simp add: receive_done_def w'_def assms(3) with_received_def receive_def reset_incomplete_buffer_def)
  then have "whole_message e n p b u \<bind> receive_done p lost = Some w'"
    using assms(1,2) m by (simp add: whole_message_def)
  moreover have "listening w' p"
    using p assms(4) by (simp add: listening_def has_socket_def w'_def assms(3) with_received_def receive_def
        reset_incomplete_buffer_def)
  ultimately show ?thesis
    by (rule that) (simp_all add: w'_def get_session_def get_peer_index_def fun_eq_iff)
qed

subsection \<open>Delivery to the application\<close>

text \<open>The messages that are not the session's own business, and the callback that gets them.\<close>

definition application_type :: "string \<Rightarrow> bool" where
  "application_type t \<longleftrightarrow> t \<notin> (\<lambda>c. [c]) ` {MSG_TYPE_TEST_REQUEST, MSG_TYPE_RESEND_REQUEST, MSG_TYPE_LOGON, MSG_TYPE_LOGOUT,
     MSG_TYPE_SEQUENCE_RESET}"

definition callback_for :: "string \<Rightarrow> callback" where
  "callback_for t =
     (if t = [MSG_TYPE_NEW_ORDER] then On_new_order else if t = [MSG_TYPE_ORDER_CANCEL] then On_cancel_order
      else if t = [MSG_TYPE_ORDER_CANCEL_REPLACE] then On_replace_order
      else if t = [MSG_TYPE_HEARTBEAT] then On_client_heartbeat
      else if t = [MSG_TYPE_REJECT] then On_session_level_reject
      else if t = [MSG_TYPE_BUSINESS_REJECT] then On_application_level_reject else On_custom_message)"

lemma dispatch_application_message:
  assumes "has_tag (m_incoming_fix_message (m_sessions w n)) TAG_MSG_TYPE"
    "application_type (tag_value (m_incoming_fix_message (m_sessions w n)) TAG_MSG_TYPE)"
  shows "dispatch_message e n p w =
    Some (emit (Callback (callback_for (tag_value (m_incoming_fix_message (m_sessions w n)) TAG_MSG_TYPE)) n) w)"
proof -
  let ?t = "tag_value (m_incoming_fix_message (m_sessions w n)) TAG_MSG_TYPE"
  show ?thesis
  proof (cases "length ?t = 1")
    case True
    then obtain c where "?t = [c]" by (auto simp: length_Suc_conv)
    then show ?thesis using assms by (auto simp: dispatch_message_def callback_for_def application_type_def Let_def)
  next
    case False
    then show ?thesis using assms by (auto simp: dispatch_message_def callback_for_def Let_def)
  qed
qed

text \<open>C3: end to end: when the bytes that \<open>encode\<close> made of an application message of the peer arrive on the connection
  of its session, and it has the next number, the session holds its fields, the number is counted, and the one
  thing the application sees is the callback for its type, once; the connection is ready for the next message.\<close>

theorem application_message_delivered:
  assumes "get_session w p = Some n" "listening w p" "message_wf (m_incoming_fix_message (m_sessions w n))"
    and "transmissible (e_group_specs e) st i (sending k) q m" "application_type (m_msg_type m)"
    and "mirrored st (m_settings (m_sessions w n))" "clocks_agree sending (e_wall e) (m_settings (m_sessions w n))"
    and "m_state (m_sessions w n) = LOGGED_ON" "q = session_incoming_seq_no (m_sessions w n) + 1"
    and "throttle_limit (m_settings (m_sessions w n)) = 0"
    and "b = fst (encode st i (sending k) q m)" "length b \<le> e_rx_buffer_capacity e"
  shows "\<exists>w'. on_data_ready e p (int (length b)) b lost w = Some w' \<and>
    carries (m_incoming_fix_message (m_sessions w' n)) st i (sending k) q m \<and>
    session_incoming_seq_no (m_sessions w' n) = q \<and> m_state (m_sessions w' n) = LOGGED_ON \<and>
    get_session w' p = Some n \<and> listening w' p \<and>
    srv_trace w' = srv_trace w @ (if e_has_persist_plugin e then [Persist_incoming n q b] else []) @
      [Callback (callback_for (m_msg_type m)) n]"
proof -
  have b: "b \<noteq> []" unfolding assms(11) by (rule encode_nonempty)
  let ?r = "with_received p b w"
  have fill: "message_to_fill (get_session ?r p) ?r = Some (m_incoming_fix_message (m_sessions w n))"
    by (simp add: message_to_fill_def assms(1))
  obtain ps where ps: "carries (ps_message ps) st i (sending k) q m" and "ps_reject_code ps = -1"
    and rx: "process_rx_buffer e p b ?r =
       (case session_for e p (get_session ?r p) ps (store_message (get_session ?r p) (ps_message ps) ?r) of
          None \<Rightarrow> None | Some (None, w) \<Rightarrow> Some w | Some (Some n, w) \<Rightarrow> whole_message e n p b w)"
    by (rule process_rx_buffer_whole [OF assms(4,11) fill assms(3)])
  define u where "u = store_message (Some n) (ps_message ps) ?r"
  have u: "m_incoming_fix_message (m_sessions u n) = ps_message ps" "m_settings (m_sessions u n) = m_settings (m_sessions w n)"
    "m_state (m_sessions u n) = LOGGED_ON" "m_sequence_store (m_sessions u n) = m_sequence_store (m_sessions w n)"
    "srv_connectors u = srv_connectors ?r" "get_session u p = Some n" "srv_trace u = srv_trace w"
    using assms(1,8) by (simp_all add: u_def store_message_def upd_session_def get_session_def with_received_def)
  obtain v where v: "process_incoming_fix_message e n p b (-1) u = dispatch_message e n p v" "counted e n b u v"
    unfolding assms(11)
    by (rule next_message_dispatched [of u n st i sending k q m "e_group_specs e"])
      (use ps assms(4,6,7,9,10) in \<open>simp_all add: u\<close>)
  let ?v = "emit (Callback (callback_for (m_msg_type m)) n) v"
  have t: "has_tag (ps_message ps) TAG_MSG_TYPE" "tag_value (ps_message ps) TAG_MSG_TYPE = m_msg_type m"
    by (rule carries_type [OF ps])+
  have "dispatch_message e n p v = Some ?v"
    using dispatch_application_message [of v n e p] v(2) t assms(5) by (simp add: counted_def u)
  with v(1) have d: "process_incoming_fix_message e n p b (-1) u = Some ?v" by simp
  have "m_state (m_sessions ?v n) \<noteq> DISCONNECTED" "srv_connectors ?v = srv_connectors ?r" "has_socket w p"
    using v(2) assms(2) by (simp_all add: counted_def u emit_def listening_def)
  from whole_message_done [OF d this b, of lost] obtain w' where w': "whole_message e n p b u \<bind> receive_done p lost = Some w'"
    "listening w' p" "m_sessions w' = m_sessions ?v" "get_session w' = get_session ?v" "srv_trace w' = srv_trace ?v"
    by metis
  have "on_data_ready e p (int (length b)) b lost w = Some w'"
    unfolding on_data_ready_bytes [OF assms(2) b assms(12)] rx using w'(1)
    by (simp add: u_def assms(1) session_for_def)
  moreover have "get_session w' p = Some n"
    unfolding w'(4) using v(2) u(6) by (simp add: counted_def get_session_def emit_def)
  ultimately show ?thesis
    using w'(2,3,5) v(2) ps assms(9)
    by (intro exI [of _ w']) (simp add: counted_def u emit_def increment_incoming_seq_no_def)
qed

definition delivering_server :: server where
  "delivering_server = upd_session ''A'' (\<lambda>s. s\<lparr>m_settings := m_settings peer_session,
     m_sequence_store := (m_sequence_store s)\<lparr>incoming_seq_no := 6\<rparr>\<rparr>) (two_connections (sample_message 3))"

theorem application_message_delivered_witness:
  "\<exists>e b w'. on_data_ready e 0 (int (length b)) b False delivering_server = Some w' \<and>
    session_incoming_seq_no (m_sessions w' ''A'') = 7 \<and> srv_trace w' = [Callback On_new_order ''A'']"
proof -
  define sending :: "nat \<Rightarrow> nat" where "sending = (\<lambda>_. 1709208000123456789)"
  define b where "b = fst (encode office_hours 41 (sending 0) 7 order_message)"
  define e where "e = sample_server_environment\<lparr>e_wall := \<lambda>_. 1709208059000000000, e_rx_buffer_capacity := length b\<rparr>"
  have s: "get_session delivering_server 0 = Some ''A''" "listening delivering_server 0"
    "m_settings (m_sessions delivering_server ''A'') = m_settings peer_session" "srv_trace delivering_server = []"
    "message_wf (m_incoming_fix_message (m_sessions delivering_server ''A''))"
    "m_state (m_sessions delivering_server ''A'') = LOGGED_ON" "session_incoming_seq_no (m_sessions delivering_server ''A'') = 6"
    using sample_message_wf(1)
    by (simp_all add: delivering_server_def two_connections_def upd_session_def get_session_def listening_def has_socket_def
        open_slot_def new_connector_def new_session_def)
  have t: "transmissible (e_group_specs e) office_hours 41 (sending 0) 7 order_message"
    using order_message_sendable by (auto simp: transmissible_def e_def sample_server_environment_def)
  have type: "m_msg_type order_message = ''D''" by (simp add: order_message_fields)
  have o: "application_type (m_msg_type order_message)"
    "mirrored office_hours (m_settings (m_sessions delivering_server ''A''))"
    "clocks_agree sending (e_wall e) (m_settings (m_sessions delivering_server ''A''))"
    "7 = session_incoming_seq_no (m_sessions delivering_server ''A'') + 1"
    "throttle_limit (m_settings (m_sessions delivering_server ''A'')) = 0" "length b \<le> e_rx_buffer_capacity e"
    by (auto simp: s type application_type_def msg_type_defs mirrored_def clocks_agree_def peer_session_def office_hours_def
        default_session_settings_def e_def sending_def)
  have "\<exists>w'. on_data_ready e 0 (int (length b)) b False delivering_server = Some w' \<and>
    carries (m_incoming_fix_message (m_sessions w' ''A'')) office_hours 41 (sending 0) 7 order_message \<and>
    session_incoming_seq_no (m_sessions w' ''A'') = 7 \<and> m_state (m_sessions w' ''A'') = LOGGED_ON \<and>
    get_session w' 0 = Some ''A'' \<and> listening w' 0 \<and>
    srv_trace w' = srv_trace delivering_server @ (if e_has_persist_plugin e then [Persist_incoming ''A'' 7 b] else []) @
      [Callback (callback_for (m_msg_type order_message)) ''A'']"
    by (rule application_message_delivered [where sending = sending and k = 0, OF s(1,2,5) t o(1-3) s(6) o(4,5) b_def o(6)])
  then show ?thesis
    by (auto simp: s(4) e_def sample_server_environment_def type callback_for_def msg_type_defs)
qed

subsection \<open>The client\<close>

definition client_whole_message :: "client_environment \<Rightarrow> string \<Rightarrow> client \<Rightarrow> client option" where
  "client_whole_message e b w =
     do {
       w \<leftarrow> client_process_incoming_fix_message e b (-1) w;
       if cl_state w = DISCONNECTED then Some w else on_connector (\<lambda>c. Some (tc_reset_incomplete_buffer c)) w
     }"

lemma client_process_rx_buffer_whole:
  fixes b :: string
  assumes t: "transmissible (c_group_specs e) st i now q m" and b: "b = fst (encode st i now q m)"
    and wf: "message_wf (m_incoming_fix_message (cl_session w))"
  obtains im where "carries im st i now q m"
    "client_process_rx_buffer e b w = client_whole_message e b (on_session (\<lambda>s. s\<lparr>m_incoming_fix_message := im\<rparr>) w)"
proof -
  obtain ps where ps: "parse_message (c_group_specs e) b 0 (m_incoming_fix_message (cl_session w)) = Parsed ps (length b - 1)"
    "carries (ps_message ps) st i now q m" "ps_reject_code ps = -1"
    using scanned [OF t wf] unfolding b .
  obtain k j where len: "length b = k + 1" "4 \<le> k" and d: "find_delimiter_from_end b = Some k"
    and f: "find_tag10_start_from_end b k = (j, Some k)" and s: "find_begin_string_position b = Some 0"
    by (rule encoded_boundaries [OF b])
  have rp: "client_rx_parsed e b k 0 k (-1) v = map_option (Pair None) (client_whole_message e b v)" for v
    unfolding client_rx_parsed_def client_whole_message_def Let_def using len
    by (auto simp: map_option_case split: option.split bind_splits if_splits)
  let ?u = "on_session (\<lambda>s. s\<lparr>m_incoming_fix_message := ps_message ps\<rparr>) w"
  have rm: "client_rx_message e b k 0 w = map_option (Pair None) (client_whole_message e b ?u)"
    by (simp add: client_rx_message_def s ps len rp)
  have "client_process_rx_buffer e b w = client_rx_loop e b k 0 w"
    unfolding client_process_rx_buffer_def d option.case f prod.case CLIENT_MINIMUM_REQUIRED_INITIAL_BUFFER_FOR_PARSING_def
    using len by simp
  also have "\<dots> = client_whole_message e b ?u"
    unfolding client_rx_loop.simps [of e b k 0] rm using len by (auto simp: map_option_case split: option.split)
  finally show ?thesis using that ps(2) by blast
qed

definition client_counted :: "client_environment \<Rightarrow> string \<Rightarrow> client \<Rightarrow> client \<Rightarrow> bool" where
  "client_counted e b w v \<longleftrightarrow>
     m_settings (cl_session v) = m_settings (cl_session w) \<and> cl_state v = cl_state w \<and>
     m_sequence_store (cl_session v) = increment_incoming_seq_no (m_sequence_store (cl_session w)) \<and>
     m_incoming_fix_message (cl_session v) = m_incoming_fix_message (cl_session w) \<and>
     cl_connector v = cl_connector w \<and> cl_settings v = cl_settings w \<and>
     cl_trace v = cl_trace w @ (if c_has_persist_plugin e then
       [Client_persist_incoming (session_incoming_seq_no (cl_session w) + 1) b] else [])"

lemma client_accept_message_next:
  assumes "has_tag (m_incoming_fix_message (cl_session w)) TAG_MSG_SEQ_NUM"
    "tag_u32 (m_incoming_fix_message (cl_session w)) TAG_MSG_SEQ_NUM = session_incoming_seq_no (cl_session w) + 1"
    "cl_state w \<noteq> IN_RETRANSMISSION_INITIATED_BY_SELF"
  obtains v where "client_accept_message e b w = client_dispatch_message e v" "client_counted e b w v"
proof -
  define v where "v = (let w = on_session (map_store increment_incoming_seq_no) w
      in if c_has_persist_plugin e then cl_emit (Client_persist_incoming (session_incoming_seq_no (cl_session w)) b) w else w)"
  have c: "client_counted e b w v"
    by (simp add: client_counted_def v_def Let_def on_session_def cl_emit_def map_store_def increment_incoming_seq_no_def)
  then have "client_check_sequence_number v = Some (True, v)"
    using assms by (simp add: client_check_sequence_number_def client_counted_def Let_def increment_incoming_seq_no_def)
  then have "client_accept_message e b w = client_dispatch_message e v"
    unfolding client_accept_message_def v_def Let_def by simp
  with c show ?thesis using that by blast
qed

lemma client_note_received_keeps [simp]:
  "m_settings (cl_session (client_note_received e b w)) = m_settings (cl_session w)"
  "cl_state (client_note_received e b w) = cl_state w"
  "m_sequence_store (cl_session (client_note_received e b w)) = m_sequence_store (cl_session w)"
  "m_incoming_fix_message (cl_session (client_note_received e b w)) = m_incoming_fix_message (cl_session w)"
  "cl_connector (client_note_received e b w) = cl_connector w" "cl_settings (client_note_received e b w) = cl_settings w"
  "cl_trace (client_note_received e b w) = cl_trace w"
  by (auto simp: client_note_received_def Let_def on_session_def cl_tick_def)

lemma client_next_message_dispatched:
  assumes "carries (m_incoming_fix_message (cl_session w)) st i (sending k) q m" "transmissible specs st i (sending k) q m"
    and "mirrored st (m_settings (cl_session w))" "clocks_agree sending (c_wall e) (m_settings (cl_session w))"
    and "q = session_incoming_seq_no (cl_session w) + 1" "cl_state w \<noteq> IN_RETRANSMISSION_INITIATED_BY_SELF"
    and b: "b = fst (encode st i (sending k) q m)"
  obtains v where "client_process_incoming_fix_message e b (-1) w = client_dispatch_message e v" "client_counted e b w v"
proof -
  let ?w = "client_note_received e b w"
  define u where "u = (if validations_enabled (m_settings (cl_session ?w)) then cl_tick (on_session (\<lambda>_. cl_session ?w) ?w) else ?w)"
  have ok: "validate_fix_message (cl_wall e ?w) (m_incoming_fix_message (cl_session ?w)) b (-1) (-1) (cl_session ?w)
      = (cl_session ?w, True, -1)"
    unfolding cl_wall_def b by (rule carries_accepted [where specs = specs]) (use assms(1-4) in simp_all)
  have p: "client_process_incoming_fix_message e b (-1) w = client_accept_message e b u"
    unfolding client_process_incoming_fix_message_def Let_def ok prod.case u_def by simp
  have us: "cl_session u = cl_session ?w" "cl_connector u = cl_connector ?w" "cl_settings u = cl_settings ?w" "cl_trace u = cl_trace ?w"
    by (simp_all add: u_def on_session_def cl_tick_def)
  have pre: "has_tag (m_incoming_fix_message (cl_session u)) TAG_MSG_SEQ_NUM"
    "tag_u32 (m_incoming_fix_message (cl_session u)) TAG_MSG_SEQ_NUM = session_incoming_seq_no (cl_session u) + 1"
    "cl_state u \<noteq> IN_RETRANSMISSION_INITIATED_BY_SELF"
    unfolding us client_note_received_keeps using assms(5,6) carries_number [OF assms(1)] by simp_all
  obtain v where v: "client_accept_message e b u = client_dispatch_message e v" "client_counted e b u v"
    by (rule client_accept_message_next [OF pre])
  have "client_counted e b w v" using v(2) unfolding client_counted_def us client_note_received_keeps by blast
  with p v(1) show ?thesis using that by simp
qed

end
