(* ===== verification/Logon_Handshake.thy ===== *)
theory Logon_Handshake
  imports Message_Delivery
begin

text \<open>
  The client and the server together: a client connects and its Logon travels to the server, which answers; both
  sides then are logged on, and each expects the number the other one is about to use.
\<close>

subsection \<open>The two Logon messages\<close>

definition c_text :: "string \<Rightarrow> bool" where
  "c_text v \<longleftrightarrow> SOH \<notin> set v \<and> CHR 0x00 \<notin> set v"

definition logon_tags :: "u32 list" where
  "logon_tags = [TAG_ENCRYPT_METHOD, TAG_HEART_BT_INT, TAG_DEFAULT_APPL_VER_ID, TAG_RESET_SEQ_NUM_FLAG, TAG_NEXT_EXPECTED_SEQ_NUM,
     TAG_USERNAME, TAG_PASSWORD, TAG_NEW_PASSWORD]"

text \<open>A session that can build a Logon: the message is empty but for its static tags, as it is after each encoding,
  and the texts of the settings are free of delimiters; a message type without repeating groups.\<close>

definition ready_message :: "outgoing_message \<Rightarrow> bool" where
  "ready_message m \<longleftrightarrow> m_header m = [] \<and> m_body m = [] \<and> m_trailer m = [] \<and> m_fix_string_send_time m = None \<and>
     list_all (\<lambda>(t, v). t \<noteq> 0 \<and> t \<noteq> 369 \<and> t \<notin> set engine_tags \<and> t \<notin> set logon_tags \<and> plain_value v)
       (m_additional_static_header_tags m) \<and>
     distinct (map fst (m_additional_static_header_tags m)) \<and> length (m_additional_static_header_tags m) < 2 ^ 30"

definition logon_settings :: "session_settings \<Rightarrow> bool" where
  "logon_settings st \<longleftrightarrow> plain_value (begin_string st) \<and> plain_value (sender_comp_id st) \<and> plain_value (target_comp_id st) \<and>
     list_all c_text [default_app_ver_id st, logon_username st, logon_password st, logon_message_new_password st]"

definition request_body :: "session \<Rightarrow> (u32 \<times> string) list" where
  "request_body s =
     (let st = m_settings s
      in [(TAG_ENCRYPT_METHOD, ''0''), (TAG_HEART_BT_INT, dec (unat (heartbeat_seconds st)))] @
         opt (default_app_ver_id st \<noteq> []) TAG_DEFAULT_APPL_VER_ID (default_app_ver_id st) @
         opt (logon_reset_sequence_numbers st) TAG_RESET_SEQ_NUM_FLAG ''Y'' @
         opt (logon_include_next_expected_seq_no st) TAG_NEXT_EXPECTED_SEQ_NUM
           (dec (unat (session_incoming_seq_no (if logon_reset_sequence_numbers st then map_store reset_numbers s else s) + 1))) @
         opt (logon_username st \<noteq> []) TAG_USERNAME (logon_username st) @
         opt (logon_password st \<noteq> []) TAG_PASSWORD (logon_password st) @
         opt (logon_message_new_password st \<noteq> []) TAG_NEW_PASSWORD (logon_message_new_password st))"

definition response_body :: "session_settings \<Rightarrow> (u32 \<times> string) list" where
  "response_body st =
     [(TAG_ENCRYPT_METHOD, ''0''), (TAG_HEART_BT_INT, dec (unat (heartbeat_seconds st)))] @
     opt (default_app_ver_id st \<noteq> []) TAG_DEFAULT_APPL_VER_ID (default_app_ver_id st)"

lemma clean_c_string: "c_text v \<Longrightarrow> takeWhile (\<lambda>c. c \<noteq> CHR 0x00) v = v"
  by (auto simp: c_text_def takeWhile_eq_all_conv)

lemma logon_request_content:
  assumes "logon_settings (m_settings s)" "ready_message m" "build_logon_request s m = (s', m')"
  shows "s' = (if logon_reset_sequence_numbers (m_settings s) then map_store reset_numbers s else s)"
    "m_msg_type m' = [MSG_TYPE_LOGON]" "m_header m' = []" "m_trailer m' = []" "m_fix_string_send_time m' = None"
    "m_additional_static_header_tags m' = m_additional_static_header_tags m" "m_body m' = request_body s"
proof -
  have clean: "c_text (default_app_ver_id (m_settings s))" "c_text (logon_username (m_settings s))"
    "c_text (logon_password (m_settings s))" "c_text (logon_message_new_password (m_settings s))"
    using assms(1) by (simp_all add: logon_settings_def)
  note c = clean [THEN clean_c_string]
  show "s' = (if logon_reset_sequence_numbers (m_settings s) then map_store reset_numbers s else s)"
    "m_msg_type m' = [MSG_TYPE_LOGON]" "m_header m' = []" "m_trailer m' = []" "m_fix_string_send_time m' = None"
    "m_additional_static_header_tags m' = m_additional_static_header_tags m" "m_body m' = request_body s"
    using assms(2,3)
    by (auto simp: build_logon_request_def Let_def set_msg_type_char_def set_tag_int_def set_tag_u32_def set_tag_text_def
        set_tag_char_def c ready_message_def request_body_def opt_def int_text_zero heartbeat_seconds_def
        split: if_splits prod.splits)
qed

lemma logon_response_content:
  assumes "logon_settings (m_settings s)" "ready_message m" "m' = build_logon_response s m"
  shows "m_msg_type m' = [MSG_TYPE_LOGON]" "m_header m' = []" "m_trailer m' = []" "m_fix_string_send_time m' = None"
    "m_additional_static_header_tags m' = m_additional_static_header_tags m" "m_body m' = response_body (m_settings s)"
proof -
  have "c_text (default_app_ver_id (m_settings s))" using assms(1) by (simp add: logon_settings_def)
  note c = clean_c_string [OF this]
  show "m_msg_type m' = [MSG_TYPE_LOGON]" "m_header m' = []" "m_trailer m' = []" "m_fix_string_send_time m' = None"
    "m_additional_static_header_tags m' = m_additional_static_header_tags m" "m_body m' = response_body (m_settings s)"
    using assms(2)
    by (auto simp: assms(3) build_logon_response_def Let_def set_msg_type_char_def set_tag_int_def set_tag_u32_def set_tag_text_def
        c ready_message_def response_body_def opt_def int_text_zero heartbeat_seconds_def)
qed

text \<open>Both can be sent.\<close>

lemma opt_simps [simp]:
  "map fst (opt b t v) = (if b then [t] else [])" "list_all P (opt b t v) \<longleftrightarrow> (b \<longrightarrow> P (t, v))" "length (opt b t v) \<le> 1"
  by (simp_all add: opt_def)

lemma logon_sendable:
  assumes "logon_settings st" "ready_message m" "m_msg_type m' = [MSG_TYPE_LOGON]" "m_header m' = []" "m_trailer m' = []"
    "m_fix_string_send_time m' = None" "m_additional_static_header_tags m' = m_additional_static_header_tags m"
    and body: "set (map fst (m_body m')) \<subseteq> set logon_tags" "distinct (map fst (m_body m'))"
      "list_all (plain_value \<circ> snd) (m_body m')" "length (m_body m') \<le> 8"
  shows "sendable st i m'"
proof -
  let ?static = "m_additional_static_header_tags m"
  have static: "t \<noteq> 0 \<and> t \<noteq> 369 \<and> t \<notin> set engine_tags \<and> t \<notin> set logon_tags \<and> plain_value v" if "(t, v) \<in> set ?static" for t v
    using assms(2) that by (auto simp: ready_message_def list_all_iff)
  have logon: "t \<noteq> 0 \<and> t \<noteq> 369 \<and> t \<notin> set engine_tags" if "t \<in> set logon_tags" for t
    using that by (auto simp: logon_tags_def engine_tags_def tag_defs)
  have last: "(369 :: u32) \<noteq> 0 \<and> (369 :: u32) \<notin> set engine_tags" by (simp add: engine_tags_def tag_defs)
  have x: "extra_fields st i m' = opt (include_last_processed_seqnum_in_header st) 369 (dec (unat i)) @ ?static @ m_body m'"
    by (simp add: extra_fields_def opt_def assms(4,5,7))
  have "t \<noteq> 0 \<and> t \<notin> set engine_tags \<and> plain_value v" if "(t, v) \<in> set (m_body m')" for t v
    using that body(1,3) logon by (force simp: list_all_iff)
  then have "list_all (\<lambda>(t, v). t \<noteq> 0 \<and> t \<notin> set engine_tags \<and> plain_value v) (extra_fields st i m')"
    unfolding x list_all_append using static last by (auto simp: list_all_iff opt_def)
  moreover have "distinct (map fst (extra_fields st i m'))"
    unfolding x using assms(2) body(1,2) static logon by (force simp: ready_message_def opt_def)
  moreover have "length (extra_fields st i m') < 2 ^ 31"
    using assms(2) body(4) opt_simps(3) [of "include_last_processed_seqnum_in_header st" 369 "dec (unat i)"]
    by (simp add: x ready_message_def)
  ultimately show ?thesis
    using assms(1,3,6) by (simp add: sendable_def logon_settings_def plain_value_def MSG_TYPE_LOGON_def)
qed

lemma plain_clean: "c_text v \<Longrightarrow> v \<noteq> [] \<Longrightarrow> plain_value v"
  by (simp add: c_text_def plain_value_def)

lemma request_body_plain:
  assumes "logon_settings (m_settings s)"
  shows "set (map fst (request_body s)) \<subseteq> set logon_tags" "distinct (map fst (request_body s))"
    "list_all (plain_value \<circ> snd) (request_body s)" "length (request_body s) \<le> 8"
proof -
  show "set (map fst (request_body s)) \<subseteq> set logon_tags" "distinct (map fst (request_body s))"
    by (auto simp: request_body_def logon_tags_def Let_def tag_defs)
  show "list_all (plain_value \<circ> snd) (request_body s)"
    using assms by (auto simp: request_body_def Let_def logon_settings_def plain_clean) (simp_all add: plain_value_def)
  show "length (request_body s) \<le> 8" by (simp add: request_body_def Let_def opt_def)
qed

lemma response_body_plain:
  assumes "logon_settings st"
  shows "set (map fst (response_body st)) \<subseteq> set logon_tags" "distinct (map fst (response_body st))"
    "list_all (plain_value \<circ> snd) (response_body st)" "length (response_body st) \<le> 8"
proof -
  show "set (map fst (response_body st)) \<subseteq> set logon_tags" "distinct (map fst (response_body st))"
    by (auto simp: response_body_def logon_tags_def Let_def tag_defs)
  show "list_all (plain_value \<circ> snd) (response_body st)"
    using assms by (auto simp: response_body_def Let_def logon_settings_def plain_clean) (simp_all add: plain_value_def)
  show "length (response_body st) \<le> 8" by (simp add: response_body_def Let_def opt_def)
qed

subsection \<open>Reading a Logon\<close>

lemma map_of_absent: "t \<notin> fst ` set xs \<Longrightarrow> map_of (xs @ ys) t = map_of ys t"
proof -
  assume "t \<notin> fst ` set xs"
  then have "map_of xs t = None" by (simp add: map_of_eq_None_iff)
  then show ?thesis by (simp add: map_add_def split: option.split)
qed

lemma carried_body:
  assumes "carries im st i now q m'" "t \<in> set logon_tags" "ready_message m" "m_header m' = []" "m_trailer m' = []"
    "m_additional_static_header_tags m' = m_additional_static_header_tags m"
  shows "message_view im t = map_of (m_body m') t"
proof -
  have t: "t \<notin> set engine_tags" "t \<noteq> 369" using assms(2) by (auto simp: logon_tags_def engine_tags_def tag_defs)
  have st: "t \<notin> fst ` set (m_additional_static_header_tags m)"
    using assms(2,3) by (force simp: ready_message_def list_all_iff)
  let ?h = "opt (include_last_processed_seqnum_in_header st) 369 (dec (unat i))"
  have x: "extra_fields st i m' = ?h @ m_additional_static_header_tags m @ m_body m'"
    by (simp add: extra_fields_def opt_def assms(4-6))
  have h: "t \<notin> fst ` set ?h" using t(2) by (auto simp: opt_def)
  have "map_of (extra_fields st i m') t = map_of (m_body m') t"
    unfolding x map_of_absent [OF h] map_of_absent [OF st] ..
  moreover have "map_of (message_fields st i now q m') t = map_of (extra_fields st i m') t"
    using t(1) by (simp add: message_fields_def wire_fields_def head_fields_def Let_def engine_tags_def)
  ultimately show ?thesis
    using carries_view [OF assms(1), of t] t(1) by (simp add: engine_tags_def)
qed

lemma request_body_lookup:
  "map_of (request_body s) TAG_ENCRYPT_METHOD = Some ''0''"
  "map_of (request_body s) TAG_HEART_BT_INT = Some (dec (unat (heartbeat_seconds (m_settings s))))"
  "map_of (request_body s) TAG_RESET_SEQ_NUM_FLAG = (if logon_reset_sequence_numbers (m_settings s) then Some ''Y'' else None)"
  by (auto simp: request_body_def Let_def opt_def tag_defs)

text \<open>What the server needs to see in the message.\<close>

lemma carried_logon:
  assumes "carries im st i now q m'" "m_msg_type m' = [MSG_TYPE_LOGON]" "m_body m' = request_body s" "ready_message m"
    "m_header m' = []" "m_trailer m' = []" "m_additional_static_header_tags m' = m_additional_static_header_tags m"
    and hb: "heartbeat_seconds (m_settings s) \<noteq> 0"
  shows "requests_logon im" "tag_value im TAG_BEGIN_STRING = begin_string st" "tag_value im TAG_SENDER_COMP_ID = sender_comp_id st"
    "tag_value im TAG_TARGET_COMP_ID = target_comp_id st" "validate_logon_request im"
    "tag_u32 im TAG_HEART_BT_INT = heartbeat_seconds (m_settings s)"
    "has_tag im TAG_RESET_SEQ_NUM_FLAG \<and> tag_char im TAG_RESET_SEQ_NUM_FLAG = CHR ''Y'' \<longleftrightarrow> logon_reset_sequence_numbers (m_settings s)"
proof -
  have n: "TAG_BEGIN_STRING \<noteq> TAG_CHECKSUM" "TAG_MSG_SEQ_NUM \<noteq> TAG_CHECKSUM" "TAG_SENDER_COMP_ID \<noteq> TAG_CHECKSUM"
    "TAG_TARGET_COMP_ID \<noteq> TAG_CHECKSUM" "TAG_MSG_TYPE \<noteq> TAG_CHECKSUM" by (simp_all add: tag_defs)
  note v = carries_view [OF assms(1) n(1)] carries_view [OF assms(1) n(2)] carries_view [OF assms(1) n(3)]
    carries_view [OF assms(1) n(4)] carries_view [OF assms(1) n(5)]
  note v = v [unfolded message_fields_lookup assms(2)]
  note body = carried_body [OF assms(1) _ assms(4-7), unfolded assms(3)]
  have b: "message_view im TAG_ENCRYPT_METHOD = Some ''0''"
    "message_view im TAG_HEART_BT_INT = Some (dec (unat (heartbeat_seconds (m_settings s))))"
    "message_view im TAG_RESET_SEQ_NUM_FLAG = (if logon_reset_sequence_numbers (m_settings s) then Some ''Y'' else None)"
    using body [of TAG_ENCRYPT_METHOD] body [of TAG_HEART_BT_INT] body [of TAG_RESET_SEQ_NUM_FLAG]
    unfolding request_body_lookup by (simp_all add: logon_tags_def)
  show "requests_logon im"
    using v by (simp add: requests_logon_def has_tag_view tag_char_def tag_value_view)
  show "tag_value im TAG_BEGIN_STRING = begin_string st" "tag_value im TAG_SENDER_COMP_ID = sender_comp_id st"
    "tag_value im TAG_TARGET_COMP_ID = target_comp_id st" using v by (simp_all add: tag_value_view)
  show hv: "tag_u32 im TAG_HEART_BT_INT = heartbeat_seconds (m_settings s)"
    by (simp add: tag_u32_def tag_value_view [OF b(2)] chars_to_unsigned_int_dec)
  have "CHR ''-'' \<notin> set (dec k)" "CHR ''.'' \<notin> set (dec k)" for k
    using list_all_dec [of k] by (auto simp: list_all_iff is_digit_def)
  then show "validate_logon_request im"
    using hb b by (simp add: validate_logon_request_def hv has_tag_view tag_value_view)
  show "has_tag im TAG_RESET_SEQ_NUM_FLAG \<and> tag_char im TAG_RESET_SEQ_NUM_FLAG = CHR ''Y'' \<longleftrightarrow>
      logon_reset_sequence_numbers (m_settings s)"
    using b(3) by (auto simp: has_tag_view tag_char_def tag_value_view)
qed

subsection \<open>The server's side\<close>

lemma bind_session_defined:
  assumes "message_wf message" "message_wf (m_incoming_fix_message (m_sessions w n))"
  obtains w' where "bind_session p n message w = Some w'" "message_wf (m_incoming_fix_message (m_sessions w' n))"
    "message_view (m_incoming_fix_message (m_sessions w' n)) = message_view message"
    "m_outgoing_fix_message (m_sessions w' n) = m_outgoing_fix_message (m_sessions w n)"
    "srv_connectors w' = srv_connectors w" "srv_sends w' = srv_sends w"
proof -
  let ?r = "reset_message (m_incoming_fix_message (m_sessions w n))"
  obtain im where im: "copy_non_dirty_tag_values_from message ?r = Some im" "message_wf im"
    "message_view im = message_view ?r ++ message_view message"
    by (rule copy_non_dirty_view [OF assms(1) reset_message_wf(1) [OF assms(2)]])
  have v: "message_view im = message_view message" by (simp add: im(3) reset_message_wf(2) [OF assms(2)])
  let ?u = "upd_session n (\<lambda>s. s\<lparr>m_incoming_fix_message := im\<rparr>) (upd_session n reset_flags (update_peer p n w))"
  let ?w = "upd_session n (set_state PENDING_LOGON)
    (if has_tag message TAG_RESET_SEQ_NUM_FLAG \<and> tag_char message TAG_RESET_SEQ_NUM_FLAG = CHR ''Y''
     then upd_session n (map_store reset_numbers) ?u else ?u)"
  have "m_incoming_fix_message (m_sessions (upd_session n reset_flags (update_peer p n w)) n) = m_incoming_fix_message (m_sessions w n)"
    by (simp add: upd_session_def update_peer_def reset_flags_def Let_def)
  then have "bind_session p n message w = Some ?w"
    using im(1) by (simp add: bind_session_def Let_def)
  then show ?thesis
    by (rule that) (simp_all add: upd_session_def update_peer_def set_state_def map_store_def reset_flags_def Let_def im(2) v)
qed

text \<open>A send that works changes nothing but the numbers and the records of sending.\<close>

lemma send_outgoing_ok:
  assumes "get_peer_index w n = Some p" "has_socket w p" "\<And>k. e_send e k = SendOk"
    "length (fst (encode (m_settings (m_sessions w n)) (session_incoming_seq_no (m_sessions w n)) (now_wall e w)
       (session_outgoing_seq_no (m_sessions w n) + 1) (m_outgoing_fix_message (m_sessions w n)))) \<le> e_tx_encode_buffer_capacity e"
  obtains w' where "send_outgoing_message e n w = Some (True, w')" "srv_connectors w' = srv_connectors w"
    "get_session w' = get_session w" "get_peer_index w' = get_peer_index w"
    "m_state (m_sessions w' n) = m_state (m_sessions w n)" "m_settings (m_sessions w' n) = m_settings (m_sessions w n)"
    "m_incoming_fix_message (m_sessions w' n) = m_incoming_fix_message (m_sessions w n)"
    "m_sequence_store (m_sessions w' n) = increment_outgoing_seq_no (m_sequence_store (m_sessions w n))"
    "srv_trace w' = srv_trace w @ Sent p n (fst (encode (m_settings (m_sessions w n)) (session_incoming_seq_no (m_sessions w n))
        (now_wall e w) (session_outgoing_seq_no (m_sessions w n) + 1) (m_outgoing_fix_message (m_sessions w n)))) SendOk #
      (if e_has_persist_plugin e then [Persist_outgoing n (session_outgoing_seq_no (m_sessions w n) + 1)
         (fst (encode (m_settings (m_sessions w n)) (session_incoming_seq_no (m_sessions w n))
            (now_wall e w) (session_outgoing_seq_no (m_sessions w n) + 1) (m_outgoing_fix_message (m_sessions w n)))) True] else [])"
proof -
  let ?s = "m_sessions w n"
  obtain b m where enc: "encode (m_settings ?s) (session_incoming_seq_no ?s) (now_wall e w) (session_outgoing_seq_no ?s + 1)
      (m_outgoing_fix_message ?s) = (b, m)" by force
  let ?u = "tick (upd_session n (\<lambda>s. s\<lparr>m_outgoing_fix_message := m\<rparr>) w)"
  have u: "encode_outgoing e n (session_outgoing_seq_no ?s + 1) w = Some (b, ?u)"
    using assms(4) by (simp add: encode_outgoing_def enc Let_def)
  have g: "get_peer_index ?u n = Some p" "has_socket ?u p"
    using assms(1,2) by (simp_all add: server_ops)
  let ?v = "emit (Sent p n b SendOk) (?u\<lparr>srv_sends := srv_sends ?u + 1\<rparr>)"
  let ?x = "serialise_outgoing e n b True (upd_session n (map_store increment_outgoing_seq_no) ?v)"
  let ?y = "if e_has_persist_plugin e then emit (Persist_outgoing n (session_outgoing_seq_no (m_sessions ?x n)) b True) ?x else ?x"
  let ?w = "tick (upd_session n (\<lambda>s. s\<lparr>m_last_sent_message_timestamp_nanoseconds := now_monotonic e ?y\<rparr>) ?y)"
  have "transport_send e p n b ?u = Some (True, ?v)"
    using g(2) by (simp add: transport_send_def assms(3) Let_def)
  then have sb: "send_bytes e True n b ?u = Some (True, ?w)"
    by (simp add: send_bytes_def g(1) Let_def del: if_split)
  have x: "srv_connectors ?x = srv_connectors w" "get_session ?x = get_session w" "get_peer_index ?x = get_peer_index w"
    "m_state (m_sessions ?x n) = m_state ?s" "m_incoming_fix_message (m_sessions ?x n) = m_incoming_fix_message ?s"
    "m_settings (m_sessions ?x n) = m_settings ?s"
    "m_sequence_store (m_sessions ?x n) = increment_outgoing_seq_no (m_sequence_store ?s)"
    "srv_trace ?x = srv_trace w @ [Sent p n b SendOk]"
    by (auto simp: serialise_outgoing_def server_ops map_store_def fun_eq_iff)
  have out: "session_outgoing_seq_no (m_sessions ?x n) = session_outgoing_seq_no ?s + 1"
    unfolding x(7) by (simp add: increment_outgoing_seq_no_def)
  have y: "srv_connectors ?y = srv_connectors w" "get_session ?y = get_session w" "get_peer_index ?y = get_peer_index w"
    "m_sessions ?y = m_sessions ?x"
    "srv_trace ?y = srv_trace w @ Sent p n b SendOk #
      (if e_has_persist_plugin e then [Persist_outgoing n (session_outgoing_seq_no ?s + 1) b True] else [])"
    using x(1-3,8) out by (auto simp: emit_def get_session_def get_peer_index_def fun_eq_iff)
  have w: "srv_connectors ?w = srv_connectors ?y" "get_session ?w = get_session ?y" "get_peer_index ?w = get_peer_index ?y"
    "srv_trace ?w = srv_trace ?y"
    "m_state (m_sessions ?w n) = m_state (m_sessions ?y n)" "m_settings (m_sessions ?w n) = m_settings (m_sessions ?y n)"
    "m_incoming_fix_message (m_sessions ?w n) = m_incoming_fix_message (m_sessions ?y n)"
    "m_sequence_store (m_sessions ?w n) = m_sequence_store (m_sessions ?y n)"
    by (simp_all add: tick_def upd_session_def get_session_def get_peer_index_def fun_eq_iff del: if_split)
  show ?thesis
  proof (rule that [of ?w])
    show "send_outgoing_message e n w = Some (True, ?w)"
      by (simp add: send_outgoing_message_def u sb del: if_split)
  qed (use w y x in \<open>simp_all add: enc del: if_split\<close>)
qed

text \<open>The response, whose interval is the one that was asked for.\<close>

definition logon_response :: "session \<Rightarrow> u32 \<Rightarrow> outgoing_message" where
  "logon_response s hb = (let s' = set_requested_heartbeat hb s in build_logon_response s' (m_outgoing_fix_message s'))"

definition answered_settings :: "session \<Rightarrow> u32 \<Rightarrow> session_settings" where
  "answered_settings s hb = m_settings (set_requested_heartbeat hb s)"

definition logon_response_bytes :: "session \<Rightarrow> u32 \<Rightarrow> u32 \<Rightarrow> nat \<Rightarrow> u32 \<Rightarrow> string" where
  "logon_response_bytes s hb i now q = fst (encode (answered_settings s hb) i now q (logon_response s hb))"

lemma logon_processed:
  assumes "has_tag (m_incoming_fix_message (m_sessions v n)) TAG_MSG_TYPE"
    "tag_value (m_incoming_fix_message (m_sessions v n)) TAG_MSG_TYPE = [MSG_TYPE_LOGON]"
    "validate_logon_request (m_incoming_fix_message (m_sessions v n))"
    "tag_u32 (m_incoming_fix_message (m_sessions v n)) TAG_HEART_BT_INT = hb"
    "tag_u32 (m_incoming_fix_message (m_sessions v n)) TAG_MSG_SEQ_NUM = session_incoming_seq_no (m_sessions v n)"
    and auth: "\<And>im. e_authenticate e n im" and p: "get_peer_index v n = Some p" "has_socket v p" and ok: "\<And>k. e_send e k = SendOk"
    and size: "\<And>i now q. length (logon_response_bytes (m_sessions v n) hb i now q) \<le> e_tx_encode_buffer_capacity e"
  obtains v' k where "dispatch_message e n p v = Some v'" "m_state (m_sessions v' n) = LOGGED_ON" "srv_connectors v' = srv_connectors v"
    "get_session v' = get_session v" "get_peer_index v' = get_peer_index v"
    "m_settings (m_sessions v' n) = answered_settings (m_sessions v n) hb"
    "m_sequence_store (m_sessions v' n) = increment_outgoing_seq_no (m_sequence_store (m_sessions v n))"
    "srv_trace v' = srv_trace v @ Sent p n (logon_response_bytes (m_sessions v n) hb (session_incoming_seq_no (m_sessions v n))
        (e_wall e k) (session_outgoing_seq_no (m_sessions v n) + 1)) SendOk #
      (if e_has_persist_plugin e then [Persist_outgoing n (session_outgoing_seq_no (m_sessions v n) + 1)
         (logon_response_bytes (m_sessions v n) hb (session_incoming_seq_no (m_sessions v n))
            (e_wall e k) (session_outgoing_seq_no (m_sessions v n) + 1)) True] else []) @
      [Callback On_logon_request n]"
proof -
  let ?s = "m_sessions v n"
  let ?h = "upd_session n (set_requested_heartbeat hb) v"
  let ?b = "build n (build_logon_response (m_sessions ?h n)) ?h"
  let ?out = "logon_response_bytes ?s hb (session_incoming_seq_no ?s) (e_wall e (srv_clock_reads v)) (session_outgoing_seq_no ?s + 1)"
  have h: "set_requested_heartbeat hb s = s\<lparr>m_settings := m_settings (set_requested_heartbeat hb s)\<rparr>" for s
    by (simp add: set_requested_heartbeat_def Let_def)
  have b: "m_settings (m_sessions ?b n) = answered_settings ?s hb" "m_outgoing_fix_message (m_sessions ?b n) = logon_response ?s hb"
    "m_sequence_store (m_sessions ?b n) = m_sequence_store ?s" "m_incoming_fix_message (m_sessions ?b n) = m_incoming_fix_message ?s"
    "srv_clock_reads ?b = srv_clock_reads v" "srv_trace ?b = srv_trace v" "srv_connectors ?b = srv_connectors v"
    "get_session ?b = get_session v" "get_peer_index ?b = get_peer_index v" "has_socket ?b p = has_socket v p"
    by (simp_all add: build_def upd_session_def answered_settings_def logon_response_def Let_def set_requested_heartbeat_def
        get_session_def get_peer_index_def has_socket_def fun_eq_iff)
  have enc: "fst (encode (m_settings (m_sessions ?b n)) (session_incoming_seq_no (m_sessions ?b n)) (now_wall e ?b)
      (session_outgoing_seq_no (m_sessions ?b n) + 1) (m_outgoing_fix_message (m_sessions ?b n))) = ?out"
    unfolding b now_wall_def logon_response_bytes_def ..
  obtain w' where w': "send_outgoing_message e n ?b = Some (True, w')" "srv_connectors w' = srv_connectors ?b"
    "get_session w' = get_session ?b" "get_peer_index w' = get_peer_index ?b"
    "m_settings (m_sessions w' n) = m_settings (m_sessions ?b n)"
    "m_incoming_fix_message (m_sessions w' n) = m_incoming_fix_message (m_sessions ?b n)"
    "m_sequence_store (m_sessions w' n) = increment_outgoing_seq_no (m_sequence_store (m_sessions ?b n))"
    "srv_trace w' = srv_trace ?b @ Sent p n ?out SendOk #
      (if e_has_persist_plugin e then [Persist_outgoing n (session_outgoing_seq_no (m_sessions ?b n) + 1) ?out True] else [])"
    by (rule send_outgoing_ok [of ?b n p e, unfolded enc]) (use p ok size in \<open>simp_all add: b\<close>)
  note keep = w'(2-8) [unfolded b]
  let ?l = "upd_session n (set_state LOGGED_ON) w'"
  let ?v = "emit (Callback On_logon_request n) ?l"
  have "do_post_logon_sequence_number_check n ?l = ?l"
    using assms(5) by (simp add: do_post_logon_sequence_number_check_def upd_session_def set_state_def keep
        increment_outgoing_seq_no_def Let_def)
  then have "process_logon_request e n p v = Some ?v"
    using w'(1) by (simp add: process_logon_request_def Let_def assms(3,4) auth send_logon_response_def)
  then have "dispatch_message e n p v = Some ?v"
    using assms(1,2) by (simp add: dispatch_message_def Let_def msg_type_defs)
  then show ?thesis
    by (rule that [of ?v "srv_clock_reads v"])
      (use keep in \<open>simp_all add: emit_def upd_session_def set_state_def get_session_def get_peer_index_def fun_eq_iff\<close>)
qed

lemma response_depends:
  assumes "m_settings s = m_settings s'" "m_outgoing_fix_message s = m_outgoing_fix_message s'"
  shows "answered_settings s hb = answered_settings s' hb" "logon_response s hb = logon_response s' hb"
    "logon_response_bytes s hb i now q = logon_response_bytes s' hb i now q"
proof -
  have "m_settings (set_requested_heartbeat hb s) = m_settings (set_requested_heartbeat hb s')"
    "m_outgoing_fix_message (set_requested_heartbeat hb s) = m_outgoing_fix_message (set_requested_heartbeat hb s')"
    using assms by (simp_all add: set_requested_heartbeat_def Let_def)
  then show "answered_settings s hb = answered_settings s' hb" "logon_response s hb = logon_response s' hb"
    "logon_response_bytes s hb i now q = logon_response_bytes s' hb i now q"
    by (simp_all add: answered_settings_def logon_response_def build_logon_response_def logon_response_bytes_def Let_def)
qed

lemma carries_cong: "carries im st i now q m \<Longrightarrow> message_wf im' \<Longrightarrow> message_view im' = message_view im \<Longrightarrow> carries im' st i now q m"
  by (simp add: carries_def)

text \<open>A session that takes a Logon, the session's numbers once it was accepted, and a server whose host does its part.\<close>

definition admits_logon :: "server_environment \<Rightarrow> session \<Rightarrow> bool" where
  "admits_logon e s \<longleftrightarrow> \<not> is_state_live (m_state s) \<and> m_state s \<noteq> DISABLED \<and>
     (\<forall>k. is_now_valid_session_datetime (e_wall e k) s) \<and> message_wf (m_incoming_fix_message s) \<and>
     throttle_limit (m_settings s) = 0"

definition start_numbers :: "bool \<Rightarrow> session \<Rightarrow> sequence_store" where
  "start_numbers reset s = (if reset then reset_numbers (m_sequence_store s) else m_sequence_store s)"

definition willing :: "server_environment \<Rightarrow> string \<Rightarrow> bool" where
  "willing e n \<longleftrightarrow> (\<forall>im. e_authenticate e n im) \<and> (\<forall>k. e_send e k = SendOk)"

lemma logon_accepted:
  assumes wf: "message_wf im" and logon: "requests_logon im"
    and found: "find_session w (tag_value im TAG_BEGIN_STRING) (tag_value im TAG_TARGET_COMP_ID) (tag_value im TAG_SENDER_COMP_ID) = Some n"
    and s: "admits_logon e (m_sessions w n)"
  obtains u where "accept_session e p im (-1) w = Some (Some n, u)" "m_state (m_sessions u n) = PENDING_LOGON"
    "get_session u p = Some n" "get_peer_index u n = Some p" "m_settings (m_sessions u n) = m_settings (m_sessions w n)"
    "srv_trace u = srv_trace w"
    "m_sequence_store (m_sessions u n) = start_numbers (has_tag im TAG_RESET_SEQ_NUM_FLAG \<and>
       tag_char im TAG_RESET_SEQ_NUM_FLAG = CHR ''Y'') (m_sessions w n)"
    "message_wf (m_incoming_fix_message (m_sessions u n))"
    "message_view (m_incoming_fix_message (m_sessions u n)) = message_view im"
    "m_outgoing_fix_message (m_sessions u n) = m_outgoing_fix_message (m_sessions w n)"
    "srv_connectors u = srv_connectors w" "srv_sends u = srv_sends w"
proof -
  have t: "m_sessions (tick w) = m_sessions w" "srv_trace (tick w) = srv_trace w" "srv_connectors (tick w) = srv_connectors w"
    "srv_sends (tick w) = srv_sends w"
    by (simp_all add: tick_def)
  obtain u where u: "bind_session p n im (tick w) = Some u" "message_wf (m_incoming_fix_message (m_sessions u n))"
    "message_view (m_incoming_fix_message (m_sessions u n)) = message_view im"
    "m_outgoing_fix_message (m_sessions u n) = m_outgoing_fix_message (m_sessions (tick w) n)"
    "srv_connectors u = srv_connectors (tick w)" "srv_sends u = srv_sends (tick w)"
    by (rule bind_session_defined [OF wf, of "tick w" n p]) (use s in \<open>simp_all add: t admits_logon_def\<close>)
  have "accept_session e p im (-1) w = Some (Some n, u)"
    using logon found s u(1) by (simp add: accept_session_def Let_def requests_logon_def admits_logon_def now_wall_def)
  moreover note u(2-6) [unfolded t] bind_session_effect(1-6) [OF u(1), unfolded t]
  ultimately show ?thesis using that by (simp add: start_numbers_def)
qed

text \<open>The client that asks, with the message it builds, and a server that has an open connection for it.\<close>

definition asks :: "session \<Rightarrow> outgoing_message \<Rightarrow> bool" where
  "asks c m \<longleftrightarrow> m = snd (build_logon_request c (m_outgoing_fix_message c)) \<and> logon_settings (m_settings c) \<and>
     ready_message (m_outgoing_fix_message c) \<and> heartbeat_seconds (m_settings c) \<noteq> 0"

definition free_connection :: "server \<Rightarrow> nat \<Rightarrow> bool" where
  "free_connection w p \<longleftrightarrow> get_session w p = None \<and> listening w p \<and>
     (\<exists>im. incoming_initialise (srv_unknown_message w) = Some im \<and> message_wf im)"

text \<open>After the admission: the session is bound and holds the Logon, and nothing was sent yet.\<close>

definition pending_logon :: "server \<Rightarrow> nat \<Rightarrow> string \<Rightarrow> session \<Rightarrow> server \<Rightarrow> bool" where
  "pending_logon w p n c u \<longleftrightarrow> m_state (m_sessions u n) = PENDING_LOGON \<and> get_session u p = Some n \<and>
     get_peer_index u n = Some p \<and> m_settings (m_sessions u n) = m_settings (m_sessions w n) \<and> srv_trace u = srv_trace w \<and>
     m_sequence_store (m_sessions u n) = start_numbers (logon_reset_sequence_numbers (m_settings c)) (m_sessions w n) \<and>
     m_outgoing_fix_message (m_sessions u n) = m_outgoing_fix_message (m_sessions w n) \<and> has_socket u p"

text \<open>What the message of a client that asks carries.\<close>

lemma asked_logon:
  assumes "asks c m" "carries im (m_settings c) i now q m"
  shows "requests_logon im" "tag_value im TAG_BEGIN_STRING = begin_string (m_settings c)"
    "tag_value im TAG_TARGET_COMP_ID = target_comp_id (m_settings c)"
    "tag_value im TAG_SENDER_COMP_ID = sender_comp_id (m_settings c)" "validate_logon_request im"
    "tag_u32 im TAG_HEART_BT_INT = heartbeat_seconds (m_settings c)" "m_msg_type m = [MSG_TYPE_LOGON]"
    "(has_tag im TAG_RESET_SEQ_NUM_FLAG \<and> tag_char im TAG_RESET_SEQ_NUM_FLAG = CHR ''Y'') =
      logon_reset_sequence_numbers (m_settings c)"
proof -
  obtain c' where c': "build_logon_request c (m_outgoing_fix_message c) = (c', m)"
    using assms(1) unfolding asks_def by (metis prod.collapse)
  have ask: "logon_settings (m_settings c)" "ready_message (m_outgoing_fix_message c)" "heartbeat_seconds (m_settings c) \<noteq> 0"
    using assms(1) by (simp_all add: asks_def)
  note content = logon_request_content [OF ask(1,2) c']
  note seen = carried_logon [OF assms(2) content(2,7) ask(2) content(3,4,6) ask(3)]
  show "requests_logon im" "tag_value im TAG_BEGIN_STRING = begin_string (m_settings c)"
    "tag_value im TAG_TARGET_COMP_ID = target_comp_id (m_settings c)"
    "tag_value im TAG_SENDER_COMP_ID = sender_comp_id (m_settings c)" "validate_logon_request im"
    "tag_u32 im TAG_HEART_BT_INT = heartbeat_seconds (m_settings c)" "m_msg_type m = [MSG_TYPE_LOGON]"
    "(has_tag im TAG_RESET_SEQ_NUM_FLAG \<and> tag_char im TAG_RESET_SEQ_NUM_FLAG = CHR ''Y'') =
      logon_reset_sequence_numbers (m_settings c)"
    by (fact seen content)+
qed

lemma logon_bytes_admitted:
  assumes c: "asks c m" and free: "free_connection w p"
    and found: "find_session w (begin_string (m_settings c)) (target_comp_id (m_settings c)) (sender_comp_id (m_settings c)) = Some n"
    and s: "admits_logon e (m_sessions w n)"
    and t: "transmissible (e_group_specs e) (m_settings c) i (sending k) q m"
    and b: "b = fst (encode (m_settings c) i (sending k) q m)"
  obtains u where "process_rx_buffer e p b (with_received p b w) = whole_message e n p b u" "pending_logon w p n c u"
    "srv_connectors u = srv_connectors (with_received p b w)" "carries (m_incoming_fix_message (m_sessions u n)) (m_settings c) i (sending k) q m"
proof -
  let ?st = "m_settings c" and ?r = "with_received p b w"
  have l: "listening w p" "get_session w p = None" using free by (simp_all add: free_connection_def)
  obtain im0 where im0: "incoming_initialise (srv_unknown_message w) = Some im0" "message_wf im0"
    using free by (auto simp: free_connection_def)
  have fill: "message_to_fill (get_session ?r p) ?r = Some im0" by (simp add: message_to_fill_def l im0)
  obtain ps where ps: "carries (ps_message ps) ?st i (sending k) q m" "ps_reject_code ps = -1"
    and rx: "process_rx_buffer e p b ?r =
       (case session_for e p (get_session ?r p) ps (store_message (get_session ?r p) (ps_message ps) ?r) of
          None \<Rightarrow> None | Some (None, w) \<Rightarrow> Some w | Some (Some n, w) \<Rightarrow> whole_message e n p b w)"
    by (rule process_rx_buffer_whole [OF t b fill im0(2)])
  let ?im = "ps_message ps"
  define r where "r = store_message None ?im ?r"
  have r: "m_sessions r = m_sessions w" "srv_connectors r = srv_connectors ?r" "srv_trace r = srv_trace w"
    "srv_session_names r = srv_session_names w"
    by (simp_all add: r_def store_message_def)
  note seen = asked_logon [OF c ps(1)]
  have f: "find_session r (tag_value ?im TAG_BEGIN_STRING) (tag_value ?im TAG_TARGET_COMP_ID) (tag_value ?im TAG_SENDER_COMP_ID) = Some n"
    using found by (simp add: find_session_def r seen(2-4))
  have wf: "message_wf ?im" using ps(1) by (simp add: carries_def)
  obtain u where u: "accept_session e p ?im (-1) r = Some (Some n, u)" "m_state (m_sessions u n) = PENDING_LOGON"
    "get_session u p = Some n" "get_peer_index u n = Some p" "m_settings (m_sessions u n) = m_settings (m_sessions r n)"
    "srv_trace u = srv_trace r"
    "m_sequence_store (m_sessions u n) = start_numbers (has_tag ?im TAG_RESET_SEQ_NUM_FLAG \<and>
       tag_char ?im TAG_RESET_SEQ_NUM_FLAG = CHR ''Y'') (m_sessions r n)"
    "message_wf (m_incoming_fix_message (m_sessions u n))"
    "message_view (m_incoming_fix_message (m_sessions u n)) = message_view ?im"
    "m_outgoing_fix_message (m_sessions u n) = m_outgoing_fix_message (m_sessions r n)"
    "srv_connectors u = srv_connectors r" "srv_sends u = srv_sends r"
    by (rule logon_accepted [OF wf seen(1) f]) (use s in \<open>simp_all add: r\<close>)
  note u' = u(5-12) [unfolded r seen(8)]
  have "has_socket u p"
    using l(1) with_received_socket [of p b w] by (simp add: u'(7) has_socket_def listening_def)
  then have "pending_logon w p n c u" using u(2-4) u' by (simp add: pending_logon_def)
  moreover have "process_rx_buffer e p b ?r = whole_message e n p b u"
    unfolding rx using u(1) r_def by (simp add: l(2) session_for_def ps(2))
  ultimately show ?thesis using that carries_cong [OF ps(1) u(8,9)] u'(7) by blast
qed

lemma pending_logon_answered:
  assumes c: "asks c m" and u: "pending_logon w p n c u" "carries (m_incoming_fix_message (m_sessions u n)) (m_settings c) i (sending k) q m"
    and found: "find_session w (begin_string (m_settings c)) (target_comp_id (m_settings c)) (sender_comp_id (m_settings c)) = Some n"
    and s: "admits_logon e (m_sessions w n)" and e: "willing e n"
    and t: "transmissible (e_group_specs e) (m_settings c) i (sending k) q m"
    and clocks: "clocks_agree sending (e_wall e) (m_settings (m_sessions w n))"
    and q: "q = incoming_seq_no (start_numbers (logon_reset_sequence_numbers (m_settings c)) (m_sessions w n)) + 1"
    and b: "b = fst (encode (m_settings c) i (sending k) q m)" and hb: "hb = heartbeat_seconds (m_settings c)"
    and size: "\<And>i now q. length (logon_response_bytes (m_sessions w n) hb i now q) \<le> e_tx_encode_buffer_capacity e"
    and out: "out = outgoing_seq_no (start_numbers (logon_reset_sequence_numbers (m_settings c)) (m_sessions w n)) + 1"
  obtains x k' where "process_incoming_fix_message e n p b (-1) u = Some x" "m_state (m_sessions x n) = LOGGED_ON"
    "srv_connectors x = srv_connectors u" "get_session x p = Some n" "m_settings (m_sessions x n) = answered_settings (m_sessions w n) hb"
    "session_incoming_seq_no (m_sessions x n) = q" "session_outgoing_seq_no (m_sessions x n) = out"
    "srv_trace x = srv_trace w @ (if e_has_persist_plugin e then [Persist_incoming n q b] else []) @
      Sent p n (logon_response_bytes (m_sessions w n) hb q (e_wall e k') out) SendOk #
      (if e_has_persist_plugin e then [Persist_outgoing n out (logon_response_bytes (m_sessions w n) hb q (e_wall e k') out) True]
       else []) @ [Callback On_logon_request n]"
proof -
  note p = u(1) [unfolded pending_logon_def]
  note seen = asked_logon [OF c u(2)]
  have mir: "mirrored (m_settings c) (m_settings (m_sessions u n))"
    using found_session [OF found] p by (simp add: mirrored_def)
  obtain v where v: "process_incoming_fix_message e n p b (-1) u = dispatch_message e n p v" "counted e n b u v"
    unfolding b
    by (rule next_message_dispatched [where sending = sending and k = k, OF u(2) t mir])
      (use clocks q s p in \<open>simp_all add: admits_logon_def\<close>)
  have vs: "m_incoming_fix_message (m_sessions v n) = m_incoming_fix_message (m_sessions u n)"
    "m_settings (m_sessions v n) = m_settings (m_sessions w n)" "m_outgoing_fix_message (m_sessions v n) = m_outgoing_fix_message (m_sessions w n)"
    "session_incoming_seq_no (m_sessions v n) = q" "session_outgoing_seq_no (m_sessions v n) + 1 = out"
    "get_peer_index v n = Some p" "get_session v p = Some n" "srv_connectors v = srv_connectors u"
    "srv_trace v = srv_trace w @ (if e_has_persist_plugin e then [Persist_incoming n q b] else [])"
    using v(2) p by (simp_all add: counted_def increment_incoming_seq_no_def q out)
  have sock: "has_socket v p" using p by (simp add: vs(8) has_socket_def)
  note resp = response_depends [OF vs(2,3)]
  obtain x k' where x: "dispatch_message e n p v = Some x" "m_state (m_sessions x n) = LOGGED_ON" "srv_connectors x = srv_connectors v"
    "get_session x = get_session v" "get_peer_index x = get_peer_index v"
    "m_settings (m_sessions x n) = answered_settings (m_sessions v n) hb"
    "m_sequence_store (m_sessions x n) = increment_outgoing_seq_no (m_sequence_store (m_sessions v n))"
    "srv_trace x = srv_trace v @ Sent p n (logon_response_bytes (m_sessions v n) hb (session_incoming_seq_no (m_sessions v n))
        (e_wall e k') (session_outgoing_seq_no (m_sessions v n) + 1)) SendOk #
      (if e_has_persist_plugin e then [Persist_outgoing n (session_outgoing_seq_no (m_sessions v n) + 1)
         (logon_response_bytes (m_sessions v n) hb (session_incoming_seq_no (m_sessions v n))
            (e_wall e k') (session_outgoing_seq_no (m_sessions v n) + 1)) True] else []) @
      [Callback On_logon_request n]"
    by (rule logon_processed [of v n hb e p])
      (use carries_type [OF u(2)] carries_number [OF u(2)] seen(5,6) e size in
        \<open>simp_all add: vs(1,4,6) sock seen(7) hb [symmetric] willing_def resp\<close>)
  show ?thesis
    by (rule that [of x k']) (use x v(1) vs(4,5) in \<open>simp_all add: vs resp increment_outgoing_seq_no_def answered_settings_def
        set_requested_heartbeat_def Let_def\<close>)
qed

lemma server_answers_logon:
  assumes c: "asks c m" and free: "free_connection w p"
    and found: "find_session w (begin_string (m_settings c)) (target_comp_id (m_settings c)) (sender_comp_id (m_settings c)) = Some n"
    and s: "admits_logon e (m_sessions w n)" and e: "willing e n"
    and t: "transmissible (e_group_specs e) (m_settings c) i (sending k) q m"
    and clocks: "clocks_agree sending (e_wall e) (m_settings (m_sessions w n))"
    and q: "q = incoming_seq_no (start_numbers (logon_reset_sequence_numbers (m_settings c)) (m_sessions w n)) + 1"
    and b: "b = fst (encode (m_settings c) i (sending k) q m)" "length b \<le> e_rx_buffer_capacity e"
    and hb: "hb = heartbeat_seconds (m_settings c)"
    and size: "\<And>i now q. length (logon_response_bytes (m_sessions w n) hb i now q) \<le> e_tx_encode_buffer_capacity e"
    and out: "out = outgoing_seq_no (start_numbers (logon_reset_sequence_numbers (m_settings c)) (m_sessions w n)) + 1"
  obtains w' k' where "on_data_ready e p (int (length b)) b lost w = Some w'" "m_state (m_sessions w' n) = LOGGED_ON"
    "get_session w' p = Some n" "listening w' p" "m_settings (m_sessions w' n) = answered_settings (m_sessions w n) hb"
    "session_incoming_seq_no (m_sessions w' n) = q" "session_outgoing_seq_no (m_sessions w' n) = out"
    "srv_trace w' = srv_trace w @ (if e_has_persist_plugin e then [Persist_incoming n q b] else []) @
      Sent p n (logon_response_bytes (m_sessions w n) hb q (e_wall e k') out) SendOk #
      (if e_has_persist_plugin e then [Persist_outgoing n out (logon_response_bytes (m_sessions w n) hb q (e_wall e k') out) True]
       else []) @ [Callback On_logon_request n]"
proof -
  have bne: "b \<noteq> []" unfolding b(1) by (rule encode_nonempty)
  have l: "listening w p" using free by (simp add: free_connection_def)
  obtain u where u: "process_rx_buffer e p b (with_received p b w) = whole_message e n p b u" "pending_logon w p n c u"
    "srv_connectors u = srv_connectors (with_received p b w)" "carries (m_incoming_fix_message (m_sessions u n)) (m_settings c) i (sending k) q m"
    by (rule logon_bytes_admitted [where sending = sending and k = k, OF c free found s t b(1)])
  obtain x k' where x: "process_incoming_fix_message e n p b (-1) u = Some x" "m_state (m_sessions x n) = LOGGED_ON"
    "srv_connectors x = srv_connectors u" "get_session x p = Some n" "m_settings (m_sessions x n) = answered_settings (m_sessions w n) hb"
    "session_incoming_seq_no (m_sessions x n) = q" "session_outgoing_seq_no (m_sessions x n) = out"
    "srv_trace x = srv_trace w @ (if e_has_persist_plugin e then [Persist_incoming n q b] else []) @
      Sent p n (logon_response_bytes (m_sessions w n) hb q (e_wall e k') out) SendOk #
      (if e_has_persist_plugin e then [Persist_outgoing n out (logon_response_bytes (m_sessions w n) hb q (e_wall e k') out) True]
       else []) @ [Callback On_logon_request n]"
    by (rule pending_logon_answered [where sending = sending and k = k, OF c u(2,4) found s e t clocks q b(1) hb size out])
  have "m_state (m_sessions x n) \<noteq> DISCONNECTED" "srv_connectors x = srv_connectors (with_received p b w)" "has_socket w p"
    using x(2,3) l by (simp_all add: u(3) listening_def)
  then obtain w' where w': "whole_message e n p b u \<bind> receive_done p lost = Some w'" "listening w' p"
    "m_sessions w' = m_sessions x" "get_session w' = get_session x" "get_peer_index w' = get_peer_index x"
    "srv_trace w' = srv_trace x" "srv_sends w' = srv_sends x"
    by (rule whole_message_done [OF x(1) _ _ _ bne])
  have "on_data_ready e p (int (length b)) b lost w = Some w'"
    unfolding on_data_ready_bytes [OF l bne b(2)] u(1) by (rule w'(1))
  then show ?thesis
    by (rule that [of w' k']) (use x w' in simp_all)
qed

subsection \<open>The client's side\<close>

lemma client_serialise_outgoing_keeps [simp]:
  "cl_connector (client_serialise_outgoing e b ok w) = cl_connector w"
  "cl_settings (client_serialise_outgoing e b ok w) = cl_settings w" "cl_state (client_serialise_outgoing e b ok w) = cl_state w"
  "m_settings (cl_session (client_serialise_outgoing e b ok w)) = m_settings (cl_session w)"
  "m_incoming_fix_message (cl_session (client_serialise_outgoing e b ok w)) = m_incoming_fix_message (cl_session w)"
  "m_sequence_store (cl_session (client_serialise_outgoing e b ok w)) = m_sequence_store (cl_session w)"
  "cl_trace (client_serialise_outgoing e b ok w) = cl_trace w"
  by (auto simp: client_serialise_outgoing_def on_session_def cl_tick_def)

lemma client_send_bytes_ok:
  assumes "client_send_bytes e True b w = Some (True, w')" "tc_open (cl_connector w)"
  shows "cl_connector w' = cl_connector w" "cl_settings w' = cl_settings w" "cl_state w' = cl_state w"
    "m_settings (cl_session w') = m_settings (cl_session w)"
    "m_incoming_fix_message (cl_session w') = m_incoming_fix_message (cl_session w)"
    "m_sequence_store (cl_session w') = increment_outgoing_seq_no (m_sequence_store (cl_session w))"
    "cl_trace w' = cl_trace w @ Client_sent b SendOk # (if c_has_persist_plugin e then
       [Client_persist_outgoing (session_outgoing_seq_no (cl_session w) + 1) b True] else [])"
proof -
  let ?t = "throttle_outgoing e w"
  have t: "cl_connector ?t = cl_connector w" "cl_settings ?t = cl_settings w" "cl_state ?t = cl_state w" "cl_trace ?t = cl_trace w"
    "m_settings (cl_session ?t) = m_settings (cl_session w)" "m_sequence_store (cl_session ?t) = m_sequence_store (cl_session w)"
    "m_incoming_fix_message (cl_session ?t) = m_incoming_fix_message (cl_session w)"
    by (simp_all add: throttle_outgoing_def on_session_def cl_tick_def Let_def)
  obtain v where v: "client_transport_send e b ?t = Some (True, v)"
    and w': "w' = (let w = on_session (map_store increment_outgoing_seq_no) v;
        w = client_serialise_outgoing e b True w;
        w = (if c_has_persist_plugin e then cl_emit (Client_persist_outgoing (session_outgoing_seq_no (cl_session w)) b True) w else w)
      in cl_tick (on_session (\<lambda>s. s\<lparr>m_last_sent_message_timestamp_nanoseconds := cl_now e w\<rparr>) w))"
    using assms(1) by (auto simp: client_send_bytes_def bind_eq_Some_conv Let_def)
  have "v = cl_emit (Client_sent b SendOk) (?t\<lparr>cl_sends := cl_sends ?t + 1\<rparr>)"
    using v assms(2) by (auto simp: client_transport_send_def t Let_def split: if_splits)
  then have v': "cl_connector v = cl_connector w" "cl_settings v = cl_settings w" "cl_state v = cl_state w"
    "cl_trace v = cl_trace w @ [Client_sent b SendOk]"
    "m_settings (cl_session v) = m_settings (cl_session w)" "m_sequence_store (cl_session v) = m_sequence_store (cl_session w)"
    "m_incoming_fix_message (cl_session v) = m_incoming_fix_message (cl_session w)"
    by (simp_all add: cl_emit_def t)
  show "cl_connector w' = cl_connector w" "cl_settings w' = cl_settings w" "cl_state w' = cl_state w"
    "m_settings (cl_session w') = m_settings (cl_session w)"
    "m_incoming_fix_message (cl_session w') = m_incoming_fix_message (cl_session w)"
    "m_sequence_store (cl_session w') = increment_outgoing_seq_no (m_sequence_store (cl_session w))"
    "cl_trace w' = cl_trace w @ Client_sent b SendOk # (if c_has_persist_plugin e then
       [Client_persist_outgoing (session_outgoing_seq_no (cl_session w) + 1) b True] else [])"
    by (simp_all add: w' Let_def on_session_def cl_emit_def cl_tick_def map_store_def increment_outgoing_seq_no_def v')
qed

lemma client_logon_bytes:
  assumes sent: "send_logon_request e w = Some (True, w')" and c: "tc_open (cl_connector w)" "asks (cl_session w) m"
  obtains k evs where "cl_connector w' = cl_connector w" "cl_settings w' = cl_settings w" "cl_state w' = cl_state w"
    "m_settings (cl_session w') = m_settings (cl_session w)"
    "m_incoming_fix_message (cl_session w') = m_incoming_fix_message (cl_session w)"
    "m_sequence_store (cl_session w') = increment_outgoing_seq_no
       (start_numbers (logon_reset_sequence_numbers (m_settings (cl_session w))) (cl_session w))"
    "cl_trace w' = cl_trace w @ Client_sent (fst (encode (m_settings (cl_session w))
        (incoming_seq_no (start_numbers (logon_reset_sequence_numbers (m_settings (cl_session w))) (cl_session w))) (c_wall e k)
        (session_outgoing_seq_no (cl_session w')) m)) SendOk # evs"
    "length (fst (encode (m_settings (cl_session w))
        (incoming_seq_no (start_numbers (logon_reset_sequence_numbers (m_settings (cl_session w))) (cl_session w))) (c_wall e k)
        (session_outgoing_seq_no (cl_session w')) m)) \<le> client_tx_encode_buffer_capacity (cl_settings w)"
proof -
  let ?s = "cl_session w"
  let ?n = "start_numbers (logon_reset_sequence_numbers (m_settings ?s)) ?s"
  let ?b = "client_build build_logon_request w"
  obtain s' where b: "build_logon_request ?s (m_outgoing_fix_message ?s) = (s', m)"
    using c(2) unfolding asks_def by (metis prod.collapse)
  have s': "s' = (if logon_reset_sequence_numbers (m_settings ?s) then map_store reset_numbers ?s else ?s)"
    using logon_request_content(1) [OF _ _ b] c(2) by (simp add: asks_def)
  have built: "cl_connector ?b = cl_connector w" "cl_settings ?b = cl_settings w" "cl_state ?b = cl_state w" "cl_trace ?b = cl_trace w"
    "m_settings (cl_session ?b) = m_settings ?s" "m_incoming_fix_message (cl_session ?b) = m_incoming_fix_message ?s"
    "m_sequence_store (cl_session ?b) = ?n" "m_outgoing_fix_message (cl_session ?b) = m" "cl_clock_reads ?b = cl_clock_reads w"
    by (simp_all add: client_build_def on_session_def b s' map_store_def start_numbers_def)
  let ?out = "fst (encode (m_settings ?s) (incoming_seq_no ?n) (c_wall e (cl_clock_reads w)) (outgoing_seq_no ?n + 1) m)"
  obtain buffer v where v: "client_encode e (outgoing_seq_no ?n + 1) ?b = Some (buffer, v)" "client_send_bytes e True buffer v = Some (True, w')"
    using sent by (auto simp: send_logon_request_def client_send_outgoing_message_def bind_eq_Some_conv built)
  have enc: "buffer = ?out" "length buffer \<le> client_tx_encode_buffer_capacity (cl_settings w)"
    "cl_connector v = cl_connector w" "cl_settings v = cl_settings w" "cl_state v = cl_state w" "cl_trace v = cl_trace w"
    "m_settings (cl_session v) = m_settings ?s" "m_incoming_fix_message (cl_session v) = m_incoming_fix_message ?s"
    "m_sequence_store (cl_session v) = ?n"
    using v(1) by (auto simp: client_encode_def Let_def built cl_wall_def on_session_def cl_tick_def split: prod.splits if_splits)
  have "tc_open (cl_connector v)" by (simp add: enc c(1))
  note ok = client_send_bytes_ok [OF v(2) this, unfolded enc(3-9)]
  have "session_outgoing_seq_no (cl_session w') = outgoing_seq_no ?n + 1" by (simp add: ok(6) increment_outgoing_seq_no_def)
  then show ?thesis using that [of "cl_clock_reads w"] ok enc(1,2) by auto
qed

text \<open>The response arrives while the client waits for it.\<close>

lemma client_takes_response:
  assumes w: "cl_state w = PENDING_LOGON" "tc_open (cl_connector w)" "tc_incomplete_buffer (cl_connector w) = []"
      "message_wf (m_incoming_fix_message (cl_session w))"
    and t: "transmissible (c_group_specs e) st i (sending k) q m" and m: "m_msg_type m = [MSG_TYPE_LOGON]"
    and mir: "mirrored st (m_settings (cl_session w))" "clocks_agree sending (c_wall e) (m_settings (cl_session w))"
    and q: "q = session_incoming_seq_no (cl_session w) + 1"
    and b: "b = fst (encode st i (sending k) q m)" "length b \<le> rx_buffer_capacity (cl_settings w)"
  obtains w' where "client_on_data_ready e (int (length b)) b lost w = Some w'" "cl_state w' = LOGGED_ON"
    "session_incoming_seq_no (cl_session w') = q" "session_outgoing_seq_no (cl_session w') = session_outgoing_seq_no (cl_session w)"
    "tc_open (cl_connector w')" "tc_incomplete_buffer (cl_connector w') = []"
    "cl_trace w' = cl_trace w @ (if c_has_persist_plugin e then [Client_persist_incoming q b] else []) @ [Client_callback On_logon_response]"
proof -
  have bne: "b \<noteq> []" unfolding b(1) by (rule encode_nonempty)
  let ?r = "w\<lparr>cl_connector := tc_receive (int (length b)) b (cl_connector w)\<rparr>"
  have wf: "message_wf (m_incoming_fix_message (cl_session ?r))" using w(4) by simp
  obtain im where im: "carries im st i (sending k) q m"
    and rx: "client_process_rx_buffer e b ?r = client_whole_message e b (on_session (\<lambda>s. s\<lparr>m_incoming_fix_message := im\<rparr>) ?r)"
    by (rule client_process_rx_buffer_whole [OF t b(1) wf])
  define u where "u = on_session (\<lambda>s. s\<lparr>m_incoming_fix_message := im\<rparr>) ?r"
  have u: "m_incoming_fix_message (cl_session u) = im" "m_settings (cl_session u) = m_settings (cl_session w)"
    "cl_state u = PENDING_LOGON" "m_sequence_store (cl_session u) = m_sequence_store (cl_session w)" "cl_trace u = cl_trace w"
    "cl_connector u = tc_receive (int (length b)) b (cl_connector w)"
    by (simp_all add: u_def on_session_def w(1))
  obtain v where v: "client_process_incoming_fix_message e b (-1) u = client_dispatch_message e v" "client_counted e b u v"
    by (rule client_next_message_dispatched [where sending = sending and k = k and w = u, unfolded u, OF im t mir q _ b(1)]) simp
  let ?v = "process_logon_response v"
  have "client_dispatch_message e v = Some ?v"
    using v(2) carries_type [OF im] m by (simp add: client_dispatch_message_def client_counted_def u Let_def msg_type_defs)
  then have d: "client_process_incoming_fix_message e b (-1) u = Some ?v" using v(1) by simp
  let ?w = "?v\<lparr>cl_connector := tc_reset_incomplete_buffer (cl_connector ?v)\<rparr>"
  have "client_whole_message e b u = Some ?w"
    by (simp add: client_whole_message_def d on_connector_def process_logon_response_def on_session_def set_state_def cl_emit_def)
  moreover have conn: "cl_connector ?w = tc_reset_incomplete_buffer (tc_receive (int (length b)) b (cl_connector w))"
    using v(2) by (simp add: process_logon_response_def on_session_def cl_emit_def client_counted_def u)
  ultimately have "client_on_data_ready e (int (length b)) b lost w = Some ?w"
    using bne b(2) rx w(3) by (simp add: client_on_data_ready_def on_connector_def tc_get_rx_buffer_def tc_receive_def u_def
        client_receive_done_def tc_reset_incomplete_buffer_def)
  then show ?thesis
    by (rule that)
      (use v(2) conn w(2) q in \<open>simp_all add: process_logon_response_def on_session_def cl_emit_def client_counted_def u set_state_def
        increment_incoming_seq_no_def tc_reset_incomplete_buffer_def tc_receive_def\<close>)
qed

subsection \<open>The handshake\<close>

lemma logon_transmissible:
  assumes "logon_settings st" "ready_message m" "m_msg_type m' = [MSG_TYPE_LOGON]" "m_header m' = []" "m_trailer m' = []"
    "m_fix_string_send_time m' = None" "m_additional_static_header_tags m' = m_additional_static_header_tags m"
    "set (map fst (m_body m')) \<subseteq> set logon_tags" "distinct (map fst (m_body m'))"
      "list_all (plain_value \<circ> snd) (m_body m')" "length (m_body m') \<le> 8"
    and "no_groups_for specs 65" "length (fst (encode st i now q m')) < 2 ^ 31"
  shows "transmissible specs st i now q m'"
proof -
  have "pack_message_type (m_msg_type m') = Some 65" unfolding assms(3) by code_simp
  moreover have "length (encode_after_length st i (sent_at st now) q m') \<le> length (fst (encode st i now q m'))"
    by (simp add: encode_def Let_def ensure_send_time_def assms(6) sent_at_def)
  ultimately show ?thesis
    using logon_sendable [OF assms(1-11)] assms(12,13) by (simp add: transmissible_def)
qed

text \<open>A fresh connection has a clean slot and no session.\<close>

lemma fresh_connection_is_free:
  assumes wf: "server_wf None w" and new: "desc \<notin> open_descriptors (srv_connectors w)"
    and acc: "accept_new_connection desc w = (p, w')" and im: "incoming_initialise (srv_unknown_message w) \<noteq> None"
  shows "free_connection w' p" "m_sessions w' = m_sessions w" "srv_session_names w' = srv_session_names w" "srv_trace w' = srv_trace w"
proof -
  obtain t where t: "add_connector desc (srv_connectors w) = (p, t)" "w' = w\<lparr>srv_connectors := t\<rparr>"
    using acc by (auto simp: accept_new_connection_def split: prod.splits)
  show "m_sessions w' = m_sessions w" "srv_session_names w' = srv_session_names w" "srv_trace w' = srv_trace w"
    by (simp_all add: t(2))
  have slots: "slots_wf None (srv_connectors w)" using wf by (simp add: server_wf_def)
  note a = add_connector_wf [OF slots_wf_None [OF slots] new t(1)]
  have none: "get_session w p = None"
  proof (rule ccontr)
    assume "get_session w p \<noteq> None"
    then have "has_socket w p" using wf by (auto simp: server_wf_def tables_wf_def)
    then show False
      using t(1) slots_wf_None [OF slots]
      by (auto simp: has_socket_def add_connector_def Let_def connectors_wf_def slot_wf_def
          split: option.splits dest!: unused_slot_Some)
  qed
  obtain im' where im': "incoming_initialise (srv_unknown_message w) = Some im'" using im by auto
  have "message_wf im'" by (rule initialise_unknown [OF _ im']) (use wf in \<open>simp add: server_wf_def\<close>)
  moreover have "listening w' p"
    using a t(1) by (auto simp: listening_def has_socket_def t(2) add_connector_def Let_def connector_initialise_def
        new_connector_def split: option.splits dest: unused_slot_Some)
  ultimately show "free_connection w' p"
    using none im' by (auto simp: free_connection_def t(2) get_session_def)
qed

text \<open>The client right before it sends its Logon.\<close>

lemma connect_asks:
  assumes "client_connect ce c = Some (True, c1)"
  obtains l where "send_logon_request ce l = Some (True, c1)" "cl_connector l = new_tcp_connector\<lparr>tc_open := True\<rparr>"
    "cl_state l = PENDING_LOGON" "m_settings (cl_session l) = m_settings (cl_session c)" "cl_settings l = cl_settings c"
    "m_sequence_store (cl_session l) = m_sequence_store (cl_session c)"
    "m_incoming_fix_message (cl_session l) = m_incoming_fix_message (cl_session c)"
    "m_outgoing_fix_message (cl_session l) = m_outgoing_fix_message (cl_session c)"
    "cl_trace l = cl_trace c @ [Client_callback On_connection]"
proof -
  let ?v = "on_session (\<lambda>s. reset_flags (set_state PENDING_CONNECTION s)) (cl_tick c)"
  obtain u where u: "client_connect_transport ce ?v = (True, u)"
    and logon: "send_logon_request ce (cl_emit (Client_callback On_connection)
      (cl_tick ((on_session (set_state PENDING_LOGON) (cl_tick (on_session (\<lambda>s. s\<lparr>m_last_received_message_timestamp_nanoseconds := cl_now ce u\<rparr>) u)))
        \<lparr>m_last_logon_attempt_timestamp := cl_now ce (on_session (set_state PENDING_LOGON)
          (cl_tick (on_session (\<lambda>s. s\<lparr>m_last_received_message_timestamp_nanoseconds := cl_now ce u\<rparr>) u)))\<rparr>))) = Some (True, c1)"
    (is "send_logon_request ce ?l = _")
    using assms by (auto simp: client_connect_def Let_def split: if_splits prod.splits)
  have s: "cl_settings u = cl_settings ?v"
    using u by (auto simp: client_connect_transport_def client_connect_to_def Let_def split: prod.splits if_splits)
  show ?thesis
    by (rule that [OF logon])
      (use connect_transport_ok [OF u] s in \<open>simp_all add: cl_emit_def cl_tick_def on_session_def set_state_def reset_flags_def\<close>)
qed

text \<open>The settings of the two sides fit together: the client's session is known to the server under its names, their
  buffers hold each other's messages, their clocks agree, and no repeating groups are specified for a Logon.\<close>

definition counterparts :: "client_environment \<Rightarrow> client \<Rightarrow> server_environment \<Rightarrow> server \<Rightarrow> string \<Rightarrow> bool" where
  "counterparts ce c e w n \<longleftrightarrow>
     (let st = m_settings (cl_session c); st' = m_settings (m_sessions w n)
      in find_session w (begin_string st) (target_comp_id st) (sender_comp_id st) = Some n \<and>
         logon_settings st \<and> logon_settings st' \<and> heartbeat_seconds st \<noteq> 0 \<and>
         no_groups_for (e_group_specs e) 65 \<and> no_groups_for (c_group_specs ce) 65 \<and>
         clocks_agree (c_wall ce) (e_wall e) st' \<and> clocks_agree (e_wall e) (c_wall ce) st \<and>
         client_tx_encode_buffer_capacity (cl_settings c) \<le> e_rx_buffer_capacity e \<and> e_rx_buffer_capacity e < 2 ^ 31 \<and>
         e_tx_encode_buffer_capacity e \<le> rx_buffer_capacity (cl_settings c) \<and> rx_buffer_capacity (cl_settings c) < 2 ^ 31)"

text \<open>Each side expects the number that the other one uses next, or the Logon makes both start over.\<close>

definition in_step :: "session \<Rightarrow> session \<Rightarrow> bool" where
  "in_step s c \<longleftrightarrow> session_incoming_seq_no s = session_outgoing_seq_no c \<and> session_outgoing_seq_no s = session_incoming_seq_no c"

lemma answered_settings_names:
  "begin_string (answered_settings s hb) = begin_string (m_settings s)" "sender_comp_id (answered_settings s hb) = sender_comp_id (m_settings s)"
  "target_comp_id (answered_settings s hb) = target_comp_id (m_settings s)"
  "logon_settings (answered_settings s hb) = logon_settings (m_settings s)"
  "heartbeat_interval_in_nanoseconds (answered_settings s hb) = ucast hb * 1000000000"
  by (simp_all add: answered_settings_def set_requested_heartbeat_def Let_def logon_settings_def)

lemma logon_response_transmissible:
  assumes "logon_settings (m_settings s)" "ready_message (m_outgoing_fix_message s)" "no_groups_for specs 65"
    "length (logon_response_bytes s hb i now q) < 2 ^ 31"
  shows "transmissible specs (answered_settings s hb) i now q (logon_response s hb)" "m_msg_type (logon_response s hb) = [MSG_TYPE_LOGON]"
proof -
  let ?s = "set_requested_heartbeat hb s"
  have o: "m_outgoing_fix_message ?s = m_outgoing_fix_message s" "m_settings ?s = answered_settings s hb"
    by (simp_all add: answered_settings_def set_requested_heartbeat_def Let_def)
  have st: "logon_settings (m_settings ?s)" using assms(1) by (simp add: o answered_settings_names)
  have r: "logon_response s hb = build_logon_response ?s (m_outgoing_fix_message s)" by (simp add: logon_response_def o)
  note content = logon_response_content [OF st assms(2) r, unfolded o]
  note body = response_body_plain [OF st [unfolded o]]
  show "m_msg_type (logon_response s hb) = [MSG_TYPE_LOGON]" by (rule content)
  show "transmissible specs (answered_settings s hb) i now q (logon_response s hb)"
    by (rule logon_transmissible [OF st [unfolded o] assms(2) content(1-5)])
      (use body assms(3,4) in \<open>simp_all add: content(6) logon_response_bytes_def\<close>)
qed

text \<open>What a client that connects has sent, and what it then waits for.\<close>

lemma connected_client_asked:
  assumes "client_connect ce c = Some (True, c1)" and ls: "logon_settings (m_settings (cl_session c))"
    and hb: "heartbeat_seconds (m_settings (cl_session c)) \<noteq> 0" and ready: "ready_message (m_outgoing_fix_message (cl_session c))"
    and room: "no_groups_for specs 65" "client_tx_encode_buffer_capacity (cl_settings c) < 2 ^ 31"
    and n: "n = start_numbers (logon_reset_sequence_numbers (m_settings (cl_session c))) (cl_session c)"
    and q: "q = outgoing_seq_no n + 1"
  obtains s m k evs where "asks s m" "m_settings s = m_settings (cl_session c)"
    "transmissible specs (m_settings s) (incoming_seq_no n) (c_wall ce k) q m"
    "length (fst (encode (m_settings s) (incoming_seq_no n) (c_wall ce k) q m)) \<le> client_tx_encode_buffer_capacity (cl_settings c)"
    "cl_trace c1 = cl_trace c @ [Client_callback On_connection,
       Client_sent (fst (encode (m_settings s) (incoming_seq_no n) (c_wall ce k) q m)) SendOk] @ evs"
    "cl_connector c1 = new_tcp_connector\<lparr>tc_open := True\<rparr>" "cl_settings c1 = cl_settings c" "cl_state c1 = PENDING_LOGON"
    "m_settings (cl_session c1) = m_settings (cl_session c)"
    "m_incoming_fix_message (cl_session c1) = m_incoming_fix_message (cl_session c)"
    "m_sequence_store (cl_session c1) = increment_outgoing_seq_no n"
proof -
  let ?st = "m_settings (cl_session c)"
  obtain l where l: "send_logon_request ce l = Some (True, c1)" "cl_connector l = new_tcp_connector\<lparr>tc_open := True\<rparr>"
    "cl_state l = PENDING_LOGON" "m_settings (cl_session l) = ?st" "cl_settings l = cl_settings c"
    "m_sequence_store (cl_session l) = m_sequence_store (cl_session c)"
    "m_incoming_fix_message (cl_session l) = m_incoming_fix_message (cl_session c)"
    "m_outgoing_fix_message (cl_session l) = m_outgoing_fix_message (cl_session c)"
    "cl_trace l = cl_trace c @ [Client_callback On_connection]"
    by (rule connect_asks [OF assms(1)])
  obtain s' m where m: "build_logon_request (cl_session l) (m_outgoing_fix_message (cl_session l)) = (s', m)" by force
  have asks: "asks (cl_session l) m" using ls hb ready m by (simp add: asks_def l)
  have n': "start_numbers (logon_reset_sequence_numbers (m_settings (cl_session l))) (cl_session l) = n"
    by (simp add: start_numbers_def l n)
  have "tc_open (cl_connector l)" by (simp add: l)
  from client_logon_bytes [OF l(1) this asks, unfolded n'] obtain k evs where c1: "cl_connector c1 = cl_connector l"
    "cl_settings c1 = cl_settings l" "cl_state c1 = cl_state l" "m_settings (cl_session c1) = m_settings (cl_session l)"
    "m_incoming_fix_message (cl_session c1) = m_incoming_fix_message (cl_session l)"
    "m_sequence_store (cl_session c1) = increment_outgoing_seq_no n"
    "cl_trace c1 = cl_trace l @ Client_sent (fst (encode (m_settings (cl_session l)) (incoming_seq_no n) (c_wall ce k)
        (session_outgoing_seq_no (cl_session c1)) m)) SendOk # evs"
    "length (fst (encode (m_settings (cl_session l)) (incoming_seq_no n) (c_wall ce k)
        (session_outgoing_seq_no (cl_session c1)) m)) \<le> client_tx_encode_buffer_capacity (cl_settings l)" .
  have q': "session_outgoing_seq_no (cl_session c1) = q" by (simp add: c1(6) increment_outgoing_seq_no_def q)
  note content = logon_request_content [OF _ _ m, unfolded l, OF ls ready]
  note body = request_body_plain [of "cl_session l", unfolded l, OF ls]
  have "transmissible specs ?st (incoming_seq_no n) (c_wall ce k) q m"
    by (rule logon_transmissible [OF ls ready content(2-6)])
      (use body room c1(8) in \<open>simp_all add: content(7) q' l\<close>)
  then show ?thesis using that [OF asks l(4), of k evs] c1 [unfolded q' l] by (simp add: l)
qed

text \<open>C2: logging on: a client connects, and the bytes of its Logon reach a server that knows its session over a new
  connection. The server binds the session to the connection, takes over the heartbeat interval of the client and
  answers; with the bytes of the answer the client is logged on as well, and each side expects exactly the number
  the other one uses next. Only if the Logon resets the numbers need they not have agreed before.\<close>

theorem logon_handshake:
  assumes "client_connect ce c = Some (True, c1)" and "message_wf (m_incoming_fix_message (cl_session c))"
    and "server_wf None w" "desc \<notin> open_descriptors (srv_connectors w)" "accept_new_connection desc w = (p, w1)"
    and "incoming_initialise (srv_unknown_message w) \<noteq> None"
    and "counterparts ce c e w n" "admits_logon e (m_sessions w n)" "willing e n"
    and "ready_message (m_outgoing_fix_message (cl_session c))" "ready_message (m_outgoing_fix_message (m_sessions w n))"
    and "\<And>i now q. length (logon_response_bytes (m_sessions w n) (heartbeat_seconds (m_settings (cl_session c))) i now q)
           \<le> e_tx_encode_buffer_capacity e"
    and "logon_reset_sequence_numbers (m_settings (cl_session c)) \<or> in_step (m_sessions w n) (cl_session c)"
  shows "\<exists>request w2 response c2 evs before after.
    cl_trace c1 = cl_trace c @ [Client_callback On_connection, Client_sent request SendOk] @ evs \<and>
    on_data_ready e p (int (length request)) request False w1 = Some w2 \<and>
    srv_trace w2 = srv_trace w @ before @ [Sent p n response SendOk] @ after \<and>
    client_on_data_ready ce (int (length response)) response False c1 = Some c2 \<and>
    m_state (m_sessions w2 n) = LOGGED_ON \<and> get_session w2 p = Some n \<and> cl_state c2 = LOGGED_ON \<and>
    in_step (m_sessions w2 n) (cl_session c2) \<and>
    heartbeat_interval_in_nanoseconds (m_settings (m_sessions w2 n)) =
      ucast (heartbeat_seconds (m_settings (cl_session c))) * 1000000000"
proof -
  let ?st = "m_settings (cl_session c)" and ?s = "m_sessions w n"
  let ?hb = "heartbeat_seconds ?st" and ?reset = "logon_reset_sequence_numbers ?st"
  define numbers where "numbers = start_numbers ?reset (cl_session c)"
  define q where "q = outgoing_seq_no numbers + 1"
  define r where "r = incoming_seq_no numbers + 1"
  note fit = assms(7) [unfolded counterparts_def Let_def]
  note fresh = fresh_connection_is_free [OF assms(3-6)]
  have ls: "logon_settings ?st" "?hb \<noteq> 0" "no_groups_for (e_group_specs e) 65" "client_tx_encode_buffer_capacity (cl_settings c) < 2 ^ 31"
    "logon_settings (m_settings ?s)" "no_groups_for (c_group_specs ce) 65" using fit by simp_all
  obtain s m k evs where c1: "asks s m" "m_settings s = ?st" "transmissible (e_group_specs e) (m_settings s) (incoming_seq_no numbers) (c_wall ce k) q m"
    "length (fst (encode (m_settings s) (incoming_seq_no numbers) (c_wall ce k) q m)) \<le> client_tx_encode_buffer_capacity (cl_settings c)"
    "cl_trace c1 = cl_trace c @ [Client_callback On_connection,
       Client_sent (fst (encode (m_settings s) (incoming_seq_no numbers) (c_wall ce k) q m)) SendOk] @ evs"
    "cl_connector c1 = new_tcp_connector\<lparr>tc_open := True\<rparr>" "cl_settings c1 = cl_settings c" "cl_state c1 = PENDING_LOGON"
    "m_settings (cl_session c1) = ?st" "m_incoming_fix_message (cl_session c1) = m_incoming_fix_message (cl_session c)"
    "m_sequence_store (cl_session c1) = increment_outgoing_seq_no numbers"
    by (rule connected_client_asked [OF assms(1) ls(1,2) assms(10) ls(3,4) numbers_def q_def])
  define request where "request = fst (encode (m_settings s) (incoming_seq_no numbers) (c_wall ce k) q m)"
  have len: "length request \<le> e_rx_buffer_capacity e" using c1(4) fit by (simp add: request_def)
  have "start_numbers ?reset ?s = numbers\<lparr>outgoing_seq_no := incoming_seq_no numbers, incoming_seq_no := outgoing_seq_no numbers\<rparr>"
    using assms(13) by (auto simp: start_numbers_def in_step_def reset_numbers_def numbers_def)
  then have p: "find_session w1 (begin_string (m_settings s)) (target_comp_id (m_settings s)) (sender_comp_id (m_settings s)) = Some n"
    "admits_logon e (m_sessions w1 n)" "clocks_agree (c_wall ce) (e_wall e) (m_settings (m_sessions w1 n))"
    "q = incoming_seq_no (start_numbers (logon_reset_sequence_numbers (m_settings s)) (m_sessions w1 n)) + 1"
    "?hb = heartbeat_seconds (m_settings s)"
    "\<And>i now q. length (logon_response_bytes (m_sessions w1 n) ?hb i now q) \<le> e_tx_encode_buffer_capacity e"
    "r = outgoing_seq_no (start_numbers (logon_reset_sequence_numbers (m_settings s)) (m_sessions w1 n)) + 1"
    using fit assms(8,12) by (simp_all add: find_session_def fresh c1(2) q_def r_def)
  obtain w2 k' where w2: "on_data_ready e p (int (length request)) request False w1 = Some w2" "m_state (m_sessions w2 n) = LOGGED_ON"
    "get_session w2 p = Some n" "listening w2 p" "m_settings (m_sessions w2 n) = answered_settings (m_sessions w1 n) ?hb"
    "session_incoming_seq_no (m_sessions w2 n) = q" "session_outgoing_seq_no (m_sessions w2 n) = r"
    "srv_trace w2 = srv_trace w1 @ (if e_has_persist_plugin e then [Persist_incoming n q request] else []) @
      Sent p n (logon_response_bytes (m_sessions w1 n) ?hb q (e_wall e k') r) SendOk #
      (if e_has_persist_plugin e then [Persist_outgoing n r (logon_response_bytes (m_sessions w1 n) ?hb q (e_wall e k') r) True]
       else []) @ [Callback On_logon_request n]"
    by (rule server_answers_logon [OF c1(1) fresh(1) p(1,2) assms(9) c1(3) p(3,4) request_def len p(5-7)])
  let ?response = "logon_response_bytes ?s ?hb q (e_wall e k') r"
  have size: "length ?response \<le> rx_buffer_capacity (cl_settings c1)" "length ?response < 2 ^ 31"
    using assms(12) [of q "e_wall e k'" r] fit by (simp_all add: c1(7))
  note t2 = logon_response_transmissible [OF ls(5) assms(11) ls(6) size(2)]
  have mir: "mirrored (answered_settings ?s ?hb) (m_settings (cl_session c1))"
    using found_session [OF fit [THEN conjunct1]] by (simp add: mirrored_def answered_settings_names c1(9))
  obtain c2 where c2: "client_on_data_ready ce (int (length ?response)) ?response False c1 = Some c2" "cl_state c2 = LOGGED_ON"
    "session_incoming_seq_no (cl_session c2) = r" "session_outgoing_seq_no (cl_session c2) = q"
    by (rule client_takes_response [where sending = "e_wall e" and k = k' and w = c1 and b = ?response, OF _ _ _ _ t2 mir])
      (use fit size(1) assms(2) in \<open>simp_all add: c1 new_tcp_connector_def logon_response_bytes_def increment_outgoing_seq_no_def q_def r_def\<close>)
  show ?thesis
    using c1(5) w2 c2
    by (intro exI [of _ request] exI [of _ w2] exI [of _ ?response] exI [of _ c2] exI [of _ evs]
        exI [of _ "if e_has_persist_plugin e then [Persist_incoming n q request] else []"]
        exI [of _ "(if e_has_persist_plugin e then [Persist_outgoing n r ?response True] else []) @ [Callback On_logon_request n]"])
      (simp add: request_def [symmetric] fresh in_step_def answered_settings_names)
qed

text \<open>A bound for the length of a message, whatever the time and the numbers.\<close>

definition fields_bound :: "(u32 \<times> string) list \<Rightarrow> nat" where
  "fields_bound tvs = sum_list (map (\<lambda>(t, v). 12 + length v) tvs)"

lemma fields_bound: "length (concat (map field tvs)) \<le> fields_bound tvs"
proof (induction tvs)
  case (Cons tv tvs)
  obtain t v where tv: "tv = (t, v)" by force
  have "length (field tv) \<le> 12 + length v"
    using dec_unat_length32 [of t] by (simp add: field_def tv)
  with Cons show ?case by (simp add: fields_bound_def tv)
qed (simp add: fields_bound_def)

lemma encode_length_bound:
  assumes "m_fix_string_send_time m = None"
  shows "length (fst (encode st i now q m)) \<le> 100 + length (begin_string st) + length (m_msg_type m) +
    length (sender_comp_id st) + length (target_comp_id st) +
    fields_bound (m_additional_static_header_tags m @ m_header m @ m_body m @ m_trailer m)"
proof -
  have "length (sent_at st now) \<le> 27"
    by (cases "timestamp_subseconds_precision st")
      (simp_all add: sent_at_def encode_current_time_eq length_datetime TIME_LENGTHS_def)
  moreover have "length (dec (unat q)) \<le> 10" "length (dec (unat i)) \<le> 10"
    "length (dec (unat (word_of_nat (body_length st i (sent_at st now) q m) :: u32))) \<le> 10"
    by (rule dec_unat_length32)+
  moreover have "length (concat (map field xs)) \<le> fields_bound xs" for xs by (rule fields_bound)
  from this [of "m_additional_static_header_tags m @ m_header m @ m_body m @ m_trailer m"]
  have "length (concat (map field (m_additional_static_header_tags m))) + length (concat (map field (m_header m))) +
    length (concat (map field (m_body m))) + length (concat (map field (m_trailer m))) \<le>
    fields_bound (m_additional_static_header_tags m @ m_header m @ m_body m @ m_trailer m)" by simp
  ultimately show ?thesis
    by (simp add: encode_def Let_def ensure_send_time_def assms sent_at_def [symmetric] encode_after_length_def
        encode_checksum_either dec3_def)
qed

definition calling_client :: client where
  "calling_client = (sample_client DISCONNECTED)
     \<lparr>cl_session := (new_session sample_environment)\<lparr>m_state := DISCONNECTED, m_incoming_fix_message := sample_message 3,
        m_settings := default_session_settings\<lparr>begin_string := ''FIX.4.4'', sender_comp_id := ''CLI'', target_comp_id := ''SRV''\<rparr>\<rparr>,
      cl_settings := sample_client_settings\<lparr>client_tx_encode_buffer_capacity := 4096\<rparr>\<rparr>"

lemma client_encode_defined:
  assumes "length (fst (encode (m_settings (cl_session w)) (session_incoming_seq_no (cl_session w)) (cl_wall e w) q
     (m_outgoing_fix_message (cl_session w)))) \<le> client_tx_encode_buffer_capacity (cl_settings w)"
  shows "client_encode e q w \<noteq> None"
  using assms by (auto simp: client_encode_def Let_def split: prod.split)

lemma calling_client_connects: "\<exists>c1. client_connect sample_client_environment calling_client = Some (True, c1)"
proof -
  let ?e = sample_client_environment
  let ?s = "(cl_session calling_client)\<lparr>m_state := PENDING_LOGON, m_last_received_message_timestamp_nanoseconds := c_monotonic ?e 1\<rparr>"
  define l where "l = calling_client\<lparr>cl_session := ?s, cl_connector := new_tcp_connector\<lparr>tc_open := True\<rparr>, cl_connects := 1,
    cl_clock_reads := Suc (Suc (Suc 0)), m_last_logon_attempt_timestamp := c_monotonic ?e 2, cl_trace := [Client_callback On_connection]\<rparr>"
  have c: "client_connect ?e calling_client = send_logon_request ?e l"
    by (simp add: client_connect_def Let_def calling_client_def l_def sample_client_def client_connect_transport_def client_connect_to_def
        tc_connect_def sample_client_environment_def sample_client_settings_def default_client_settings_def on_session_def
        cl_tick_def cl_emit_def cl_now_def cl_wall_def tc_close_def new_tcp_connector_def new_session_def reset_flags_def
        set_state_def is_now_valid_session_datetime_def is_now_valid_datetime_def new_schedule_validator_def)
  obtain s' m where m: "build_logon_request ?s (m_outgoing_fix_message ?s) = (s', m)" by force
  have ready: "logon_settings (m_settings ?s)" "ready_message (m_outgoing_fix_message ?s)"
    by (simp_all add: calling_client_def new_session_def logon_settings_def ready_message_def plain_value_def c_text_def
        default_session_settings_def new_outgoing_message_def)
  note content = logon_request_content [OF ready m]
  have body: "request_body ?s = [(TAG_ENCRYPT_METHOD, ''0''), (TAG_HEART_BT_INT, dec (unat (heartbeat_seconds (m_settings ?s))))]"
    by (simp add: request_body_def Let_def opt_def calling_client_def new_session_def default_session_settings_def)
  have mb: "m_body m = [(TAG_ENCRYPT_METHOD, ''0''), (TAG_HEART_BT_INT, dec (unat (heartbeat_seconds (m_settings ?s))))]"
    unfolding content(7) by (rule body)
  have names: "begin_string (m_settings (cl_session calling_client)) = ''FIX.4.4''"
    "sender_comp_id (m_settings (cl_session calling_client)) = ''CLI''"
    "target_comp_id (m_settings (cl_session calling_client)) = ''SRV''"
    "m_additional_static_header_tags (m_outgoing_fix_message (cl_session calling_client)) = []"
    by (simp_all add: calling_client_def new_session_def new_outgoing_message_def)
  have "length (dec (unat (heartbeat_seconds (m_settings ?s)))) \<le> 10" by (rule dec_unat_length32)
  then have small: "length (fst (encode (m_settings (cl_session calling_client)) i now q m)) \<le> 4096" for i now q
    using encode_length_bound [OF content(5), of "m_settings ?s" i now q]
    by (simp add: content(2-6) mb fields_bound_def names)
  have "cl_session l = ?s" by (simp add: l_def)
  then have built: "cl_session (client_build build_logon_request l) = s'\<lparr>m_outgoing_fix_message := m\<rparr>"
    "client_tx_encode_buffer_capacity (cl_settings (client_build build_logon_request l)) = 4096"
    using m by (simp_all add: client_build_def on_session_def) (simp add: l_def calling_client_def)
  have "\<exists>w'. send_logon_request ?e l = Some (True, w')"
  proof (rule logon_request_sent)
    show "tc_open (cl_connector l)" by (simp add: l_def)
    show "c_send ?e k = SendOk" for k by (simp add: sample_client_environment_def)
    have "m_settings s' = m_settings ?s" using content(1) by (simp add: map_store_def split: if_splits)
    then show "client_encode ?e (session_outgoing_seq_no (cl_session (client_build build_logon_request l)) + 1)
       (client_build build_logon_request l) \<noteq> None"
      by (intro client_encode_defined) (simp add: built small)
  qed
  with c show ?thesis by simp
qed

theorem logon_handshake_witness:
  "\<exists>c1 w1 request w2 response c2.
    client_connect sample_client_environment calling_client = Some (True, c1) \<and>
    accept_new_connection 11 (waiting_server (sample_message 3)) = (2, w1) \<and>
    on_data_ready sample_server_environment 2 (int (length request)) request False w1 = Some w2 \<and>
    client_on_data_ready sample_client_environment (int (length response)) response False c1 = Some c2 \<and>
    m_state (m_sessions w2 ''B'') = LOGGED_ON \<and> cl_state c2 = LOGGED_ON \<and> in_step (m_sessions w2 ''B'') (cl_session c2)"
proof -
  let ?e = sample_server_environment and ?ce = sample_client_environment and ?w = "waiting_server (sample_message 3)"
  obtain c1 where c1: "client_connect ?ce calling_client = Some (True, c1)" using calling_client_connects by blast
  obtain w1 where w1: "accept_new_connection 11 ?w = (2, w1)"
    by (simp add: accept_new_connection_def add_connector_def waiting_server_def two_connections_def upd_session_def open_slot_def)
  have wf: "server_wf None ?w"
    using two_connections_wf [OF sample_message_wf(1)]
    by (auto simp: waiting_server_def server_wf_def tables_wf_def server_ops session_wf_def)
  have im: "message_wf (m_incoming_fix_message (cl_session calling_client))" "11 \<notin> open_descriptors (srv_connectors ?w)"
    "incoming_initialise (srv_unknown_message ?w) \<noteq> None"
    using sample_message_wf(1) new_message_initialises
    by (auto simp: calling_client_def open_descriptors_def waiting_server_def two_connections_def upd_session_def open_slot_def)
  have s: "m_settings (m_sessions ?w ''B'') = default_session_settings\<lparr>begin_string := ''FIX.4.4'', sender_comp_id := ''SRV'', target_comp_id := ''CLI''\<rparr>"
    "m_outgoing_fix_message (m_sessions ?w ''B'') = new_outgoing_message" "m_incoming_fix_message (m_sessions ?w ''B'') = sample_message 3"
    "m_state (m_sessions ?w ''B'') = DISCONNECTED" "m_schedule_validator (m_sessions ?w ''B'') = new_schedule_validator"
    "m_sequence_store (m_sessions ?w ''B'') = m_sequence_store (cl_session calling_client)"
    "session_incoming_seq_no (cl_session calling_client) = session_outgoing_seq_no (cl_session calling_client)"
    by (simp_all add: waiting_server_def two_connections_def upd_session_def new_session_def calling_client_def)
  have c: "m_settings (cl_session calling_client) = default_session_settings\<lparr>begin_string := ''FIX.4.4'', sender_comp_id := ''CLI'', target_comp_id := ''SRV''\<rparr>"
    "m_outgoing_fix_message (cl_session calling_client) = new_outgoing_message"
    by (simp_all add: calling_client_def new_session_def)
  have ls: "logon_settings (m_settings (cl_session calling_client))" "logon_settings (m_settings (m_sessions ?w ''B''))"
    "heartbeat_seconds (m_settings (cl_session calling_client)) = 30"
    by (simp_all add: s c logon_settings_def plain_value_def c_text_def default_session_settings_def heartbeat_seconds_def)
  have found: "find_session ?w ''FIX.4.4'' ''SRV'' ''CLI'' = Some ''B''"
    by (simp add: find_session_def waiting_server_def two_connections_def upd_session_def new_session_def default_session_settings_def)
  have fit: "counterparts ?ce calling_client ?e ?w ''B''"
    using ls found by (simp add: counterparts_def Let_def clocks_agree_def s c default_session_settings_def
        sample_client_environment_def sample_server_environment_def no_groups_for_def is_a_repeating_group_count_tag_def
        no_group_specs_def calling_client_def sample_client_settings_def default_client_settings_def)
  have admits: "admits_logon ?e (m_sessions ?w ''B'')" "willing ?e ''B''"
    using sample_message_wf(1) by (simp_all add: admits_logon_def willing_def s sample_server_environment_def
        is_now_valid_session_datetime_def is_now_valid_datetime_def new_schedule_validator_def default_session_settings_def)
  have ready: "ready_message (m_outgoing_fix_message (cl_session calling_client))" "ready_message (m_outgoing_fix_message (m_sessions ?w ''B''))"
    by (simp_all add: s c ready_message_def new_outgoing_message_def)
  have size: "length (logon_response_bytes (m_sessions ?w ''B'') hb i now q) \<le> e_tx_encode_buffer_capacity ?e" for hb i now q
  proof -
    let ?s = "set_requested_heartbeat hb (m_sessions ?w ''B'')"
    have h: "m_settings ?s = answered_settings (m_sessions ?w ''B'') hb" "m_outgoing_fix_message ?s = new_outgoing_message"
      by (simp_all add: answered_settings_def set_requested_heartbeat_def Let_def s)
    have a: "begin_string (m_settings ?s) = ''FIX.4.4''" "sender_comp_id (m_settings ?s) = ''SRV''" "target_comp_id (m_settings ?s) = ''CLI''"
      "default_app_ver_id (m_settings ?s) = ''''"
      by (simp_all add: set_requested_heartbeat_def Let_def s default_session_settings_def)
    have l: "logon_settings (m_settings ?s)" using ls(2) by (simp add: h(1) answered_settings_names)
    have "logon_response (m_sessions ?w ''B'') hb = build_logon_response ?s (m_outgoing_fix_message ?s)"
      by (simp add: logon_response_def Let_def)
    note content = logon_response_content [OF l _ this]
    have r: "ready_message (m_outgoing_fix_message ?s)" using ready(2) by (simp add: h s)
    note content = content [OF r]
    have "length (dec (unat (heartbeat_seconds (m_settings ?s)))) \<le> 10" by (rule dec_unat_length32)
    then show ?thesis
      using encode_length_bound [OF content(4), of "m_settings ?s" i now q]
      by (simp add: content response_body_def opt_def a fields_bound_def h(2) new_outgoing_message_def logon_response_bytes_def h(1) [symmetric]
          sample_server_environment_def)
  qed
  have step: "logon_reset_sequence_numbers (m_settings (cl_session calling_client)) \<or> in_step (m_sessions ?w ''B'') (cl_session calling_client)"
    by (simp add: in_step_def s)
  from logon_handshake [OF c1 im(1) wf im(2) w1 im(3) fit admits ready size step]
  show ?thesis using c1 w1 by blast
qed

end
