(* ===== verification/Resend_Replay.thy ===== *)
theory Resend_Replay
  imports Server_Behaviour
begin

text \<open>
  How the server answers a resend request with replay on: the loop of \<open>resend_messages_to_client\<close> reads every
  requested message from the session's serialiser while the messages it sends are themselves written to it.
\<close>

subsection \<open>Indexed messages survive later writes\<close>

text \<open>The records of the replay index lie in files that can be opened again, below the write position of the
  current one.\<close>

definition records_kept :: "message_serialiser \<Rightarrow> bool" where
  "records_kept s \<longleftrightarrow> m_keep_message_records_in_memory s \<and>
     ser_openable s (m_current_serialised_file_number s) \<and>
     (\<exists>b. ser_files s (m_current_serialised_file_number s) = Some b \<and> m_serialised_file_max_size s \<le> length b) \<and>
     (\<forall>q r. m_message_memory_records s q = Some r \<longrightarrow>
        rec_file_number r \<le> m_current_serialised_file_number s \<and> ser_openable s (rec_file_number r) \<and> 8 \<le> rec_offset r \<and>
        (\<exists>b. ser_files s (rec_file_number r) = Some b \<and> m_serialised_file_max_size s \<le> length b) \<and>
        (rec_file_number r = m_current_serialised_file_number s \<longrightarrow> rec_offset r + rec_length r \<le> m_current_written_bytes s))"

definition record_content :: "message_serialiser \<Rightarrow> memory_record \<Rightarrow> string" where
  "record_content s r = take (rec_length r) (drop (rec_offset r) (the (ser_files s (rec_file_number r))))"

lemma read_kept:
  assumes "records_kept s" "m_message_memory_records s q = Some r"
  shows "read_message s q cap = (if cap < rec_length r then None else Some (record_content s r))"
  using assms
  by (fastforce simp: records_kept_def read_message_def has_message_in_memory_def record_content_def mapped_file_def
      current_buffer_def)

lemma slice_before_write:
  assumes "8 \<le> off" "off + len \<le> w" "w \<le> length b"
  shows "take len (drop off (overwrite (overwrite b w d) 0 (le_bytes 8 c))) = take len (drop off b)"
proof -
  have "drop off (overwrite (overwrite b w d) 0 (le_bytes 8 c)) = drop off (overwrite b w d)"
    using assms(1) by (simp add: overwrite_def [of _ 0])
  moreover have "take (off + len) (overwrite b w d) = take (off + len) b"
    using assms(2,3) by (simp add: overwrite_def)
  ultimately show ?thesis by (metis add.commute add_diff_cancel_left' drop_take)
qed

text \<open>What a write does to the index: it only grows, and nothing in it changes.\<close>

definition index_grows :: "message_serialiser \<Rightarrow> message_serialiser \<Rightarrow> bool" where
  "index_grows s s' \<longleftrightarrow> records_kept s' \<and>
     (\<forall>q r. m_message_memory_records s q = Some r \<longrightarrow>
        m_message_memory_records s' q = Some r \<and> record_content s' r = record_content s r)"

lemma index_grows_trans: "index_grows s s' \<Longrightarrow> index_grows s' s'' \<Longrightarrow> index_grows s s''"
  unfolding index_grows_def by metis

lemma index_grows_read:
  assumes "records_kept s" "index_grows s s'" "read_message s q cap = Some b"
  shows "read_message s' q cap = Some b"
proof -
  obtain r where r: "m_message_memory_records s q = Some r"
    using assms(3) by (auto simp: read_message_def has_message_in_memory_def split: if_splits)
  then have "m_message_memory_records s' q = Some r" "record_content s' r = record_content s r" "records_kept s'"
    using assms(2) by (auto simp: index_grows_def)
  then show ?thesis using read_kept [OF assms(1) r] read_kept [of s' q r] assms(3) by (simp split: if_splits)
qed

lemma write_entry_index_grows:
  assumes "records_kept s" "has_room s msg"
  shows "index_grows s (write_entry ts msg ok q s)"
proof -
  define s' where "s' = write_entry ts msg ok q s"
  let ?n = "m_current_serialised_file_number s" and ?w = "m_current_written_bytes s"
  obtain b where b: "ser_files s ?n = Some b" "m_serialised_file_max_size s \<le> length b"
    using assms(1) by (auto simp: records_kept_def)
  have cur: "current_buffer s = b" by (simp add: current_buffer_def b)
  have room: "?w + 17 + length msg \<le> length (current_buffer s)"
    using assms(2) b(2) by (auto simp: has_room_def m_serialisation_overhead_bytes_def cur)
  note eff = write_entry_effect [OF room s'_def]
  define c where "c = overwrite (overwrite b ?w (entry_bytes (ts, ok, msg))) 0 (le_bytes 8 (unat (m_current_no_of_messages s + 1)))"
  have len: "length c = length b"
    using room by (simp add: c_def cur entry_bytes_def)
  have "\<exists>x. ser_files s' ?n = Some x"
    by (simp add: s'_def write_entry_def Let_def poke_def)
  with eff(1) have written: "ser_files s' ?n = Some c"
    by (auto simp: current_buffer_def eff(6) b c_def)
  have kept: "record_content s' r = record_content s r"
    if "m_message_memory_records s k = Some r" for k r
  proof (cases "rec_file_number r = ?n")
    case True
    moreover have "8 \<le> rec_offset r" "rec_offset r + rec_length r \<le> ?w"
      using assms(1) that True by (auto simp: records_kept_def)
    ultimately show ?thesis
      using room by (simp add: record_content_def written b c_def cur slice_before_write)
  next
    case False
    then show ?thesis by (simp add: record_content_def eff(10))
  qed
  have stays: "\<exists>x. ser_files s' f = Some x \<and> m_serialised_file_max_size s \<le> length x"
    if "ser_files s f = Some y" "m_serialised_file_max_size s \<le> length y" for f y
    using that b(2) len written eff(10) by (cases "f = ?n") auto
  have "records_kept s'"
    unfolding records_kept_def eff(2,4-7,9)
  proof (intro conjI allI impI, goal_cases)
    case (3)
    then show ?case using stays [OF b] by blast
  next
    case (7 k r)
    show ?case
    proof (cases "m_message_memory_records s k = Some r")
      case True
      then show ?thesis using assms(1) stays unfolding records_kept_def by blast
    next
      case False
      with 7 have "rec_file_number r = ?n" by (auto split: if_splits)
      then show ?thesis using stays [OF b] by simp
    qed
  qed (use assms(1) in \<open>fastforce simp: records_kept_def split: if_splits\<close>)+
  then show ?thesis using kept unfolding s'_def [symmetric] index_grows_def eff(4) by auto
qed

lemma switch_index_grows:
  assumes "records_kept s"
  shows "case switch_to_next_memory_mapped_file s of (s', ok) \<Rightarrow> index_grows s s'"
proof (cases "ser_openable s (m_current_serialised_file_number s + 1)")
  case False
  then show ?thesis
    using assms by (simp add: switch_to_next_memory_mapped_file_def open_file_def index_grows_def records_kept_def record_content_def)
next
  case True
  let ?n = "m_current_serialised_file_number s + 1"
  have old: "rec_file_number r < ?n" if "m_message_memory_records s q = Some r" for q r
    using assms that by (auto simp: records_kept_def less_Suc_eq_le)
  have "m_serialised_file_max_size s \<le> length (mapped_file (m_serialised_file_max_size s) c)" for c
    by (cases c) (simp_all add: mapped_file_def)
  with True assms old show ?thesis
    by (fastforce simp: switch_to_next_memory_mapped_file_def open_file_def index_grows_def records_kept_def record_content_def)
qed

lemma serialiser_write_index_grows:
  assumes "records_kept s"
  shows "index_grows s (serialiser_write ts msg ok q s)"
proof -
  have same: "index_grows s s" using assms by (simp add: index_grows_def)
  obtain s' c where s': "switch_to_next_memory_mapped_file s = (s', c)" by fastforce
  have g: "index_grows s s'" using switch_index_grows [OF assms] by (simp add: s')
  then have "index_grows s (write_entry ts msg ok q s')" if "has_room s' msg"
    using write_entry_index_grows [OF _ that] index_grows_trans by (metis index_grows_def)
  with same g show ?thesis
    by (simp add: serialiser_write_def s' write_entry_index_grows [OF assms] split: bool.split)
qed

subsection \<open>A stored message and its retransmission\<close>

text \<open>What is sent for a stored message: an application message keeps its type and fields, an administrative one
  becomes a SequenceReset to the number after its own (without GapFillFlag); both carry the time of the first
  transmission and PossDupFlag.\<close>

definition resent_copy :: "session_settings \<Rightarrow> u32 \<Rightarrow> nat \<Rightarrow> u32 \<Rightarrow> outgoing_message \<Rightarrow> outgoing_message" where
  "resent_copy st last_processed sent i m =
     (let admin = is_a_non_retransmittable_admin_message_type (m_msg_type m)
      in m\<lparr>m_msg_type := (if admin then [MSG_TYPE_SEQUENCE_RESET] else m_msg_type m),
           m_header := [(TAG_ORIG_SENDING_TIME, encode_current_time (timestamp_subseconds_precision st) sent),
              (TAG_POSS_DUP_FLAG, ''Y'')] @ (if include_t97_during_resends st then [(TAG_POSS_RESEND, ''Y'')] else []),
           m_body := (if admin then [(TAG_NEW_SEQ_NO, dec (unat (i + 1)))]
              else filter (\<lambda>(t, v). \<not> is_static_header_tag m t)
                ((if include_last_processed_seqnum_in_header st then [(369, dec (unat last_processed))] else []) @
                 m_additional_static_header_tags m @ m_header m @ m_body m @ m_trailer m)),
           m_trailer := []\<rparr>)"

lemma encode_same_content:
  "same_content m m' \<Longrightarrow> fst (encode st i now q m) = fst (encode st i now q m')"
  by (simp add: same_content_def encode_def encode_after_length_def body_length_def ensure_send_time_def Let_def)

text \<open>A message the loader can read back: a type of one character, plain values, no sending time of its own.\<close>

definition storable :: "session_settings \<Rightarrow> outgoing_message \<Rightarrow> bool" where
  "storable st m \<longleftrightarrow> length (m_msg_type m) = 1 \<and> hd (m_msg_type m) \<noteq> SOH \<and> m_fix_string_send_time m = None \<and>
     clean_fields (m_additional_static_header_tags m @ m_header m @ m_body m @ m_trailer m) \<and>
     SOH \<notin> set (begin_string st @ sender_comp_id st @ target_comp_id st)"

definition is_reset_for_reuse :: "outgoing_message \<Rightarrow> bool" where
  "is_reset_for_reuse r \<longleftrightarrow> m_header r = [] \<and> m_body r = [] \<and> m_trailer r = [] \<and> m_fix_string_send_time r = None"

text \<open>The two tags the resend loop adds to a loaded message.\<close>

definition flag_resent :: "session_settings \<Rightarrow> outgoing_message \<Rightarrow> outgoing_message" where
  "flag_resent st m =
     (let m = set_tag_char HEADER TAG_POSS_DUP_FLAG (CHR ''Y'') m
      in if include_t97_during_resends st then set_tag_char HEADER TAG_POSS_RESEND (CHR ''Y'') m else m)"

lemma flag_resent_kept [simp]:
  "m_additional_static_header_tags (flag_resent st m) = m_additional_static_header_tags m"
  by (simp add: flag_resent_def set_tag_char_def Let_def)

lemma load_stored:
  assumes "storable st m" "is_reset_for_reuse r" "m_additional_static_header_tags r = m_additional_static_header_tags m"
  shows "\<exists>r'. load_from_buffer (fst (encode st lp sent i m)) r = Some r' \<and>
    same_content (flag_resent st r') (resent_copy st lp sent i m)"
proof -
  obtain c where c: "m_msg_type m = [c]" "c \<noteq> SOH"
    using assms(1) by (cases "m_msg_type m") (auto simp: storable_def)
  have now: "m_fix_string_send_time m = None" using assms(1) by (simp add: storable_def)
  have "\<exists>r'. load_from_buffer (fst (encode st lp sent i m)) r = Some r' \<and>
    same_content r' (r\<lparr>
      m_msg_type := (if is_a_non_retransmittable_admin_message_type [c] then [MSG_TYPE_SEQUENCE_RESET] else [c]),
      m_header := m_header r @ [(TAG_ORIG_SENDING_TIME, ensure_send_time (timestamp_subseconds_precision st) sent m)],
      m_body := m_body r @
        (if is_a_non_retransmittable_admin_message_type [c] then [(TAG_NEW_SEQ_NO, dec (unat (i + 1)))]
         else filter (\<lambda>(t, v). \<not> is_static_header_tag m t)
           ((if include_last_processed_seqnum_in_header st then [(369, dec (unat lp))] else []) @
            m_additional_static_header_tags m @ m_header m @ m_body m @ m_trailer m))\<rparr>)"
    using assms(1) by (intro load_from_encoded [OF c _ _ _ _ _ assms(3)]) (auto simp: storable_def)
  with assms(2) show ?thesis
    by (auto simp: same_content_def resent_copy_def flag_resent_def is_reset_for_reuse_def c(1) Let_def
        set_tag_char_def assms(3) now ensure_send_time_def)
qed

subsection \<open>One retransmission\<close>

text \<open>The number of clock readings of a retransmission and what it does to the outside at reading \<open>t\<close>.\<close>

definition resend_reads :: "session \<Rightarrow> nat" where
  "resend_reads s = (if serialisation_enabled s then 3 else 2)"

definition resent_bytes :: "session \<Rightarrow> nat \<Rightarrow> u32 \<Rightarrow> u32 \<times> nat \<times> outgoing_message \<Rightarrow> string" where
  "resent_bytes s now i original =
     (case original of (lp, sent, m) \<Rightarrow>
        fst (encode (m_settings s) (session_incoming_seq_no s) now i (resent_copy (m_settings s) lp sent i m)))"

definition resent_events :: "server_environment \<Rightarrow> nat \<Rightarrow> string \<Rightarrow> session \<Rightarrow> nat \<Rightarrow> u32 \<Rightarrow> u32 \<times> nat \<times> outgoing_message \<Rightarrow> event list" where
  "resent_events e p n s t i original =
     (let buffer = resent_bytes s (e_wall e t) i original
      in Sent p n buffer SendOk # (if e_has_persist_plugin e then [Persist_outgoing n (session_outgoing_seq_no s) buffer True] else []))"

text \<open>The serialiser of session \<open>s\<close> gives out the message \<open>m\<close> that was sent as number \<open>i\<close> at time \<open>sent\<close>, when
  \<open>lp\<close> was the last number received.\<close>

definition stored_message :: "server_environment \<Rightarrow> session \<Rightarrow> u32 \<Rightarrow> u32 \<times> nat \<times> outgoing_message \<Rightarrow> bool" where
  "stored_message e s i original \<longleftrightarrow>
     (case original of (lp, sent, m) \<Rightarrow>
        storable (m_settings s) m \<and>
        m_additional_static_header_tags m = m_additional_static_header_tags (m_outgoing_fix_message s) \<and>
        read_message (m_outgoing_messages_serialiser s) i (e_tx_encode_buffer_capacity e) =
          Some (fst (encode (m_settings s) lp sent i m)))"

text \<open>What holds of a server \<open>w\<close> in the middle of a replay that began when the session was \<open>s\<close>.\<close>

definition replaying :: "nat \<Rightarrow> string \<Rightarrow> session \<Rightarrow> server \<Rightarrow> bool" where
  "replaying p n s w \<longleftrightarrow> get_peer_index w n = Some p \<and> has_socket w p \<and>
     m_sequence_store (m_sessions w n) = m_sequence_store s \<and> m_settings (m_sessions w n) = m_settings s \<and>
     is_reset_for_reuse (m_outgoing_fix_message (m_sessions w n)) \<and>
     m_additional_static_header_tags (m_outgoing_fix_message (m_sessions w n)) =
       m_additional_static_header_tags (m_outgoing_fix_message s) \<and>
     index_grows (m_outgoing_messages_serialiser s) (m_outgoing_messages_serialiser (m_sessions w n))"

lemma encode_leaves_reusable:
  "is_reset_for_reuse (snd (encode st lp now q m))"
  "m_additional_static_header_tags (snd (encode st lp now q m)) = m_additional_static_header_tags m"
  by (simp_all add: encode_def Let_def is_reset_for_reuse_def)

lemma encode_outgoing_fits:
  assumes "length (fst (encode (m_settings (m_sessions w n)) (session_incoming_seq_no (m_sessions w n)) (now_wall e w) q
      (m_outgoing_fix_message (m_sessions w n)))) \<le> e_tx_encode_buffer_capacity e"
  shows "encode_outgoing e n q w = Some
    (fst (encode (m_settings (m_sessions w n)) (session_incoming_seq_no (m_sessions w n)) (now_wall e w) q
       (m_outgoing_fix_message (m_sessions w n))),
     tick (upd_session n (\<lambda>s. s\<lparr>m_outgoing_fix_message :=
       snd (encode (m_settings (m_sessions w n)) (session_incoming_seq_no (m_sessions w n)) (now_wall e w) q
         (m_outgoing_fix_message (m_sessions w n)))\<rparr>) w))"
  using assms by (simp add: encode_outgoing_def Let_def case_prod_beta)

text \<open>A send that the transport takes changes the session only in its serialiser and its send timestamp.\<close>

lemma send_bytes_ok:
  assumes "get_peer_index w n = Some p" "has_socket w p" "e_send e (srv_sends w) = SendOk"
  shows "\<exists>w'. send_bytes e False n buffer w = Some (True, w') \<and> get_peer_index w' n = Some p \<and> has_socket w' p \<and>
    srv_clock_reads w' + 1 = srv_clock_reads w + resend_reads (m_sessions w n) \<and>
    (let ser = m_outgoing_messages_serialiser (m_sessions w n);
         ser' = m_outgoing_messages_serialiser (m_sessions w' n)
     in ser' = ser \<or> (\<exists>ts. ser' = serialiser_write ts buffer True (session_outgoing_seq_no (m_sessions w n)) ser))"
proof -
  have t: "transport_send e p n buffer w = Some (True, emit (Sent p n buffer SendOk) (w\<lparr>srv_sends := srv_sends w + 1\<rparr>))"
    using assms(2,3) by (simp add: transport_send_def Let_def)
  show ?thesis
    using assms(1,2)
    by (auto simp: send_bytes_def t serialise_outgoing_def Let_def emit_def upd_session_def tick_def has_socket_def
        get_peer_index_def resend_reads_def serialisation_enabled_def)
qed

lemma resend_step:
  assumes "replaying p n s w" "records_kept (m_outgoing_messages_serialiser s)" "stored_message e s i original"
    and "e_send e (srv_sends w) = SendOk"
    and "length (resent_bytes s (now_wall e w) i original) \<le> e_tx_encode_buffer_capacity e"
  shows "\<exists>w'. resend_message e n i w = Some w' \<and> replaying p n s w' \<and> srv_sends w' = srv_sends w + 1 \<and>
    srv_clock_reads w' = srv_clock_reads w + resend_reads s \<and>
    srv_trace w' = srv_trace w @ resent_events e p n s (srv_clock_reads w) i original"
proof -
  let ?s = "m_sessions w n"
  obtain lp sent m where o: "original = (lp, sent, m)" by (cases original)
  let ?b = "fst (encode (m_settings s) lp sent i m)"
  note r = assms(1) [unfolded replaying_def]
  have m: "storable (m_settings s) m"
    "m_additional_static_header_tags m = m_additional_static_header_tags (m_outgoing_fix_message ?s)"
    "read_message (m_outgoing_messages_serialiser ?s) i (e_tx_encode_buffer_capacity e) = Some ?b"
    using assms(2,3) r index_grows_read [of "m_outgoing_messages_serialiser s"] by (simp_all add: stored_message_def o)
  obtain l where l: "load_from_buffer ?b (m_outgoing_fix_message ?s) = Some l"
    "same_content (flag_resent (m_settings s) l) (resent_copy (m_settings s) lp sent i m)"
    using load_stored [OF m(1)] m(2) r by metis
  define v where "v = upd_session n (\<lambda>s'. s'\<lparr>m_outgoing_fix_message := flag_resent (m_settings s) l\<rparr>) w"
  define enc where "enc = encode (m_settings s) (session_incoming_seq_no s) (now_wall e w) i (flag_resent (m_settings s) l)"
  define u where "u = tick (upd_session n (\<lambda>s'. s'\<lparr>m_outgoing_fix_message := snd enc\<rparr>) v)"
  have bytes: "fst enc = resent_bytes s (now_wall e w) i original"
    unfolding enc_def using encode_same_content [OF l(2)] by (simp add: resent_bytes_def o)
  have v: "m_sessions v n = ?s\<lparr>m_outgoing_fix_message := flag_resent (m_settings s) l\<rparr>" "now_wall e v = now_wall e w"
    by (simp_all add: v_def upd_session_def now_wall_def)
  have encoded: "encode_outgoing e n i v = Some (fst enc, u)"
    using encode_outgoing_fits [of v n e i] assms(5) r by (simp add: v u_def enc_def bytes [unfolded enc_def])
  have u: "m_sessions u n = ?s\<lparr>m_outgoing_fix_message := snd enc\<rparr>" "srv_sends u = srv_sends w" "srv_trace u = srv_trace w"
    "srv_clock_reads u = srv_clock_reads w + 1" "get_peer_index u n = Some p" "has_socket u p"
    using r by (simp_all add: u_def v_def upd_session_def tick_def get_peer_index_def has_socket_def)
  have "e_send e (srv_sends u) = SendOk" using assms(4) by (simp add: u(2))
  from send_bytes_ok [OF u(5,6) this, of "fst enc"]
  obtain w' where w': "send_bytes e False n (fst enc) u = Some (True, w')" "get_peer_index w' n = Some p" "has_socket w' p"
    "srv_clock_reads w' + 1 = srv_clock_reads u + resend_reads (m_sessions u n)"
    "m_outgoing_messages_serialiser (m_sessions w' n) = m_outgoing_messages_serialiser ?s \<or>
      (\<exists>ts. m_outgoing_messages_serialiser (m_sessions w' n) =
        serialiser_write ts (fst enc) True (session_outgoing_seq_no ?s) (m_outgoing_messages_serialiser ?s))"
    by (auto simp: Let_def u(1))
  note eff = send_bytes_effect [OF u(5) w'(1)]
  have "resend_message e n i w = Some w'"
    using encoded w'(1) r by (simp add: resend_message_def Let_def m(3) l(1) v_def flag_resent_def)
  moreover have "replaying p n s w'"
  proof -
    have g: "index_grows (m_outgoing_messages_serialiser s) (m_outgoing_messages_serialiser ?s)"
      using r by blast
    then have "records_kept (m_outgoing_messages_serialiser ?s)" by (simp add: index_grows_def)
    from serialiser_write_index_grows [OF this] w'(5)
    have "index_grows (m_outgoing_messages_serialiser s) (m_outgoing_messages_serialiser (m_sessions w' n))"
      using g index_grows_trans by metis
    moreover have "m_additional_static_header_tags l = m_additional_static_header_tags m"
      using l(2) by (simp add: same_content_def resent_copy_def Let_def)
    ultimately show ?thesis
      using r w'(2,3) m(2) assms(4)
      by (simp add: replaying_def eff(2,5,6) u(1) enc_def encode_leaves_reusable)
  qed
  moreover have "srv_trace w' = srv_trace w @ resent_events e p n s (srv_clock_reads w) i original"
    using r assms(4) bytes
    by (simp add: eff(2,3) u(1-3) resent_events_def Let_def now_wall_def)
  moreover have "srv_clock_reads w' = srv_clock_reads w + resend_reads s"
    using w'(4) r by (simp add: u resend_reads_def serialisation_enabled_def)
  ultimately show ?thesis by (intro exI [of _ w']) (simp add: eff(4) u(2))
qed

subsection \<open>The whole replay\<close>

lemma replay_loop:
  assumes "replaying p n s w" "records_kept (m_outgoing_messages_serialiser s)" "final \<noteq> -1"
    and "unat i + d = unat final + 1" "k + d < 2 ^ 32"
    and "\<And>j. j < d \<Longrightarrow> stored_message e s (i + word_of_nat j) (original (i + word_of_nat j))"
    and "\<And>j. j < d \<Longrightarrow> e_send e (srv_sends w + j) = SendOk"
    and "\<And>j t. j < d \<Longrightarrow>
      length (resent_bytes s (e_wall e t) (i + word_of_nat j) (original (i + word_of_nat j))) \<le> e_tx_encode_buffer_capacity e"
  shows "\<exists>w'. resend_loop e n k i final w = Some w' \<and> replaying p n s w' \<and>
    srv_trace w' = srv_trace w @ concat (map (\<lambda>j. resent_events e p n s (srv_clock_reads w + j * resend_reads s)
      (i + word_of_nat j) (original (i + word_of_nat j))) [0..<d])"
  using assms
proof (induction d arbitrary: k i w)
  case 0
  then have "final < i" by (simp add: word_less_nat_alt)
  with 0 show ?case by (subst resend_loop.simps) simp
next
  case (Suc d)
  have next_number: "unat (i + 1) = unat i + 1"
  proof -
    have "final < -1" using Suc.prems(3) by (simp add: less_le)
    moreover have "unat (-1 :: u32) = 2 ^ 32 - 1" by (simp add: unsigned_minus_1_eq_mask mask_eq_exp_minus_1)
    ultimately have "unat final < 2 ^ 32 - 1" unfolding word_less_nat_alt by (simp only:)
    then show ?thesis using Suc.prems(4) by (simp add: unat_word_ariths)
  qed
  have shift: "i + 1 + word_of_nat j = i + word_of_nat (Suc j)" for j by simp
  obtain v where v: "resend_message e n i w = Some v" "replaying p n s v" "srv_sends v = srv_sends w + 1"
    "srv_clock_reads v = srv_clock_reads w + resend_reads s"
    "srv_trace v = srv_trace w @ resent_events e p n s (srv_clock_reads w) i (original i)"
    using resend_step [OF Suc.prems(1,2), of e i "original i"] Suc.prems(6) [of 0] Suc.prems(7) [of 0]
      Suc.prems(8) [of 0 "srv_clock_reads w"] by (auto simp: now_wall_def)
  have "\<exists>w'. resend_loop e n (k + 1) (i + 1) final v = Some w' \<and> replaying p n s w' \<and>
    srv_trace w' = srv_trace v @ concat (map (\<lambda>j. resent_events e p n s (srv_clock_reads v + j * resend_reads s)
      (i + 1 + word_of_nat j) (original (i + 1 + word_of_nat j))) [0..<d])"
    by (rule Suc.IH [OF v(2) Suc.prems(2,3)], unfold shift next_number v(3))
      (use Suc.prems(4,5) Suc.prems(6-8) [of "Suc _"] in auto)
  moreover have "\<not> final < i" using Suc.prems(4) by (simp add: word_less_nat_alt)
  moreover have "[0..<Suc d] = 0 # map Suc [0..<d]" by (metis upt_conv_Cons map_Suc_upt zero_less_Suc)
  ultimately show ?case
    using Suc.prems(5) v(1,4,5)
    by (subst resend_loop.simps) (auto simp: shift o_def algebra_simps simp del: upt_Suc)
qed


lemma read_after_write:
  assumes "records_kept s" "has_room s msg" "m_current_mapped s" "m_message_memory_records s q = None" "length msg \<le> cap"
  shows "read_message (serialiser_write ts msg ok q s) q cap = Some msg"
    "m_current_written_bytes (serialiser_write ts msg ok q s) = m_current_written_bytes s + 17 + length msg"
    "m_current_mapped (serialiser_write ts msg ok q s)"
    "m_serialised_file_max_size (serialiser_write ts msg ok q s) = m_serialised_file_max_size s"
    "m \<noteq> q \<Longrightarrow> m_message_memory_records (serialiser_write ts msg ok q s) m = m_message_memory_records s m"
proof -
  define s' where "s' = write_entry ts msg ok q s"
  have w: "serialiser_write ts msg ok q s = s'" using assms(2,3) by (simp add: serialiser_write_def s'_def)
  have room: "m_current_written_bytes s + 17 + length msg \<le> length (current_buffer s)"
    using assms(1,2) by (auto simp: records_kept_def current_buffer_def has_room_def m_serialisation_overhead_bytes_def)
  note eff = write_entry_effect [OF room s'_def]
  have keep: "m_keep_message_records_in_memory s" using assms(1) by (simp add: records_kept_def)
  show "read_message (serialiser_write ts msg ok q s) q cap = Some msg"
    unfolding w using read_written [OF room s'_def keep assms(4), of cap] assms(5) by simp
  show "m_current_written_bytes (serialiser_write ts msg ok q s) = m_current_written_bytes s + 17 + length msg"
    "m_current_mapped (serialiser_write ts msg ok q s)"
    "m_serialised_file_max_size (serialiser_write ts msg ok q s) = m_serialised_file_max_size s"
    "m \<noteq> q \<Longrightarrow> m_message_memory_records (serialiser_write ts msg ok q s) m = m_message_memory_records s m"
    unfolding w using assms(3) by (simp_all add: eff)
qed

text \<open>A session whose journal holds an order under number 1 and a Heartbeat under number 2.\<close>

definition heartbeat_message :: outgoing_message where
  "heartbeat_message = set_msg_type_char MSG_TYPE_HEARTBEAT new_outgoing_message"

definition journalled_messages :: "u32 \<Rightarrow> u32 \<times> nat \<times> outgoing_message" where
  "journalled_messages i = (0, 0, if i = 1 then order_message else heartbeat_message)"

definition journalled_bytes :: "session \<Rightarrow> u32 \<Rightarrow> string" where
  "journalled_bytes s i = (case journalled_messages i of (lp, sent, m) \<Rightarrow> fst (encode (m_settings s) lp sent i m))"

definition two_stored :: "session \<Rightarrow> message_serialiser" where
  "two_stored s =
     (let size = 50 + length (journalled_bytes s 1) + length (journalled_bytes s 2)
      in serialiser_write 0 (journalled_bytes s 2) True 2 (serialiser_write 0 (journalled_bytes s 1) True 1
           (fresh_serialiser\<lparr>m_serialised_file_max_size := size, ser_files := [1 \<mapsto> replicate size (CHR 0x00)]\<rparr>)))"

definition replaying_server :: "incoming_message \<Rightarrow> server" where
  "replaying_server im =
     upd_session ''A'' (\<lambda>s. s\<lparr>m_outgoing_messages_serialiser := two_stored s\<rparr>) (two_connections im)"

lemma two_stored_reads:
  assumes "length (journalled_bytes s 1) \<le> cap" "length (journalled_bytes s 2) \<le> cap"
  shows "records_kept (two_stored s)" "read_message (two_stored s) 1 cap = Some (journalled_bytes s 1)"
    "read_message (two_stored s) 2 cap = Some (journalled_bytes s 2)"
proof -
  define size where "size = 50 + length (journalled_bytes s 1) + length (journalled_bytes s 2)"
  define s0 where "s0 = fresh_serialiser\<lparr>m_serialised_file_max_size := size, ser_files := [1 \<mapsto> replicate size (CHR 0x00)]\<rparr>"
  define s1 where "s1 = serialiser_write 0 (journalled_bytes s 1) True 1 s0"
  have two: "two_stored s = serialiser_write 0 (journalled_bytes s 2) True 2 s1"
    by (simp add: two_stored_def s1_def s0_def size_def Let_def)
  have k0: "records_kept s0" by (simp add: records_kept_def s0_def fresh_serialiser_def)
  have r0: "has_room s0 (journalled_bytes s 1)" "m_current_mapped s0" "m_message_memory_records s0 1 = None"
    by (simp_all add: has_room_def m_serialisation_overhead_bytes_def s0_def fresh_serialiser_def size_def)
  note e1 = read_after_write [OF k0 r0 assms(1), where ts = 0 and ok = True, folded s1_def]
  have k1: "records_kept s1"
    using serialiser_write_index_grows [OF k0] by (simp add: index_grows_def s1_def)
  have r1: "has_room s1 (journalled_bytes s 2)" "m_message_memory_records s1 2 = None"
    by (simp_all add: has_room_def m_serialisation_overhead_bytes_def e1 s0_def fresh_serialiser_def size_def)
  have g: "index_grows s1 (two_stored s)" unfolding two by (rule serialiser_write_index_grows [OF k1])
  then show "records_kept (two_stored s)" by (simp add: index_grows_def)
  show "read_message (two_stored s) 1 cap = Some (journalled_bytes s 1)" by (rule index_grows_read [OF k1 g e1(1)])
  show "read_message (two_stored s) 2 cap = Some (journalled_bytes s 2)"
    unfolding two by (rule read_after_write(1) [OF k1 r1(1) e1(3) r1(2) assms(2)])
qed


end
