(* ===== verification/Server_Start.thy ===== *)
theory Server_Start
  imports Server_Behaviour Session_Loading Server_Settings
begin

text \<open>
  The start of a server: \<open>FixServer::create\<close> with the options it hands to the reactor
  (\<open>tcp_reactor_options.h\<close>), the loading of sessions from configuration files, and what holds of the
  sessions that were loaded: their settings stay, and no two of them use the same file.

  The content of a file and the order in which a hash table is visited are inputs, as in \<open>Configuration\<close>.
\<close>

subsection \<open>Creation\<close>

record tcp_reactor_options =
  m_port :: int
  m_cpu_core_id :: int
  m_rx_buffer_capacity :: nat
  m_receive_size :: int
  m_send_try_count :: int
  m_accept_timeout_seconds :: int
  m_nic_interface_name :: string
  m_nic_interface_ip :: string
  m_nic_ringbuffer_tx_size :: int
  m_nic_ringbuffer_rx_size :: int
  m_enable_quick_ack :: bool
  m_pending_connection_queue_size :: int
  m_socket_rx_size :: int
  m_socket_tx_size :: int
  m_disable_nagle :: bool
  m_busy_poll_microseconds :: int
  m_async_io_timeout_nanoseconds :: int
  m_max_poll_events :: nat
  m_spin_count :: int
  m_worker_thread_count :: int

definition default_reactor_options :: tcp_reactor_options where
  "default_reactor_options =
     \<lparr>m_port = 0, m_cpu_core_id = -1, m_rx_buffer_capacity = 655360, m_receive_size = 4096, m_send_try_count = 0,
      m_accept_timeout_seconds = 5, m_nic_interface_name = '''', m_nic_interface_ip = '''',
      m_nic_ringbuffer_tx_size = 2048, m_nic_ringbuffer_rx_size = 4096, m_enable_quick_ack = False,
      m_pending_connection_queue_size = 32, m_socket_rx_size = 212992, m_socket_tx_size = 212992,
      m_disable_nagle = True, m_busy_poll_microseconds = 0,
      m_async_io_timeout_nanoseconds = DEFAULT_POLL_TIMEOUT_NANOSECONDS, m_max_poll_events = 64,
      m_spin_count = 1, m_worker_thread_count = 0\<rparr>"

definition reactor_options_of :: "fix_server_settings \<Rightarrow> tcp_reactor_options" where
  "reactor_options_of st = default_reactor_options
     \<lparr>m_accept_timeout_seconds := accept_timeout_seconds st,
      m_async_io_timeout_nanoseconds := async_io_timeout_nanoseconds st,
      m_busy_poll_microseconds := busy_poll_microseconds st,
      m_cpu_core_id := cpu_core_id st,
      m_worker_thread_count := worker_thread_count st,
      m_send_try_count := send_try_count st,
      m_disable_nagle := disable_nagle st,
      m_enable_quick_ack := quick_ack st,
      m_max_poll_events := max_poll_events st,
      m_nic_interface_ip := nic_address st,
      m_nic_interface_name := nic_name st,
      m_nic_ringbuffer_rx_size := nic_ringbuffer_rx_size st,
      m_nic_ringbuffer_tx_size := nic_ringbuffer_tx_size st,
      m_pending_connection_queue_size := pending_connection_queue_size st,
      m_port := accept_port st,
      m_rx_buffer_capacity := rx_buffer_capacity st,
      m_receive_size := receive_size st,
      m_socket_rx_size := socket_rx_size st,
      m_socket_tx_size := socket_tx_size st,
      m_spin_count := spin_count st\<rparr>"

text \<open>The environment of a server with these settings and options; the rest of it is what the outside answers.\<close>

definition configured :: "fix_server_settings \<Rightarrow> tcp_reactor_options \<Rightarrow> server_environment \<Rightarrow> server_environment" where
  "configured st options e = e
     \<lparr>e_rx_buffer_capacity := m_rx_buffer_capacity options,
      e_starts_as_primary_instance := starts_as_primary_instance st,
      e_refresh_resend_cache_during_promotion := refresh_resend_cache_during_promotion st,
      e_tx_encode_buffer_capacity := server_tx_encode_buffer_capacity st\<rparr>"

text \<open>The result of a creation that fails is the error it logs; otherwise the settings, the options of the reactor
  and the server without sessions.\<close>

definition create_server ::
    "(string list \<Rightarrow> string) \<Rightarrow> string \<Rightarrow> string \<Rightarrow> string option \<Rightarrow> server_environment \<Rightarrow> session \<Rightarrow>
     string + fix_server_settings \<times> tcp_reactor_options \<times> server" where
  "create_server pick server_name config_file_path content e blank =
     (case load_server_settings pick config_file_path content server_name of
        Inl config_load_error \<Rightarrow> Inl (''Loading settings for server '' @ server_name @ '' failed : '' @ config_load_error)
      | Inr st \<Rightarrow>
          (case validate_server_settings st of
             Some validation_error \<Rightarrow>
               Inl (''FixServerSettings for '' @ server_name @ '' validation failed : '' @ validation_error)
           | None \<Rightarrow>
               (let options = reactor_options_of st
                in Inr (st, options, new_server (configured st options e) blank))))"

subsection \<open>Sessions from configuration files\<close>

definition string_contains :: "string \<Rightarrow> string \<Rightarrow> bool" where
  "string_contains haystack needle \<longleftrightarrow>
     list_ex (\<lambda>k. take (length needle) (drop k haystack) = needle) [0..<length haystack + 1 - length needle]"

text \<open>\<open>envs\<close> is what each new session finds when it is initialised, \<open>cwd\<close> the working directory.\<close>

definition add_session ::
    "(string list \<Rightarrow> string) \<Rightarrow> string \<Rightarrow> server_environment \<Rightarrow> (string \<Rightarrow> session_environment) \<Rightarrow> string \<Rightarrow>
     string option \<Rightarrow> string \<Rightarrow> server \<Rightarrow> (bool \<times> server) option" where
  "add_session pick cwd e envs session_config_file_path content session_name w =
     (case load_session_settings pick cwd session_config_file_path content session_name default_session_settings of
        Inl config_load_error \<Rightarrow> Some (False, w)
      | Inr session_settings \<Rightarrow> internal_add_session e (envs session_name) session_name session_settings w)"

text \<open>The loop over the group names; \<^term>\<open>None\<close> as its count is a session that could not be added.\<close>

fun add_each_session ::
    "(string \<Rightarrow> server \<Rightarrow> (bool \<times> server) option) \<Rightarrow> string list \<Rightarrow> nat \<Rightarrow> server \<Rightarrow> (nat option \<times> server) option" where
  "add_each_session add [] added_session_count w = Some (Some added_session_count, w)"
| "add_each_session add (session_name # names) added_session_count w =
     (let lowered_session_name = to_lower session_name
      in if string_contains lowered_session_name ''session'' then
           (case add session_name w of
              None \<Rightarrow> None
            | Some (False, w) \<Rightarrow> Some (None, w)
            | Some (True, w) \<Rightarrow> add_each_session add names (added_session_count + 1) w)
         else add_each_session add names added_session_count w)"

text \<open>\<open>get_group_names\<close> lists the groups in the order of the hash table, \<open>order\<close>.\<close>

definition add_sessions_from ::
    "(configuration \<Rightarrow> string list) \<Rightarrow> (string list \<Rightarrow> string) \<Rightarrow> string \<Rightarrow> server_environment \<Rightarrow>
     (string \<Rightarrow> session_environment) \<Rightarrow> string \<Rightarrow> string option \<Rightarrow> server \<Rightarrow> (bool \<times> server) option" where
  "add_sessions_from order pick cwd e envs session_config_file_path content w =
     (case load_from_file session_config_file_path content of
        Inl config_load_error \<Rightarrow> Some (False, w)
      | Inr config_file \<Rightarrow>
          (case add_each_session (add_session pick cwd e envs session_config_file_path content) (order config_file) 0 w of
             None \<Rightarrow> None
           | Some (None, w) \<Rightarrow> Some (False, w)
           | Some (Some added_session_count, w) \<Rightarrow> Some (added_session_count \<noteq> 0, w)))"

definition get_session_count :: "server \<Rightarrow> nat" where
  "get_session_count w = length (srv_session_names w)"

definition does_any_session_use_compids :: "server \<Rightarrow> string \<Rightarrow> string \<Rightarrow> bool" where
  "does_any_session_use_compids w sender target \<longleftrightarrow>
     list_ex (\<lambda>n. let st = m_settings (m_sessions w n)
        in sender_comp_id st = sender \<and> target_comp_id st = target) (srv_session_names w)"
subsection \<open>What loading a session does\<close>

definition served_settings :: "server_environment \<Rightarrow> session_settings \<Rightarrow> session_settings" where
  "served_settings e st = st\<lparr>is_server := True, tx_encode_buffer_capacity := e_tx_encode_buffer_capacity e\<rparr>"

text \<open>A loaded session has these settings, has no commands, and is disconnected or, on a secondary instance,
  disabled.\<close>

definition holds_loaded :: "server_environment \<Rightarrow> session_settings \<Rightarrow> session \<Rightarrow> bool" where
  "holds_loaded e st s \<longleftrightarrow> m_settings s = served_settings e st \<and>
     m_state s = (if e_starts_as_primary_instance e then DISCONNECTED else DISABLED) \<and> m_admin_commands s = []"

definition paths_of :: "session_settings \<Rightarrow> string list" where
  "paths_of st = [sequence_store_file_path st, incoming_message_serialisation_path st, outgoing_message_serialisation_path st]"

lemma disable_disconnected:
  "m_state (m_sessions w n) = DISCONNECTED \<Longrightarrow> disable_session e n w = Some (upd_session n (set_state DISABLED) w)"
  by (simp add: disable_session_def)

lemma initialised_session_settings:
  "session_initialise env n st s = Some s' \<Longrightarrow>
   m_settings s' = st \<and> m_state s' = DISCONNECTED \<and> m_admin_commands s' = m_admin_commands s"
  by (auto simp: session_initialise_def split: option.splits prod.splits if_splits)

lemma internal_add_session_outcome:
  assumes "internal_add_session e env n st w = Some (ok, w')"
  shows "if ok then \<not> has_session w n \<and> list_all (\<lambda>f. \<not> does_any_session_use_path w f) (paths_of st) \<and>
      srv_session_names w' = srv_session_names w @ [n] \<and> (\<forall>m. m \<noteq> n \<longrightarrow> m_sessions w' m = m_sessions w m) \<and>
      holds_loaded e st (m_sessions w' n)
    else w' = w"
proof (cases "has_session w n \<or> list_ex (does_any_session_use_path w) (paths_of st) \<or>
    session_initialise env n (served_settings e st) (new_session env) = None")
  case True
  then show ?thesis using assms
    by (auto simp: internal_add_session_def paths_of_def served_settings_def split: if_splits)
next
  case False
  then obtain s where s: "session_initialise env n (served_settings e st) (new_session env) = Some s" by auto
  let ?w = "(upd_session n (\<lambda>_. s) w)\<lparr>srv_session_names := srv_session_names w @ [n]\<rparr>"
  have init: "m_settings s = served_settings e st" "m_state s = DISCONNECTED" "m_admin_commands s = []"
    using initialised_session_settings [OF s] by (simp_all add: new_session_def)
  have "disable_session e n ?w = Some (upd_session n (set_state DISABLED) ?w)"
    by (rule disable_disconnected) (use init in \<open>simp add: upd_session_def\<close>)
  then have "ok \<and> w' = (if e_starts_as_primary_instance e then ?w else upd_session n (set_state DISABLED) ?w)"
    using assms False s by (auto simp: internal_add_session_def paths_of_def served_settings_def Let_def split: if_splits)
  then show ?thesis
    using False init by (auto simp: holds_loaded_def upd_session_def set_state_def paths_of_def)
qed

subsection \<open>No two sessions use the same file\<close>

definition files_of_settings :: "session_settings \<Rightarrow> string list" where
  "files_of_settings st = sequence_store_file_path st #
     (if 0 < max_serialised_file_size st then
        [incoming_message_serialisation_path st, outgoing_message_serialisation_path st] else [])"

text \<open>The files and folders a session writes to.\<close>

definition session_files :: "session \<Rightarrow> string list" where
  "session_files s = files_of_settings (m_settings s)"

definition files_apart :: "server \<Rightarrow> bool" where
  "files_apart w \<longleftrightarrow> (\<forall>n m. has_session w n \<longrightarrow> has_session w m \<longrightarrow> n \<noteq> m \<longrightarrow>
     set (session_files (m_sessions w n)) \<inter> set (session_files (m_sessions w m)) = {})"

lemma session_files_kept: "loaded_settings s' = loaded_settings s \<Longrightarrow> session_files s' = session_files s"
proof -
  have "session_files s = files_of_settings (loaded_settings s)" for s
    by (simp add: session_files_def files_of_settings_def loaded_settings_def)
  then show "loaded_settings s' = loaded_settings s \<Longrightarrow> session_files s' = session_files s" by simp
qed

lemma does_any_session_use_path_iff:
  "does_any_session_use_path w f \<longleftrightarrow> (\<exists>n. has_session w n \<and> f \<in> set (session_files (m_sessions w n)))"
  by (auto simp: does_any_session_use_path_def list_ex_iff has_session_def session_files_def files_of_settings_def
      serialisation_enabled_def Let_def)

lemma session_files_paths: "holds_loaded e st s \<Longrightarrow> set (session_files s) \<subseteq> set (paths_of st)"
  by (auto simp: session_files_def files_of_settings_def holds_loaded_def served_settings_def paths_of_def)

lemma internal_add_session_apart:
  assumes "files_apart w" "internal_add_session e env n st w = Some (ok, w')"
  shows "files_apart w'"
proof (cases ok)
  case True
  note out = internal_add_session_outcome [OF assms(2), unfolded if_P [OF True]]
  have names: "has_session w' m \<longleftrightarrow> m = n \<or> has_session w m" for m using out by (auto simp: has_session_def)
  have old: "m_sessions w' m = m_sessions w m" if "m \<noteq> n" for m using out that by simp
  have "set (session_files (m_sessions w' n)) \<inter> set (session_files (m_sessions w m)) = {}" if "has_session w m" for m
    using session_files_paths [of e st "m_sessions w' n"] out that
    by (auto simp: list_all_iff does_any_session_use_path_iff)
  with assms(1) old show ?thesis
    unfolding files_apart_def names by (metis Int_commute)
next
  case False
  then show ?thesis using internal_add_session_outcome [OF assms(2)] assms(1) by simp
qed

lemma step_keeps_files:
  assumes "server_step e w w'" "server_wf None w" "has_session w n"
  shows "has_session w' n \<and> session_files (m_sessions w' n) = session_files (m_sessions w n)"
proof -
  note kept = server_step_keeps [OF assms(1,2)]
  have "session_files (m_sessions w' n) = session_files (m_sessions w n)"
    using kept by (intro session_files_kept) (simp add: keeps_settings_def)
  with kept assms(3) show ?thesis by (simp add: has_session_def)
qed

lemma server_step_apart:
  assumes "server_step e w w'" "server_wf None w" "files_apart w"
  shows "files_apart w'"
proof -
  have "has_session w' n \<longleftrightarrow> has_session w n" for n
    using server_step_keeps [OF assms(1,2)] by (simp add: has_session_def)
  with step_keeps_files [OF assms(1,2)] assms(3) show ?thesis by (simp add: files_apart_def)
qed

lemma reachable_files_apart: "server_reachable e w \<Longrightarrow> files_apart w"
proof (induction rule: server_reachable.induct)
  case (created blank)
  show ?case by (simp add: files_apart_def new_server_def has_session_def)
next
  case (loaded w env n st ok w')
  then show ?case by (blast intro: internal_add_session_apart)
next
  case (stepped w w')
  then show ?case by (blast intro: server_step_apart reachable_wf)
qed

lemma used_path_not_added:
  assumes "has_session w m" "set (paths_of st) \<inter> set (session_files (m_sessions w m)) \<noteq> {}"
  shows "internal_add_session e env n st w = Some (False, w)"
proof -
  have "list_ex (does_any_session_use_path w) (paths_of st)"
    using assms by (auto simp: list_ex_iff does_any_session_use_path_iff)
  then show ?thesis by (auto simp: internal_add_session_def paths_of_def)
qed

lemma added_keeps_files:
  assumes "internal_add_session e env k st w = Some (ok, w')" "has_session w n"
  shows "has_session w' n \<and> session_files (m_sessions w' n) = session_files (m_sessions w n)"
  using internal_add_session_outcome [OF assms(1)] assms(2) by (auto simp: has_session_def split: if_splits)

text \<open>C9: in every reachable state of a server the paths of two different sessions (the sequence store, and the two journals
  of a session that serialises) are different strings. A session that names a path in use, for its sequence store or
  either journal, is not loaded and changes nothing; and no session ever changes its paths or disappears,
  neither by a step of the server nor when another session is loaded. Paths are compared as they are written, so that two
  spellings of one file are not noticed.\<close>

theorem sessions_share_no_file:
  assumes "server_reachable e w"
  shows "(\<forall>n m. has_session w n \<and> has_session w m \<and> n \<noteq> m \<longrightarrow>
      set (session_files (m_sessions w n)) \<inter> set (session_files (m_sessions w m)) = {}) \<and>
    (\<forall>env k st m. has_session w m \<and> set (paths_of st) \<inter> set (session_files (m_sessions w m)) \<noteq> {} \<longrightarrow>
      internal_add_session e env k st w = Some (False, w)) \<and>
    (\<forall>w' n. has_session w n \<and> (server_step e w w' \<or> (\<exists>env k st ok. internal_add_session e env k st w = Some (ok, w'))) \<longrightarrow>
      has_session w' n \<and> session_files (m_sessions w' n) = session_files (m_sessions w n))"
  using reachable_files_apart [OF assms] used_path_not_added added_keeps_files
    step_keeps_files [OF _ reachable_wf [OF assms]]
  unfolding files_apart_def by metis

subsection \<open>Sessions added from a file\<close>

text \<open>The groups that name a session, and what adding the sessions of a list of names did.\<close>

definition names_session :: "string \<Rightarrow> bool" where
  "names_session g \<longleftrightarrow> string_contains (to_lower g) ''session''"

definition added_as :: "server_environment \<Rightarrow> (string \<Rightarrow> string + session_settings) \<Rightarrow> string list \<Rightarrow> server \<Rightarrow> server \<Rightarrow> bool" where
  "added_as e settings_of added w w' \<longleftrightarrow> srv_session_names w' = srv_session_names w @ added \<and>
     (\<forall>m. m \<notin> set added \<longrightarrow> m_sessions w' m = m_sessions w m) \<and>
     list_all (\<lambda>n. \<not> has_session w n \<and> (\<exists>st. settings_of n = Inr st \<and> holds_loaded e st (m_sessions w' n))) added"

lemma added_none: "added_as e settings_of [] w w"
  by (simp add: added_as_def)

lemma added_more:
  assumes "added_as e settings_of added w v" "settings_of n = Inr st" "internal_add_session e env n st v = Some (True, w')"
  shows "added_as e settings_of (added @ [n]) w w'"
proof -
  note out = internal_add_session_outcome [OF assms(3), unfolded if_True]
  have "n \<notin> set added" "\<not> has_session w n"
    using out assms(1) by (auto simp: added_as_def has_session_def)
  with out assms(1,2) show ?thesis
    by (fastforce simp: added_as_def list_all_iff)
qed

lemma add_each_session_adds:
  assumes "add_each_session (\<lambda>n w. case settings_of n of Inl error \<Rightarrow> Some (False, w)
      | Inr st \<Rightarrow> internal_add_session e (envs n) n st w) names k v = Some (count, w')"
    and "added_as e settings_of added w v"
  shows "\<exists>more rest. filter names_session names = more @ rest \<and> added_as e settings_of (added @ more) w w' \<and>
    (count = (if rest = [] then Some (k + length more) else None))"
  using assms
proof (induction names arbitrary: k v added)
  case (Cons n names)
  show ?case
  proof (cases "names_session n")
    case False
    then show ?thesis using Cons by (simp add: names_session_def)
  next
    case True
    let ?r = "case settings_of n of Inl error \<Rightarrow> Some (False, v) | Inr st \<Rightarrow> internal_add_session e (envs n) n st v"
    consider (failed) "?r = Some (False, v)" "count = None" "w' = v"
      | (added) st v' where "settings_of n = Inr st" "internal_add_session e (envs n) n st v = Some (True, v')"
          "add_each_session (\<lambda>n w. case settings_of n of Inl error \<Rightarrow> Some (False, w)
            | Inr st \<Rightarrow> internal_add_session e (envs n) n st w) names (k + 1) v' = Some (count, w')"
      using Cons.prems(1) True internal_add_session_outcome [of e "envs n" n _ v False]
      by (auto simp: names_session_def split: sum.splits option.splits prod.splits bool.splits if_splits)
    then show ?thesis
    proof cases
      case failed
      then show ?thesis using Cons.prems(2) True
        by (intro exI [of _ "[]"] exI [of _ "filter names_session (n # names)"]) simp
    next
      case added
      from Cons.IH [OF added(3) added_more [OF Cons.prems(2) added(1,2)]]
      obtain more rest where m: "filter names_session names = more @ rest"
        "added_as e settings_of ((added @ [n]) @ more) w w'"
        "count = (if rest = [] then Some (k + 1 + length more) else None)" by blast
      with True show ?thesis by (intro exI [of _ "n # more"] exI [of _ rest]) simp
    qed
  qed
qed (auto intro: exI [of _ "[]"])

text \<open>C21: adding the sessions of a configuration file takes the groups whose names contain \<open>session\<close> in any case, in the
  order they are visited, and stops at the first one whose settings do not load or that cannot be added; the
  ones before it stay loaded. Each of them has a new name, the settings of its group with those of the server, and
  is disconnected, or disabled on a secondary instance; all other sessions are untouched. The answer is yes
  exactly when there was such a group and all of them were added, so it is no after a failure even when some were added
  before it.\<close>

theorem sessions_added_from_file:
  assumes "add_sessions_from order pick cwd e envs file content w = Some (ok, w')"
    and "load_from_file file content = Inr config_file"
  shows "\<exists>added rest. filter names_session (order config_file) = added @ rest \<and> (ok \<longleftrightarrow> rest = [] \<and> added \<noteq> []) \<and>
    added_as e (\<lambda>n. load_session_settings pick cwd file content n default_session_settings) added w w'"
proof -
  obtain count v where each: "add_each_session (add_session pick cwd e envs file content) (order config_file) 0 w = Some (count, v)"
    and r: "w' = v" "ok = (case count of None \<Rightarrow> False | Some k \<Rightarrow> k \<noteq> 0)"
    using assms by (auto simp: add_sessions_from_def split: option.splits prod.splits)
  obtain added rest where "filter names_session (order config_file) = added @ rest"
    "added_as e (\<lambda>n. load_session_settings pick cwd file content n default_session_settings) added w v"
    "count = (if rest = [] then Some (length added) else None)"
    using add_each_session_adds [OF each [unfolded add_session_def] added_none] by auto
  then show ?thesis by (intro exI [of _ added] exI [of _ rest]) (simp add: r)
qed
subsection \<open>Samples\<close>

definition filed :: "string \<Rightarrow> session_settings" where
  "filed f = office_hours\<lparr>sequence_store_file_path := f @ ''.seq'', incoming_message_serialisation_path := f @ ''.in'',
     outgoing_message_serialisation_path := f @ ''.out''\<rparr>"

lemma sample_session_initialises:
  assumes "n \<noteq> ''''" "length n \<le> 32" "validate_settings False st = None" "additional_static_header_tags st = ''''"
    "max_serialised_file_size st = 67108864" "\<not> replay_messages_on_incoming_resend_request st"
  shows "\<exists>s. session_initialise sample_environment n st (new_session sample_environment) = Some s"
proof -
  obtain im where "incoming_initialise new_incoming_message = Some im" by (rule new_message_initialises)
  moreover have "\<exists>a b. initialise_serialisers sample_environment st = Some (a, b)"
    by (simp add: initialise_serialisers_def sample_environment_def assms(5,6) serialiser_initialise_def Let_def
        open_file_def fresh_serialiser_def)
  ultimately show ?thesis using assms by (auto simp: session_initialise_def sample_environment_def)
qed

lemma filed_initialises:
  assumes "n \<noteq> ''''" "length n \<le> 32"
  shows "\<exists>s. session_initialise sample_environment n (served_settings e (filed f)) (new_session sample_environment) = Some s"
  by (rule sample_session_initialises [OF assms])
    (simp_all add: validate_settings_def served_settings_def filed_def office_hours_def default_session_settings_def
      validate_general_def validate_headers_def validate_logon_def validate_requests_def
      validate_throttler_def validate_serialisation_def validate_schedule_def schar_def)

lemma add_to_primary:
  assumes "\<not> has_session w n" "\<not> list_ex (does_any_session_use_path w) (paths_of st)" "e_starts_as_primary_instance e"
    and "session_initialise env n (served_settings e st) (new_session env) = Some s"
  shows "internal_add_session e env n st w =
    Some (True, (upd_session n (\<lambda>_. s) w)\<lparr>srv_session_names := srv_session_names w @ [n]\<rparr>)"
  using assms by (simp add: internal_add_session_def paths_of_def served_settings_def)

theorem sessions_share_no_file_witness:
  "\<exists>w. server_reachable sample_server_environment w \<and> srv_session_names w = [''A'', ''B''] \<and>
    set (session_files (m_sessions w ''A'')) \<inter> set (session_files (m_sessions w ''B'')) = {} \<and>
    internal_add_session sample_server_environment sample_environment ''C'' (filed ''b'') w = Some (False, w)"
proof -
  let ?e = sample_server_environment and ?st = "served_settings sample_server_environment"
  let ?w0 = "new_server ?e (new_session sample_environment)"
  have primary: "e_starts_as_primary_instance ?e" by (simp add: sample_server_environment_def)
  obtain a where a: "session_initialise sample_environment ''A'' (?st (filed ''a'')) (new_session sample_environment) = Some a"
    using filed_initialises [of "''A''"] by auto
  obtain b where b: "session_initialise sample_environment ''B'' (?st (filed ''b'')) (new_session sample_environment) = Some b"
    using filed_initialises [of "''B''"] by auto
  note init = initialised_session_settings [OF a] initialised_session_settings [OF b]
  let ?w1 = "(upd_session ''A'' (\<lambda>_. a) ?w0)\<lparr>srv_session_names := [''A'']\<rparr>"
  let ?w2 = "(upd_session ''B'' (\<lambda>_. b) ?w1)\<lparr>srv_session_names := [''A'', ''B'']\<rparr>"
  have w1: "internal_add_session ?e sample_environment ''A'' (filed ''a'') ?w0 = Some (True, ?w1)"
    using add_to_primary [OF _ _ primary a, of ?w0]
    by (simp add: has_session_def new_server_def does_any_session_use_path_iff paths_of_def)
  have one: "has_session ?w1 n \<longleftrightarrow> n = ''A''" for n by (simp add: has_session_def)
  have files: "session_files (m_sessions ?w1 ''A'') = [''a.seq'', ''a.in'', ''a.out'']"
    using init by (simp add: upd_session_def session_files_def files_of_settings_def served_settings_def filed_def
        office_hours_def default_session_settings_def)
  have w2: "internal_add_session ?e sample_environment ''B'' (filed ''b'') ?w1 = Some (True, ?w2)"
    using add_to_primary [OF _ _ primary b, of ?w1] files
    by (simp add: one does_any_session_use_path_iff paths_of_def filed_def)
  have reach: "server_reachable ?e ?w2"
    by (rule server_reachable.loaded [OF server_reachable.loaded [OF server_reachable.created w1] w2])
  note laws = sessions_share_no_file [OF reach, THEN conjunct1, rule_format]
    sessions_share_no_file [OF reach, THEN conjunct2, THEN conjunct1, rule_format]
  have both: "has_session ?w2 ''A''" "has_session ?w2 ''B''" by (simp_all add: has_session_def)
  have "set (session_files (m_sessions ?w2 ''A'')) \<inter> set (session_files (m_sessions ?w2 ''B'')) = {}"
    by (rule laws(1)) (intro conjI both, simp)
  moreover have "''b.seq'' \<in> set (session_files (m_sessions ?w2 ''B''))"
    using init by (simp add: upd_session_def session_files_def files_of_settings_def served_settings_def filed_def)
  then have "set (paths_of (filed ''b'')) \<inter> set (session_files (m_sessions ?w2 ''B'')) \<noteq> {}"
    by (auto simp: paths_of_def filed_def)
  with both(2) have "internal_add_session ?e sample_environment ''C'' (filed ''b'') ?w2 = Some (False, ?w2)"
    by (intro laws(2) conjI)
  ultimately show ?thesis using reach by (intro exI [of _ ?w2]) simp
qed

text \<open>A file with one group, whose session gets the default paths under the working directory.\<close>

definition sample_session_file :: string where
  "sample_session_file = settings_file ''SESSION1''
     (concat (map save_attribute [(''begin_string'', ''FIX.4.4''), (''sender_comp_id'', ''A''), (''target_comp_id'', ''B'')]))"

definition sample_file_settings :: session_settings where
  "sample_file_settings = default_session_settings
     \<lparr>begin_string := ''FIX.4.4'', sender_comp_id := ''A'', target_comp_id := ''B'', protocol_version := 44,
      sequence_store_file_path := ''/fix/sequence.store'',
      incoming_message_serialisation_path := ''/fix/messages_incoming'',
      outgoing_message_serialisation_path := ''/fix/messages_outgoing''\<rparr>"

lemma path_in_folder:
  assumes "plain_part n"
  shows "normalise_path (convert_relative_path_to_absolute_path ''/fix'' n) = ''/fix/'' @ n"
proof -
  have "lexically_normal (joined [''fix'', n]) = joined [''fix'', n]"
    by (rule lexically_normal_joined) (use assms in \<open>auto simp: plain_part_def\<close>)
  moreover have "map (\<lambda>c. if c = CHR 0x5C then CHR ''/'' else c) n = n"
    by (rule map_idI) (use assms in \<open>auto simp: plain_part_def\<close>)
  moreover have "n \<noteq> [] \<and> hd n \<noteq> CHR ''/''"
    using assms by (cases n) (auto simp: plain_part_def)
  ultimately show ?thesis
    by (simp add: convert_relative_path_to_absolute_path_def normalise_path_def)
qed

lemma sample_paths:
  "normalise_path (convert_relative_path_to_absolute_path ''/fix'' ''sequence.store'') = ''/fix/sequence.store''"
  "normalise_path (convert_relative_path_to_absolute_path ''/fix'' ''messages_incoming'') = ''/fix/messages_incoming''"
  "normalise_path (convert_relative_path_to_absolute_path ''/fix'' ''messages_outgoing'') = ''/fix/messages_outgoing''"
  by (subst path_in_folder; simp add: plain_part_def)+

lemma sample_file_loads:
  "\<exists>c. load_from_file ''a.cfg'' (Some sample_session_file) = Inr c \<and>
    load_session_settings hd ''/fix'' ''a.cfg'' (Some sample_session_file) ''SESSION1'' default_session_settings =
      Inr sample_file_settings"
proof -
  let ?avs = "[(''begin_string'', ''FIX.4.4''), (''sender_comp_id'', ''A''), (''target_comp_id'', ''B'')]"
  have clean: "list_all clean_attribute ?avs" "clean_text ''SESSION1''"
    by (simp_all add: clean_attribute_def clean_text_def is_blank_def)
  obtain c where c: "load_from_file ''a.cfg'' (Some sample_session_file) = Inr c" "does_group_exist ''SESSION1'' c"
    "holds c ''SESSION1'' ?avs"
    using settings_file_loads [OF clean(2) _ _ _ clean(1), of "''a.cfg''"]
    by (auto simp: sample_session_file_def ROOT_GROUP_NAME_def)
  have p: "picks hd" by (simp add: picks_def)
  have v: "validate_loaded_configs hd session_setting_names ''SESSION1'' c = None"
    by (rule holds_valid [OF c(3)]) (simp add: session_setting_names_def)
  note get = holds_get [OF c(3) p]
  show ?thesis
    using c(1)
    by (simp add: load_session_settings_def c(2) v get c_str_def sample_paths Let_def set_heartbeat_interval_in_nanoseconds_def
        to_size_def sample_file_settings_def default_session_settings_def initialise_derived_settings_def
        string_to_subsecond_precision_def string_to_incoming_throttler_action_def begin_string_to_fix_protocol_version_def)
qed
lemma sample_names: "names_session ''SESSION1''" "\<not> names_session ''root''"
  by code_simp+

lemma sample_file_adds:
  assumes p: "e_starts_as_primary_instance e"
  shows "\<exists>w. add_sessions_from (\<lambda>_. [''root'', ''SESSION1'']) hd ''/fix'' e (\<lambda>_. sample_environment)
      ''a.cfg'' (Some sample_session_file) (new_server e (new_session sample_environment)) = Some (True, w) \<and>
    srv_session_names w = [''SESSION1''] \<and> holds_loaded e sample_file_settings (m_sessions w ''SESSION1'') \<and>
    srv_connectors w = srv_connectors (new_server e (new_session sample_environment)) \<and> \<not> m_is_stopping w"
proof -
  let ?st = sample_file_settings
  let ?w0 = "new_server e (new_session sample_environment)"
  have "validate_settings False (served_settings e ?st) = None"
    by (simp add: validate_settings_def served_settings_def sample_file_settings_def default_session_settings_def
        validate_general_def validate_headers_def validate_logon_def validate_requests_def
        validate_throttler_def validate_serialisation_def validate_schedule_def schar_def)
  then obtain s where s: "session_initialise sample_environment ''SESSION1'' (served_settings e ?st) (new_session sample_environment) = Some s"
    using sample_session_initialises [of "''SESSION1''" "served_settings e ?st"]
    by (auto simp: served_settings_def sample_file_settings_def default_session_settings_def)
  let ?v = "(upd_session ''SESSION1'' (\<lambda>_. s) ?w0)\<lparr>srv_session_names := [''SESSION1'']\<rparr>"
  have names: "srv_session_names ?w0 = []" by (simp add: new_server_def)
  have add: "internal_add_session e sample_environment ''SESSION1'' ?st ?w0 = Some (True, ?v)"
    using add_to_primary [OF _ _ p s, of ?w0] names
    by (simp add: has_session_def does_any_session_use_path_iff paths_of_def)
  have "add_sessions_from (\<lambda>_. [''root'', ''SESSION1'']) hd ''/fix'' e (\<lambda>_. sample_environment)
      ''a.cfg'' (Some sample_session_file) ?w0 = Some (True, ?v)"
    using add sample_file_loads sample_names by (auto simp: add_sessions_from_def add_session_def names_session_def)
  moreover have "holds_loaded e sample_file_settings (m_sessions ?v ''SESSION1'')"
    using internal_add_session_outcome [OF add] by simp
  moreover have "srv_connectors ?v = srv_connectors ?w0" "\<not> m_is_stopping ?v"
    by (simp_all add: upd_session_def new_server_def)
  ultimately show ?thesis by (intro exI [of _ ?v]) simp
qed

theorem sessions_added_from_file_witness:
  "\<exists>w :: server. filter names_session [''root'', ''SESSION1''] = [''SESSION1''] \<and> srv_session_names w = [''SESSION1''] \<and>
    holds_loaded sample_server_environment sample_file_settings (m_sessions w ''SESSION1'')"
proof -
  obtain w where w: "add_sessions_from (\<lambda>_. [''root'', ''SESSION1'']) hd ''/fix'' sample_server_environment (\<lambda>_. sample_environment)
      ''a.cfg'' (Some sample_session_file) (new_server sample_server_environment (new_session sample_environment)) = Some (True, w)"
    using sample_file_adds [of sample_server_environment] by (auto simp: sample_server_environment_def)
  obtain c where "load_from_file ''a.cfg'' (Some sample_session_file) = Inr c"
    and st: "load_session_settings hd ''/fix'' ''a.cfg'' (Some sample_session_file) ''SESSION1'' default_session_settings =
      Inr sample_file_settings"
    using sample_file_loads by blast
  from sessions_added_from_file [OF w this(1)] obtain added where "filter names_session [''root'', ''SESSION1''] = added"
    "added_as sample_server_environment
      (\<lambda>n. load_session_settings hd ''/fix'' ''a.cfg'' (Some sample_session_file) n default_session_settings) added
      (new_server sample_server_environment (new_session sample_environment)) w" by auto
  moreover have "filter names_session [''root'', ''SESSION1''] = [''SESSION1'']" by (simp add: sample_names)
  ultimately show ?thesis using st by (intro exI [of _ w]) (simp add: added_as_def new_server_def)
qed

end
