(* ===== verification/Reactor.thy ===== *)
theory Reactor
  imports Server_Start
begin

text \<open>
  The thread of the server: \<open>TcpReactor::reactor_thread\<close> with the events of \<open>epoll.h\<close>, and the entry points of
  \<open>fix_server.h\<close> for the threads of \<open>TcpReactorScalable\<close>. What the poller and the sockets answer is a list of
  events for each turn; whether a stop was requested before it, is another input of a turn.

  A run of the thread is a run of the step relation of \<open>Server_Tick\<close>, so that what holds in every reachable state
  holds while a server that was created and loaded from its files runs.
\<close>

subsection \<open>The reactor thread\<close>

text \<open>A ready descriptor: whether it is readable (\<open>is_valid_event\<close>), what \<open>accept\<close> returns when it is the acceptor's,
  and otherwise the result of \<open>recv\<close>, the bytes, and whether the error means that the connection is lost.\<close>

record reactor_event =
  ev_descriptor :: nat
  ev_valid :: bool
  ev_accepted :: "nat option"
  ev_result :: int
  ev_data :: string
  ev_lost :: bool

text \<open>The body of the loop over the ready events; the slot of the descriptor is looked up before the event
  is tested. \<^term>\<open>None\<close> includes an index past the connector table.\<close>

definition handle_event :: "server_environment \<Rightarrow> nat \<Rightarrow> reactor_event \<Rightarrow> server \<Rightarrow> server option" where
  "handle_event e acceptor ev w =
     (let current_descriptor = ev_descriptor ev;
          peer_index = get_connector_index_from_descriptor current_descriptor (srv_connectors w)
      in if ev_valid ev then
           (if current_descriptor = acceptor then
              (case ev_accepted ev of
                 None \<Rightarrow> Some w
               | Some desc \<Rightarrow> Some (snd (accept_new_connection desc w)))
            else if length (m_connectors (srv_connectors w)) \<le> peer_index then None
            else if m_connected (m_connectors (srv_connectors w) ! peer_index) then
              on_data_ready e peer_index (ev_result ev) (ev_data ev) (ev_lost ev) w
            else Some w)
         else Some w)"

fun handle_events :: "server_environment \<Rightarrow> nat \<Rightarrow> reactor_event list \<Rightarrow> server \<Rightarrow> server option" where
  "handle_events e acceptor [] w = Some w"
| "handle_events e acceptor (ev # evs) w = do { w \<leftarrow> handle_event e acceptor ev w; handle_events e acceptor evs w }"

text \<open>One turn of the thread's loop; the flag says whether it goes on.\<close>

definition reactor_turn ::
    "server_environment \<Rightarrow> nat \<Rightarrow> reactor_event list \<Rightarrow> server \<Rightarrow> (bool \<times> server) option" where
  "reactor_turn e acceptor evs w =
     (if m_is_stopping w then map_option (Pair False) (process e w)
      else do {
        w \<leftarrow> process e w;
        w \<leftarrow> handle_events e acceptor evs w;
        Some (True, w)
      })"

definition request_stop :: "bool \<Rightarrow> server \<Rightarrow> server" where
  "request_stop b w = (if b then w\<lparr>m_is_stopping := True\<rparr> else w)"

fun reactor_thread ::
    "server_environment \<Rightarrow> nat \<Rightarrow> (bool \<times> reactor_event list) list \<Rightarrow> server \<Rightarrow> (bool \<times> server) option" where
  "reactor_thread e acceptor [] w = Some (True, w)"
| "reactor_thread e acceptor ((stop, evs) # turns) w =
     do {
       (running, w) \<leftarrow> reactor_turn e acceptor evs (request_stop stop w);
       if running then reactor_thread e acceptor turns w else Some (False, w)
     }"

subsection \<open>The entry points of the scalable reactor\<close>

text \<open>Each is one step under the lock of its session: the worker's for the session of a peer, the acceptor's for the
  commands of sessions that are not live.\<close>

definition process_session :: "server_environment \<Rightarrow> string \<Rightarrow> server \<Rightarrow> server option" where
  "process_session e n w =
     (if \<not> m_is_stopping w then
        do {
          w \<leftarrow> process_admin_commands e n w;
          let current_state = m_state (m_sessions w n);
          if is_state_live current_state then process_live_session e n w else Some w
        }
      else do {
        (ok, w) \<leftarrow> send_logout_message e n '''' w;
        Some (on_session_disconnected n w)
      })"

definition process_session_of_peer :: "server_environment \<Rightarrow> nat \<Rightarrow> server \<Rightarrow> server option" where
  "process_session_of_peer e peer_index w =
     (case get_session w peer_index of
        None \<Rightarrow> Some w
      | Some sess \<Rightarrow> process_session e sess w)"

definition process_admin_commands_of_all_non_live_sessions :: "server_environment \<Rightarrow> server \<Rightarrow> server option" where
  "process_admin_commands_of_all_non_live_sessions e w =
     for_each_session (\<lambda>n w. if \<not> is_state_live (m_state (m_sessions w n)) then process_admin_commands e n w else Some w)
       (srv_session_names w) w"
subsection \<open>The threads of the scalable reactor keep the tables\<close>

lemma process_session_wf:
  assumes "server_wf None w" "n \<in> set (srv_session_names w)"
  shows "post (process_session e n w) (\<lambda>w'. server_wf None w' \<and> srv_session_names w' = srv_session_names w \<and> keeps_settings w w')"
proof -
  have start: "within (served None n) (serves None n) w w"
    by (rule serve.within_start) (use assms in \<open>simp add: served_def\<close>)
  have "post (if \<not> m_is_stopping w then process_one_session e n w
      else do { (ok, w) \<leftarrow> send_logout_message e n '''' w; Some (on_session_disconnected n w) }) (serves None n w)"
    by (intro post_if serve.process_one_session_R [OF start] serve.logout_one_R [OF start]) (simp_all add: within_def)
  then show ?thesis
    unfolding process_session_def process_one_session_def Let_def
    by (rule post_mono) (use assms(1) in \<open>simp add: serves_def\<close>)
qed

lemma scalable_reactor_wf:
  assumes "server_wf None w"
  shows "post (process_session_of_peer e p w) (server_wf None)"
    and "post (process_admin_commands_of_all_non_live_sessions e w) (server_wf None)"
proof -
  have "n \<in> set (srv_session_names w)" if "get_session w p = Some n" for n
    using assms that by (simp add: server_wf_def tables_wf_def)
  then show "post (process_session_of_peer e p w) (server_wf None)"
    unfolding process_session_of_peer_def using assms
    by (intro post_case_option post_Some) (auto elim!: post_mono [OF process_session_wf])
  show "post (process_admin_commands_of_all_non_live_sessions e w) (server_wf None)"
    unfolding process_admin_commands_of_all_non_live_sessions_def
    by (rule post_mono [OF for_each_session_wf [OF assms subset_refl]])
      (auto intro!: post_if post_Some serve.process_admin_commands_R)
qed

subsection \<open>A run of the thread is a run of the step relation\<close>

text \<open>What the operating system is documented to do: \<open>recv\<close> writes as many bytes as it says, and \<open>accept\<close> returns a
  descriptor that is not open.\<close>

fun events_ok :: "server_environment \<Rightarrow> nat \<Rightarrow> reactor_event list \<Rightarrow> server \<Rightarrow> bool" where
  "events_ok e acceptor [] w \<longleftrightarrow> True"
| "events_ok e acceptor (ev # evs) w \<longleftrightarrow> int (length (ev_data ev)) = max 0 (ev_result ev) \<and>
     (case ev_accepted ev of None \<Rightarrow> True | Some desc \<Rightarrow> desc \<notin> open_descriptors (srv_connectors w)) \<and>
     (case handle_event e acceptor ev w of None \<Rightarrow> True | Some w' \<Rightarrow> events_ok e acceptor evs w')"

fun turns_ok :: "server_environment \<Rightarrow> nat \<Rightarrow> (bool \<times> reactor_event list) list \<Rightarrow> server \<Rightarrow> bool" where
  "turns_ok e acceptor [] w \<longleftrightarrow> True"
| "turns_ok e acceptor ((stop, evs) # turns) w \<longleftrightarrow>
     (case process e (request_stop stop w) of None \<Rightarrow> True | Some w' \<Rightarrow> events_ok e acceptor evs w') \<and>
     (case reactor_turn e acceptor evs (request_stop stop w) of
        Some (True, w') \<Rightarrow> turns_ok e acceptor turns w' | _ \<Rightarrow> True)"

abbreviation server_steps :: "server_environment \<Rightarrow> server \<Rightarrow> server \<Rightarrow> bool" where
  "server_steps e \<equiv> (server_step e)\<^sup>*\<^sup>*"

lemma server_steps_wf: "server_steps e w w' \<Longrightarrow> server_wf None w \<Longrightarrow> server_wf None w'"
  by (induction rule: rtranclp_induct) (auto intro: server_step_wf)

lemma connected_has_socket:
  assumes "server_wf None w" "p < length (m_connectors (srv_connectors w))" "m_connected (m_connectors (srv_connectors w) ! p)"
  shows "has_socket w p"
  using assms by (auto simp: server_wf_def slots_wf_def slot_clean_def has_socket_def split: option.splits)

lemma handle_event_steps:
  assumes "server_wf None w" "events_ok e acceptor (ev # evs) w" "handle_event e acceptor ev w = Some w'"
  shows "server_steps e w w'"
proof (cases "ev_valid ev")
  case False
  then show ?thesis using assms(3) by (simp add: handle_event_def)
next
  case True
  let ?p = "get_connector_index_from_descriptor (ev_descriptor ev) (srv_connectors w)"
  show ?thesis
  proof (cases "ev_descriptor ev = acceptor")
    case accepting: True
    show ?thesis
    proof (cases "ev_accepted ev")
      case (Some desc)
      then have "server_step e w (snd (accept_new_connection desc w))"
        using assms(2) by (intro server_step.accept) simp
      then show ?thesis using assms(3) True accepting Some by (auto simp: handle_event_def)
    qed (use assms(3) True accepting in \<open>simp add: handle_event_def\<close>)
  next
    case reading: False
    show ?thesis
    proof (cases "?p < length (m_connectors (srv_connectors w)) \<and> m_connected (m_connectors (srv_connectors w) ! ?p)")
      case connected: True
      then have "on_data_ready e ?p (ev_result ev) (ev_data ev) (ev_lost ev) w = Some w'"
        using assms(3) True reading by (simp add: handle_event_def Let_def)
      then have "server_step e w w'"
        by (rule server_step.data [rotated 2]) (use connected assms(1,2) in \<open>auto intro: connected_has_socket\<close>)
      then show ?thesis by blast
    next
      case False
      then show ?thesis using assms(3) True reading by (auto simp: handle_event_def Let_def split: if_splits)
    qed
  qed
qed

lemma handle_events_steps:
  "server_wf None w \<Longrightarrow> events_ok e acceptor evs w \<Longrightarrow> handle_events e acceptor evs w = Some w' \<Longrightarrow> server_steps e w w'"
proof (induction evs arbitrary: w)
  case (Cons ev evs)
  then obtain v where v: "handle_event e acceptor ev w = Some v" "handle_events e acceptor evs v = Some w'"
    by (auto simp: bind_eq_Some_conv)
  have first: "server_steps e w v" by (rule handle_event_steps [OF Cons.prems(1,2) v(1)])
  moreover have "server_steps e v w'"
    by (rule Cons.IH [OF server_steps_wf [OF first Cons.prems(1)] _ v(2)]) (use Cons.prems(2) v(1) in simp)
  ultimately show ?case by (rule rtranclp_trans)
qed simp

lemma request_stop_steps: "server_steps e w (request_stop b w)"
  using r_into_rtranclp [of "server_step e", OF server_step.stop [of e w]] by (simp add: request_stop_def)

lemma reactor_turn_steps:
  assumes "server_wf None w" "reactor_turn e acceptor evs w = Some (running, w')"
    "case process e w of None \<Rightarrow> True | Some v \<Rightarrow> events_ok e acceptor evs v"
  shows "server_steps e w w'"
proof (cases "m_is_stopping w")
  case True
  then show ?thesis using assms(2) by (auto simp: reactor_turn_def intro: server_step.turn)
next
  case False
  then obtain v where v: "process e w = Some v" "handle_events e acceptor evs v = Some w'"
    using assms(2) by (auto simp: reactor_turn_def bind_eq_Some_conv)
  have first: "server_steps e w v" using server_step.turn [OF v(1)] by blast
  moreover have "server_steps e v w'"
    by (rule handle_events_steps [OF server_steps_wf [OF first assms(1)] _ v(2)]) (use assms(3) v(1) in simp)
  ultimately show ?thesis by (rule rtranclp_trans)
qed

lemma reactor_thread_steps:
  "server_wf None w \<Longrightarrow> turns_ok e acceptor turns w \<Longrightarrow> reactor_thread e acceptor turns w = Some (running, w') \<Longrightarrow>
   server_steps e w w'"
proof (induction turns arbitrary: w)
  case (Cons turn turns)
  obtain stop evs where turn: "turn = (stop, evs)" by force
  let ?w = "request_stop stop w"
  obtain b v where v: "reactor_turn e acceptor evs ?w = Some (b, v)"
    "(if b then reactor_thread e acceptor turns v else Some (False, v)) = Some (running, w')"
    using Cons.prems(3) by (auto simp: turn bind_eq_Some_conv)
  have wf: "server_wf None ?w" by (rule server_steps_wf [OF request_stop_steps Cons.prems(1)])
  have "server_steps e ?w v"
    by (rule reactor_turn_steps [OF wf v(1)]) (use Cons.prems(2) in \<open>simp add: turn\<close>)
  then have first: "server_steps e w v" by (rule rtranclp_trans [OF request_stop_steps])
  show ?case
  proof (cases b)
    case True
    have "server_steps e v w'"
      by (rule Cons.IH [OF server_steps_wf [OF first Cons.prems(1)]]) (use Cons.prems(2) v True in \<open>simp_all add: turn\<close>)
    with first show ?thesis by (rule rtranclp_trans)
  qed (use first v(2) in simp)
qed simp

lemma steps_reachable: "server_steps e w w' \<Longrightarrow> server_reachable e w \<Longrightarrow> server_reachable e w'"
  by (induction rule: rtranclp_induct) (auto intro: server_reachable.stepped)

text \<open>The start of the server stays within the reachable states as well.\<close>

lemma add_each_session_reachable:
  assumes "\<And>n v ok v'. server_reachable e v \<Longrightarrow> add n v = Some (ok, v') \<Longrightarrow> server_reachable e v'"
  shows "server_reachable e w \<Longrightarrow> add_each_session add names k w = Some (count, w') \<Longrightarrow> server_reachable e w'"
proof (induction names arbitrary: k w)
  case (Cons n names)
  then show ?case
    using assms [of w n] by (auto simp: Let_def split: if_splits option.splits prod.splits bool.splits)
qed simp

lemma add_session_reachable:
  "server_reachable e w \<Longrightarrow> add_session pick cwd e envs file content n w = Some (ok, w') \<Longrightarrow> server_reachable e w'"
  by (auto simp: add_session_def split: sum.splits intro: server_reachable.loaded)

lemma add_sessions_from_reachable:
  assumes "server_reachable e w" "add_sessions_from order pick cwd e envs file content w = Some (ok, w')"
  shows "server_reachable e w'"
proof (cases "load_from_file file content")
  case (Inl error)
  then show ?thesis using assms by (simp add: add_sessions_from_def)
next
  case (Inr c)
  then obtain count where "add_each_session (add_session pick cwd e envs file content) (order c) 0 w = Some (count, w')"
    using assms(2) by (auto simp: add_sessions_from_def split: option.splits prod.splits)
  from add_each_session_reachable [where add = "add_session pick cwd e envs file content", OF _ assms(1) this]
  show ?thesis by (blast intro: add_session_reachable)
qed

lemma created_server_receives:
  assumes "create_server pick name file content e blank = Inr (st, options, w)"
  shows "w = new_server (configured st options e) blank" "0 < m_receive_size options"
    "m_receive_size options \<le> int (e_rx_buffer_capacity (configured st options e))"
  using assms
  by (auto simp: create_server_def configured_def reactor_options_of_def Let_def validate_server_settings_def
      split: sum.splits option.splits if_splits)

text \<open>C4: a server that is created from its configuration file, loads its sessions from a file, and whose thread then runs
  for any number of turns with whatever events, is only ever in reachable states: each turn is a
  sequence of steps of the step relation. A receive asks for at least one byte and for no more than the
  receive buffer holds, so that every positive result of \<open>recv\<close> is taken.\<close>

theorem running_server_reachable:
  assumes "create_server pick server_name server_file server_content e\<^sub>0 blank = Inr (st, options, w\<^sub>0)"
    and "e = configured st options e\<^sub>0"
    and "add_sessions_from order pick cwd e envs session_file session_content w\<^sub>0 = Some (ok, w\<^sub>1)"
    and "turns_ok e acceptor turns w\<^sub>1" "reactor_thread e acceptor turns w\<^sub>1 = Some (running, w\<^sub>2)"
  shows "(server_step e)\<^sup>*\<^sup>* w\<^sub>1 w\<^sub>2 \<and> server_reachable e w\<^sub>2 \<and>
    0 < m_receive_size options \<and> m_receive_size options \<le> int (e_rx_buffer_capacity e)"
proof -
  note created = created_server_receives [OF assms(1)]
  have "server_reachable e w\<^sub>0" unfolding created(1) assms(2) by (rule server_reachable.created)
  then have r1: "server_reachable e w\<^sub>1" by (rule add_sessions_from_reachable [OF _ assms(3)])
  have steps: "server_steps e w\<^sub>1 w\<^sub>2" by (rule reactor_thread_steps [OF reachable_wf [OF r1] assms(4,5)])
  with steps_reachable [OF steps r1] created(2,3) assms(2) show ?thesis by simp
qed

subsection \<open>The last turn\<close>

definition logout_bytes :: "session \<Rightarrow> nat \<Rightarrow> string" where
  "logout_bytes s t = fst (encode (m_settings s) (session_incoming_seq_no s) t (session_outgoing_seq_no s + 1)
     (build_logout_message '''' (m_outgoing_fix_message s)))"

definition logout_one :: "server_environment \<Rightarrow> string \<Rightarrow> server \<Rightarrow> server option" where
  "logout_one e n w =
     (if m_state (m_sessions w n) \<noteq> DISCONNECTED then
        do {
          (ok, w) \<leftarrow> send_logout_message e n '''' w;
          Some (on_session_disconnected n w)
        }
      else Some w)"

lemma process_stopping: "m_is_stopping w \<Longrightarrow> process e w = for_each_session (logout_one e) (srv_session_names w) w"
  by (simp add: process_def send_logout_messages_to_all_sessions_def logout_one_def [abs_def])

lemma last_logout_sent:
  assumes "send_logout_message e n '''' w = Some (ok, w')"
  shows "quiet w w'" "get_peer_index w n = Some p \<Longrightarrow> \<exists>t r. Sent p n (logout_bytes (m_sessions w n) t) r \<in> set (srv_trace w')"
proof -
  let ?b = "build n (build_logout_message '''') w"
  have send: "send_outgoing_message e n ?b = Some (ok, w')" using assms by (simp add: send_logout_message_def)
  have b: "m_settings (m_sessions ?b n) = m_settings (m_sessions w n)"
    "m_sequence_store (m_sessions ?b n) = m_sequence_store (m_sessions w n)" "srv_trace ?b = srv_trace w"
    "m_outgoing_fix_message (m_sessions ?b n) = build_logout_message '''' (m_outgoing_fix_message (m_sessions w n))"
    "get_peer_index ?b n = get_peer_index w n"
    by (simp_all add: build_def upd_session_def get_peer_index_def)
  show "quiet w w'" using send_outgoing_quiet(1) [OF send] by (simp add: quiet_def b)
  assume p: "get_peer_index w n = Some p"
  obtain buffer v where v: "encode_outgoing e n (session_outgoing_seq_no (m_sessions ?b n) + 1) ?b = Some (buffer, v)"
    "send_bytes e True n buffer v = Some (ok, w')"
    using send by (auto simp: send_outgoing_message_def bind_eq_Some_conv)
  note enc = encode_outgoing_effect [OF v(1)]
  have "buffer = logout_bytes (m_sessions w n) (now_wall e ?b)"
    unfolding enc(1) by (simp add: logout_bytes_def b)
  moreover have "get_peer_index v n = Some p" using p by (simp add: enc(5) b)
  from send_bytes_effect(3) [OF this v(2)] have "\<exists>r. Sent p n buffer r \<in> set (srv_trace w')" by auto
  ultimately show "\<exists>t r. Sent p n (logout_bytes (m_sessions w n) t) r \<in> set (srv_trace w')" by blast
qed

lemma logout_defined:
  assumes "server_wf None w" "length (logout_bytes (m_sessions w n) (now_wall e w)) \<le> e_tx_encode_buffer_capacity e"
  shows "\<exists>ok w'. send_logout_message e n '''' w = Some (ok, w')"
proof -
  let ?b = "build n (build_logout_message '''') w"
  have b: "get_peer_index ?b n = get_peer_index w n" "has_socket ?b p = has_socket w p" "now_wall e ?b = now_wall e w" for p
    by (simp_all add: build_def upd_session_def get_peer_index_def has_socket_def now_wall_def)
  have "\<exists>buffer v. encode_outgoing e n (session_outgoing_seq_no (m_sessions ?b n) + 1) ?b = Some (buffer, v)"
    using assms(2)
    by (auto simp: encode_outgoing_def Let_def logout_bytes_def build_def upd_session_def now_wall_def split: prod.splits)
  then obtain buffer v where v: "encode_outgoing e n (session_outgoing_seq_no (m_sessions ?b n) + 1) ?b = Some (buffer, v)" by blast
  have "get_peer_index v n = get_peer_index ?b n" "has_socket v p = has_socket ?b p" for p
    using v by (auto simp: encode_outgoing_def Let_def upd_session_def tick_def has_socket_def get_peer_index_def
        split: prod.splits if_splits)
  then have peer: "get_peer_index v n = get_peer_index w n" "has_socket v p = has_socket w p" for p using b by simp_all
  have "\<exists>ok w'. send_bytes e True n buffer v = Some (ok, w')"
  proof (cases "get_peer_index w n")
    case None
    then show ?thesis by (intro exI [of _ False] exI [of _ v]) (simp add: send_bytes_def peer)
  next
    case (Some p)
    then have "get_session w p = Some n" using assms(1) by (simp add: server_wf_def tables_wf_def)
    then have "has_socket w p" using assms(1) by (simp add: server_wf_def tables_wf_def)
    then show ?thesis by (intro send_bytes_defined) (simp_all add: peer Some)
  qed
  with v show ?thesis by (simp add: send_logout_message_def send_outgoing_message_def)
qed

text \<open>What the last turn did for the sessions of a list.\<close>

definition logged_out :: "server \<Rightarrow> server \<Rightarrow> string \<Rightarrow> bool" where
  "logged_out w w' n \<longleftrightarrow> m_state (m_sessions w' n) = DISCONNECTED \<and>
     (m_state (m_sessions w n) \<noteq> DISCONNECTED \<longrightarrow>
       (case get_peer_index w n of
          None \<Rightarrow> True
        | Some p \<Rightarrow> \<exists>t r. Sent p n (logout_bytes (m_sessions w n) t) r \<in> set (srv_trace w')))"

lemma logout_one_serves:
  assumes "server_wf None w" "n \<in> set (srv_session_names w)" "logout_one e n w = Some w'"
  shows "serves None n w w'" "logged_out w w' n" "set (srv_trace w) \<subseteq> set (srv_trace w')"
proof -
  have "serves None n w w' \<and> logged_out w w' n \<and> set (srv_trace w) \<subseteq> set (srv_trace w')"
  proof (cases "m_state (m_sessions w n) = DISCONNECTED")
    case True
    then show ?thesis using assms(3) by (simp add: logout_one_def logged_out_def serves_def spares_refl)
  next
    case False
    then obtain ok v where v: "send_logout_message e n '''' w = Some (ok, v)" "w' = on_session_disconnected n v"
      using assms(3) by (auto simp: logout_one_def bind_eq_Some_conv)
    have t: "srv_trace w' = srv_trace v" "m_state (m_sessions w' n) = DISCONNECTED"
      by (simp_all add: v(2) on_session_disconnected_def upd_session_def set_state_def)
    have "within (served None n) (serves None n) w w"
      by (rule serve.within_start) (use assms(1,2) in \<open>simp add: served_def\<close>)
    from postD [OF serve.logout_one_R [OF this, of "within (served None n) (serves None n) w" e], of w'] v
    have "serves None n w w'" by (simp add: within_def)
    moreover have "logged_out w w' n"
      using last_logout_sent(2) [OF v(1)] t by (simp add: logged_out_def split: option.splits)
    moreover have "set (srv_trace w) \<subseteq> set (srv_trace w')"
      using last_logout_sent(1) [OF v(1)] t(1) by (auto simp: quiet_def)
    ultimately show ?thesis by blast
  qed
  then show "serves None n w w'" "logged_out w w' n" "set (srv_trace w) \<subseteq> set (srv_trace w')" by simp_all
qed

lemma logged_out_later:
  assumes "spares n w v" "logged_out v w' n"
  shows "logged_out w w' n"
  using assms by (auto simp: logged_out_def spares_def split: option.splits)

lemma logout_all:
  assumes "server_wf None w" "set ns \<subseteq> set (srv_session_names w)" "distinct ns"
    and "\<And>n k. n \<in> set ns \<Longrightarrow> m_state (m_sessions w n) \<noteq> DISCONNECTED \<Longrightarrow>
      length (logout_bytes (m_sessions w n) (e_wall e k)) \<le> e_tx_encode_buffer_capacity e"
  shows "\<exists>w'. for_each_session (logout_one e) ns w = Some w' \<and> (\<forall>n \<in> set ns. logged_out w w' n) \<and>
    (\<forall>m. m \<notin> set ns \<longrightarrow> spares m w w') \<and> set (srv_trace w) \<subseteq> set (srv_trace w')"
  using assms
proof (induction ns arbitrary: w)
  case Nil
  then show ?case by (simp add: spares_refl)
next
  case (Cons n ns)
  have n: "n \<in> set (srv_session_names w)" using Cons.prems(2) by simp
  have "\<exists>v. logout_one e n w = Some v"
  proof (cases "m_state (m_sessions w n) = DISCONNECTED")
    case False
    then have "\<exists>ok v. send_logout_message e n '''' w = Some (ok, v)"
      using Cons.prems(4) by (intro logout_defined [OF Cons.prems(1)]) (simp add: now_wall_def)
    then show ?thesis by (auto simp: logout_one_def)
  qed (simp add: logout_one_def)
  then obtain v where v: "logout_one e n w = Some v" ..
  note one = logout_one_serves [OF Cons.prems(1) n v]
  have wf: "server_wf None v" "srv_session_names v = srv_session_names w" and sp: "m \<noteq> n \<Longrightarrow> spares m w v" for m
    using one(1) Cons.prems(1) by (simp_all add: serves_def)
  have same: "m_sessions v m = m_sessions w m" if "m \<in> set ns" for m
    using sp [of m] that Cons.prems(3) by (auto simp: spares_def)
  obtain w' where w': "for_each_session (logout_one e) ns v = Some w'" "\<forall>n \<in> set ns. logged_out v w' n"
    "\<forall>m. m \<notin> set ns \<longrightarrow> spares m v w'" "set (srv_trace v) \<subseteq> set (srv_trace w')"
    using Cons.IH [OF wf(1)] Cons.prems(2-4) wf(2) same by (auto simp: subset_iff)
  have "logged_out w w' n"
    using one(2) w'(3,4) Cons.prems(3) by (fastforce simp: logged_out_def spares_def split: option.splits)
  moreover have "logged_out w w' m" if "m \<in> set ns" for m
    by (rule logged_out_later [OF sp]) (use w'(2) that Cons.prems(3) in auto)
  moreover have "spares m w w'" if "m \<notin> set (n # ns)" for m
    using spares_trans [OF sp [of m]] w'(3) that by simp
  ultimately show ?case
    using v w' one(3) by auto
qed

text \<open>C10: from every consistent state (every reachable one is), once a stop was requested the next turn of the
  reactor thread is the last one, and it ends: every session that was not
  disconnected is sent a Logout under its next number on its connection, if it has one, and all sessions are
  disconnected, as long as the Logouts fit the encode buffer. The events of the turn are not handled any more.\<close>

theorem stopping_server_logs_out:
  assumes "server_wf None w" "m_is_stopping w"
    and "\<And>n k. has_session w n \<Longrightarrow> m_state (m_sessions w n) \<noteq> DISCONNECTED \<Longrightarrow>
      length (logout_bytes (m_sessions w n) (e_wall e k)) \<le> e_tx_encode_buffer_capacity e"
  shows "\<exists>w'. reactor_thread e acceptor ((stop, evs) # turns) w = Some (False, w') \<and>
    list_all (logged_out w w') (srv_session_names w)"
proof -
  have "distinct (srv_session_names w)" using assms(1) by (simp add: server_wf_def)
  from logout_all [OF assms(1) subset_refl this assms(3)] obtain w' where
    "for_each_session (logout_one e) (srv_session_names w) w = Some w'" "\<forall>n \<in> set (srv_session_names w). logged_out w w' n"
    by (auto simp: has_session_def)
  moreover have "request_stop stop w = w" using assms(2) by (simp add: request_stop_def)
  ultimately show ?thesis
    using assms(2) by (simp add: reactor_turn_def process_stopping list_all_iff)
qed

theorem stopping_server_logs_out_witness:
  "\<exists>e im w'. reactor_thread e 3 [(False, [])] (two_connections im\<lparr>m_is_stopping := True\<rparr>) = Some (False, w') \<and>
    m_state (m_sessions w' ''A'') = DISCONNECTED \<and> m_state (m_sessions w' ''B'') = DISCONNECTED \<and>
    (\<exists>b r. Sent 0 ''A'' b r \<in> set (srv_trace w'))"
proof -
  obtain im where im: "message_wf im" using sample_message_exists by blast
  define w where "w = two_connections im\<lparr>m_is_stopping := True\<rparr>"
  define e where "e = sample_server_environment\<lparr>e_tx_encode_buffer_capacity :=
    length (logout_bytes (m_sessions w ''A'') 0) + length (logout_bytes (m_sessions w ''B'') 0)\<rparr>"
  have wf: "server_wf None w"
    using two_connections_wf [OF im] by (simp add: w_def server_wf_def tables_wf_def get_session_def get_peer_index_def has_socket_def)
  have stop: "m_is_stopping w" and names: "srv_session_names w = [''A'', ''B'']"
    by (simp_all add: w_def two_connections_def)
  have fits: "length (logout_bytes (m_sessions w n) (e_wall e k)) \<le> e_tx_encode_buffer_capacity e" if "has_session w n" for n k
    using that by (auto simp: has_session_def names e_def sample_server_environment_def)
  obtain w' where w': "reactor_thread e 3 [(False, [])] w = Some (False, w')" "list_all (logged_out w w') [''A'', ''B'']"
    using stopping_server_logs_out [OF wf stop fits, of 3 False "[]" "[]"] names by auto
  moreover have "get_peer_index w ''A'' = Some 0" "m_state (m_sessions w ''A'') = LOGGED_ON"
    by (simp_all add: w_def two_connections_def get_peer_index_def)
  ultimately show ?thesis
    by (intro exI [of _ e] exI [of _ im] exI [of _ w']) (auto simp: logged_out_def w_def)
qed

subsection \<open>A sample start\<close>

definition sample_server_file :: string where
  "sample_server_file = settings_file ''SERVER'' (concat (map save_attribute [(''accept_port'', ''5001'')]))"

lemma sample_server_created:
  "create_server hd ''SERVER'' ''s.cfg'' (Some sample_server_file) e blank =
    Inr (default_server_settings\<lparr>accept_port := 5001\<rparr>, reactor_options_of (default_server_settings\<lparr>accept_port := 5001\<rparr>),
      new_server (configured (default_server_settings\<lparr>accept_port := 5001\<rparr>)
        (reactor_options_of (default_server_settings\<lparr>accept_port := 5001\<rparr>)) e) blank)"
proof -
  let ?avs = "[(''accept_port'', ''5001'')]"
  have clean: "list_all clean_attribute ?avs" "clean_text ''SERVER''"
    by (simp_all add: clean_attribute_def clean_text_def is_blank_def)
  obtain c where c: "load_from_file ''s.cfg'' (Some sample_server_file) = Inr c" "does_group_exist ''SERVER'' c"
    "holds c ''SERVER'' ?avs"
    using settings_file_loads [OF clean(2) _ _ _ clean(1), of "''s.cfg''"]
    by (auto simp: sample_server_file_def ROOT_GROUP_NAME_def)
  have p: "picks hd" by (simp add: picks_def)
  have v: "validate_loaded_configs hd server_setting_names ''SERVER'' c = None"
    by (rule holds_valid [OF c(3)]) (simp add: server_setting_names_def)
  note get = holds_get [OF c(3) p]
  have port: "stoi ''5001'' = Some 5001" by code_simp
  have "load_server_settings hd ''s.cfg'' (Some sample_server_file) ''SERVER'' =
      Inr (default_server_settings\<lparr>accept_port := 5001\<rparr>)"
    using c(1)
    by (simp add: load_server_settings_def c(2) v get c_str_def port to_size_def default_server_settings_def)
  moreover have "validate_server_settings (default_server_settings\<lparr>accept_port := 5001\<rparr>) = None"
    by (simp add: validate_server_settings_def default_server_settings_def)
  ultimately show ?thesis by (simp add: create_server_def Let_def)
qed

text \<open>Two turns: a client connects, then the server is stopped.\<close>

definition sample_turns :: "(bool \<times> reactor_event list) list" where
  "sample_turns = [(False, [\<lparr>ev_descriptor = 3, ev_valid = True, ev_accepted = Some 7, ev_result = 0, ev_data = '''', ev_lost = False\<rparr>]),
     (True, [])]"

theorem running_server_reachable_witness:
  "\<exists>st options e w\<^sub>0 w\<^sub>1 w\<^sub>2. create_server hd ''SERVER'' ''s.cfg'' (Some sample_server_file) sample_server_environment
      (new_session sample_environment) = Inr (st, options, w\<^sub>0) \<and> e = configured st options sample_server_environment \<and>
    add_sessions_from (\<lambda>_. [''root'', ''SESSION1'']) hd ''/fix'' e (\<lambda>_. sample_environment)
      ''a.cfg'' (Some sample_session_file) w\<^sub>0 = Some (True, w\<^sub>1) \<and>
    reactor_thread e 3 sample_turns w\<^sub>1 = Some (False, w\<^sub>2) \<and> server_reachable e w\<^sub>2 \<and> has_socket w\<^sub>2 0"
proof -
  let ?st = "default_server_settings\<lparr>accept_port := 5001\<rparr>"
  let ?o = "reactor_options_of ?st"
  let ?e = "configured ?st ?o sample_server_environment"
  let ?w0 = "new_server ?e (new_session sample_environment)"
  have primary: "e_starts_as_primary_instance ?e" by (simp add: configured_def default_server_settings_def)
  obtain w where w: "add_sessions_from (\<lambda>_. [''root'', ''SESSION1'']) hd ''/fix'' ?e (\<lambda>_. sample_environment)
      ''a.cfg'' (Some sample_session_file) ?w0 = Some (True, w)"
    and s: "srv_session_names w = [''SESSION1'']" "m_state (m_sessions w ''SESSION1'') = DISCONNECTED"
      "m_admin_commands (m_sessions w ''SESSION1'') = []"
      "srv_connectors w = srv_connectors ?w0" "\<not> m_is_stopping w"
    using sample_file_adds [OF primary] by (auto simp: holds_loaded_def primary new_server_def)
  let ?v = "snd (accept_new_connection 7 w)"
  have conn: "srv_connectors w = \<lparr>m_connectors = [], m_descriptor_index_table = Map.empty\<rparr>" using s(4) by (simp add: new_server_def)
  have idle: "process ?e v = Some v" if "m_sessions v = m_sessions w" "srv_session_names v = srv_session_names w" for v
    using that s by (simp add: process_def process_one_session_def process_admin_commands_def send_logout_messages_to_all_sessions_def)
  have acc: "m_sessions ?v = m_sessions w" "srv_session_names ?v = srv_session_names w" "\<not> m_is_stopping ?v"
    using s(5) by (simp_all add: accept_new_connection_def split: prod.splits)
  have first: "reactor_turn ?e 3 (snd (hd sample_turns)) w = Some (True, ?v)"
    using s(5) idle [of w] by (simp add: reactor_turn_def sample_turns_def handle_event_def)
  have run: "reactor_thread ?e 3 sample_turns w = Some (False, ?v\<lparr>m_is_stopping := True\<rparr>)"
    using first acc idle [of "?v\<lparr>m_is_stopping := True\<rparr>"] by (simp add: sample_turns_def request_stop_def reactor_turn_def)
  have "turns_ok ?e 3 sample_turns w"
    using first acc idle [of w] idle [of "?v\<lparr>m_is_stopping := True\<rparr>"]
    by (simp add: sample_turns_def request_stop_def open_descriptors_def conn handle_event_def reactor_turn_def)
  from running_server_reachable [OF sample_server_created refl w this run] run w
  have "server_reachable ?e (?v\<lparr>m_is_stopping := True\<rparr>)" by simp
  moreover have "has_socket (?v\<lparr>m_is_stopping := True\<rparr>) 0"
    by (simp add: has_socket_def accept_new_connection_def add_connector_def conn Let_def)
  ultimately show ?thesis using run w
    by (intro exI [of _ ?st] exI [of _ ?o] exI [of _ ?e] exI [of _ ?w0] exI [of _ w] exI [of _ "?v\<lparr>m_is_stopping := True\<rparr>"])
      (simp add: sample_server_created)
qed

end
