(* ===== verification/Spinlock.thy ===== *)
theory Spinlock
  imports Llfix_Prelude
begin

text \<open>
  \<open>userspace_spinlock.h\<close>: the test-test-and-set lock that guards the tables between peers and sessions and the sessions of
  the scalable reactor. Each atomic access to \<open>m_flag\<close> is one step of a thread; between two of them the other
  threads take theirs. The acquire and release orders let an access of the flag see all that was
  written before the flag was released, so that the accesses of the flag are a sequence of such steps.
\<close>

subsection \<open>The accesses\<close>

record userspace_spinlock =
  m_flag :: bool

definition spinlock_initialise :: "userspace_spinlock \<Rightarrow> userspace_spinlock" where
  "spinlock_initialise l = l\<lparr>m_flag := False\<rparr>"

text \<open>\<open>exchange(true)\<close>: the flag before, and the flag set.\<close>

definition exchange_flag :: "userspace_spinlock \<Rightarrow> bool \<times> userspace_spinlock" where
  "exchange_flag l = (m_flag l, l\<lparr>m_flag := True\<rparr>)"

definition spinlock_unlock :: "userspace_spinlock \<Rightarrow> userspace_spinlock" where
  "spinlock_unlock l = l\<lparr>m_flag := False\<rparr>"

text \<open>Where a thread is: outside, before the exchange of \<open>lock\<close>, in its inner loop over \<open>load\<close>, between the \<open>load\<close> and the
  exchange of \<open>try_lock\<close>, or holding the lock.\<close>

datatype thread_point = Outside | Locking | Waiting | Trying | Holding

text \<open>The next access of a thread in \<open>lock\<close>: \<open>exchange\<close> at the head of the loop, or a \<open>load\<close> of the inner loop.\<close>

definition lock_step :: "thread_point \<Rightarrow> userspace_spinlock \<Rightarrow> thread_point \<times> userspace_spinlock" where
  "lock_step pt l =
     (case pt of
        Locking \<Rightarrow> (case exchange_flag l of (was_set, l) \<Rightarrow> (if \<not> was_set then Holding else Waiting, l))
      | Waiting \<Rightarrow> (if m_flag l then Waiting else Locking, l)
      | _ \<Rightarrow> (pt, l))"

text \<open>In \<open>try_lock\<close>: a \<open>load\<close> that sees the flag set gives up, as does an exchange that finds it set.\<close>

definition try_lock_step :: "thread_point \<Rightarrow> userspace_spinlock \<Rightarrow> thread_point \<times> userspace_spinlock" where
  "try_lock_step pt l =
     (case pt of
        Outside \<Rightarrow> (if \<not> m_flag l then Trying else Outside, l)
      | Trying \<Rightarrow> (case exchange_flag l of (was_set, l) \<Rightarrow> (if \<not> was_set then Holding else Outside, l))
      | _ \<Rightarrow> (pt, l))"

subsection \<open>Threads that share a lock\<close>

record locking =
  lk_lock :: userspace_spinlock
  lk_points :: "nat \<Rightarrow> thread_point"

definition at_point :: "nat \<Rightarrow> thread_point \<times> userspace_spinlock \<Rightarrow> locking \<Rightarrow> locking" where
  "at_point i r s = s\<lparr>lk_lock := snd r, lk_points := (lk_points s)(i := fst r)\<rparr>"

inductive locking_step :: "locking \<Rightarrow> locking \<Rightarrow> bool" where
  lock_called: "lk_points s i = Outside \<Longrightarrow> locking_step s (at_point i (Locking, lk_lock s) s)"
| lock_access: "lk_points s i = Locking \<or> lk_points s i = Waiting \<Longrightarrow>
    locking_step s (at_point i (lock_step (lk_points s i) (lk_lock s)) s)"
| try_lock_access: "lk_points s i = Outside \<or> lk_points s i = Trying \<Longrightarrow>
    locking_step s (at_point i (try_lock_step (lk_points s i) (lk_lock s)) s)"
| unlocked: "lk_points s i = Holding \<Longrightarrow> locking_step s (at_point i (Outside, spinlock_unlock (lk_lock s)) s)"

definition new_locking :: "userspace_spinlock \<Rightarrow> locking" where
  "new_locking l = \<lparr>lk_lock = spinlock_initialise l, lk_points = (\<lambda>_. Outside)\<rparr>"

text \<open>The flag is set exactly while a thread holds the lock, and then no other one does.\<close>

definition locking_wf :: "locking \<Rightarrow> bool" where
  "locking_wf s \<longleftrightarrow> (m_flag (lk_lock s) \<longleftrightarrow> (\<exists>i. lk_points s i = Holding)) \<and>
     (\<forall>i j. lk_points s i = Holding \<longrightarrow> lk_points s j = Holding \<longrightarrow> i = j)"

lemma move_without_lock:
  assumes "lk_points s i \<noteq> Holding" "pt \<noteq> Holding" "m_flag l = m_flag (lk_lock s)"
  shows "locking_wf (at_point i (pt, l) s) \<longleftrightarrow> locking_wf s"
proof -
  have "lk_points (at_point i (pt, l) s) j = Holding \<longleftrightarrow> lk_points s j = Holding" for j
    using assms(1,2) by (simp add: at_point_def)
  then show ?thesis by (simp add: locking_wf_def at_point_def assms(3))
qed

lemma take_lock: "\<not> m_flag (lk_lock s) \<Longrightarrow> locking_wf s \<Longrightarrow> m_flag l \<Longrightarrow> locking_wf (at_point i (Holding, l) s)"
  by (auto simp: locking_wf_def at_point_def)

lemma locking_step_wf: "locking_step s s' \<Longrightarrow> locking_wf s \<Longrightarrow> locking_wf s'"
proof (induction rule: locking_step.induct)
  case (lock_called s i)
  then show ?case by (simp add: move_without_lock)
next
  case (lock_access s i)
  then show ?case
    by (auto simp: lock_step_def exchange_flag_def move_without_lock intro!: take_lock)
next
  case (try_lock_access s i)
  then show ?case
    by (auto simp: try_lock_step_def exchange_flag_def move_without_lock intro!: take_lock)
next
  case (unlocked s i)
  then show ?case by (auto simp: locking_wf_def at_point_def spinlock_unlock_def)
qed

lemma locking_steps_wf: "locking_step\<^sup>*\<^sup>* s s' \<Longrightarrow> locking_wf s \<Longrightarrow> locking_wf s'"
  by (induction rule: rtranclp_induct) (auto intro: locking_step_wf)

text \<open>C16: in every interleaving of any number of threads that lock, try to lock and unlock (only while they hold it), at most one
  thread holds the lock, and the flag is set exactly while one does. The lock is never stuck: when nobody
  holds it, a thread in \<open>lock\<close> gets it with at most two accesses of its own if the others pause, and
  \<open>try_lock\<close> with two.\<close>

theorem spinlock_mutual_exclusion:
  assumes "locking_step\<^sup>*\<^sup>* (new_locking l) s"
  shows "(\<forall>i j. lk_points s i = Holding \<and> lk_points s j = Holding \<longrightarrow> i = j) \<and>
    (m_flag (lk_lock s) \<longleftrightarrow> (\<exists>i. lk_points s i = Holding)) \<and>
    ((\<nexists>i. lk_points s i = Holding) \<longrightarrow>
      fst (lock_step Locking (lk_lock s)) = Holding \<and>
      (case lock_step Waiting (lk_lock s) of (pt, l') \<Rightarrow> fst (lock_step pt l') = Holding) \<and>
      (case try_lock_step Outside (lk_lock s) of (pt, l') \<Rightarrow> fst (try_lock_step pt l') = Holding))"
proof -
  have "locking_wf (new_locking l)" by (simp add: locking_wf_def new_locking_def spinlock_initialise_def)
  from locking_steps_wf [OF assms this] have wf: "locking_wf s" .
  then have flag: "m_flag (lk_lock s) \<longleftrightarrow> (\<exists>i. lk_points s i = Holding)" by (simp add: locking_wf_def)
  have free: "fst (lock_step Locking (lk_lock s)) = Holding \<and>
      (case lock_step Waiting (lk_lock s) of (pt, l') \<Rightarrow> fst (lock_step pt l') = Holding) \<and>
      (case try_lock_step Outside (lk_lock s) of (pt, l') \<Rightarrow> fst (try_lock_step pt l') = Holding)"
    if "\<not> m_flag (lk_lock s)"
    using that by (simp add: lock_step_def try_lock_step_def exchange_flag_def)
  from wf free flag show ?thesis by (simp add: locking_wf_def)
qed

theorem spinlock_mutual_exclusion_witness:
  "\<exists>s. locking_step\<^sup>*\<^sup>* (new_locking \<lparr>m_flag = True\<rparr>) s \<and> lk_points s 0 = Holding \<and> lk_points s 1 = Waiting \<and>
    (\<forall>i. lk_points s i = Holding \<longrightarrow> i = 0)"
proof -
  let ?s0 = "new_locking \<lparr>m_flag = True\<rparr>"
  define a where "a = at_point 0 (Locking, lk_lock ?s0) ?s0"
  define b where "b = at_point 0 (lock_step (lk_points a 0) (lk_lock a)) a"
  define c where "c = at_point 1 (Locking, lk_lock b) b"
  define d where "d = at_point 1 (lock_step (lk_points c 1) (lk_lock c)) c"
  note defs = at_point_def lock_step_def exchange_flag_def new_locking_def spinlock_initialise_def
  have "locking_step ?s0 a" unfolding a_def by (rule lock_called) (simp add: new_locking_def)
  moreover have "locking_step a b" unfolding b_def by (rule lock_access) (simp add: a_def defs)
  moreover have "locking_step b c" unfolding c_def by (rule lock_called) (simp add: a_def b_def defs)
  moreover have "locking_step c d" unfolding d_def by (rule lock_access) (simp add: a_def b_def c_def defs)
  ultimately have reach: "locking_step\<^sup>*\<^sup>* ?s0 d" by (meson r_into_rtranclp rtranclp_trans)
  have d: "lk_points d 0 = Holding" "lk_points d 1 = Waiting" by (simp_all add: a_def b_def c_def d_def defs)
  with spinlock_mutual_exclusion [OF reach] reach show ?thesis by blast
qed

end
