(* ===== verification/Spec2Isabelle.thy ===== *)
theory Spec2Isabelle
  imports Converters Hash_Dictionary Fix_Utilities Throttler Fix_String_View Clock Incoming_Message
    Llfix_Prelude Session_Settings Message_Serialiser Outgoing_Message Session_State Fix_Session Fix_Parser Wire_Exchange Transport Server_Core Server_Receive Server_Tick Outcome Server_Invariant
    Parser_Invariant Resend_Decision Server_Consistency Server_Properties
    Server_Behaviour Fix_Client
    Client_Invariant Client_Properties Spsc_Queue
    Fixed_Point Configuration Settings_Text Server_Settings Client_Settings Session_Loading Engine_Settings
    Managed_Instances Management_Server Management_Properties Message_Delivery Logon_Handshake Resend_Replay
    Server_Start Reactor Spinlock
begin

text \<open>
  The llfix FIX engine, the header-only library under \<open>src/include/llfix\<close>, in the build that the project
  makes by default: dictionaries, binary fields, OpenSSL and TCPDirect are off, so that the \<open>#else\<close>
  branches are the ones translated.

  \<^bold>\<open>The program and the theories.\<close> FIX is a protocol of text messages, lists of \<open>tag=value\<close> fields that end
  in a checksum, exchanged between a client and a server over TCP. Each side numbers its messages, and
  asks for those it missed.

  \<^item> Basic parts (\<open>core/utilities\<close>, \<open>core/os\<close>, \<open>electronic_trading\<close>). \<open>Llfix_Prelude\<close>: machine integers, signed
    characters, decimal notation. \<open>Converters\<close>: \<open>converters.h\<close>. \<open>Hash_Dictionary\<close>: \<open>dictionary.h\<close>, node for node.
    \<open>Throttler\<close>: \<open>ring_buffer.h\<close>, \<open>throttler.h\<close>. \<open>Clock\<close>: \<open>vdso.h\<close> and the time functions of \<open>fix_utilities.h\<close>.
    \<open>Spsc_Queue\<close>: \<open>spsc_bounded_queue.h\<close>, its two threads interleaved. \<open>Spinlock\<close>: \<open>userspace_spinlock.h\<close>,
    any number of threads interleaved. \<open>Fixed_Point\<close>: \<open>fixed_point.h\<close>.
    \<open>Configuration\<close>: \<open>configuration.h\<close>. \<open>Transport\<close>: \<open>connectors.h\<close>, the buffers and the send loop of \<open>tcp_reactor.h\<close>.
  \<^item> Messages. \<open>Fix_Utilities\<close>: \<open>fix_constants.h\<close>, \<open>fix_utilities.h\<close>. \<open>Fix_String_View\<close>: \<open>fix_string_view.h\<close>.
    \<open>Incoming_Message\<close>: the parsed message and its repeating groups (\<open>incoming_fix_message.h\<close> and the group
    headers). \<open>Outgoing_Message\<close>: \<open>outgoing_fix_message.h\<close>, \<open>fix_string.h\<close>, \<open>object_cache.h\<close>. \<open>Message_Serialiser\<close>:
    the journal of \<open>message_serialiser.h\<close>. \<open>Fix_Parser\<close>: the scanner of \<open>process_rx_buffer\<close>.
  \<^item> Sessions. \<open>Session_State\<close>: \<open>session_state.h\<close>, \<open>sequence_store.h\<close>, \<open>modifying_admin_command.h\<close>. \<open>Session_Settings\<close>:
    the record and the checks of \<open>fix_session_settings.h\<close>, \<open>session_schedule_validator.h\<close>. \<open>Fix_Session\<close>: \<open>fix_session.h\<close>.
    \<open>Resend_Decision\<close>: what the server and the client decide alike on a ResendRequest.
  \<^item> The server (\<open>fix_server.h\<close>). \<open>Server_Core\<close>: state, connector tables, closing and sending. \<open>Server_Receive\<close>:
    received bytes. \<open>Server_Tick\<close>: a turn of the sessions, and the step relation \<open>server_step\<close>. \<open>Server_Start\<close>: \<open>create\<close>,
    the options of \<open>tcp_reactor_options.h\<close>, and loading sessions from files. \<open>Reactor\<close>: the loop of the
    reactor thread (\<open>tcp_reactor.h\<close>) and the entry points of the scalable reactor.
  \<^item> The client (\<open>fix_client.h\<close>, \<open>tcp_connector.h\<close>). \<open>Fix_Client\<close>, with the step relation \<open>client_step\<close>.
  \<^item> Settings and start-up. \<open>Settings_Text\<close>, \<open>Server_Settings\<close>, \<open>Client_Settings\<close>, \<open>Session_Loading\<close> (with the path
    functions of \<open>filesystem_utilities.h\<close>), \<open>Engine_Settings\<close>: \<open>load\<close>, \<open>validate\<close> and \<open>to_string\<close> of each settings
    header, and \<open>Engine::on_start\<close>.
  \<^item> Administration. \<open>Managed_Instances\<close>: \<open>managed_instance.h\<close>. \<open>Management_Server\<close>: the headers under
    \<open>management_server\<close>, every command included.

  \<^bold>\<open>How the parts interact.\<close> Bytes arrive at a connector (\<open>Transport\<close>); \<open>process_rx_buffer\<close> completes them with
  the incomplete message kept from before, cuts them into messages and scans each into the incoming message
  (\<open>Fix_Parser\<close>, \<open>Incoming_Message\<close>, \<open>Hash_Dictionary\<close>). The first message of a connection has to be a Logon, which
  finds the session of the connection; every later one is validated by the session (\<open>Fix_Session\<close>), its
  number is compared with the sequence store (\<open>Session_State\<close>), and its handler queues answers, which the
  turns of the reactor send. Whatever is sent is built in the outgoing message, encoded, stamped by the
  clock, handed to the send loop and recorded in the journal. The management server runs in another thread
  and reaches a session only through its queue (\<open>Spsc_Queue\<close>), from which a turn takes one command.

  \<^bold>\<open>How C++ is read.\<close> A class is a record with the names of its members, a method a function from the state
  to the new state, an enumeration a datatype. Integers are words of their width wherever they can wrap; positions
  and lengths that stay within a buffer or a file are natural numbers. The sessions of a server are visited in the order
  they were loaded, where the code walks an \<open>unordered_map\<close> of them.
  Strings are lists of characters; a \<open>FixStringView\<close> is the text it denotes. An operation that may be undefined
  (a read or write outside a buffer, a null pointer) or that may never return has an option as its result,
  and \<^term>\<open>None\<close> is that outcome. Pointers to sessions are names, pointers into the node cache of the
  dictionary are indices. What the host answers is an argument, collected in the records
  \<open>server_environment\<close> and \<open>client_environment\<close>: clock readings, results of \<open>send\<close>, \<open>recv\<close> and \<open>select\<close>, the
  choice of an iteration order where the code walks an \<open>unordered_map\<close>. Calls into the application (the
  callbacks and the persist plugin) and whatever reaches the wire are events of a trace.

  \<^bold>\<open>What is shown.\<close>

  \<^item> \<open>Server_Invariant\<close> states in the locale \<open>serving\<close> what the operations on one session do to the server, and
    proves once that all of them stay within a relation that allows just this. \<open>Server_Consistency\<close>
    interprets it twice, on the consistency of the tables and on the isolation of sessions;
    \<open>Server_Properties\<close> concludes for all reachable states. \<open>Outcome\<close> is the calculus for undefined outcomes.
  \<^item> \<open>Server_Behaviour\<close>: whom a Logon admits, the number and bytes of every message sent, and that nothing is
    delivered out of sequence.
  \<^item> \<open>Server_Start\<close>: what is loaded from a file, and that no two sessions ever use the same path (compared as text): the relation of
    \<open>serving\<close> also keeps the settings a session was loaded with. \<open>Reactor\<close>: the thread of a server that was
    created and loaded only takes steps of \<open>server_step\<close>, so that all of the above holds while it runs, and its last turn
    logs every session out.
  \<^item> \<open>Message_Delivery\<close>: the bytes of an encoded message, framed and scanned, reach the application of the peer in exactly
    one callback. \<open>Logon_Handshake\<close>: the client and the server together. The bytes of the client's Logon log the
    session of the server on, those of its answer the client's, and the numbers then agree.
  \<^item> \<open>Client_Invariant\<close>, \<open>Client_Properties\<close>: reachable states of the client, the end of a shutdown, the Logon
    of a connection, and what a closed socket does to a turn with an unlimited number of tries.
  \<^item> \<open>Wire_Exchange\<close>: what is encoded is scanned as the same fields, and the mirrored session accepts it.
    \<open>Parser_Invariant\<close>: what the scanner does on any bytes, over the list of their fields (\<open>cut_fields\<close>): where it stops, when it is
    undefined, and that it keeps the message well-formed.
  \<^item> \<open>Message_Serialiser\<close>, \<open>Outgoing_Message\<close>: the journal returns what was written, and a message loaded from
    it is replayed with the same content. \<open>Resend_Replay\<close>: the server's answer to a whole resend request, message by
    message, while the journal it reads from goes on being written.
  \<^item> \<open>Spsc_Queue\<close>: the interleaved queue refines a bounded first-in first-out queue (locale \<open>implements\<close>).
    \<open>Spinlock\<close>: mutual exclusion.
    \<open>Throttler\<close>, \<open>Hash_Dictionary\<close> (locale \<open>tag_table\<close>), \<open>Fix_String_View\<close>, \<open>Fix_Utilities\<close>, \<open>Converters\<close>, \<open>Fixed_Point\<close>,
    \<open>Clock\<close>: each against its reference (a window, a map, a grammar, the scalar checksum, decimal notation, the
    calendar).
  \<^item> \<open>Configuration\<close> and the settings theories: a printed file is loaded back as the same settings.
  \<^item> \<open>Management_Properties\<close>: segmentation of the bytes does not matter, commands only queue (locale \<open>administered\<close>),
    and a queued number is the one the session gets.

  \<^bold>\<open>Bounds and fuel.\<close> The walk along a hash chain has the number of nodes as its fuel, which bounds every chain
  of a well-formed table (\<open>path_find\<close>). The loops that replay or look for stored messages run over a 32-bit
  counter: after \<open>2 ^ 32\<close> rounds the counter has taken every value and the loop cannot end, so their
  second counter stops there with \<^term>\<open>None\<close>. The scanner and the loop over the messages of a buffer end
  because their index grows (\<open>rx_parsed_next\<close>, \<open>rx_message_next\<close>). The send loop, the wait for the Logout response and the
  blocking push are \<open>partial_function\<close>s: \<open>limited_send_ends\<close>, \<open>unlimited_send_ends\<close> and \<open>shutdown_ends\<close> prove when
  they return, \<open>closed_socket_turn_never_returns\<close> when not.

  \<^bold>\<open>Not modelled.\<close> The branches of other builds (dictionaries, binary fields, OpenSSL, TCPDirect, Windows); floating
  point (\<open>double_to_chars\<close> and what calls it); the wrappers of system calls under \<open>core/os\<close>, the allocator, the
  writing of log entries: they are the host's and their results are arguments here; the callbacks and the
  persist plugin, which the application implements; the start and join of threads, and data received
  on several reactor threads at once; \<open>src/tools\<close>, \<open>src/examples\<close>, \<open>src/benchmarks\<close> and \<open>src/tests\<close>, programs around the library.
\<close>

end
